(* ===== verification/Prelude.thy ===== *)
theory Prelude
  imports Complex_Main "HOL-Library.AList" "HOL-Library.Monad_Syntax"
begin

text \<open>
  Shared vocabulary of the development: Go's fixed-width integers with the wrap-around
  written out, Go maps as association lists with an explicit iteration order, map-backed
  sets, the parts of \<open>strings\<close> and \<open>strconv\<close> the operator calls, and
  the first-fit loop that the scheduler and the consolidation simulator share.

  A computation that may fail to return has type \<open>'a option\<close>, \<open>None\<close> meaning
  that the Go code does not return; a Go error is the left side of a sum.
\<close>

named_theorems gomap_simps \<open>lookup after an update of a Go map or set\<close>
named_theorems go_string_simps \<open>evaluation of the string routines\<close>

section \<open>Machine integers\<close>

text \<open>
  A Go \<open>int\<close> is 64 bits wide and an \<open>int32\<close> 32 bits; both are two's
  complement. Values are kept as \<^typ>\<open>int\<close> and every operation that can leave the
  range is wrapped by the conversion that the code performs.
\<close>

definition max_int64 :: int where
  "max_int64 = 9223372036854775807"

definition min_int64 :: int where
  "min_int64 = - 9223372036854775808"

definition max_int32 :: int where
  "max_int32 = 2147483647"

definition int32 :: "int \<Rightarrow> int" where
  "int32 x = (x + 2147483648) mod 4294967296 - 2147483648"

definition int64 :: "int \<Rightarrow> int" where
  "int64 x = (x + 9223372036854775808) mod 18446744073709551616 - 9223372036854775808"

definition is_int32 :: "int \<Rightarrow> bool" where
  "is_int32 x \<longleftrightarrow> - 2147483648 \<le> x \<and> x \<le> 2147483647"

definition is_int64 :: "int \<Rightarrow> bool" where
  "is_int64 x \<longleftrightarrow> min_int64 \<le> x \<and> x \<le> max_int64"

lemma int32_id [simp]: "is_int32 x \<Longrightarrow> int32 x = x"
  by (simp add: int32_def is_int32_def)

lemma is_int32_int32 [simp]: "is_int32 (int32 x)"
  by (simp add: int32_def is_int32_def)

lemma int64_id [simp]: "is_int64 x \<Longrightarrow> int64 x = x"
  by (simp add: int64_def is_int64_def min_int64_def max_int64_def)

lemma is_int64_int64 [simp]: "is_int64 (int64 x)"
  by (simp add: int64_def is_int64_def min_int64_def max_int64_def)

text \<open>Go's integer division truncates towards zero.\<close>

definition go_div :: "int \<Rightarrow> int \<Rightarrow> int" where
  "go_div a b = sgn a * sgn b * (\<bar>a\<bar> div \<bar>b\<bar>)"

lemma go_div_nonneg [simp]: "0 \<le> a \<Longrightarrow> 0 < b \<Longrightarrow> go_div a b = a div b"
  by (cases "a = 0") (simp_all add: go_div_def)

text \<open>
  \<open>time.Time\<close> is a number of nanoseconds since the zero instant, which is 0;
  \<open>time.Duration\<close> is an \<open>int64\<close> of nanoseconds, and \<open>Time.Sub\<close> saturates at its ends.
\<close>

definition time_sub :: "int \<Rightarrow> int \<Rightarrow> int" where
  "time_sub t u = max min_int64 (min max_int64 (t - u))"

definition time_is_zero :: "int \<Rightarrow> bool" where
  "time_is_zero t \<longleftrightarrow> t = 0"

definition Second :: int where
  "Second = 1000000000"

definition Minute :: int where
  "Minute = 60 * Second"

definition Hour :: int where
  "Hour = 60 * Minute"

lemma time_sub_ge_iff: "is_int64 d \<Longrightarrow> d \<le> time_sub t u \<longleftrightarrow> d \<le> t - u \<or> d = min_int64"
  by (auto simp: time_sub_def is_int64_def)

section \<open>Go maps\<close>

text \<open>
  A Go map is an association list with distinct keys. Its order stands for the order in
  which one \<open>range\<close> statement happens to visit the map; where the result of the code can
  depend on that order, the order is an argument (\<open>in_order\<close> below).
\<close>

type_synonym ('k, 'v) gomap = "('k \<times> 'v) list"

abbreviation mget :: "('k, 'v) gomap \<Rightarrow> 'k \<Rightarrow> 'v option" where
  "mget m k \<equiv> map_of m k"

abbreviation mput :: "'k \<Rightarrow> 'v \<Rightarrow> ('k, 'v) gomap \<Rightarrow> ('k, 'v) gomap" where
  "mput k v m \<equiv> AList.update k v m"

abbreviation mdel :: "'k \<Rightarrow> ('k, 'v) gomap \<Rightarrow> ('k, 'v) gomap" where
  "mdel k m \<equiv> AList.delete k m"

definition mhas :: "('k, 'v) gomap \<Rightarrow> 'k \<Rightarrow> bool" where
  "mhas m k \<longleftrightarrow> map_of m k \<noteq> None"

definition mkeys :: "('k, 'v) gomap \<Rightarrow> 'k set" where
  "mkeys m = fst ` set m"

definition wf_map :: "('k, 'v) gomap \<Rightarrow> bool" where
  "wf_map m \<longleftrightarrow> distinct (map fst m)"

text \<open>Reading a missing key of a Go map of strings gives the empty string.\<close>

definition mget_str :: "('k, string) gomap \<Rightarrow> 'k \<Rightarrow> string" where
  "mget_str m k = (case map_of m k of None \<Rightarrow> [] | Some v \<Rightarrow> v)"

lemma mget_mput [simp, gomap_simps]: "mget (mput k v m) x = (if x = k then Some v else mget m x)"
  by (simp add: update_conv')

lemma mget_mdel [simp, gomap_simps]: "mget (mdel k m) x = (if x = k then None else mget m x)"
  by (simp add: delete_conv')

lemma mhas_mkeys: "mhas m k \<longleftrightarrow> k \<in> mkeys m"
  by (simp add: mhas_def mkeys_def map_of_eq_None_iff)

lemma mkeys_iff: "k \<in> mkeys m \<longleftrightarrow> (\<exists>v. mget m k = Some v)"
  using mhas_mkeys [of m k] by (auto simp: mhas_def)

lemma mkeys_mput [simp, gomap_simps]: "mkeys (mput k v m) = insert k (mkeys m)"
  by (auto simp: mkeys_iff split: if_splits)

lemma mkeys_mdel [simp, gomap_simps]: "mkeys (mdel k m) = mkeys m - {k}"
  by (auto simp: mkeys_iff split: if_splits)

lemma mkeys_Nil [simp]: "mkeys [] = {}"
  by (simp add: mkeys_def)

lemma mkeys_eq_empty [simp]: "mkeys m = {} \<longleftrightarrow> m = []"
  by (simp add: mkeys_def)

lemma wf_map_Nil [simp]: "wf_map []"
  by (simp add: wf_map_def)

lemma wf_map_mput [simp, intro]: "wf_map m \<Longrightarrow> wf_map (mput k v m)"
  by (simp add: wf_map_def distinct_update)

lemma wf_map_mdel [simp, intro]: "wf_map m \<Longrightarrow> wf_map (mdel k m)"
  by (simp add: wf_map_def distinct_delete)

lemma wf_map_mget: "wf_map m \<Longrightarrow> (k, v) \<in> set m \<longleftrightarrow> mget m k = Some v"
  by (auto simp: wf_map_def)

lemma mget_in_set: "mget m k = Some v \<Longrightarrow> (k, v) \<in> set m"
  by (rule map_of_SomeD)

section \<open>Iteration order\<close>

text \<open>
  \<open>range\<close> over a map visits its entries in an unspecified order, which may differ from one
  statement to the next. An \<open>order\<close> gives, for a map of \<open>n\<close> entries, the positions in
  the order of the visit.
\<close>

type_synonym order = "nat \<Rightarrow> nat list"

definition is_order :: "order \<Rightarrow> bool" where
  "is_order ord \<longleftrightarrow> (\<forall>n. distinct (ord n) \<and> set (ord n) = {0..<n})"

definition in_order :: "order \<Rightarrow> 'a list \<Rightarrow> 'a list" where
  "in_order ord xs = map (\<lambda>i. xs ! i) (ord (length xs))"

definition list_order :: order where
  "list_order n = [0..<n]"

lemma is_order_list_order [simp]: "is_order list_order"
  by (simp add: is_order_def list_order_def)

lemma in_order_list_order [simp]: "in_order list_order xs = xs"
  by (simp add: in_order_def list_order_def map_nth)

lemma set_in_order [simp]: "is_order ord \<Longrightarrow> set (in_order ord xs) = set xs"
  unfolding in_order_def is_order_def by (metis list.set_map map_nth set_upt)

lemma length_in_order [simp]: "is_order ord \<Longrightarrow> length (in_order ord xs) = length xs"
  by (metis in_order_def is_order_def length_map distinct_card card_atLeastLessThan diff_zero)

lemma distinct_map_in_order:
  assumes "is_order ord" and "distinct (map f xs)"
  shows "distinct (map f (in_order ord xs))"
proof -
  have "inj_on (\<lambda>i. f (xs ! i)) (set (ord (length xs)))"
    using assms unfolding is_order_def inj_on_def
    by (metis atLeastLessThan_iff length_map nth_eq_iff_index_eq nth_map)
  then show ?thesis
    using assms(1) by (simp add: in_order_def distinct_map is_order_def comp_def)
qed

section \<open>Map-backed sets\<close>

text \<open>\<open>map[T]struct\<open>{}\<close>\<close>: a list without repetitions.\<close>

definition sput :: "'a \<Rightarrow> 'a list \<Rightarrow> 'a list" where
  "sput x s = (if x \<in> set s then s else s @ [x])"

abbreviation sdel :: "'a \<Rightarrow> 'a list \<Rightarrow> 'a list" where
  "sdel x s \<equiv> removeAll x s"

definition sput_all :: "'a list \<Rightarrow> 'a list \<Rightarrow> 'a list" where
  "sput_all xs s = foldl (\<lambda>s x. sput x s) s xs"

definition sdel_all :: "'a list \<Rightarrow> 'a list \<Rightarrow> 'a list" where
  "sdel_all xs s = foldl (\<lambda>s x. sdel x s) s xs"

lemma set_sput [simp, gomap_simps]: "set (sput x s) = insert x (set s)"
  by (auto simp: sput_def)

lemma distinct_sput [simp]: "distinct s \<Longrightarrow> distinct (sput x s)"
  by (simp add: sput_def)

lemma set_sput_all [simp, gomap_simps]: "set (sput_all xs s) = set xs \<union> set s"
  by (induction xs arbitrary: s) (auto simp: sput_all_def)

lemma distinct_sput_all [simp]: "distinct s \<Longrightarrow> distinct (sput_all xs s)"
  by (induction xs arbitrary: s) (auto simp: sput_all_def)

lemma set_sdel_all [simp, gomap_simps]: "set (sdel_all xs s) = set s - set xs"
  by (induction xs arbitrary: s) (auto simp: sdel_all_def)

lemma distinct_sdel_all [simp]: "distinct s \<Longrightarrow> distinct (sdel_all xs s)"
  by (induction xs arbitrary: s) (auto simp: sdel_all_def distinct_removeAll)

section \<open>Strings\<close>

text \<open>
  A Go string is a sequence of bytes, here a \<^typ>\<open>char list\<close>. \<open>strings.TrimSpace\<close> removes
  the characters of Unicode's White\_Space property at both ends; the list below holds the UTF-8
  encoding of each of them.
\<close>

definition unicode_spaces :: "string list" where
  "unicode_spaces =
     [[CHR 0x09], [CHR 0x0A], [CHR 0x0B], [CHR 0x0C], [CHR 0x0D], [CHR 0x20],
      [CHR 0xC2, CHR 0x85], [CHR 0xC2, CHR 0xA0], [CHR 0xE1, CHR 0x9A, CHR 0x80],
      [CHR 0xE2, CHR 0x80, CHR 0x80], [CHR 0xE2, CHR 0x80, CHR 0x81],
      [CHR 0xE2, CHR 0x80, CHR 0x82], [CHR 0xE2, CHR 0x80, CHR 0x83],
      [CHR 0xE2, CHR 0x80, CHR 0x84], [CHR 0xE2, CHR 0x80, CHR 0x85],
      [CHR 0xE2, CHR 0x80, CHR 0x86], [CHR 0xE2, CHR 0x80, CHR 0x87],
      [CHR 0xE2, CHR 0x80, CHR 0x88], [CHR 0xE2, CHR 0x80, CHR 0x89],
      [CHR 0xE2, CHR 0x80, CHR 0x8A], [CHR 0xE2, CHR 0x80, CHR 0xA8],
      [CHR 0xE2, CHR 0x80, CHR 0xA9], [CHR 0xE2, CHR 0x80, CHR 0xAF],
      [CHR 0xE2, CHR 0x81, CHR 0x9F], [CHR 0xE3, CHR 0x80, CHR 0x80]]"

fun strip_prefix :: "string \<Rightarrow> string \<Rightarrow> string option" where
  "strip_prefix [] s = Some s"
| "strip_prefix (c # cs) [] = None"
| "strip_prefix (c # cs) (d # ds) = (if c = d then strip_prefix cs ds else None)"

fun strip_any :: "string list \<Rightarrow> string \<Rightarrow> string option" where
  "strip_any [] s = None"
| "strip_any (p # ps) s =
     (case strip_prefix p s of None \<Rightarrow> strip_any ps s | Some r \<Rightarrow> Some r)"

lemma strip_prefix_append: "strip_prefix p s = Some r \<Longrightarrow> s = p @ r"
  by (induction p s rule: strip_prefix.induct) (auto split: if_splits)

lemma strip_any_shorter:
  "[] \<notin> set ps \<Longrightarrow> strip_any ps s = Some r \<Longrightarrow> length r < length s"
  by (induction ps) (auto split: option.splits dest!: strip_prefix_append)

text \<open>Trimming on the left; the fuel is the length of the string, which every step shortens.\<close>

fun trim_steps :: "nat \<Rightarrow> string list \<Rightarrow> string \<Rightarrow> string" where
  "trim_steps 0 ps s = s"
| "trim_steps (Suc n) ps s =
     (case strip_any ps s of None \<Rightarrow> s | Some r \<Rightarrow> trim_steps n ps r)"

definition TrimSpace :: "string \<Rightarrow> string" where
  "TrimSpace s =
     (let l = trim_steps (length s) unicode_spaces s
      in rev (trim_steps (length l) (map rev unicode_spaces) (rev l)))"

lemma trim_steps_enough:
  "[] \<notin> set ps \<Longrightarrow> length s \<le> n \<Longrightarrow> strip_any ps (trim_steps n ps s) = None"
proof (induction n arbitrary: s)
  case 0
  then show ?case by (cases "strip_any ps []") (auto dest: strip_any_shorter)
next
  case (Suc n)
  then show ?case
    by (auto split: option.splits dest: strip_any_shorter)
qed

text \<open>\<open>strings.Cut\<close> with a one-byte separator.\<close>

fun Cut :: "string \<Rightarrow> char \<Rightarrow> (string \<times> string) option" where
  "Cut [] sep = None"
| "Cut (c # cs) sep =
     (if c = sep then Some ([], cs)
      else (case Cut cs sep of None \<Rightarrow> None | Some (a, b) \<Rightarrow> Some (c # a, b)))"

lemma Cut_Some: "Cut s sep = Some (a, b) \<Longrightarrow> s = a @ sep # b \<and> sep \<notin> set a"
  by (induction s arbitrary: a b) (auto split: if_splits option.splits)

lemma Cut_None: "Cut s sep = None \<longleftrightarrow> sep \<notin> set s"
  by (induction s) (auto split: option.splits)

lemma Cut_append: "sep \<notin> set a \<Longrightarrow> Cut (a @ sep # b) sep = Some (a, b)"
  by (induction a) auto

text \<open>\<open>strings.CutSuffix\<close> with a one-byte suffix.\<close>

definition CutSuffix1 :: "string \<Rightarrow> char \<Rightarrow> string option" where
  "CutSuffix1 s c = (if s \<noteq> [] \<and> last s = c then Some (butlast s) else None)"

text \<open>
  \<open>strconv.Atoi\<close>: an optional sign and decimal digits; \<open>None\<close> where it reports a syntax
  or a range error.
\<close>

definition digit_val :: "char \<Rightarrow> nat option" where
  "digit_val c = (let k = of_char c in if 48 \<le> k \<and> k \<le> 57 then Some (k - 48) else None)"

fun digits_val :: "nat \<Rightarrow> string \<Rightarrow> nat option" where
  "digits_val acc [] = Some acc"
| "digits_val acc (c # cs) =
     (case digit_val c of None \<Rightarrow> None | Some d \<Rightarrow> digits_val (10 * acc + d) cs)"

definition unsigned_val :: "string \<Rightarrow> nat option" where
  "unsigned_val s = (if s = [] then None else digits_val 0 s)"

definition Atoi :: "string \<Rightarrow> int option" where
  "Atoi s =
     (let v = (case s of
                 [] \<Rightarrow> None
               | c # cs \<Rightarrow>
                   if c = CHR ''-'' then map_option (\<lambda>n. - int n) (unsigned_val cs)
                   else if c = CHR ''+'' then map_option int (unsigned_val cs)
                   else map_option int (unsigned_val s))
      in case v of None \<Rightarrow> None | Some n \<Rightarrow> if is_int64 n then Some n else None)"

lemma Atoi_is_int64: "Atoi s = Some n \<Longrightarrow> is_int64 n"
  by (auto simp: Atoi_def Let_def split: option.splits if_splits)

lemma Atoi_Nil [simp]: "Atoi [] = None"
  by (simp add: Atoi_def)

text \<open>\<open>strconv.Itoa\<close>.\<close>

definition digit_char :: "nat \<Rightarrow> char" where
  "digit_char d = char_of (48 + d)"

fun nat_string :: "nat \<Rightarrow> string" where
  "nat_string n = (if n < 10 then [digit_char n] else nat_string (n div 10) @ [digit_char (n mod 10)])"

declare nat_string.simps [simp del]

definition Itoa :: "int \<Rightarrow> string" where
  "Itoa n = (if n < 0 then CHR ''-'' # nat_string (nat (- n)) else nat_string (nat n))"

lemma digit_val_digit_char: "d < 10 \<Longrightarrow> digit_val (digit_char d) = Some d"
  by (simp add: digit_val_def digit_char_def)

lemma digits_val_append:
  "digits_val acc (s @ t) = (case digits_val acc s of None \<Rightarrow> None | Some m \<Rightarrow> digits_val m t)"
  by (induction s arbitrary: acc) (auto split: option.splits)

lemma digits_val_nat_string: "digits_val 0 (nat_string n) = Some n"
proof (induction n rule: nat_string.induct)
  case (1 n)
  then show ?case
    by (subst nat_string.simps) (auto simp: digits_val_append digit_val_digit_char)
qed

lemma nat_string_ne: "nat_string n \<noteq> []"
  by (subst nat_string.simps) simp

lemma hd_nat_string: "\<exists>d < 10. hd (nat_string n) = digit_char d"
proof (induction n rule: nat_string.induct)
  case (1 n)
  then show ?case
    by (subst nat_string.simps) (auto simp: nat_string_ne)
qed

lemma digit_char_not_sign: "d < 10 \<Longrightarrow> digit_char d \<noteq> CHR ''-'' \<and> digit_char d \<noteq> CHR ''+''"
  by (auto simp: digit_char_def dest!: arg_cong [where f = "of_char :: char \<Rightarrow> nat"])

lemma Atoi_Itoa: "is_int64 n \<Longrightarrow> Atoi (Itoa n) = Some n"
proof -
  assume n: "is_int64 n"
  obtain c cs where c: "nat_string (nat n) = c # cs"
    using nat_string_ne by (cases "nat_string (nat n)") auto
  have "c \<noteq> CHR ''-'' \<and> c \<noteq> CHR ''+''"
    using hd_nat_string [of "nat n"] digit_char_not_sign c by auto
  then show ?thesis
    using n c digits_val_nat_string [of "nat n"]
    by (auto simp: Atoi_def Itoa_def unsigned_val_def digits_val_nat_string nat_string_ne)
qed

section \<open>First fit\<close>

text \<open>
  The loop shared by \<open>Scheduler.addToExistingExit\<close>, \<open>Scheduler.addToInflightClaim\<close> and
  \<open>Simulator.CanRepack\<close>: the first bin whose \<open>CanAdd\<close> reports no error takes the item.
  The result is the list of bins after the loop and, when a bin took the item, that bin (as it was
  found) with what \<open>CanAdd\<close> returned.
\<close>

fun first_fit ::
  "('b \<Rightarrow> 't \<Rightarrow> ('e + 'p) option) \<Rightarrow> ('b \<Rightarrow> 't \<Rightarrow> 'p \<Rightarrow> 'b) \<Rightarrow> 'b list \<Rightarrow> 't \<Rightarrow>
     ('b list \<times> ('b \<times> 'p) option) option" where
  "first_fit can_add add [] t = Some ([], None)"
| "first_fit can_add add (b # bs) t =
     (case can_add b t of
        None \<Rightarrow> None
      | Some (Inl e) \<Rightarrow>
          (case first_fit can_add add bs t of
             None \<Rightarrow> None
           | Some (bs', r) \<Rightarrow> Some (b # bs', r))
      | Some (Inr p) \<Rightarrow> Some (add b t p # bs, Some (b, p)))"

lemma first_fit_NoneD:
  "first_fit can_add add bs t = Some (bs', None) \<Longrightarrow>
     bs' = bs \<and> (\<forall>b \<in> set bs. \<exists>e. can_add b t = Some (Inl e))"
  by (induction bs arbitrary: bs') (auto split: option.splits sum.splits)

lemma first_fit_skip:
  "(\<forall>x \<in> set xs. \<exists>e. can_add x t = Some (Inl e)) \<Longrightarrow>
     first_fit can_add add (xs @ ys) t =
       (case first_fit can_add add ys t of None \<Rightarrow> None | Some (ys', r) \<Rightarrow> Some (xs @ ys', r))"
  by (induction xs) (auto split: option.splits)

lemma first_fit_None:
  "first_fit can_add add bs t = Some (bs', None) \<longleftrightarrow>
     bs' = bs \<and> (\<forall>b \<in> set bs. \<exists>e. can_add b t = Some (Inl e))"
  using first_fit_NoneD [of can_add add bs t bs'] first_fit_skip [of bs can_add t add "[]"] by auto

lemma first_fit_SomeD:
  assumes "first_fit can_add add bs t = Some (bs', Some (b, p))"
  obtains xs ys where "bs = xs @ b # ys" and "bs' = xs @ add b t p # ys"
    and "can_add b t = Some (Inr p)" and "\<forall>x \<in> set xs. \<exists>e. can_add x t = Some (Inl e)"
  using assms
proof (induction bs arbitrary: bs' thesis)
  case Nil
  then show ?case by simp
next
  case (Cons a bs)
  from Cons.prems(2) consider (here) "can_add a t = Some (Inr p)" "b = a" "bs' = add a t p # bs"
    | (later) e bs'' where "can_add a t = Some (Inl e)" "bs' = a # bs''"
        "first_fit can_add add bs t = Some (bs'', Some (b, p))"
    by (auto split: option.splits sum.splits)
  then show ?case
  proof cases
    case here
    then show ?thesis using Cons.prems(1) [of "[]" bs] by simp
  next
    case later
    then obtain xs ys where "bs = xs @ b # ys" "bs'' = xs @ add b t p # ys"
      "can_add b t = Some (Inr p)" "\<forall>x \<in> set xs. \<exists>e. can_add x t = Some (Inl e)"
      by (metis Cons.IH)
    with later show ?thesis using Cons.prems(1) [of "a # xs" ys] by auto
  qed
qed

lemma first_fit_returns:
  "(\<And>b. b \<in> set bs \<Longrightarrow> can_add b t \<noteq> None) \<Longrightarrow> first_fit can_add add bs t \<noteq> None"
proof (induction bs)
  case Nil
  then show ?case by simp
next
  case (Cons b bs)
  from Cons.prems have "can_add b t \<noteq> None" by simp
  moreover have "first_fit can_add add bs t \<noteq> None"
    using Cons by simp
  ultimately show ?case by (auto split: sum.splits)
qed

end
