(* ===== verification/Api.thy ===== *)
theory Api
  imports Prelude
begin

text \<open>
  The API types of \<open>api/v1alpha1\<close>: the objects the controllers read and write, with the fields
  of the source. A pointer that the code tests for \<open>nil\<close> is an \<open>option\<close>; a nil map or
  slice reads like an empty one and is the empty list. A \<open>resource.Quantity\<close> is the integer number
  of nano-units it denotes (the finest scale the type has), so \<open>Cmp\<close>, \<open>Add\<close> and \<open>Sub\<close> are
  integer comparison, addition and subtraction.
\<close>

section \<open>Labels, annotations, condition types and reasons\<close>

definition Group :: string where
  "Group = ''frp.operator.io''"

definition LabelExitPool :: string where
  "LabelExitPool = Group @ ''/exitpool''"

definition RequirementInstanceType :: string where
  "RequirementInstanceType = ''node.kubernetes.io/instance-type''"

definition RequirementRegion :: string where
  "RequirementRegion = ''topology.kubernetes.io/region''"

definition AnnotationDoNotDisrupt :: string where
  "AnnotationDoNotDisrupt = Group @ ''/do-not-disrupt''"

definition AnnotationPoolHash :: string where
  "AnnotationPoolHash = Group @ ''/pool-hash''"

definition AnnotationProviderClassHash :: string where
  "AnnotationProviderClassHash = Group @ ''/providerclass-hash''"

definition TerminationFinalizer :: string where
  "TerminationFinalizer = Group @ ''/termination''"

definition ResourceExits :: string where
  "ResourceExits = Group @ ''/exits''"

definition ResourceBandwidthMbps :: string where
  "ResourceBandwidthMbps = Group @ ''/bandwidthMbps''"

definition ConditionTypeLaunched :: string where
  "ConditionTypeLaunched = ''Launched''"

definition ConditionTypeRegistered :: string where
  "ConditionTypeRegistered = ''Registered''"

definition ConditionTypeInitialized :: string where
  "ConditionTypeInitialized = ''Initialized''"

definition ConditionTypeReady :: string where
  "ConditionTypeReady = ''Ready''"

definition ConditionTypeEmpty :: string where
  "ConditionTypeEmpty = ''Empty''"

definition ConditionTypeDisrupted :: string where
  "ConditionTypeDisrupted = ''Disrupted''"

lemmas condition_type_defs = ConditionTypeLaunched_def ConditionTypeRegistered_def
  ConditionTypeInitialized_def ConditionTypeReady_def ConditionTypeEmpty_def
  ConditionTypeDisrupted_def

definition ReasonProvisioned :: string where
  "ReasonProvisioned = ''Provisioned''"

definition ReasonRegistrationTimeout :: string where
  "ReasonRegistrationTimeout = ''RegistrationTimeout''"

definition ReasonAdminAPIUnreachable :: string where
  "ReasonAdminAPIUnreachable = ''AdminAPIUnreachable''"

definition ReasonProviderError :: string where
  "ReasonProviderError = ''ProviderError''"

definition ReasonNotReady :: string where
  "ReasonNotReady = ''NotReady''"

definition ReasonReconciled :: string where
  "ReasonReconciled = ''Reconciled''"

section \<open>Shared types\<close>

type_synonym ResourceList = "(string, int) gomap"

record ProviderClassRef =
  refGroup :: string
  refKind :: string
  refName :: string

text \<open>A requirement's operator is a string in the code; any other string is \<open>OpOther\<close>.\<close>

datatype NodeSelectorOperator =
  OpIn | OpNotIn | OpExists | OpDoesNotExist | OpGt | OpLt | OpOther string

record Requirement =
  Key :: string
  Operator :: NodeSelectorOperator
  Values :: "string list"
  MinValues :: "int option"

record SecretKeyRef =
  secretName :: string
  secretKey :: string

record FrpsAuthConfig =
  AuthMethod :: string
  TokenSecretRef :: "SecretKeyRef option"

record FrpsTLSConfig =
  Force :: bool
  CertSecret :: "SecretKeyRef option"
  KeySecret :: "SecretKeyRef option"
  CASecret :: "SecretKeyRef option"

record FrpsConfig =
  Version :: string
  BindPort :: int
  AdminPort :: int
  VhostHTTPPort :: "int option"
  VhostHTTPSPort :: "int option"
  KCPBindPort :: "int option"
  QUICBindPort :: "int option"
  AllowPorts :: "string list"
  ReservedPorts :: "int list"
  Auth :: FrpsAuthConfig
  TLS :: "FrpsTLSConfig option"

datatype ConditionStatus = ConditionTrue | ConditionFalse | ConditionUnknown

record Condition =
  Type :: string
  Status :: ConditionStatus
  Reason :: string
  Message :: string
  LastTransitionTime :: int
  ObservedGeneration :: int

text \<open>\<open>metav1.ObjectMeta\<close>, the part the operator reads; the three kinds embed it.\<close>

record ObjectMeta =
  Name :: string
  GenerateName :: string
  Namespace :: string
  UID :: string
  Generation :: int
  CreationTimestamp :: int
  DeletionTimestamp :: "int option"
  Labels :: "(string, string) gomap"
  Annotations :: "(string, string) gomap"
  Finalizers :: "string list"

section \<open>ExitClaim\<close>

record ExitClaimSpec =
  ProviderClassRef :: ProviderClassRef
  Requirements :: "Requirement list"
  Frps :: FrpsConfig
  Requests :: ResourceList
  ExpireAfter :: int
  TerminationGracePeriod :: "int option"

record ExitClaimStatus =
  ProviderID :: string
  PublicIP :: string
  ExitName :: string
  ImageID :: string
  FrpsVersion :: string
  Capacity :: ResourceList
  Allocatable :: ResourceList
  Conditions :: "Condition list"

record ExitClaim = ObjectMeta +
  cSpec :: ExitClaimSpec
  cStatus :: ExitClaimStatus

section \<open>ExitPool\<close>

record ExitClaimTemplateSpec =
  tmplProviderClassRef :: ProviderClassRef
  tmplRequirements :: "Requirement list"
  tmplFrps :: FrpsConfig
  tmplExpireAfter :: int
  tmplTerminationGracePeriod :: "int option"

record ExitClaimTemplate =
  tmplLabels :: "(string, string) gomap"
  tmplAnnotations :: "(string, string) gomap"
  tmplSpec :: ExitClaimTemplateSpec

type_synonym DisruptionReason = string

definition DisruptionReasonEmpty :: DisruptionReason where
  "DisruptionReasonEmpty = ''Empty''"

definition DisruptionReasonDrifted :: DisruptionReason where
  "DisruptionReasonDrifted = ''Drifted''"

definition DisruptionReasonExpired :: DisruptionReason where
  "DisruptionReasonExpired = ''Expired''"

definition DisruptionReasonUnderutilized :: DisruptionReason where
  "DisruptionReasonUnderutilized = ''Underutilized''"

lemmas disruption_reason_defs = DisruptionReasonEmpty_def DisruptionReasonDrifted_def
  DisruptionReasonExpired_def DisruptionReasonUnderutilized_def

record DisruptionBudget =
  Nodes :: string
  Schedule :: string
  BudgetDuration :: "int option"
  Reasons :: "DisruptionReason list"

definition ConsolidationWhenEmptyOrUnderutilized :: string where
  "ConsolidationWhenEmptyOrUnderutilized = ''WhenEmptyOrUnderutilized''"

record Disruption =
  ConsolidationPolicy :: string
  ConsolidateAfter :: int
  Budgets :: "DisruptionBudget list"

record ExitPoolSpec =
  Template :: ExitClaimTemplate
  PoolDisruption :: Disruption
  Limits :: ResourceList
  Weight :: "int option"
  Replicas :: "int option"

record ExitPoolStatus =
  pConditions :: "Condition list"
  pExits :: int
  pResources :: ResourceList

record ExitPool = ObjectMeta +
  pSpec :: ExitPoolSpec
  pStatus :: ExitPoolStatus

section \<open>Tunnel\<close>

record TunnelPort =
  PortName :: string
  PublicPort :: "int option"
  ServicePort :: int
  Protocol :: string

record TunnelSpec =
  Ports :: "TunnelPort list"
  tRequirements :: "Requirement list"
  ExitClaimRef :: "string option"
  tRequests :: ResourceList

definition TunnelPhasePending :: string where
  "TunnelPhasePending = ''''"

definition TunnelPhaseAllocating :: string where
  "TunnelPhaseAllocating = ''Allocating''"

definition TunnelPhaseProvisioning :: string where
  "TunnelPhaseProvisioning = ''Provisioning''"

definition TunnelPhaseReady :: string where
  "TunnelPhaseReady = ''Ready''"

lemmas tunnel_phase_defs = TunnelPhasePending_def TunnelPhaseAllocating_def
  TunnelPhaseProvisioning_def TunnelPhaseReady_def

record TunnelStatus =
  Phase :: string
  AssignedExit :: string
  AssignedIP :: string
  AssignedPorts :: "int list"
  tConditions :: "Condition list"

record Tunnel = ObjectMeta +
  tSpec :: TunnelSpec
  tStatus :: TunnelStatus

text \<open>The abbreviations below follow the field paths of the source, \<open>t.Spec.Ports\<close> and so on.\<close>

abbreviation tunnel_ports :: "Tunnel \<Rightarrow> TunnelPort list" where
  "tunnel_ports t \<equiv> Ports (tSpec t)"

abbreviation tunnel_reqs :: "Tunnel \<Rightarrow> Requirement list" where
  "tunnel_reqs t \<equiv> tRequirements (tSpec t)"

abbreviation tunnel_requests :: "Tunnel \<Rightarrow> ResourceList" where
  "tunnel_requests t \<equiv> tRequests (tSpec t)"

abbreviation claim_conds :: "ExitClaim \<Rightarrow> Condition list" where
  "claim_conds c \<equiv> Conditions (cStatus c)"

abbreviation pool_tmpl :: "ExitPool \<Rightarrow> ExitClaimTemplateSpec" where
  "pool_tmpl p \<equiv> tmplSpec (Template (pSpec p))"

section \<open>API errors\<close>

text \<open>
  The errors of the API server that the code distinguishes with \<open>apierrors.IsNotFound\<close>,
  \<open>IsConflict\<close> and \<open>IsAlreadyExists\<close>; any other one is \<open>APIOther\<close>.
\<close>

datatype apierror = NotFound | Conflict | AlreadyExists | APIOther string

end
