(* ===== verification/Resources.thy ===== *)
theory Resources
  imports Api
begin

text \<open>
  \<open>pkg/controllers/provisioning/scheduling/resources.go\<close>: arithmetic on resource lists. A
  dimension that a list does not mention is unbounded for \<open>ResourcesFit\<close> and absent from
  \<open>Subtract\<close> and \<open>Sum\<close>. The lemmas give the value of every dimension of a result.
\<close>

fun ResourcesFit :: "ResourceList \<Rightarrow> ResourceList \<Rightarrow> bool" where
  "ResourcesFit available [] = True"
| "ResourcesFit available ((k, req) # requested) =
     (case mget available k of
        None \<Rightarrow> ResourcesFit available requested
      | Some avail \<Rightarrow> if avail < req then False else ResourcesFit available requested)"

fun subtract_loop :: "ResourceList \<Rightarrow> ResourceList \<Rightarrow> ResourceList \<Rightarrow> ResourceList" where
  "subtract_loop [] requested out = out"
| "subtract_loop ((k, v) # available) requested out =
     subtract_loop available requested
       (mput k (case mget requested k of None \<Rightarrow> v | Some r \<Rightarrow> v - r) out)"

definition Subtract :: "ResourceList \<Rightarrow> ResourceList \<Rightarrow> ResourceList" where
  "Subtract available requested = subtract_loop available requested []"

fun sum_list_into :: "ResourceList \<Rightarrow> ResourceList \<Rightarrow> ResourceList" where
  "sum_list_into [] out = out"
| "sum_list_into ((k, v) # l) out =
     sum_list_into l (case mget out k of None \<Rightarrow> mput k v out | Some cur \<Rightarrow> mput k (cur + v) out)"

fun sum_lists_into :: "ResourceList list \<Rightarrow> ResourceList \<Rightarrow> ResourceList" where
  "sum_lists_into [] out = out"
| "sum_lists_into (l # ls) out = sum_lists_into ls (sum_list_into l out)"

definition Sum :: "ResourceList list \<Rightarrow> ResourceList" where
  "Sum ls = sum_lists_into ls []"

section \<open>Values per dimension\<close>

definition rget :: "ResourceList \<Rightarrow> string \<Rightarrow> int" where
  "rget l k = (case mget l k of None \<Rightarrow> 0 | Some v \<Rightarrow> v)"

lemma rget_Nil [simp]: "rget [] k = 0"
  by (simp add: rget_def)

lemma rget_mput [simp]: "rget (mput k v l) x = (if x = k then v else rget l x)"
  by (simp add: rget_def)

lemma wf_map_Cons: "wf_map ((k, v) # l) \<longleftrightarrow> wf_map l \<and> k \<notin> mkeys l"
  by (auto simp: wf_map_def mkeys_def image_iff)

lemma mkeys_Cons: "mkeys ((k, v) # l) = insert k (mkeys l)"
  by (simp add: mkeys_def)

lemma rget_Cons: "rget ((k, v) # l) x = (if x = k then v else rget l x)"
  by (simp add: rget_def)

lemma rget_notin: "x \<notin> mkeys l \<Longrightarrow> rget l x = 0"
  by (auto simp: rget_def mkeys_iff split: option.splits)

lemma ResourcesFit_iff:
  "wf_map requested \<Longrightarrow> ResourcesFit available requested \<longleftrightarrow>
     (\<forall>k a r. mget available k = Some a \<longrightarrow> mget requested k = Some r \<longrightarrow> r \<le> a)"
proof (induction available requested rule: ResourcesFit.induct)
  case (1 available)
  then show ?case by simp
next
  case (2 available k req requested)
  then have nk: "mget requested x = Some r \<Longrightarrow> x \<noteq> k" and "wf_map requested" for x r
    by (auto simp: wf_map_Cons mkeys_iff)
  with 2 show ?case
    by (cases "mget available k") (simp_all, (metis nk option.inject)+)
qed

lemma ResourcesFitD:
  "ResourcesFit available requested \<Longrightarrow> wf_map requested \<Longrightarrow> k \<in> mkeys available \<Longrightarrow>
     k \<in> mkeys requested \<Longrightarrow> rget requested k \<le> rget available k"
  by (auto simp: ResourcesFit_iff mkeys_iff rget_def)

lemma mget_subtract_loop:
  "wf_map available \<Longrightarrow> mget (subtract_loop available requested out) x =
     (case mget available x of None \<Rightarrow> mget out x | Some v \<Rightarrow> Some (v - rget requested x))"
  by (induction available requested out rule: subtract_loop.induct)
    (auto simp: wf_map_Cons rget_def mkeys_iff split: option.splits)

lemma mget_Subtract:
  "wf_map available \<Longrightarrow>
     mget (Subtract available requested) x = map_option (\<lambda>v. v - rget requested x) (mget available x)"
  by (simp add: Subtract_def mget_subtract_loop split: option.splits)

lemma mkeys_Subtract [simp]: "wf_map available \<Longrightarrow> mkeys (Subtract available requested) = mkeys available"
  by (auto simp: mkeys_iff mget_Subtract)

lemma rget_Subtract:
  "wf_map available \<Longrightarrow> x \<in> mkeys available \<Longrightarrow>
     rget (Subtract available requested) x = rget available x - rget requested x"
  by (auto simp: rget_def mget_Subtract mkeys_iff)

lemma rget_sum_list_into: "wf_map l \<Longrightarrow> rget (sum_list_into l out) x = rget out x + rget l x"
  by (induction l out rule: sum_list_into.induct)
    (auto simp: wf_map_Cons rget_def mkeys_iff split: option.splits)

lemma mkeys_sum_list_into [simp]: "mkeys (sum_list_into l out) = mkeys l \<union> mkeys out"
proof (induction l out rule: sum_list_into.induct)
  case (2 k v l out)
  then show ?case
    by (cases "mget out k") (auto simp: mkeys_Cons)
qed simp

lemma wf_sum_list_into: "wf_map out \<Longrightarrow> wf_map (sum_list_into l out)"
  by (induction l out rule: sum_list_into.induct) (auto split: option.splits)

lemma rget_sum_lists_into:
  "\<forall>l \<in> set ls. wf_map l \<Longrightarrow> rget (sum_lists_into ls out) x = rget out x + (\<Sum>l\<leftarrow>ls. rget l x)"
  by (induction ls out rule: sum_lists_into.induct) (auto simp: rget_sum_list_into)

lemma rget_Sum: "\<forall>l \<in> set ls. wf_map l \<Longrightarrow> rget (Sum ls) x = (\<Sum>l\<leftarrow>ls. rget l x)"
  by (simp add: Sum_def rget_sum_lists_into)

lemma wf_Sum: "wf_map (Sum ls)"
proof -
  have "wf_map out \<Longrightarrow> wf_map (sum_lists_into ls out)" for out
    by (induction ls out rule: sum_lists_into.induct) (auto simp: wf_sum_list_into)
  then show ?thesis by (simp add: Sum_def)
qed

text \<open>
  What fits after \<open>Sum\<close> has been taken off can be added to the sum without passing the capacity,
  on every dimension the capacity bounds.
\<close>

lemma fit_after_subtract:
  assumes "wf_map avail" and "wf_map req" and "\<forall>l \<in> set ls. wf_map l"
    and "ResourcesFit (Subtract avail (Sum ls)) req"
    and "k \<in> mkeys avail" and "k \<in> mkeys req"
  shows "(\<Sum>l\<leftarrow>ls. rget l k) + rget req k \<le> rget avail k"
  using assms ResourcesFitD [of "Subtract avail (Sum ls)" req k] by (simp add: rget_Subtract rget_Sum)

end
