(* ===== verification/State.thy ===== *)
theory State
  imports Api Resources
begin

text \<open>
  \<open>pkg/controllers/state\<close>: the in-memory cluster that every decision is taken on. The state is
  the record \<open>Cluster\<close>; every method that takes the lock is one definition, so that the methods
  are atomic steps. \<open>cluster_ok\<close> is the well-formedness invariant, \<open>reachable\<close> the states
  that informer events lead to, and \<open>view_of\<close> the abstract contents of the cache.
\<close>

section \<open>Exits, pools and bindings\<close>

type_synonym TunnelKey = string

record StateExit =
  seClaim :: "ExitClaim option"
  Allocations :: "(int, TunnelKey) gomap"
  MarkedForDeletion :: bool
  Nominated :: bool
  DisruptionCost :: rat

record StatePool =
  spPool :: "ExitPool option"
  spResources :: ResourceList
  spExits :: int

record TunnelBinding =
  BoundTunnelKey :: TunnelKey
  BoundExit :: string
  BoundPorts :: "int list"

fun subtract_present :: "ResourceList \<Rightarrow> ResourceList \<Rightarrow> ResourceList" where
  "subtract_present [] out = out"
| "subtract_present ((k, v) # req) out =
     subtract_present req (case mget out k of None \<Rightarrow> out | Some cur \<Rightarrow> mput k (cur - v) out)"

definition Available :: "StateExit \<Rightarrow> ResourceList list \<Rightarrow> ResourceList" where
  "Available s boundTunnelRequests =
     (case seClaim s of
        None \<Rightarrow> []
      | Some c \<Rightarrow> foldl (\<lambda>out req. subtract_present req out) (Allocatable (cStatus c)) boundTunnelRequests)"

definition UsedPorts :: "StateExit \<Rightarrow> int list" where
  "UsedPorts s = map fst (Allocations s)"

definition PortHolder :: "StateExit \<Rightarrow> int \<Rightarrow> TunnelKey" where
  "PortHolder s p = mget_str (Allocations s) p"

definition se_IsEmpty :: "StateExit \<Rightarrow> bool" where
  "se_IsEmpty s \<longleftrightarrow> Allocations s = []"

definition SnapshotForRead :: "StateExit \<Rightarrow> (ExitClaim \<times> (int, TunnelKey) gomap) option" where
  "SnapshotForRead s = (case seClaim s of None \<Rightarrow> None | Some c \<Rightarrow> Some (c, Allocations s))"

definition setResources :: "ResourceList \<Rightarrow> int \<Rightarrow> StatePool \<Rightarrow> StatePool" where
  "setResources resources exits p = p\<lparr>spResources := resources, spExits := exits\<rparr>"

definition Snapshot :: "StatePool \<Rightarrow> ExitPool option" where
  "Snapshot p = spPool p"

definition SnapshotResources :: "StatePool \<Rightarrow> ResourceList \<times> int" where
  "SnapshotResources p = (spResources p, spExits p)"

section \<open>The cluster\<close>

text \<open>
  The two trigger fields say whether a callback is wired; a method returns the callbacks it fires,
  in order, after it has released the lock.
\<close>

datatype trigger = ProvisionerTrigger | DisruptionTrigger

record Cluster =
  exits :: "(string, StateExit) gomap"
  nameToProviderID :: "(string, string) gomap"
  pendingClaims :: "(string, ExitClaim) gomap"
  pools :: "(string, StatePool) gomap"
  bindings :: "(TunnelKey, TunnelBinding) gomap"
  clusterState :: int
  provisionerTrigger :: bool
  disruptionTrigger :: bool

definition NewCluster :: Cluster where
  "NewCluster = \<lparr>exits = [], nameToProviderID = [], pendingClaims = [], pools = [], bindings = [],
     clusterState = 0, provisionerTrigger = False, disruptionTrigger = False\<rparr>"

definition SetTriggers :: "bool \<Rightarrow> bool \<Rightarrow> Cluster \<Rightarrow> Cluster" where
  "SetTriggers provisioner disruption c =
     c\<lparr>provisionerTrigger := provisioner, disruptionTrigger := disruption\<rparr>"

definition fireTriggers :: "bool \<times> bool \<Rightarrow> trigger list" where
  "fireTriggers pd =
     (if fst pd then [ProvisionerTrigger] else []) @ (if snd pd then [DisruptionTrigger] else [])"

definition bumpAndCollectTriggers :: "int \<Rightarrow> Cluster \<Rightarrow> Cluster \<times> bool \<times> bool" where
  "bumpAndCollectTriggers now c =
     (c\<lparr>clusterState := now\<rparr>, (provisionerTrigger c, disruptionTrigger c))"

definition bump :: "int \<Rightarrow> Cluster \<Rightarrow> Cluster \<times> trigger list" where
  "bump now c = (let (c', pd) = bumpAndCollectTriggers now c in (c', fireTriggers pd))"

text \<open>The \<open>range\<close> over the bindings: a later binding of a port overwrites an earlier one.\<close>

definition put_ports :: "TunnelKey \<Rightarrow> int list \<Rightarrow> (int, TunnelKey) gomap \<Rightarrow> (int, TunnelKey) gomap" where
  "put_ports k ps allocs = foldl (\<lambda>a p. mput p k a) allocs ps"

fun derive_allocs ::
  "string \<Rightarrow> (TunnelKey \<times> TunnelBinding) list \<Rightarrow> (int, TunnelKey) gomap \<Rightarrow> (int, TunnelKey) gomap" where
  "derive_allocs exitName [] allocs = allocs"
| "derive_allocs exitName ((k, b) # bs) allocs =
     (if BoundExit b \<noteq> exitName then derive_allocs exitName bs allocs
      else derive_allocs exitName bs (put_ports k (BoundPorts b) allocs))"

definition recomputeAllocations :: "order \<Rightarrow> string \<Rightarrow> Cluster \<Rightarrow> Cluster" where
  "recomputeAllocations ord exitName c =
     (case mget (nameToProviderID c) exitName of
        None \<Rightarrow> c
      | Some pid \<Rightarrow>
          (case mget (exits c) pid of
             None \<Rightarrow> c
           | Some se \<Rightarrow>
               c\<lparr>exits := mput pid
                   (se\<lparr>Allocations := derive_allocs exitName (in_order ord (bindings c)) []\<rparr>) (exits c)\<rparr>))"

definition empty_exit :: StateExit where
  "empty_exit = \<lparr>seClaim = None, Allocations = [], MarkedForDeletion = False, Nominated = False,
     DisruptionCost = 0\<rparr>"

definition UpdateExit :: "int \<Rightarrow> order \<Rightarrow> ExitClaim \<Rightarrow> Cluster \<Rightarrow> Cluster \<times> trigger list" where
  "UpdateExit now ord claim c =
     (let pid = ProviderID (cStatus claim) in
      if pid = [] then
        bump now (c\<lparr>nameToProviderID := mput (Name claim) [] (nameToProviderID c),
                   pendingClaims := mput (Name claim) claim (pendingClaims c)\<rparr>)
      else
        let c = c\<lparr>pendingClaims := mdel (Name claim) (pendingClaims c)\<rparr>;
            c = (case mget (nameToProviderID c) (Name claim) of
                   Some oldID \<Rightarrow>
                     if oldID \<noteq> [] \<and> oldID \<noteq> pid then c\<lparr>exits := mdel oldID (exits c)\<rparr> else c
                 | None \<Rightarrow> c);
            se = (case mget (exits c) pid of None \<Rightarrow> empty_exit | Some se \<Rightarrow> se);
            c = c\<lparr>exits := mput pid (se\<lparr>seClaim := Some claim\<rparr>) (exits c)\<rparr>;
            c = c\<lparr>nameToProviderID := mput (Name claim) pid (nameToProviderID c)\<rparr>
        in bump now (recomputeAllocations ord (Name claim) c))"

definition DeleteExit :: "int \<Rightarrow> string \<Rightarrow> Cluster \<Rightarrow> Cluster \<times> trigger list" where
  "DeleteExit now name c =
     (case mget (nameToProviderID c) name of
        None \<Rightarrow>
          if mhas (pendingClaims c) name then
            bump now (c\<lparr>pendingClaims := mdel name (pendingClaims c)\<rparr>)
          else (c, [])
      | Some pid \<Rightarrow>
          bump now (c\<lparr>exits := mdel pid (exits c),
                     nameToProviderID := mdel name (nameToProviderID c),
                     pendingClaims := mdel name (pendingClaims c)\<rparr>))"

definition ExitForProviderID :: "Cluster \<Rightarrow> string \<Rightarrow> StateExit option" where
  "ExitForProviderID c pid = mget (exits c) pid"

definition ExitForName :: "Cluster \<Rightarrow> string \<Rightarrow> StateExit option" where
  "ExitForName c name =
     (case mget (nameToProviderID c) name of None \<Rightarrow> None | Some pid \<Rightarrow> mget (exits c) pid)"

definition PendingClaims :: "order \<Rightarrow> Cluster \<Rightarrow> ExitClaim list" where
  "PendingClaims ord c = map snd (in_order ord (pendingClaims c))"

definition PortsForClaimName :: "order \<Rightarrow> Cluster \<Rightarrow> string \<Rightarrow> int list" where
  "PortsForClaimName ord c name =
     foldl (\<lambda>out (k, b). if BoundExit b \<noteq> name then out else sput_all (BoundPorts b) out)
       [] (in_order ord (bindings c))"

definition Exits :: "order \<Rightarrow> Cluster \<Rightarrow> StateExit list" where
  "Exits ord c = map snd (in_order ord (exits c))"

definition UpdatePool :: "int \<Rightarrow> ExitPool \<Rightarrow> Cluster \<Rightarrow> Cluster \<times> trigger list" where
  "UpdatePool now pool c =
     (let sp = (case mget (pools c) (Name pool) of
                  None \<Rightarrow> \<lparr>spPool = None, spResources = [], spExits = 0\<rparr> | Some sp \<Rightarrow> sp);
          sp = sp\<lparr>spPool := Some pool\<rparr>;
          sp = setResources (pResources (pStatus pool)) (pExits (pStatus pool)) sp
      in bump now (c\<lparr>pools := mput (Name pool) sp (pools c)\<rparr>))"

definition DeletePool :: "int \<Rightarrow> string \<Rightarrow> Cluster \<Rightarrow> Cluster \<times> trigger list" where
  "DeletePool now name c = bump now (c\<lparr>pools := mdel name (pools c)\<rparr>)"

definition Pool :: "Cluster \<Rightarrow> string \<Rightarrow> StatePool option" where
  "Pool c name = mget (pools c) name"

definition Pools :: "order \<Rightarrow> Cluster \<Rightarrow> StatePool list" where
  "Pools ord c = map snd (in_order ord (pools c))"

definition UpdateTunnelBinding ::
  "int \<Rightarrow> order \<Rightarrow> order \<Rightarrow> TunnelKey \<Rightarrow> string \<Rightarrow> int list \<Rightarrow> Cluster \<Rightarrow> Cluster \<times> trigger list" where
  "UpdateTunnelBinding now ord1 ord2 key exitName ports c =
     (let old = mget (bindings c) key in
      if exitName = [] then
        let c = c\<lparr>bindings := mdel key (bindings c)\<rparr>;
            c = (case old of None \<Rightarrow> c | Some b \<Rightarrow> recomputeAllocations ord1 (BoundExit b) c)
        in bump now c
      else
        let c = c\<lparr>bindings := mput key
                    \<lparr>BoundTunnelKey = key, BoundExit = exitName, BoundPorts = ports\<rparr> (bindings c)\<rparr>;
            c = (case old of
                   None \<Rightarrow> c
                 | Some b \<Rightarrow> if BoundExit b \<noteq> [] \<and> BoundExit b \<noteq> exitName
                             then recomputeAllocations ord1 (BoundExit b) c else c)
        in bump now (recomputeAllocations ord2 exitName c))"

definition DeleteTunnelBinding ::
  "int \<Rightarrow> order \<Rightarrow> order \<Rightarrow> TunnelKey \<Rightarrow> Cluster \<Rightarrow> Cluster \<times> trigger list" where
  "DeleteTunnelBinding now ord1 ord2 key c = UpdateTunnelBinding now ord1 ord2 key [] [] c"

definition BindingForTunnel :: "Cluster \<Rightarrow> TunnelKey \<Rightarrow> TunnelBinding option" where
  "BindingForTunnel c key = mget (bindings c) key"

definition MarkExitForDeletion :: "string \<Rightarrow> Cluster \<Rightarrow> Cluster" where
  "MarkExitForDeletion name c =
     (case mget (nameToProviderID c) name of
        None \<Rightarrow> c
      | Some pid \<Rightarrow>
          (case mget (exits c) pid of
             None \<Rightarrow> c
           | Some se \<Rightarrow> c\<lparr>exits := mput pid (se\<lparr>MarkedForDeletion := True\<rparr>) (exits c)\<rparr>))"

end
