(* ===== verification/StateInv.thy ===== *)
theory StateInv
  imports State
begin

text \<open>
  The invariant of the cluster cache, the states that informer events reach, and the abstract
  contents of the cache that every event updates as a finite map would.
\<close>

section \<open>Derived allocations\<close>

lemma mget_put_ports [simp]: "mget (put_ports k ps a) p = (if p \<in> set ps then Some k else mget a p)"
  by (induction ps arbitrary: a) (auto simp: put_ports_def)

lemma wf_put_ports [simp]: "wf_map a \<Longrightarrow> wf_map (put_ports k ps a)"
  by (induction ps arbitrary: a) (auto simp: put_ports_def)

lemma wf_derive_allocs: "wf_map a \<Longrightarrow> wf_map (derive_allocs n bs a)"
  by (induction n bs a rule: derive_allocs.induct) auto

lemma derive_allocs_sound:
  "mget (derive_allocs n bs a) p = Some k \<Longrightarrow>
     mget a p = Some k \<or> (\<exists>b. (k, b) \<in> set bs \<and> BoundExit b = n \<and> p \<in> set (BoundPorts b))"
  by (induction n bs a rule: derive_allocs.induct) (auto split: if_splits)

lemma derive_allocs_keys:
  "mkeys (derive_allocs n bs a) =
     mkeys a \<union> {p. \<exists>k b. (k, b) \<in> set bs \<and> BoundExit b = n \<and> p \<in> set (BoundPorts b)}"
proof (induction n bs a rule: derive_allocs.induct)
  case (2 n k b bs a)
  have "mkeys (put_ports k (BoundPorts b) a) = mkeys a \<union> set (BoundPorts b)"
    by (auto simp: mkeys_iff split: if_splits)
  with 2 show ?case by auto
qed auto

text \<open>The ports that the recorded bindings hold on the named exit, and what it is to list them.\<close>

definition bound_ports :: "(TunnelKey, TunnelBinding) gomap \<Rightarrow> string \<Rightarrow> int set" where
  "bound_ports bs name = {p. \<exists>k b. mget bs k = Some b \<and> BoundExit b = name \<and> p \<in> set (BoundPorts b)}"

definition allocs_exact ::
  "(TunnelKey, TunnelBinding) gomap \<Rightarrow> string \<Rightarrow> (int, TunnelKey) gomap \<Rightarrow> bool" where
  "allocs_exact bs name allocs \<longleftrightarrow>
     wf_map allocs \<and> mkeys allocs = bound_ports bs name \<and>
     (\<forall>p k. mget allocs p = Some k \<longrightarrow>
        (\<exists>b. mget bs k = Some b \<and> BoundExit b = name \<and> p \<in> set (BoundPorts b)))"

lemma allocs_exact_derive:
  "is_order ord \<Longrightarrow> wf_map bs \<Longrightarrow> allocs_exact bs n (derive_allocs n (in_order ord bs) [])"
  by (auto simp: allocs_exact_def wf_derive_allocs derive_allocs_keys bound_ports_def wf_map_mget
      dest!: derive_allocs_sound)

lemma allocs_exact_cong:
  "(\<And>k b. BoundExit b = n \<Longrightarrow> mget bs k = Some b \<longleftrightarrow> mget bs' k = Some b) \<Longrightarrow>
     allocs_exact bs n a = allocs_exact bs' n a"
proof -
  assume *: "\<And>k b. BoundExit b = n \<Longrightarrow> mget bs k = Some b \<longleftrightarrow> mget bs' k = Some b"
  then have "bound_ports bs n = bound_ports bs' n"
    unfolding bound_ports_def by blast
  moreover have "(\<exists>b. mget bs k = Some b \<and> BoundExit b = n \<and> P b) \<longleftrightarrow>
      (\<exists>b. mget bs' k = Some b \<and> BoundExit b = n \<and> P b)" for k P
    using * by blast
  ultimately show ?thesis by (simp add: allocs_exact_def)
qed

lemma set_PortsForClaimName:
  assumes "is_order ord" and "wf_map (bindings c)"
  shows "set (PortsForClaimName ord c n) = bound_ports (bindings c) n"
proof -
  have "set (foldl (\<lambda>out (k, b). if BoundExit b \<noteq> n then out else sput_all (BoundPorts b) out) out bs) =
          set out \<union> {p. \<exists>k b. (k, b) \<in> set bs \<and> BoundExit b = n \<and> p \<in> set (BoundPorts b)}"
    for out and bs :: "(TunnelKey \<times> TunnelBinding) list"
    by (induction bs arbitrary: out) auto
  then show ?thesis
    using assms by (simp add: PortsForClaimName_def bound_ports_def wf_map_mget)
qed

section \<open>The invariant\<close>

definition maps_wf :: "Cluster \<Rightarrow> bool" where
  "maps_wf c \<longleftrightarrow> wf_map (exits c) \<and> wf_map (nameToProviderID c) \<and> wf_map (pendingClaims c) \<and>
     wf_map (pools c) \<and> wf_map (bindings c)"

definition pending_ok :: "Cluster \<Rightarrow> bool" where
  "pending_ok c \<longleftrightarrow>
     (\<forall>n. mget (nameToProviderID c) n = Some [] \<longleftrightarrow> mget (pendingClaims c) n \<noteq> None) \<and>
     (\<forall>n cl. mget (pendingClaims c) n = Some cl \<longrightarrow> Name cl = n \<and> ProviderID (cStatus cl) = [])"

definition launched_ok :: "Cluster \<Rightarrow> bool" where
  "launched_ok c \<longleftrightarrow>
     (\<forall>n pid. mget (nameToProviderID c) n = Some pid \<longrightarrow> pid \<noteq> [] \<longrightarrow>
        (\<exists>se cl. mget (exits c) pid = Some se \<and> seClaim se = Some cl \<and> Name cl = n \<and>
           ProviderID (cStatus cl) = pid \<and> allocs_exact (bindings c) n (Allocations se))) \<and>
     (\<forall>pid se. mget (exits c) pid = Some se \<longrightarrow>
        pid \<noteq> [] \<and> (\<exists>n. mget (nameToProviderID c) n = Some pid))"

definition bindings_ok :: "Cluster \<Rightarrow> bool" where
  "bindings_ok c \<longleftrightarrow>
     (\<forall>k b. mget (bindings c) k = Some b \<longrightarrow> BoundTunnelKey b = k \<and> BoundExit b \<noteq> [])"

definition pools_ok :: "Cluster \<Rightarrow> bool" where
  "pools_ok c \<longleftrightarrow>
     (\<forall>n sp. mget (pools c) n = Some sp \<longrightarrow>
        (\<exists>p. spPool sp = Some p \<and> Name p = n \<and> spResources sp = pResources (pStatus p) \<and>
             spExits sp = pExits (pStatus p)))"

definition cluster_ok :: "Cluster \<Rightarrow> bool" where
  "cluster_ok c \<longleftrightarrow> maps_wf c \<and> pending_ok c \<and> launched_ok c \<and> bindings_ok c \<and> pools_ok c"

lemmas cluster_ok_defs = cluster_ok_def maps_wf_def pending_ok_def launched_ok_def bindings_ok_def
  pools_ok_def

lemma provider_id_unique:
  "launched_ok c \<Longrightarrow> mget (nameToProviderID c) n = Some pid \<Longrightarrow>
     mget (nameToProviderID c) m = Some pid \<Longrightarrow> pid \<noteq> [] \<Longrightarrow> n = m"
  unfolding launched_ok_def by (metis option.inject)

lemma bump_simps [simp]:
  "exits (fst (bump now c)) = exits c"
  "nameToProviderID (fst (bump now c)) = nameToProviderID c"
  "pendingClaims (fst (bump now c)) = pendingClaims c"
  "pools (fst (bump now c)) = pools c"
  "bindings (fst (bump now c)) = bindings c"
  "clusterState (fst (bump now c)) = now"
  "provisionerTrigger (fst (bump now c)) = provisionerTrigger c"
  "disruptionTrigger (fst (bump now c)) = disruptionTrigger c"
  "snd (bump now c) = fireTriggers (provisionerTrigger c, disruptionTrigger c)"
  by (simp_all add: bump_def bumpAndCollectTriggers_def)

lemma cluster_ok_bump [simp]: "cluster_ok (fst (bump now c)) = cluster_ok c"
  by (simp add: cluster_ok_defs)

lemma recompute_simps [simp]:
  "nameToProviderID (recomputeAllocations ord n c) = nameToProviderID c"
  "pendingClaims (recomputeAllocations ord n c) = pendingClaims c"
  "pools (recomputeAllocations ord n c) = pools c"
  "bindings (recomputeAllocations ord n c) = bindings c"
  "provisionerTrigger (recomputeAllocations ord n c) = provisionerTrigger c"
  "disruptionTrigger (recomputeAllocations ord n c) = disruptionTrigger c"
  by (simp_all add: recomputeAllocations_def split: option.splits)

lemma mget_exits_recompute:
  "mget (exits (recomputeAllocations ord n c)) pid =
     (if mget (nameToProviderID c) n = Some pid
      then map_option (\<lambda>se. se\<lparr>Allocations := derive_allocs n (in_order ord (bindings c)) []\<rparr>)
             (mget (exits c) pid)
      else mget (exits c) pid)"
  by (auto simp: recomputeAllocations_def split: option.splits)

lemma wf_exits_recompute [simp]:
  "wf_map (exits c) \<Longrightarrow> wf_map (exits (recomputeAllocations ord n c))"
  by (simp add: recomputeAllocations_def split: option.splits)

section \<open>Every operation preserves it\<close>

text \<open>
  What the cache relies on: a launched claim does not lose its provider ID, and no two claims
  have the same one. Both are facts about the API objects, stated against the cached ones.
\<close>

definition claim_update_ok :: "ExitClaim \<Rightarrow> Cluster \<Rightarrow> bool" where
  "claim_update_ok cl c \<longleftrightarrow>
     (ProviderID (cStatus cl) = [] \<longrightarrow>
        mget (nameToProviderID c) (Name cl) = None \<or> mget (nameToProviderID c) (Name cl) = Some []) \<and>
     (\<forall>n. ProviderID (cStatus cl) \<noteq> [] \<longrightarrow>
        mget (nameToProviderID c) n = Some (ProviderID (cStatus cl)) \<longrightarrow> n = Name cl)"

definition launched :: "Cluster \<Rightarrow> string \<Rightarrow> string \<Rightarrow> StateExit \<Rightarrow> bool" where
  "launched c n pid se \<longleftrightarrow>
     (\<exists>cl. mget (exits c) pid = Some se \<and> seClaim se = Some cl \<and> Name cl = n \<and>
           ProviderID (cStatus cl) = pid \<and> allocs_exact (bindings c) n (Allocations se))"

lemma launched_ok_alt:
  "launched_ok c \<longleftrightarrow>
     (\<forall>n pid. mget (nameToProviderID c) n = Some pid \<longrightarrow> pid \<noteq> [] \<longrightarrow> (\<exists>se. launched c n pid se)) \<and>
     (\<forall>pid se. mget (exits c) pid = Some se \<longrightarrow>
        pid \<noteq> [] \<and> (\<exists>n. mget (nameToProviderID c) n = Some pid))"
  by (auto simp: launched_ok_def launched_def)

lemma UpdateExit_pending:
  assumes ok: "cluster_ok c" and up: "claim_update_ok cl c" and id: "ProviderID (cStatus cl) = []"
  shows "cluster_ok (fst (UpdateExit now ord cl c))"
proof -
  let ?c = "fst (UpdateExit now ord cl c)" and ?n = "Name cl"
  have D: "exits ?c = exits c" "nameToProviderID ?c = mput ?n [] (nameToProviderID c)"
    "pendingClaims ?c = mput ?n cl (pendingClaims c)" "pools ?c = pools c" "bindings ?c = bindings c"
    using id by (simp_all add: UpdateExit_def)
  from ok have la: "launched_ok c" by (simp add: cluster_ok_def)
  have "launched_ok ?c"
    unfolding launched_ok_alt
  proof (intro conjI allI impI)
    fix m pid assume "mget (nameToProviderID ?c) m = Some pid" "pid \<noteq> []"
    with la D show "\<exists>se. launched ?c m pid se"
      by (auto simp: launched_ok_alt launched_def split: if_splits)
  next
    fix pid se assume "mget (exits ?c) pid = Some se"
    with la D(1) obtain m where "pid \<noteq> []" "mget (nameToProviderID c) m = Some pid"
      by (auto simp: launched_ok_def)
    moreover from this up id have "m \<noteq> ?n" by (auto simp: claim_update_ok_def)
    ultimately show "pid \<noteq> []" "\<exists>m. mget (nameToProviderID ?c) m = Some pid"
      using D(2) by auto
  qed
  with ok id D show ?thesis
    by (auto simp: cluster_ok_def maps_wf_def pending_ok_def bindings_ok_def pools_ok_def)
qed

text \<open>What the launched branch of \<open>UpdateExit\<close> leaves in every map.\<close>

lemma UpdateExit_launched:
  fixes now ord c
  assumes id: "ProviderID (cStatus cl) = pid" "pid \<noteq> []"
  defines "c' \<equiv> fst (UpdateExit now ord cl c)"
  shows "nameToProviderID c' = mput (Name cl) pid (nameToProviderID c)"
    and "pendingClaims c' = mdel (Name cl) (pendingClaims c)"
    and "pools c' = pools c" and "bindings c' = bindings c"
    and "wf_map (exits c) \<Longrightarrow> wf_map (exits c')"
    and "\<exists>se. mget (exits c') pid = Some se \<and> seClaim se = Some cl \<and>
           Allocations se = derive_allocs (Name cl) (in_order ord (bindings c)) []"
    and "\<And>x. x \<noteq> pid \<Longrightarrow> mget (exits c') x =
           (if mget (nameToProviderID c) (Name cl) = Some x \<and> x \<noteq> [] then None else mget (exits c) x)"
  using id unfolding c'_def
  by (auto simp: UpdateExit_def Let_def mget_exits_recompute split: option.splits)

lemma UpdateExit_ok:
  assumes ok: "cluster_ok c" and up: "claim_update_ok cl c" and ord: "is_order ord"
  shows "cluster_ok (fst (UpdateExit now ord cl c))"
proof (cases "ProviderID (cStatus cl) = []")
  case True
  with ok up show ?thesis by (rule UpdateExit_pending)
next
  case False
  let ?c = "fst (UpdateExit now ord cl c)" and ?pid = "ProviderID (cStatus cl)" and ?n = "Name cl"
  note U = UpdateExit_launched [OF refl False, where now = now and ord = ord and c = c]
  from ok have wf: "maps_wf c" and pend: "pending_ok c" and la: "launched_ok c"
    and rest: "bindings_ok c" "pools_ok c" by (simp_all add: cluster_ok_def)
  have "maps_wf ?c" using wf U by (simp add: maps_wf_def)
  moreover have "pending_ok ?c" using pend U(1,2) False by (auto simp: pending_ok_def)
  moreover have "\<exists>se. launched ?c m pid se"
    if m: "mget (nameToProviderID ?c) m = Some pid" "pid \<noteq> []" for m pid
  proof (cases "m = ?n")
    case True
    with m U(1) have "pid = ?pid" by simp
    with True U(4,6) ord wf show ?thesis
      by (auto simp: launched_def maps_wf_def intro: allocs_exact_derive)
  next
    case ne: False
    with m U(1) have mc: "mget (nameToProviderID c) m = Some pid" by simp
    with up False ne have "pid \<noteq> ?pid" by (auto simp: claim_update_ok_def)
    moreover have "mget (nameToProviderID c) ?n \<noteq> Some pid"
      using provider_id_unique [OF la mc _ m(2)] ne by blast
    ultimately have "mget (exits ?c) pid = mget (exits c) pid" by (simp add: U(7))
    with la mc m(2) U(4) show ?thesis by (auto simp: launched_ok_alt launched_def)
  qed
  moreover have "pid \<noteq> [] \<and> (\<exists>m. mget (nameToProviderID ?c) m = Some pid)"
    if se: "mget (exits ?c) pid = Some se" for pid se
  proof (cases "pid = ?pid")
    case True
    then show ?thesis using U(1) False by auto
  next
    case ne: False
    with se U(7) have "mget (exits c) pid = Some se"
      "mget (nameToProviderID c) ?n = Some pid \<longrightarrow> pid = []" by (auto split: if_splits)
    with la obtain m where "pid \<noteq> []" "mget (nameToProviderID c) m = Some pid" "m \<noteq> ?n"
      unfolding launched_ok_def by blast
    then show ?thesis using U(1) by auto
  qed
  moreover have "bindings_ok ?c" "pools_ok ?c"
    using rest U(3,4) by (simp_all add: bindings_ok_def pools_ok_def)
  ultimately show ?thesis by (simp add: cluster_ok_def launched_ok_alt)
qed

lemma DeleteExit_ok:
  assumes ok: "cluster_ok c"
  shows "cluster_ok (fst (DeleteExit now n c))"
proof (cases "mget (nameToProviderID c) n")
  case None
  with ok have "mget (pendingClaims c) n = None"
    unfolding cluster_ok_def pending_ok_def by (metis option.distinct(1))
  with None ok show ?thesis by (simp add: DeleteExit_def mhas_def)
next
  case (Some pid)
  let ?c = "fst (DeleteExit now n c)"
  have D: "exits ?c = mdel pid (exits c)" "nameToProviderID ?c = mdel n (nameToProviderID c)"
    "pendingClaims ?c = mdel n (pendingClaims c)" "pools ?c = pools c" "bindings ?c = bindings c"
    using Some by (simp_all add: DeleteExit_def)
  from ok have la: "launched_ok c" by (simp add: cluster_ok_def)
  have "launched_ok ?c"
    unfolding launched_ok_alt
  proof (intro conjI allI impI)
    fix m q assume m: "mget (nameToProviderID ?c) m = Some q" "q \<noteq> []"
    then have mc: "mget (nameToProviderID c) m = Some q" "m \<noteq> n"
      using D(2) by (auto split: if_splits)
    then have "q \<noteq> pid" using provider_id_unique [OF la mc(1) _ m(2)] Some by blast
    with la mc m(2) D show "\<exists>se. launched ?c m q se"
      by (auto simp: launched_ok_alt launched_def)
  next
    fix q se assume "mget (exits ?c) q = Some se"
    with D have q: "mget (exits c) q = Some se" "q \<noteq> pid" by (auto split: if_splits)
    with la show "q \<noteq> []" by (auto simp: launched_ok_def)
    from la q obtain m where "mget (nameToProviderID c) m = Some q" by (auto simp: launched_ok_def)
    with Some q(2) D(2) show "\<exists>m. mget (nameToProviderID ?c) m = Some q"
      by (intro exI [of _ m]) auto
  qed
  with ok D show ?thesis
    by (auto simp: cluster_ok_def maps_wf_def pending_ok_def bindings_ok_def pools_ok_def)
qed

lemma UpdatePool_ok: "cluster_ok c \<Longrightarrow> cluster_ok (fst (UpdatePool now p c))"
  by (auto simp: UpdatePool_def Let_def setResources_def cluster_ok_defs)

lemma DeletePool_ok: "cluster_ok c \<Longrightarrow> cluster_ok (fst (DeletePool now n c))"
  by (auto simp: DeletePool_def cluster_ok_defs)

lemma MarkExitForDeletion_ok: "cluster_ok c \<Longrightarrow> cluster_ok (MarkExitForDeletion n c)"
proof -
  assume ok: "cluster_ok c"
  show ?thesis
  proof (cases "ExitForName c n")
    case None
    with ok show ?thesis by (simp add: MarkExitForDeletion_def ExitForName_def split: option.splits)
  next
    case (Some se)
    then obtain pid where pid: "mget (nameToProviderID c) n = Some pid" "mget (exits c) pid = Some se"
      by (auto simp: ExitForName_def split: option.splits)
    then have M: "MarkExitForDeletion n c =
        c\<lparr>exits := mput pid (se\<lparr>MarkedForDeletion := True\<rparr>) (exits c)\<rparr>"
      by (simp add: MarkExitForDeletion_def)
    have la: "launched_ok c" using ok by (simp add: cluster_ok_def)
    have "\<exists>se. launched (MarkExitForDeletion n c) m q se" if "launched c m q x" for m q x
      using that pid(2) by (cases "q = pid") (auto simp: launched_def M)
    moreover have "mget (exits (MarkExitForDeletion n c)) q = None \<longleftrightarrow> mget (exits c) q = None" for q
      using pid(2) by (simp add: M)
    moreover have "nameToProviderID (MarkExitForDeletion n c) = nameToProviderID c"
      by (simp add: M)
    ultimately have "launched_ok (MarkExitForDeletion n c)"
      using la unfolding launched_ok_alt by (metis not_None_eq)
    with ok show ?thesis
      by (simp add: cluster_ok_def maps_wf_def pending_ok_def bindings_ok_def pools_ok_def M)
  qed
qed

text \<open>
  The binding operations: outside the exits they touch nothing changes, and the exit that a tunnel
  leaves and the one it joins are both recomputed.
\<close>

lemma UpdateTunnelBinding_fields:
  fixes now ord1 ord2 k n ps c
  defines "c' \<equiv> fst (UpdateTunnelBinding now ord1 ord2 k n ps c)"
  shows "nameToProviderID c' = nameToProviderID c" "pendingClaims c' = pendingClaims c"
    and "pools c' = pools c"
    and "bindings c' = (if n = [] then mdel k (bindings c)
           else mput k \<lparr>BoundTunnelKey = k, BoundExit = n, BoundPorts = ps\<rparr> (bindings c))"
    and "wf_map (exits c) \<Longrightarrow> wf_map (exits c')"
  unfolding c'_def
  by (simp_all add: UpdateTunnelBinding_def Let_def split: option.splits)

definition touched :: "Cluster \<Rightarrow> TunnelKey \<Rightarrow> string \<Rightarrow> string set" where
  "touched c k n = {m. (\<exists>b. mget (bindings c) k = Some b \<and> BoundExit b = m) \<or> (m = n \<and> n \<noteq> [])}"

lemma UpdateTunnelBinding_exits:
  fixes now ord1 ord2 k n ps c
  assumes la: "launched_ok c" and bo: "bindings_ok c"
    and se: "mget (exits c) pid = Some se" and m: "mget (nameToProviderID c) m = Some pid"
  defines "c' \<equiv> fst (UpdateTunnelBinding now ord1 ord2 k n ps c)"
  shows "\<exists>ord \<in> {ord1, ord2}. mget (exits c') pid =
     Some (if m \<in> touched c k n
           then se\<lparr>Allocations := derive_allocs m (in_order ord (bindings c')) []\<rparr> else se)"
proof -
  have "pid \<noteq> []" using la se by (auto simp: launched_ok_def)
  then have uniq: "mget (nameToProviderID c) x = Some pid \<longleftrightarrow> x = m" for x
    using provider_id_unique [OF la _ m] m by blast
  show ?thesis
    using se bo uniq unfolding c'_def touched_def
    by (auto simp: UpdateTunnelBinding_def Let_def mget_exits_recompute bindings_ok_def
        split: option.splits)
qed

lemma UpdateTunnelBinding_exits_None:
  "mget (exits (fst (UpdateTunnelBinding now ord1 ord2 k n ps c))) pid = None \<longleftrightarrow>
     mget (exits c) pid = None"
  by (auto simp: UpdateTunnelBinding_def Let_def mget_exits_recompute split: option.splits if_splits)

lemma UpdateTunnelBinding_ok:
  assumes ok: "cluster_ok c" and o: "is_order ord1" "is_order ord2"
  shows "cluster_ok (fst (UpdateTunnelBinding now ord1 ord2 k n ps c))"
proof -
  let ?c = "fst (UpdateTunnelBinding now ord1 ord2 k n ps c)"
  note F = UpdateTunnelBinding_fields [where now = now and ?ord1.0 = ord1 and ?ord2.0 = ord2 and k = k and n = n
        and ps = ps and c = c]
  from ok have la: "launched_ok c" and bo: "bindings_ok c" and wf: "maps_wf c"
    by (simp_all add: cluster_ok_def)
  have wf': "wf_map (bindings ?c)" using F(4) wf by (simp add: maps_wf_def)
  have "\<exists>se. launched ?c m pid se"
    if m: "mget (nameToProviderID c) m = Some pid" "pid \<noteq> []" for m pid
  proof -
    from la m obtain se cl where se: "mget (exits c) pid = Some se" "seClaim se = Some cl" "Name cl = m"
      "ProviderID (cStatus cl) = pid" "allocs_exact (bindings c) m (Allocations se)"
      unfolding launched_ok_def by blast
    from UpdateTunnelBinding_exits [OF la bo se(1) m(1), where now = now and ?ord1.0 = ord1 and
        ?ord2.0 = ord2 and k = k and n = n and ps = ps] obtain ord
      where ord: "ord \<in> {ord1, ord2}" and get: "mget (exits ?c) pid = Some (if m \<in> touched c k n
           then se\<lparr>Allocations := derive_allocs m (in_order ord (bindings ?c)) []\<rparr> else se)" by blast
    have "allocs_exact (bindings ?c) m (Allocations se)" if "m \<notin> touched c k n"
    proof -
      have "mget (bindings c) x = Some b \<longleftrightarrow> mget (bindings ?c) x = Some b"
        if "BoundExit b = m" for x b
        using \<open>m \<notin> touched c k n\<close> that by (auto simp: F(4) touched_def)
      with se(5) show ?thesis using allocs_exact_cong by blast
    qed
    moreover have "is_order ord" using ord o by auto
    ultimately show ?thesis
      using get se wf' by (auto simp: launched_def intro: allocs_exact_derive)
  qed
  with la F have "launched_ok ?c"
    unfolding launched_ok_alt by (metis UpdateTunnelBinding_exits_None not_None_eq)
  with ok F wf' show ?thesis
    by (auto simp: cluster_ok_def maps_wf_def pending_ok_def bindings_ok_def pools_ok_def split: if_splits)
qed

end
