(* ===== verification/Samples.thy ===== *)
theory Samples
  imports Api
begin

text \<open>
  Concrete objects at which the properties are evaluated: a pool, a claim and a tunnel, written out
  field by field, from which the witnesses derive theirs by record updates.
\<close>

definition sample_meta :: ObjectMeta where
  "sample_meta = \<lparr>Name = ''x'', GenerateName = [], Namespace = [], UID = ''u1'', Generation = 1,
     CreationTimestamp = 1000, DeletionTimestamp = None, Labels = [], Annotations = [], Finalizers = []\<rparr>"

definition sample_frps :: FrpsConfig where
  "sample_frps = \<lparr>Version = ''v1'', BindPort = 7000, AdminPort = 7400, VhostHTTPPort = None,
     VhostHTTPSPort = None, KCPBindPort = None, QUICBindPort = None, AllowPorts = [''80-82''],
     ReservedPorts = [81], Auth = \<lparr>AuthMethod = ''token'', TokenSecretRef = None\<rparr>, TLS = None\<rparr>"

definition sample_ref :: ProviderClassRef where
  "sample_ref = \<lparr>refGroup = ''g'', refKind = ''Fake'', refName = ''default''\<rparr>"

definition cond :: "string \<Rightarrow> ConditionStatus \<Rightarrow> int \<Rightarrow> Condition" where
  "cond t s ltt = \<lparr>Type = t, Status = s, Reason = ''r'', Message = [], LastTransitionTime = ltt,
     ObservedGeneration = 1\<rparr>"

definition sample_claim :: ExitClaim where
  "sample_claim = \<lparr>Name = ''x'', GenerateName = [], Namespace = [], UID = ''u1'', Generation = 1,
     CreationTimestamp = 1000, DeletionTimestamp = None, Labels = [(LabelExitPool, ''p'')],
     Annotations = [], Finalizers = [],
     cSpec = \<lparr>ProviderClassRef = sample_ref, Requirements = [], Frps = sample_frps, Requests = [],
       ExpireAfter = 0, TerminationGracePeriod = None\<rparr>,
     cStatus = \<lparr>ProviderID = ''fake://1'', PublicIP = ''10.0.0.1'', ExitName = ''x'', ImageID = [],
       FrpsVersion = [], Capacity = [], Allocatable = [(''cpu'', 4)],
       Conditions = [cond ConditionTypeReady ConditionTrue 2000]\<rparr>\<rparr>"

definition sample_pool :: ExitPool where
  "sample_pool = \<lparr>Name = ''p'', GenerateName = [], Namespace = [], UID = ''up'', Generation = 1,
     CreationTimestamp = 1000, DeletionTimestamp = None, Labels = [], Annotations = [], Finalizers = [],
     pSpec = \<lparr>Template = \<lparr>tmplLabels = [], tmplAnnotations = [],
         tmplSpec = \<lparr>tmplProviderClassRef = sample_ref, tmplRequirements = [], tmplFrps = sample_frps,
           tmplExpireAfter = 0, tmplTerminationGracePeriod = None\<rparr>\<rparr>,
       PoolDisruption = \<lparr>ConsolidationPolicy = ConsolidationWhenEmptyOrUnderutilized,
         ConsolidateAfter = 0, Budgets = []\<rparr>,
       Limits = [], Weight = None, Replicas = None\<rparr>,
     pStatus = \<lparr>pConditions = [], pExits = 0, pResources = []\<rparr>\<rparr>"

definition auto_port :: TunnelPort where
  "auto_port = \<lparr>PortName = ''web'', PublicPort = None, ServicePort = 8080, Protocol = ''TCP''\<rparr>"

definition fixed_port :: "int \<Rightarrow> TunnelPort" where
  "fixed_port p = \<lparr>PortName = ''web'', PublicPort = Some p, ServicePort = 8080, Protocol = ''TCP''\<rparr>"

definition sample_tunnel :: Tunnel where
  "sample_tunnel = \<lparr>Name = ''t'', GenerateName = [], Namespace = ''ns'', UID = ''ut'', Generation = 1,
     CreationTimestamp = 1000, DeletionTimestamp = None, Labels = [], Annotations = [], Finalizers = [],
     tSpec = \<lparr>Ports = [auto_port], tRequirements = [], ExitClaimRef = None, tRequests = [(''cpu'', 1)]\<rparr>,
     tStatus = \<lparr>Phase = [], AssignedExit = [], AssignedIP = [], AssignedPorts = [], tConditions = []\<rparr>\<rparr>"

lemmas sample_defs = sample_meta_def sample_frps_def sample_ref_def cond_def sample_claim_def
  sample_pool_def auto_port_def fixed_port_def sample_tunnel_def

end
