(* ===== verification/StateSteps.thy ===== *)
theory StateSteps
  imports StateInv Samples
begin

text \<open>
  Informer events as steps of the cluster cache, the states they reach, the abstract view that
  they update, and \<open>Synced\<close>, the comparison of the cache with the API server.
\<close>

section \<open>Informers\<close>

text \<open>
  \<open>state/informer\<close>: the argument \<open>get\<close> is what the API server answers to the \<open>Get\<close> of the
  reconciler; \<open>Inl\<close> is the error that the reconciler returns.
\<close>

definition ExitClaimInformer ::
  "(apierror + ExitClaim) \<Rightarrow> int \<Rightarrow> order \<Rightarrow> string \<Rightarrow> Cluster \<Rightarrow> apierror + Cluster \<times> trigger list" where
  "ExitClaimInformer get now ord reqName c =
     (case get of
        Inl e \<Rightarrow> if e = NotFound then Inr (DeleteExit now reqName c) else Inl e
      | Inr claim \<Rightarrow> Inr (UpdateExit now ord claim c))"

definition ExitPoolInformer ::
  "(apierror + ExitPool) \<Rightarrow> int \<Rightarrow> string \<Rightarrow> Cluster \<Rightarrow> apierror + Cluster \<times> trigger list" where
  "ExitPoolInformer get now reqName c =
     (case get of
        Inl e \<Rightarrow> if e = NotFound then Inr (DeletePool now reqName c) else Inl e
      | Inr pool \<Rightarrow> Inr (UpdatePool now pool c))"

definition TunnelInformer ::
  "(apierror + Tunnel) \<Rightarrow> int \<Rightarrow> order \<Rightarrow> order \<Rightarrow> string \<Rightarrow> string \<Rightarrow> Cluster \<Rightarrow>
     apierror + Cluster \<times> trigger list" where
  "TunnelInformer get now ord1 ord2 reqNamespace reqName c =
     (let key = reqNamespace @ ''/'' @ reqName in
      case get of
        Inl e \<Rightarrow> if e = NotFound then Inr (DeleteTunnelBinding now ord1 ord2 key c) else Inl e
      | Inr t \<Rightarrow> Inr (UpdateTunnelBinding now ord1 ord2 key (AssignedExit (tStatus t))
                        (AssignedPorts (tStatus t)) c))"

section \<open>Events and reachable states\<close>

datatype cluster_event =
    ExitUpdated ExitClaim
  | ExitDeleted string
  | PoolUpdated ExitPool
  | PoolDeleted string
  | TunnelUpdated TunnelKey string "int list"
  | TunnelDeleted TunnelKey
  | ExitMarked string

fun apply_event :: "int \<Rightarrow> order \<Rightarrow> order \<Rightarrow> cluster_event \<Rightarrow> Cluster \<Rightarrow> Cluster \<times> trigger list" where
  "apply_event now o1 o2 (ExitUpdated cl) c = UpdateExit now o1 cl c"
| "apply_event now o1 o2 (ExitDeleted n) c = DeleteExit now n c"
| "apply_event now o1 o2 (PoolUpdated p) c = UpdatePool now p c"
| "apply_event now o1 o2 (PoolDeleted n) c = DeletePool now n c"
| "apply_event now o1 o2 (TunnelUpdated k n ps) c = UpdateTunnelBinding now o1 o2 k n ps c"
| "apply_event now o1 o2 (TunnelDeleted k) c = DeleteTunnelBinding now o1 o2 k c"
| "apply_event now o1 o2 (ExitMarked n) c = (MarkExitForDeletion n c, [])"

fun event_ok :: "cluster_event \<Rightarrow> Cluster \<Rightarrow> bool" where
  "event_ok (ExitUpdated cl) c = claim_update_ok cl c"
| "event_ok _ c = True"

inductive reachable :: "Cluster \<Rightarrow> bool" where
  start: "reachable (SetTriggers p d NewCluster)"
| step: "reachable c \<Longrightarrow> event_ok ev c \<Longrightarrow> is_order o1 \<Longrightarrow> is_order o2 \<Longrightarrow>
     reachable (fst (apply_event now o1 o2 ev c))"

inductive_cases reachableE: "reachable c"

lemma cluster_ok_start: "cluster_ok (SetTriggers p d NewCluster)"
  by (simp add: cluster_ok_defs SetTriggers_def NewCluster_def)

lemma apply_event_ok:
  "cluster_ok c \<Longrightarrow> event_ok ev c \<Longrightarrow> is_order o1 \<Longrightarrow> is_order o2 \<Longrightarrow>
     cluster_ok (fst (apply_event now o1 o2 ev c))"
  by (cases ev) (simp_all add: UpdateExit_ok DeleteExit_ok UpdatePool_ok DeletePool_ok
      UpdateTunnelBinding_ok DeleteTunnelBinding_def MarkExitForDeletion_ok)

lemma reachable_ok: "reachable c \<Longrightarrow> cluster_ok c"
  by (induction rule: reachable.induct) (simp_all add: cluster_ok_start apply_event_ok)

section \<open>The abstract contents\<close>

record ClusterView =
  vClaims :: "string \<rightharpoonup> ExitClaim"
  vBindings :: "TunnelKey \<rightharpoonup> string \<times> int list"
  vPools :: "string \<rightharpoonup> ExitPool"

definition claim_of :: "Cluster \<Rightarrow> string \<Rightarrow> ExitClaim option" where
  "claim_of c n =
     (case mget (nameToProviderID c) n of
        None \<Rightarrow> None
      | Some pid \<Rightarrow> if pid = [] then mget (pendingClaims c) n
                    else Option.bind (mget (exits c) pid) seClaim)"

definition view_of :: "Cluster \<Rightarrow> ClusterView" where
  "view_of c =
     \<lparr>vClaims = claim_of c,
      vBindings = (\<lambda>k. map_option (\<lambda>b. (BoundExit b, BoundPorts b)) (mget (bindings c) k)),
      vPools = (\<lambda>n. Option.bind (mget (pools c) n) spPool)\<rparr>"

fun spec_event :: "cluster_event \<Rightarrow> ClusterView \<Rightarrow> ClusterView" where
  "spec_event (ExitUpdated cl) v = v\<lparr>vClaims := (vClaims v)(Name cl \<mapsto> cl)\<rparr>"
| "spec_event (ExitDeleted n) v = v\<lparr>vClaims := (vClaims v)(n := None)\<rparr>"
| "spec_event (PoolUpdated p) v = v\<lparr>vPools := (vPools v)(Name p \<mapsto> p)\<rparr>"
| "spec_event (PoolDeleted n) v = v\<lparr>vPools := (vPools v)(n := None)\<rparr>"
| "spec_event (TunnelUpdated k n ps) v =
     v\<lparr>vBindings := (vBindings v)(k := (if n = [] then None else Some (n, ps)))\<rparr>"
| "spec_event (TunnelDeleted k) v = v\<lparr>vBindings := (vBindings v)(k := None)\<rparr>"
| "spec_event (ExitMarked n) v = v"

lemma claim_of_UpdateExit:
  assumes ok: "cluster_ok c" and up: "claim_update_ok cl c"
  shows "claim_of (fst (UpdateExit now ord cl c)) = (claim_of c)(Name cl \<mapsto> cl)"
proof (cases "ProviderID (cStatus cl) = []")
  case True
  then show ?thesis by (auto simp: UpdateExit_def claim_of_def fun_eq_iff split: option.splits)
next
  case False
  note U = UpdateExit_launched [OF refl False, where now = now and ord = ord and c = c]
  from ok have la: "launched_ok c" by (simp add: cluster_ok_def)
  have "claim_of (fst (UpdateExit now ord cl c)) m = claim_of c m" if ne: "m \<noteq> Name cl" for m
  proof -
    have "mget (exits (fst (UpdateExit now ord cl c))) pid = mget (exits c) pid"
      if m: "mget (nameToProviderID c) m = Some pid" "pid \<noteq> []" for pid
    proof -
      have "pid \<noteq> ProviderID (cStatus cl)"
        using up False ne m by (auto simp: claim_update_ok_def)
      moreover have "mget (nameToProviderID c) (Name cl) \<noteq> Some pid"
        using provider_id_unique [OF la m(1) _ m(2)] ne by blast
      ultimately show ?thesis by (simp add: U(7))
    qed
    with ne show ?thesis by (auto simp: claim_of_def U(1,2) split: option.splits)
  qed
  moreover have "claim_of (fst (UpdateExit now ord cl c)) (Name cl) = Some cl"
    using U(1,6) False by (auto simp: claim_of_def)
  ultimately show ?thesis by (simp add: fun_eq_iff)
qed

lemma claim_of_DeleteExit:
  assumes ok: "cluster_ok c"
  shows "claim_of (fst (DeleteExit now n c)) = (claim_of c)(n := None)"
proof (cases "mget (nameToProviderID c) n")
  case None
  then show ?thesis by (auto simp: DeleteExit_def claim_of_def fun_eq_iff split: option.splits)
next
  case (Some pid)
  from ok have la: "launched_ok c" by (simp add: cluster_ok_def)
  have "q \<noteq> pid" if "mget (nameToProviderID c) m = Some q" "m \<noteq> n" "q \<noteq> []" for m q
    using provider_id_unique [OF la that(1) _ that(3)] Some that(2) by blast
  then have "claim_of (fst (DeleteExit now n c)) m = ((claim_of c)(n := None)) m" for m
    using Some by (cases "mget (nameToProviderID c) m") (auto simp: DeleteExit_def claim_of_def)
  then show ?thesis by blast
qed

lemma claim_of_binding:
  assumes "cluster_ok c"
  shows "claim_of (fst (UpdateTunnelBinding now o1 o2 k n ps c)) = claim_of c"
proof -
  have "Option.bind (mget (exits (fst (UpdateTunnelBinding now o1 o2 k n ps c))) pid) seClaim =
        Option.bind (mget (exits c) pid) seClaim" for pid
    by (auto simp: UpdateTunnelBinding_def Let_def mget_exits_recompute split: option.splits Option.bind_splits)
  then show ?thesis
    by (simp add: claim_of_def UpdateTunnelBinding_fields fun_eq_iff split: option.splits)
qed

lemma claim_of_Mark: "claim_of (MarkExitForDeletion n c) = claim_of c"
  by (auto simp: MarkExitForDeletion_def claim_of_def fun_eq_iff split: option.splits)

lemma claim_of_bump [simp]: "claim_of (fst (bump now c)) = claim_of c"
  by (simp add: claim_of_def fun_eq_iff split: option.splits)

lemma claim_of_pools [simp]: "claim_of (c\<lparr>pools := ps\<rparr>) = claim_of c"
  by (simp add: claim_of_def fun_eq_iff split: option.splits)

lemma view_eqI:
  "claim_of c = vClaims v \<Longrightarrow> (\<And>k. map_option (\<lambda>b. (BoundExit b, BoundPorts b)) (mget (bindings c) k) = vBindings v k) \<Longrightarrow>
     (\<And>n. Option.bind (mget (pools c) n) spPool = vPools v n) \<Longrightarrow> view_of c = v"
  by (simp add: view_of_def fun_eq_iff)

lemma UpdateExit_other [simp]:
  "bindings (fst (UpdateExit now ord cl c)) = bindings c"
  "pools (fst (UpdateExit now ord cl c)) = pools c"
  by (auto simp: UpdateExit_def Let_def split: option.splits)

lemma DeleteExit_other [simp]:
  "bindings (fst (DeleteExit now n c)) = bindings c"
  "pools (fst (DeleteExit now n c)) = pools c"
  by (auto simp: DeleteExit_def split: option.splits)

lemma Mark_other [simp]:
  "bindings (MarkExitForDeletion n c) = bindings c"
  "pools (MarkExitForDeletion n c) = pools c"
  by (auto simp: MarkExitForDeletion_def split: option.splits)

lemma apply_event_view:
  assumes "cluster_ok c" and "event_ok ev c"
  shows "view_of (fst (apply_event now o1 o2 ev c)) = spec_event ev (view_of c)"
  using assms
  by (cases ev; intro view_eqI)
    (auto simp: view_of_def claim_of_UpdateExit claim_of_DeleteExit claim_of_binding claim_of_Mark
      UpdatePool_def DeletePool_def Let_def setResources_def DeleteTunnelBinding_def
      UpdateTunnelBinding_fields)

section \<open>Sequences of events\<close>

fun run_events :: "cluster_event list \<Rightarrow> Cluster \<Rightarrow> Cluster" where
  "run_events [] c = c"
| "run_events (ev # evs) c = run_events evs (fst (apply_event 0 list_order list_order ev c))"

fun events_ok :: "cluster_event list \<Rightarrow> Cluster \<Rightarrow> bool" where
  "events_ok [] c = True"
| "events_ok (ev # evs) c =
     (event_ok ev c \<and> events_ok evs (fst (apply_event 0 list_order list_order ev c)))"

lemma reachable_run: "reachable c \<Longrightarrow> events_ok evs c \<Longrightarrow> reachable (run_events evs c)"
  by (induction evs arbitrary: c) (simp_all add: reachable.step)

definition started :: Cluster where
  "started = SetTriggers True True NewCluster"

lemma reachable_started: "reachable started"
  unfolding started_def by (rule reachable.start)

lemmas cluster_eval = started_def SetTriggers_def NewCluster_def UpdateExit_def UpdateTunnelBinding_def
  DeleteExit_def recomputeAllocations_def bump_def bumpAndCollectTriggers_def empty_exit_def put_ports_def
  claim_update_ok_def Let_def

text \<open>Two events at which the properties are evaluated: a tunnel is bound before its exit is known.\<close>

definition sample_events :: "cluster_event list" where
  "sample_events = [TunnelUpdated ''ns/t'' ''x'' [80, 82], ExitUpdated sample_claim]"

lemma reachable_sample: "reachable (run_events sample_events started)"
  by (rule reachable_run [OF reachable_started])
    (simp add: sample_events_def cluster_eval)

lemma sample_names: "mget (nameToProviderID (run_events sample_events started)) ''x'' = Some ''fake://1''"
  by (simp add: sample_events_def cluster_eval sample_defs)

section \<open>Properties\<close>

text \<open>
  C9: In every state that informer events lead to, an exit that has been launched is found by its
  name, the ports it lists as used are exactly the ports of the recorded bindings to it (no port
  is forgotten, and none survives the binding that held it), and the holder of each used port is
  a tunnel whose recorded binding is to this exit and includes that port.
\<close>

theorem allocations_match_bindings:
  assumes "reachable c" and "mget (nameToProviderID c) n = Some pid" and "pid \<noteq> []" and "is_order ord"
  shows "\<exists>se. ExitForName c n = Some se \<and>
     set (UsedPorts se) = set (PortsForClaimName ord c n) \<and>
     (\<forall>p \<in> set (UsedPorts se). \<exists>b. BindingForTunnel c (PortHolder se p) = Some b \<and>
        BoundExit b = n \<and> p \<in> set (BoundPorts b))"
proof -
  from assms(1) have ok: "cluster_ok c" by (rule reachable_ok)
  with assms obtain se where se: "mget (exits c) pid = Some se"
    and ex: "allocs_exact (bindings c) n (Allocations se)"
    unfolding cluster_ok_def launched_ok_def by blast
  have "set (UsedPorts se) = bound_ports (bindings c) n"
    using ex by (simp add: allocs_exact_def UsedPorts_def mkeys_def)
  moreover have "set (PortsForClaimName ord c n) = bound_ports (bindings c) n"
    using ok assms(4) by (simp add: set_PortsForClaimName cluster_ok_def maps_wf_def)
  moreover have "\<exists>b. mget (bindings c) (PortHolder se p) = Some b \<and> BoundExit b = n \<and> p \<in> set (BoundPorts b)"
    if "p \<in> set (UsedPorts se)" for p
  proof -
    from that have "p \<in> mkeys (Allocations se)" by (simp add: UsedPorts_def mkeys_def)
    then obtain k where "mget (Allocations se) p = Some k" by (auto simp: mkeys_iff)
    with ex show ?thesis by (auto simp: allocs_exact_def PortHolder_def mget_str_def)
  qed
  ultimately show ?thesis
    using se assms(2) by (auto simp: ExitForName_def BindingForTunnel_def)
qed

theorem allocations_match_bindings_witness:
  "\<exists>se. ExitForName (run_events sample_events started) ''x'' = Some se \<and>
     set (UsedPorts se) = set (PortsForClaimName list_order (run_events sample_events started) ''x'') \<and>
     (\<forall>p \<in> set (UsedPorts se). \<exists>b.
        BindingForTunnel (run_events sample_events started) (PortHolder se p) = Some b \<and>
        BoundExit b = ''x'' \<and> p \<in> set (BoundPorts b))"
  by (rule allocations_match_bindings [OF reachable_sample sample_names]) simp_all



text \<open>
  Outside these events the cache can leak: when a launched claim is seen again without its provider
  ID and is then deleted, the exit stays in the cache for ever.
\<close>

lemma cleared_provider_id_leaks:
  assumes "ProviderID (cStatus a) = pid" and "pid \<noteq> []"
    and "Name b = Name a" and "ProviderID (cStatus b) = []"
  shows "mget (exits (fst (DeleteExit t3 (Name a) (fst (UpdateExit t2 o2 b (fst (UpdateExit t1 o1 a c))))))) pid \<noteq> None"
  using assms UpdateExit_launched(1,6) [OF assms(1,2), where now = t1 and ord = o1 and c = c]
  by (auto simp: UpdateExit_def [of t2] DeleteExit_def)

end
