(* ===== verification/Synced.thy ===== *)
theory Synced
  imports StateSteps
begin

text \<open>
  \<open>state/synced.go\<close>: the comparison of the cache with what the API server lists, both ways. The
  three arguments are the answers to the three \<open>List\<close> calls. Every other controller calls it
  before it decides anything.
\<close>

fun synced_claims :: "Cluster \<Rightarrow> ExitClaim list \<Rightarrow> string list \<Rightarrow> string list \<Rightarrow> (string list \<times> string list) option" where
  "synced_claims c [] names pids = Some (names, pids)"
| "synced_claims c (claim # claims) names pids =
     (let pid = ProviderID (cStatus claim);
          names = sput (Name claim) names;
          pids = (if pid \<noteq> [] then sput pid pids else pids)
      in if \<not> mhas (nameToProviderID c) (Name claim) then None
         else if pid = [] then synced_claims c claims names pids
         else if \<not> mhas (exits c) pid then None
         else synced_claims c claims names pids)"

fun synced_pools :: "Cluster \<Rightarrow> ExitPool list \<Rightarrow> string list \<Rightarrow> string list option" where
  "synced_pools c [] names = Some names"
| "synced_pools c (p # ps) names =
     (let names = sput (Name p) names
      in if \<not> mhas (pools c) (Name p) then None else synced_pools c ps names)"

fun synced_tunnels ::
  "Cluster \<Rightarrow> Tunnel list \<Rightarrow> (TunnelKey, string) gomap \<Rightarrow> (TunnelKey, string) gomap option" where
  "synced_tunnels c [] keys = Some keys"
| "synced_tunnels c (t # ts) keys =
     (let key = Namespace t @ ''/'' @ Name t;
          keys = mput key (AssignedExit (tStatus t)) keys
      in if AssignedExit (tStatus t) = [] then synced_tunnels c ts keys
         else case mget (bindings c) key of
                None \<Rightarrow> None
              | Some b \<Rightarrow> if BoundExit b \<noteq> AssignedExit (tStatus t) then None
                          else synced_tunnels c ts keys)"

fun all_entries :: "('k \<Rightarrow> 'v \<Rightarrow> bool) \<Rightarrow> ('k \<times> 'v) list \<Rightarrow> bool" where
  "all_entries P [] = True"
| "all_entries P ((k, v) # m) = (if \<not> P k v then False else all_entries P m)"

definition Synced ::
  "(apierror + ExitClaim list) \<Rightarrow> (apierror + ExitPool list) \<Rightarrow> (apierror + Tunnel list) \<Rightarrow> Cluster \<Rightarrow> bool" where
  "Synced claims0 pools0 tunnels0 c =
     (case (claims0, pools0, tunnels0) of
        (Inr claims, Inr ps, Inr tunnels) \<Rightarrow>
          (case synced_claims c claims [] [] of
             None \<Rightarrow> False
           | Some (claimNames, pids) \<Rightarrow>
          (case synced_pools c ps [] of
             None \<Rightarrow> False
           | Some poolNames \<Rightarrow>
          (case synced_tunnels c tunnels [] of
             None \<Rightarrow> False
           | Some keys \<Rightarrow>
               all_entries (\<lambda>pid _. pid \<in> set pids) (exits c) \<and>
               all_entries (\<lambda>n pid. n \<in> set claimNames \<and> (pid \<noteq> [] \<longrightarrow> pid \<in> set pids))
                 (nameToProviderID c) \<and>
               all_entries (\<lambda>n _. n \<in> set poolNames) (pools c) \<and>
               all_entries (\<lambda>k b. mget keys k = Some (BoundExit b)) (bindings c))))
      | _ \<Rightarrow> False)"

section \<open>What it decides\<close>

lemma all_entries_iff [simp]: "all_entries P m \<longleftrightarrow> (\<forall>(k, v) \<in> set m. P k v)"
  by (induction P m rule: all_entries.induct) auto

definition claim_pids :: "ExitClaim list \<Rightarrow> string set" where
  "claim_pids claims = (\<lambda>cl. ProviderID (cStatus cl)) ` set claims - {[]}"

lemma claim_pids_simps [simp]:
  "claim_pids [] = {}"
  "claim_pids (cl # claims) =
     (if ProviderID (cStatus cl) = [] then claim_pids claims
      else insert (ProviderID (cStatus cl)) (claim_pids claims))"
  by (auto simp: claim_pids_def)

lemma synced_claims_eq:
  "synced_claims c claims ns ps =
     (if Name ` set claims \<subseteq> mkeys (nameToProviderID c) \<and> claim_pids claims \<subseteq> mkeys (exits c)
      then Some (sput_all (map Name claims) ns,
                 sput_all (filter (\<lambda>p. p \<noteq> []) (map (\<lambda>cl. ProviderID (cStatus cl)) claims)) ps)
      else None)"
  by (induction c claims ns ps rule: synced_claims.induct)
    (simp_all add: mhas_mkeys Let_def sput_all_def)

lemma synced_pools_eq:
  "synced_pools c ps ns =
     (if Name ` set ps \<subseteq> mkeys (pools c) then Some (sput_all (map Name ps) ns) else None)"
  by (induction c ps ns rule: synced_pools.induct) (simp_all add: mhas_mkeys Let_def sput_all_def)

definition api_key :: "Tunnel \<Rightarrow> TunnelKey" where
  "api_key t = Namespace t @ ''/'' @ Name t"

definition assigned_here :: "Cluster \<Rightarrow> Tunnel \<Rightarrow> bool" where
  "assigned_here c t \<longleftrightarrow> (AssignedExit (tStatus t) \<noteq> [] \<longrightarrow>
     map_option BoundExit (mget (bindings c) (api_key t)) = Some (AssignedExit (tStatus t)))"

lemma synced_tunnels_eq:
  "synced_tunnels c ts ks =
     (if \<forall>t \<in> set ts. assigned_here c t
      then Some (foldl (\<lambda>m t. mput (api_key t) (AssignedExit (tStatus t)) m) ks ts) else None)"
proof (induction c ts ks rule: synced_tunnels.induct)
  case (2 c t ts ks)
  then show ?case
    by (cases "mget (bindings c) (api_key t)") (auto simp: Let_def api_key_def assigned_here_def)
qed simp

lemma mget_foldl_mput:
  "distinct (map f xs) \<Longrightarrow> mget (foldl (\<lambda>m x. mput (f x) (g x) m) m xs) k = Some v \<longleftrightarrow>
     (\<exists>x \<in> set xs. f x = k \<and> g x = v) \<or> (k \<notin> f ` set xs \<and> mget m k = Some v)"
  by (induction xs arbitrary: m) auto

lemma map_of_pairs:
  "distinct (map f xs) \<Longrightarrow> map_of (map (\<lambda>x. (f x, g x)) xs) k = Some v \<longleftrightarrow> (\<exists>x \<in> set xs. f x = k \<and> g x = v)"
  by (subst map_of_eq_Some_iff) (auto simp: comp_def)

text \<open>The assignments that the API server holds, without the unassigned tunnels.\<close>

definition api_assignment :: "Tunnel list \<Rightarrow> TunnelKey \<rightharpoonup> string" where
  "api_assignment ts k =
     (case map_of (map (\<lambda>t. (api_key t, AssignedExit (tStatus t))) ts) k of
        None \<Rightarrow> None | Some n \<Rightarrow> if n = [] then None else Some n)"

lemma map_eq_iff_Some:
  fixes f g :: "'k \<rightharpoonup> 'v"
  shows "f = g \<longleftrightarrow> (\<forall>k n. f k = Some n \<longrightarrow> g k = Some n) \<and> (\<forall>k n. g k = Some n \<longrightarrow> f k = Some n)"
  by (metis ext not_None_eq)

lemma entries_iff:
  "wf_map m \<Longrightarrow> (\<forall>(k, v) \<in> set m. P k v) \<longleftrightarrow> (\<forall>k v. mget m k = Some v \<longrightarrow> P k v)"
  by (auto simp: wf_map_mget [symmetric])

lemma entries_key_iff: "(\<forall>(k, v) \<in> set m. k \<in> S) \<longleftrightarrow> mkeys m \<subseteq> S"
  by (auto simp: mkeys_def)

lemma entries_split_iff:
  "wf_map m \<Longrightarrow> (\<forall>(k, v) \<in> set m. k \<in> S \<and> Q v) \<longleftrightarrow> mkeys m \<subseteq> S \<and> (\<forall>k v. mget m k = Some v \<longrightarrow> Q v)"
  by (auto simp: mkeys_def wf_map_mget [symmetric])

lemma api_assignment_Some:
  assumes "distinct (map api_key ts)"
  shows "api_assignment ts k = Some n \<longleftrightarrow> n \<noteq> [] \<and> (\<exists>t \<in> set ts. api_key t = k \<and> AssignedExit (tStatus t) = n)"
  unfolding map_of_pairs [OF assms, symmetric] api_assignment_def
  by (auto split: option.splits)

lemma assignments_agree:
  assumes wf: "wf_map (bindings c)" and bo: "bindings_ok c" and dist: "distinct (map api_key ts)"
  shows "(\<forall>t \<in> set ts. assigned_here c t) \<and>
      (\<forall>(k, b) \<in> set (bindings c).
         mget (foldl (\<lambda>m t. mput (api_key t) (AssignedExit (tStatus t)) m) [] ts) k = Some (BoundExit b)) \<longleftrightarrow>
      (\<lambda>k. map_option BoundExit (mget (bindings c) k)) = api_assignment ts" (is "?A \<and> ?B \<longleftrightarrow> ?C")
proof -
  have A: "?A \<longleftrightarrow> (\<forall>k n. api_assignment ts k = Some n \<longrightarrow> map_option BoundExit (mget (bindings c) k) = Some n)"
    by (auto simp: api_assignment_Some [OF dist] assigned_here_def)
  have B: "?B \<longleftrightarrow> (\<forall>k n. map_option BoundExit (mget (bindings c) k) = Some n \<longrightarrow> api_assignment ts k = Some n)"
    using bo by (auto simp: entries_iff [OF wf] api_assignment_Some [OF dist] mget_foldl_mput [OF dist] bindings_ok_def)
  show ?thesis unfolding A B map_eq_iff_Some by (rule conj_commute)
qed

lemma Synced_iff:
  assumes wf: "maps_wf c" and bo: "bindings_ok c" and dist: "distinct (map api_key ts)"
  shows "Synced (Inr claims) (Inr ps) (Inr ts) c \<longleftrightarrow>
     mkeys (nameToProviderID c) = Name ` set claims \<and>
     mkeys (exits c) = claim_pids claims \<and>
     (\<forall>n pid. mget (nameToProviderID c) n = Some pid \<longrightarrow> pid \<noteq> [] \<longrightarrow> pid \<in> claim_pids claims) \<and>
     mkeys (pools c) = Name ` set ps \<and>
     (\<lambda>k. map_option BoundExit (mget (bindings c) k)) = api_assignment ts"
    (is "_ \<longleftrightarrow> ?R")
proof -
  let ?keys = "foldl (\<lambda>m t. mput (api_key t) (AssignedExit (tStatus t)) m) [] ts"
  let ?pids = "sput_all (filter (\<lambda>p. p \<noteq> []) (map (\<lambda>cl. ProviderID (cStatus cl)) claims)) []"
  have pids: "set ?pids = claim_pids claims"
    by (auto simp: claim_pids_def)
  have names: "set (sput_all (map f xs) []) = f ` set xs" for f :: "'a \<Rightarrow> string" and xs
    by simp
  have "Synced (Inr claims) (Inr ps) (Inr ts) c \<longleftrightarrow>
      (Name ` set claims \<subseteq> mkeys (nameToProviderID c) \<and> claim_pids claims \<subseteq> mkeys (exits c)) \<and>
      Name ` set ps \<subseteq> mkeys (pools c) \<and> (\<forall>t \<in> set ts. assigned_here c t) \<and>
      (\<forall>(pid, se) \<in> set (exits c). pid \<in> claim_pids claims) \<and>
      (\<forall>(n, pid) \<in> set (nameToProviderID c). n \<in> Name ` set claims \<and> (pid \<noteq> [] \<longrightarrow> pid \<in> claim_pids claims)) \<and>
      (\<forall>(n, sp) \<in> set (pools c). n \<in> Name ` set ps) \<and>
      (\<forall>(k, b) \<in> set (bindings c). mget ?keys k = Some (BoundExit b))"
    unfolding Synced_def prod.case sum.case synced_claims_eq synced_pools_eq synced_tunnels_eq
    by (simp only: names pids all_entries_iff option.case prod.case split: if_split) satx
  moreover have nw: "wf_map (nameToProviderID c)" and bw: "wf_map (bindings c)"
    using wf by (simp_all add: maps_wf_def)
  ultimately show ?thesis
    unfolding entries_key_iff entries_split_iff [OF nw] set_eq_subset
    using assignments_agree [OF bw bo dist] by satx
qed

text \<open>
  C11: \<open>Synced\<close> decides agreement in both directions. In every reachable state it answers true exactly
  when all three lists were obtained and the names of the claims, their provider IDs (those of
  launched claims), the names of the pools and the assignment of tunnels to exits are the same in
  the cache and in the API server: an object that one side has and the other lacks, or a
  tunnel that they assign differently, makes it false. Ports are not compared.
\<close>

theorem Synced_exact:
  assumes "reachable c" and "\<forall>ts. tunnels = Inr ts \<longrightarrow> distinct (map api_key ts)"
  shows "Synced claims ps tunnels c \<longleftrightarrow>
     (\<exists>cs pls ts. claims = Inr cs \<and> ps = Inr pls \<and> tunnels = Inr ts \<and>
        mkeys (nameToProviderID c) = Name ` set cs \<and> mkeys (exits c) = claim_pids cs \<and>
        mkeys (pools c) = Name ` set pls \<and>
        (\<lambda>k. map_option BoundExit (BindingForTunnel c k)) = api_assignment ts)"
proof -
  from assms(1) have ok: "cluster_ok c" by (rule reachable_ok)
  then have wf: "maps_wf c" "bindings_ok c" by (simp_all add: cluster_ok_def)
  have "pid \<in> mkeys (exits c)" if "mget (nameToProviderID c) n = Some pid" "pid \<noteq> []" for n pid
    using ok that unfolding cluster_ok_def launched_ok_def mkeys_iff by blast
  with assms(2) Synced_iff [OF wf] show ?thesis
    by (cases claims; cases ps; cases tunnels) (auto simp: Synced_def BindingForTunnel_def)
qed

definition sample_bound_tunnel :: Tunnel where
  "sample_bound_tunnel = sample_tunnel\<lparr>tStatus := (tStatus sample_tunnel)\<lparr>AssignedExit := ''x''\<rparr>\<rparr>"

theorem Synced_exact_witness:
  "Synced (Inr [sample_claim]) (Inr []) (Inr [sample_bound_tunnel]) (run_events sample_events started) \<and>
   (\<lambda>k. map_option BoundExit (BindingForTunnel (run_events sample_events started) k)) =
     api_assignment [sample_bound_tunnel]"
proof -
  have "Synced (Inr [sample_claim]) (Inr []) (Inr [sample_bound_tunnel]) (run_events sample_events started)"
    by (simp add: Synced_def sample_events_def cluster_eval sample_defs sample_bound_tunnel_def
        mhas_def sput_def)
  with Synced_exact [OF reachable_sample, of "Inr [sample_bound_tunnel]" "Inr [sample_claim]" "Inr []"]
  show ?thesis by simp
qed

end
