(* ===== verification/Requirements.thy ===== *)
theory Requirements
  imports Api
begin

text \<open>
  \<open>pkg/controllers/provisioning/scheduling/requirements.go\<close>: when do the requirements of a
  pool (or claim) and of a tunnel go together. The abstract specification is the set of label
  values that a requirement admits (\<open>admits\<close>); the lemmas say for which pairs of operators the
  code's table is the existence of a value that both sides admit, and where it is not.
\<close>

section \<open>The code\<close>

definition firstInt :: "string list \<Rightarrow> int option" where
  "firstInt vals = (case vals of [] \<Rightarrow> None | v # _ \<Rightarrow> Atoi v)"

fun intersects :: "string list \<Rightarrow> string list \<Rightarrow> bool" where
  "intersects [] b = False"
| "intersects (x # a) b = (if List.member b x then True else intersects a b)"

fun hasValueNotIn :: "string list \<Rightarrow> string list \<Rightarrow> bool" where
  "hasValueNotIn [] forbidden = False"
| "hasValueNotIn (v # vals) forbidden =
     (if \<not> List.member forbidden v then True else hasValueNotIn vals forbidden)"

fun anyIntGreater :: "string list \<Rightarrow> int \<Rightarrow> bool" where
  "anyIntGreater [] threshold = False"
| "anyIntGreater (v # vals) threshold =
     (case Atoi v of
        None \<Rightarrow> anyIntGreater vals threshold
      | Some n \<Rightarrow> if n > threshold then True else anyIntGreater vals threshold)"

fun anyIntLess :: "string list \<Rightarrow> int \<Rightarrow> bool" where
  "anyIntLess [] threshold = False"
| "anyIntLess (v # vals) threshold =
     (case Atoi v of
        None \<Rightarrow> anyIntLess vals threshold
      | Some n \<Rightarrow> if n < threshold then True else anyIntLess vals threshold)"

definition anyGreater :: "string list \<Rightarrow> string list \<Rightarrow> bool" where
  "anyGreater poolVals tunnelVals =
     (case firstInt tunnelVals of None \<Rightarrow> False | Some tv \<Rightarrow> anyIntGreater poolVals tv)"

definition anyLess :: "string list \<Rightarrow> string list \<Rightarrow> bool" where
  "anyLess poolVals tunnelVals =
     (case firstInt tunnelVals of None \<Rightarrow> False | Some tv \<Rightarrow> anyIntLess poolVals tv)"

definition inCompatible :: "Requirement \<Rightarrow> Requirement \<Rightarrow> bool" where
  "inCompatible p t =
     (case Operator t of
        OpIn \<Rightarrow> intersects (Values p) (Values t)
      | OpNotIn \<Rightarrow> hasValueNotIn (Values p) (Values t)
      | OpExists \<Rightarrow> True
      | OpDoesNotExist \<Rightarrow> False
      | OpGt \<Rightarrow> anyGreater (Values p) (Values t)
      | OpLt \<Rightarrow> anyLess (Values p) (Values t)
      | OpOther _ \<Rightarrow> False)"

definition notInCompatible :: "Requirement \<Rightarrow> Requirement \<Rightarrow> bool" where
  "notInCompatible p t =
     (case Operator t of
        OpIn \<Rightarrow> hasValueNotIn (Values t) (Values p)
      | OpNotIn \<Rightarrow> True
      | OpExists \<Rightarrow> True
      | OpDoesNotExist \<Rightarrow> True
      | OpGt \<Rightarrow> True
      | OpLt \<Rightarrow> True
      | OpOther _ \<Rightarrow> False)"

definition existsCompatible :: "Requirement \<Rightarrow> bool" where
  "existsCompatible t \<longleftrightarrow> Operator t \<noteq> OpDoesNotExist"

definition gtCompatible :: "Requirement \<Rightarrow> Requirement \<Rightarrow> bool" where
  "gtCompatible p t =
     (case firstInt (Values p) of
        None \<Rightarrow> False
      | Some pv \<Rightarrow>
          (case Operator t of
             OpIn \<Rightarrow> anyIntGreater (Values t) pv
           | OpGt \<Rightarrow> True
           | OpExists \<Rightarrow> True
           | OpNotIn \<Rightarrow> True
           | OpLt \<Rightarrow> (case firstInt (Values t) of None \<Rightarrow> False | Some tv \<Rightarrow> pv < tv)
           | OpDoesNotExist \<Rightarrow> False
           | OpOther _ \<Rightarrow> False))"

definition ltCompatible :: "Requirement \<Rightarrow> Requirement \<Rightarrow> bool" where
  "ltCompatible p t =
     (case firstInt (Values p) of
        None \<Rightarrow> False
      | Some pv \<Rightarrow>
          (case Operator t of
             OpIn \<Rightarrow> anyIntLess (Values t) pv
           | OpLt \<Rightarrow> True
           | OpExists \<Rightarrow> True
           | OpNotIn \<Rightarrow> True
           | OpGt \<Rightarrow> (case firstInt (Values t) of None \<Rightarrow> False | Some tv \<Rightarrow> tv < pv)
           | OpDoesNotExist \<Rightarrow> False
           | OpOther _ \<Rightarrow> False))"

definition operatorsCompatible :: "Requirement \<Rightarrow> Requirement \<Rightarrow> bool" where
  "operatorsCompatible p t =
     (case Operator p of
        OpIn \<Rightarrow> inCompatible p t
      | OpNotIn \<Rightarrow> notInCompatible p t
      | OpExists \<Rightarrow> existsCompatible t
      | OpDoesNotExist \<Rightarrow> Operator t = OpDoesNotExist
      | OpGt \<Rightarrow> gtCompatible p t
      | OpLt \<Rightarrow> ltCompatible p t
      | OpOther _ \<Rightarrow> False)"

text \<open>
  \<open>Compatible\<close> returns the first incompatible pair, in the order of the two nested loops, which
  the code puts in its error message; \<open>None\<close> is the nil error.
\<close>

fun compatible_row :: "Requirement \<Rightarrow> Requirement list \<Rightarrow> (Requirement \<times> Requirement) option" where
  "compatible_row p [] = None"
| "compatible_row p (t # ts) =
     (if Key t \<noteq> Key p then compatible_row p ts
      else if \<not> operatorsCompatible p t then Some (p, t)
      else compatible_row p ts)"

fun Compatible :: "Requirement list \<Rightarrow> Requirement list \<Rightarrow> (Requirement \<times> Requirement) option" where
  "Compatible [] tunnel = None"
| "Compatible (p # pool) tunnel =
     (case compatible_row p tunnel of None \<Rightarrow> Compatible pool tunnel | Some e \<Rightarrow> Some e)"

section \<open>The helper loops\<close>

lemma intersects_iff [simp]: "intersects a b \<longleftrightarrow> set a \<inter> set b \<noteq> {}"
  by (induction a) auto

lemma hasValueNotIn_iff [simp]: "hasValueNotIn vals forbidden \<longleftrightarrow> \<not> set vals \<subseteq> set forbidden"
  by (induction vals) auto

lemma anyIntGreater_iff [simp]:
  "anyIntGreater vals k \<longleftrightarrow> (\<exists>v \<in> set vals. \<exists>n. Atoi v = Some n \<and> k < n)"
  by (induction vals) (auto split: option.splits)

lemma anyIntLess_iff [simp]:
  "anyIntLess vals k \<longleftrightarrow> (\<exists>v \<in> set vals. \<exists>n. Atoi v = Some n \<and> n < k)"
  by (induction vals) (auto split: option.splits)

lemma compatible_row_iff:
  "compatible_row p ts = None \<longleftrightarrow> (\<forall>t \<in> set ts. Key t = Key p \<longrightarrow> operatorsCompatible p t)"
  by (induction ts) auto

lemma Compatible_None_iff:
  "Compatible pool tunnel = None \<longleftrightarrow>
     (\<forall>p \<in> set pool. \<forall>t \<in> set tunnel. Key t = Key p \<longrightarrow> operatorsCompatible p t)"
proof (induction pool)
  case Nil
  then show ?case by simp
next
  case (Cons p pool)
  show ?case
    using compatible_row_iff [of p tunnel] Cons.IH by (cases "compatible_row p tunnel") auto
qed

lemma Compatible_NoneD:
  "Compatible pool tunnel = None \<Longrightarrow> p \<in> set pool \<Longrightarrow> t \<in> set tunnel \<Longrightarrow> Key t = Key p \<Longrightarrow>
     operatorsCompatible p t"
  by (simp add: Compatible_None_iff)

lemma Compatible_append:
  "Compatible (xs @ ys) t = None \<longleftrightarrow> Compatible xs t = None \<and> Compatible ys t = None"
  by (auto simp: Compatible_None_iff)

section \<open>Specification: the label values a requirement admits\<close>

text \<open>
  A label has a value or is absent (\<open>None\<close>). \<open>NotIn\<close> is satisfied by an absent label, as in
  Kubernetes node selectors; \<open>Gt\<close> and \<open>Lt\<close> compare integers.
\<close>

definition admits :: "Requirement \<Rightarrow> string option \<Rightarrow> bool" where
  "admits r v =
     (case Operator r of
        OpIn \<Rightarrow> (\<exists>x. v = Some x \<and> x \<in> set (Values r))
      | OpNotIn \<Rightarrow> (\<forall>x. v = Some x \<longrightarrow> x \<notin> set (Values r))
      | OpExists \<Rightarrow> v \<noteq> None
      | OpDoesNotExist \<Rightarrow> v = None
      | OpGt \<Rightarrow> (\<exists>x n k. v = Some x \<and> Atoi x = Some n \<and> firstInt (Values r) = Some k \<and> k < n)
      | OpLt \<Rightarrow> (\<exists>x n k. v = Some x \<and> Atoi x = Some n \<and> firstInt (Values r) = Some k \<and> n < k)
      | OpOther _ \<Rightarrow> False)"

definition satisfiable :: "Requirement \<Rightarrow> Requirement \<Rightarrow> bool" where
  "satisfiable p t \<longleftrightarrow> (\<exists>v. admits p v \<and> admits t v)"

definition set_operator :: "NodeSelectorOperator \<Rightarrow> bool" where
  "set_operator op \<longleftrightarrow> op \<in> {OpIn, OpNotIn, OpExists, OpDoesNotExist}"

definition order_operator :: "NodeSelectorOperator \<Rightarrow> bool" where
  "order_operator op \<longleftrightarrow> op \<in> {OpGt, OpLt}"

text \<open>A string outside a finite list of strings always exists.\<close>

lemma fresh_string: "\<exists>x. x \<notin> set (xs :: string list)"
  using infinite_UNIV_listI ex_new_if_finite [of "set xs"] by blast

lemmas compat_defs = operatorsCompatible_def inCompatible_def notInCompatible_def
  existsCompatible_def gtCompatible_def ltCompatible_def anyGreater_def anyLess_def

text \<open>An integer strictly between the two bounds, as a decimal string.\<close>

lemma between_string:
  assumes "k + 1 < m" and "is_int64 k" and "is_int64 m"
  shows "\<exists>x n. Atoi x = Some n \<and> k < n \<and> n < m"
proof -
  have "is_int64 (k + 1)"
    using assms by (simp add: is_int64_def)
  then have "Atoi (Itoa (k + 1)) = Some (k + 1)"
    by (rule Atoi_Itoa)
  with assms(1) show ?thesis by (intro exI [of _ "Itoa (k + 1)"] exI [of _ "k + 1"]) simp
qed

lemma firstInt_is_int64: "firstInt vs = Some k \<Longrightarrow> is_int64 k"
  by (auto simp: firstInt_def Atoi_is_int64 split: list.splits)

lemma satisfiable_iff:
  "satisfiable p t \<longleftrightarrow>
     (admits p None \<and> admits t None) \<or> (\<exists>x. admits p (Some x) \<and> admits t (Some x))"
  unfolding satisfiable_def by (metis option.exhaust)

text \<open>The API asks for a value with \<open>In\<close>; without one, \<open>In\<close> admits nothing.\<close>

definition wf_req :: "Requirement \<Rightarrow> bool" where
  "wf_req r \<longleftrightarrow> (Operator r = OpIn \<longrightarrow> Values r \<noteq> [])"

lemma set_operators_exact:
  assumes "set_operator (Operator p)" and "set_operator (Operator t)"
    and "wf_req p" and "wf_req t"
    and "\<not> (Operator p = OpDoesNotExist \<and> Operator t = OpNotIn)"
  shows "operatorsCompatible p t \<longleftrightarrow> satisfiable p t"
proof -
  obtain x where x: "x \<notin> set (Values p)" "x \<notin> set (Values t)"
    using fresh_string [of "Values p @ Values t"] by auto
  show ?thesis
    using assms x unfolding satisfiable_iff set_operator_def wf_req_def
    by (cases "Operator p"; cases "Operator t")
      (auto simp: compat_defs admits_def neq_Nil_conv)
qed

lemma in_order_exact:
  assumes "Operator p = OpIn" and "order_operator (Operator t)"
  shows "operatorsCompatible p t \<longleftrightarrow> satisfiable p t"
  using assms unfolding satisfiable_iff order_operator_def
  by (cases "Operator t") (auto simp: compat_defs admits_def split: option.splits)

lemma order_in_exact:
  assumes "order_operator (Operator p)" and "Operator t = OpIn"
  shows "operatorsCompatible p t \<longleftrightarrow> satisfiable p t"
  using assms unfolding satisfiable_iff order_operator_def
  by (cases "Operator p") (auto simp: compat_defs admits_def split: option.splits)

lemma gt_lt_satisfiable:
  assumes "Operator p = OpGt" and "Operator t = OpLt"
  shows "satisfiable p t \<longleftrightarrow>
     (\<exists>k m. firstInt (Values p) = Some k \<and> firstInt (Values t) = Some m \<and> k + 1 < m)"
proof
  assume "satisfiable p t"
  then show "\<exists>k m. firstInt (Values p) = Some k \<and> firstInt (Values t) = Some m \<and> k + 1 < m"
    using assms by (auto simp: satisfiable_iff admits_def)
next
  assume "\<exists>k m. firstInt (Values p) = Some k \<and> firstInt (Values t) = Some m \<and> k + 1 < m"
  then obtain k m where km: "firstInt (Values p) = Some k" "firstInt (Values t) = Some m" "k + 1 < m"
    by blast
  then obtain x n where "Atoi x = Some n" "k < n" "n < m"
    using between_string [of k m] firstInt_is_int64 by blast
  with km show "satisfiable p t"
    using assms by (auto simp: satisfiable_iff admits_def)
qed

lemma gt_lt_compatible:
  assumes "Operator p = OpGt" and "Operator t = OpLt"
  shows "operatorsCompatible p t \<longleftrightarrow>
     (\<exists>k m. firstInt (Values p) = Some k \<and> firstInt (Values t) = Some m \<and> k < m)"
  using assms by (auto simp: compat_defs split: option.splits)

section \<open>Properties\<close>


definition sample_req :: "NodeSelectorOperator \<Rightarrow> string list \<Rightarrow> Requirement" where
  "sample_req op vs = \<lparr>Key = ''region'', Operator = op, Values = vs, MinValues = None\<rparr>"


text \<open>
  Where the table is not exact. It is not symmetric: \<open>NotIn\<close> on the pool side goes with
  \<open>DoesNotExist\<close> on the tunnel side but not the other way round, though the pair is
  satisfiable (an absent label satisfies both). And \<open>Gt\<close> with \<open>Lt\<close> of the next integer
  is reported compatible though no integer lies between.
\<close>

lemma not_in_does_not_exist_asymmetric:
  "operatorsCompatible (sample_req OpNotIn vs) (sample_req OpDoesNotExist []) \<and>
   \<not> operatorsCompatible (sample_req OpDoesNotExist []) (sample_req OpNotIn vs) \<and>
   satisfiable (sample_req OpDoesNotExist []) (sample_req OpNotIn vs)"
  by (auto simp: compat_defs sample_req_def satisfiable_iff admits_def)

lemma gt_lt_gap:
  assumes "firstInt vs = Some k" and "firstInt ws = Some (k + 1)"
  shows "operatorsCompatible (sample_req OpGt vs) (sample_req OpLt ws) \<and> \<not> satisfiable (sample_req OpGt vs) (sample_req OpLt ws)"
  using assms by (auto simp: gt_lt_compatible gt_lt_satisfiable sample_req_def)

end
