(* ===== verification/Offering.thy ===== *)
theory Offering
  imports Requirements Resources Samples
begin

text \<open>
  \<open>pkg/cloudprovider\<close> (the instance-type catalog and the registry of providers) and
  \<open>scheduling/offering.go\<close>: the choice of the cheapest instance type and offering. A provider is
  a value of an arbitrary type \<open>'p\<close>, and its \<open>GetInstanceTypes\<close> is an argument of the code that
  calls it. Prices are rationals.
\<close>

section \<open>The catalog\<close>

record Offering =
  ofRequirements :: "Requirement list"
  Price :: rat
  ofAvailable :: bool

record InstanceType =
  itName :: string
  itRequirements :: "Requirement list"
  itOfferings :: "Offering list"
  itCapacity :: ResourceList
  itOverhead :: ResourceList

fun put_each :: "ResourceList \<Rightarrow> ResourceList \<Rightarrow> ResourceList" where
  "put_each [] out = out"
| "put_each ((k, v) # l) out = put_each l (mput k v out)"

fun sub_each :: "ResourceList \<Rightarrow> ResourceList \<Rightarrow> ResourceList" where
  "sub_each [] out = out"
| "sub_each ((k, v) # l) out =
     sub_each l (case mget out k of None \<Rightarrow> out | Some cur \<Rightarrow> mput k (cur - v) out)"

definition it_Allocatable :: "InstanceType \<Rightarrow> ResourceList" where
  "it_Allocatable i = sub_each (itOverhead i) (put_each (itCapacity i) [])"

section \<open>The registry\<close>

datatype registry_error = AlreadyRegistered string | NotRegistered string

type_synonym 'p Registry = "(string, 'p) gomap"

definition Register :: "string \<Rightarrow> 'p \<Rightarrow> 'p Registry \<Rightarrow> registry_error + 'p Registry" where
  "Register kind p byKind =
     (if mhas byKind kind then Inl (AlreadyRegistered kind) else Inr (mput kind p byKind))"

definition For :: "'p Registry \<Rightarrow> string \<Rightarrow> registry_error + 'p" where
  "For byKind kind = (case mget byKind kind of None \<Rightarrow> Inl (NotRegistered kind) | Some p \<Rightarrow> Inr p)"

definition Kinds :: "order \<Rightarrow> 'p Registry \<Rightarrow> string list" where
  "Kinds ord byKind = map fst (in_order ord byKind)"

section \<open>The choice\<close>

datatype select_error =
    RegistryNil
  | NoProvider registry_error
  | GetInstanceTypesFailed string
  | EmptyCatalog string
  | NoInstanceTypeFits string

fun cheapest_loop ::
  "Requirement list \<Rightarrow> Requirement list \<Rightarrow> Offering list \<Rightarrow> Offering option \<Rightarrow> Offering option" where
  "cheapest_loop poolReqs tunnelReqs [] best = best"
| "cheapest_loop poolReqs tunnelReqs (off # offs) best =
     (if \<not> ofAvailable off then cheapest_loop poolReqs tunnelReqs offs best
      else if Compatible poolReqs (ofRequirements off) \<noteq> None then cheapest_loop poolReqs tunnelReqs offs best
      else if Compatible tunnelReqs (ofRequirements off) \<noteq> None then cheapest_loop poolReqs tunnelReqs offs best
      else cheapest_loop poolReqs tunnelReqs offs
             (case best of
                None \<Rightarrow> Some off
              | Some b \<Rightarrow> if Price off < Price b then Some off else best))"

definition cheapestCompatibleOffering ::
  "InstanceType \<Rightarrow> Requirement list \<Rightarrow> Requirement list \<Rightarrow> Offering option" where
  "cheapestCompatibleOffering it poolReqs tunnelReqs =
     cheapest_loop poolReqs tunnelReqs (itOfferings it) None"

fun select_candidates ::
  "Requirement list \<Rightarrow> Requirement list \<Rightarrow> ResourceList \<Rightarrow> InstanceType list \<Rightarrow>
     (InstanceType \<times> Offering) list" where
  "select_candidates poolReqs tunnelReqs requested [] = []"
| "select_candidates poolReqs tunnelReqs requested (it # its) =
     (let rest = select_candidates poolReqs tunnelReqs requested its
      in if Compatible poolReqs (itRequirements it) \<noteq> None then rest
         else if Compatible tunnelReqs (itRequirements it) \<noteq> None then rest
         else if \<not> ResourcesFit (it_Allocatable it) requested then rest
         else case cheapestCompatibleOffering it poolReqs tunnelReqs of
                None \<Rightarrow> rest
              | Some off \<Rightarrow> (it, off) # rest)"

definition SelectInstanceType ::
  "('p \<Rightarrow> ExitPool \<Rightarrow> string + InstanceType list) \<Rightarrow> 'p Registry option \<Rightarrow> ExitPool \<Rightarrow>
     Requirement list \<Rightarrow> ResourceList \<Rightarrow> select_error + InstanceType \<times> Offering" where
  "SelectInstanceType getInstanceTypes reg0 pool tunnelReqs requested =
     (case reg0 of
        None \<Rightarrow> Inl RegistryNil
      | Some reg \<Rightarrow>
     (case For reg (refKind (tmplProviderClassRef (pool_tmpl pool))) of
        Inl e \<Rightarrow> Inl (NoProvider e)
      | Inr cp \<Rightarrow>
     (case getInstanceTypes cp pool of
        Inl e \<Rightarrow> Inl (GetInstanceTypesFailed e)
      | Inr its \<Rightarrow>
          if its = [] then Inl (EmptyCatalog (Name pool))
          else
            let poolReqs = tmplRequirements (pool_tmpl pool);
                candidates = select_candidates poolReqs tunnelReqs requested its
            in case sort_key (\<lambda>c. Price (snd c)) candidates of
                 [] \<Rightarrow> Inl (NoInstanceTypeFits (Name pool))
               | c # _ \<Rightarrow> Inr c)))"

fun pin_loop :: "Requirement list \<Rightarrow> string list \<Rightarrow> Requirement list \<Rightarrow> string list \<times> Requirement list" where
  "pin_loop [] seen out = (seen, out)"
| "pin_loop (r # rs) seen out =
     (if Key r \<in> set seen then pin_loop rs seen out
      else pin_loop rs (sput (Key r) seen) (out @ [r]))"

definition PinChosen :: "InstanceType \<Rightarrow> Offering \<Rightarrow> Requirement list" where
  "PinChosen it off =
     (let (seen, out) = pin_loop (itRequirements it) [] [];
          (seen, out) = pin_loop (ofRequirements off) seen out
      in out)"

section \<open>Allocatable\<close>

lemma mget_put_each: "wf_map l \<Longrightarrow> mget (put_each l out) k = (case mget l k of None \<Rightarrow> mget out k | Some v \<Rightarrow> Some v)"
  by (induction l out rule: put_each.induct) (auto simp: wf_map_Cons mkeys_iff split: option.splits)

lemma mget_sub_each: "wf_map l \<Longrightarrow> mget (sub_each l out) k = map_option (\<lambda>v. v - rget l k) (mget out k)"
  by (induction l out rule: sub_each.induct)
    (auto simp: wf_map_Cons mkeys_iff rget_def option.map_ident split: option.splits)

lemma mget_it_Allocatable:
  "wf_map (itCapacity i) \<Longrightarrow> wf_map (itOverhead i) \<Longrightarrow>
     mget (it_Allocatable i) k = map_option (\<lambda>v. v - rget (itOverhead i) k) (mget (itCapacity i) k)"
  by (simp add: it_Allocatable_def mget_sub_each mget_put_each option.case_eq_if)

section \<open>The choice is the cheapest\<close>

definition offering_ok :: "Requirement list \<Rightarrow> Requirement list \<Rightarrow> Offering \<Rightarrow> bool" where
  "offering_ok poolReqs tunnelReqs off \<longleftrightarrow> ofAvailable off \<and>
     Compatible poolReqs (ofRequirements off) = None \<and> Compatible tunnelReqs (ofRequirements off) = None"

text \<open>The pairs that a pool and a tunnel allow.\<close>

definition feasible ::
  "Requirement list \<Rightarrow> Requirement list \<Rightarrow> ResourceList \<Rightarrow> InstanceType \<Rightarrow> Offering \<Rightarrow> bool" where
  "feasible poolReqs tunnelReqs requested it off \<longleftrightarrow>
     Compatible poolReqs (itRequirements it) = None \<and> Compatible tunnelReqs (itRequirements it) = None \<and>
     ResourcesFit (it_Allocatable it) requested \<and>
     off \<in> set (itOfferings it) \<and> offering_ok poolReqs tunnelReqs off"

lemma cheapest_loop_None:
  "cheapest_loop pr tr offs best = None \<longleftrightarrow> best = None \<and> (\<forall>x \<in> set offs. \<not> offering_ok pr tr x)"
  by (induction pr tr offs best rule: cheapest_loop.induct)
    (auto simp: offering_ok_def split: option.splits)

lemma cheapest_loop_Some:
  "cheapest_loop pr tr offs best = Some b \<Longrightarrow>
     (best = Some b \<or> (b \<in> set offs \<and> offering_ok pr tr b)) \<and>
     (\<forall>x. best = Some x \<or> (x \<in> set offs \<and> offering_ok pr tr x) \<longrightarrow> Price b \<le> Price x)"
proof (induction pr tr offs best rule: cheapest_loop.induct)
  case (1 pr tr best)
  then show ?case by simp
next
  case (2 pr tr off offs best)
  show ?case
  proof (cases "offering_ok pr tr off")
    case False
    with 2 show ?thesis by (auto simp: offering_ok_def split: if_splits)
  next
    case True
    let ?best = "case best of None \<Rightarrow> Some off | Some b \<Rightarrow> if Price off < Price b then Some off else best"
    from True 2 have IH: "(?best = Some b \<or> (b \<in> set offs \<and> offering_ok pr tr b)) \<and>
      (\<forall>x. ?best = Some x \<or> (x \<in> set offs \<and> offering_ok pr tr x) \<longrightarrow> Price b \<le> Price x)"
      by (simp add: offering_ok_def)
    moreover have "Price b \<le> Price off"
      using IH by (cases best) (auto split: if_splits)
    moreover have "Price b \<le> Price x" if "best = Some x" for x
      using IH that by (auto split: if_splits)
    ultimately show ?thesis
      using True by (cases best) (auto split: if_splits)
  qed
qed

lemma set_select_candidates:
  "(it, off) \<in> set (select_candidates pr tr req its) \<longleftrightarrow>
     it \<in> set its \<and> Compatible pr (itRequirements it) = None \<and> Compatible tr (itRequirements it) = None \<and>
     ResourcesFit (it_Allocatable it) req \<and> cheapestCompatibleOffering it pr tr = Some off"
  by (induction pr tr req its rule: select_candidates.induct)
    (auto simp: Let_def simp del: not_None_eq split: option.splits)

lemma candidates_empty_iff:
  "select_candidates pr tr req its = [] \<longleftrightarrow> (\<forall>it \<in> set its. \<forall>off. \<not> feasible pr tr req it off)"
proof -
  have "select_candidates pr tr req its = [] \<longleftrightarrow> (\<forall>it off. (it, off) \<notin> set (select_candidates pr tr req its))"
    by (metis list.set_sel(1) prod.exhaust empty_iff empty_set)
  also have "\<dots> \<longleftrightarrow> (\<forall>it \<in> set its. \<forall>off. \<not> feasible pr tr req it off)"
    unfolding set_select_candidates feasible_def cheapestCompatibleOffering_def
    by (metis cheapest_loop_None not_None_eq)
  finally show ?thesis .
qed

lemma hd_sort_key_le: "sort_key f xs = y # ys \<Longrightarrow> y \<in> set xs \<and> (\<forall>x \<in> set xs. f y \<le> f x)"
  using sorted_sort_key [of f xs] set_sort [of f xs] by auto

text \<open>
  C8: The choice of the instance type is optimal. When the provider of the pool is registered and
  offers a catalog, \<open>SelectInstanceType\<close> returns a pair that satisfies the requirements of the pool
  and of the tunnel, whose allocatable resources hold the request and whose offering is available,
  and no other such pair of the catalog has a lower price; it reports that no instance type
  fits exactly when the catalog has no such pair.
\<close>

theorem SelectInstanceType_cheapest:
  assumes "For reg (refKind (tmplProviderClassRef (pool_tmpl pool))) = Inr cp"
    and "get cp pool = Inr its" and "its \<noteq> []"
  shows "case SelectInstanceType get (Some reg) pool tr req of
      Inr (it, off) \<Rightarrow>
        it \<in> set its \<and> feasible (tmplRequirements (pool_tmpl pool)) tr req it off \<and>
        (\<forall>it' \<in> set its. \<forall>off'. feasible (tmplRequirements (pool_tmpl pool)) tr req it' off' \<longrightarrow>
           Price off \<le> Price off')
    | Inl e \<Rightarrow>
        e = NoInstanceTypeFits (Name pool) \<and>
        (\<forall>it \<in> set its. \<forall>off. \<not> feasible (tmplRequirements (pool_tmpl pool)) tr req it off)"
proof -
  let ?pr = "tmplRequirements (pool_tmpl pool)"
  let ?cs = "select_candidates ?pr tr req its"
  have sel: "SelectInstanceType get (Some reg) pool tr req =
      (case sort_key (\<lambda>c. Price (snd c)) ?cs of [] \<Rightarrow> Inl (NoInstanceTypeFits (Name pool)) | c # _ \<Rightarrow> Inr c)"
    using assms by (simp add: SelectInstanceType_def Let_def)
  show ?thesis
  proof (cases "sort_key (\<lambda>c. Price (snd c)) ?cs")
    case Nil
    then have "?cs = []" by (metis set_empty2 set_sort)
    with Nil sel show ?thesis by (simp add: candidates_empty_iff)
  next
    case (Cons c cs)
    obtain it off where c: "c = (it, off)" by (cases c)
    with hd_sort_key_le [OF Cons] have mem: "(it, off) \<in> set ?cs"
      and le: "\<And>it' off'. (it', off') \<in> set ?cs \<Longrightarrow> Price off \<le> Price off'" by auto
    have "feasible ?pr tr req it off" "it \<in> set its"
      using mem cheapest_loop_Some [of ?pr tr "itOfferings it" None off]
      by (auto simp: set_select_candidates feasible_def cheapestCompatibleOffering_def)
    moreover have "Price off \<le> Price off'"
      if f: "it' \<in> set its" "feasible ?pr tr req it' off'" for it' off'
    proof -
      from f have ok: "off' \<in> set (itOfferings it')" "offering_ok ?pr tr off'" by (simp_all add: feasible_def)
      then obtain b where b: "cheapestCompatibleOffering it' ?pr tr = Some b"
        unfolding cheapestCompatibleOffering_def by (metis cheapest_loop_None not_None_eq)
      with f have "(it', b) \<in> set ?cs" by (simp add: set_select_candidates feasible_def)
      moreover from b ok have "Price b \<le> Price off'"
        using cheapest_loop_Some unfolding cheapestCompatibleOffering_def by blast
      ultimately show ?thesis using le by fastforce
    qed
    ultimately show ?thesis using sel Cons c by simp
  qed
qed

definition offer :: "rat \<Rightarrow> bool \<Rightarrow> Offering" where
  "offer p a = \<lparr>ofRequirements = [], Price = p, ofAvailable = a\<rparr>"

definition sample_types :: "InstanceType list" where
  "sample_types =
     [\<lparr>itName = ''big'', itRequirements = [], itOfferings = [offer 9 True], itCapacity = [(''cpu'', 8)],
        itOverhead = [(''cpu'', 1)]\<rparr>,
      \<lparr>itName = ''small'', itRequirements = [], itOfferings = [offer 1 False, offer 4 True, offer 3 True],
        itCapacity = [(''cpu'', 2)], itOverhead = []\<rparr>]"

theorem SelectInstanceType_cheapest_witness:
  "SelectInstanceType (\<lambda>_ _. Inr sample_types) (Some [(''Fake'', ())]) sample_pool [] [(''cpu'', 2)] =
     Inr (sample_types ! 1, offer 3 True) \<and>
   (\<nexists>off'. feasible [] [] [(''cpu'', 2)] (sample_types ! 0) off' \<and> Price off' < 3)"
proof -
  have sel: "SelectInstanceType (\<lambda>_ _. Inr sample_types) (Some [(''Fake'', ())]) sample_pool [] [(''cpu'', 2)] =
      Inr (sample_types ! 1, offer 3 True)"
    by (simp add: SelectInstanceType_def For_def sample_defs sample_types_def it_Allocatable_def
        cheapestCompatibleOffering_def offer_def)
  have "For [(''Fake'', ())] (refKind (tmplProviderClassRef (pool_tmpl sample_pool))) = Inr ()"
    by (simp add: For_def sample_defs)
  from SelectInstanceType_cheapest [OF this, of "\<lambda>_ _. Inr sample_types" sample_types "[]" "[(''cpu'', 2)]"] sel
  show ?thesis by (auto simp: sample_types_def sample_pool_def offer_def)
qed

section \<open>Pinning\<close>

lemma find_append: "find P (xs @ ys) = (case find P xs of None \<Rightarrow> find P ys | Some x \<Rightarrow> Some x)"
  by (induction xs) auto

lemma pin_loop_spec:
  "set seen = Key ` set out \<Longrightarrow> distinct (map Key out) \<Longrightarrow>
     (case pin_loop rs seen out of (seen', out') \<Rightarrow>
        set seen' = Key ` set out' \<and> distinct (map Key out') \<and>
        Key ` set out' = Key ` set out \<union> Key ` set rs \<and>
        (\<forall>k. find (\<lambda>r. Key r = k) out' = find (\<lambda>r. Key r = k) (out @ rs)))"
proof (induction rs seen out rule: pin_loop.induct)
  case (1 seen out)
  then show ?case by simp
next
  case (2 r rs seen out)
  have skip: "find (\<lambda>r. Key r = k) (out @ r # rs) = find (\<lambda>r. Key r = k) (out @ rs)"
    if "Key r \<in> Key ` set out" for k
    using that find_None_iff [of "\<lambda>r. Key r = k" out]
    by (cases "find (\<lambda>r. Key r = k) out") (auto simp: find_append)
  show ?case
  proof (cases "Key r \<in> set seen")
    case True
    with 2 have m: "Key r \<in> Key ` set out" by simp
    from True 2 skip [OF m] show ?thesis by (auto simp: split_beta)
  next
    case False
    with 2 show ?thesis by (auto simp: split_beta)
  qed
qed

lemma PinChosen_spec:
  "distinct (map Key (PinChosen it off)) \<and>
   Key ` set (PinChosen it off) = Key ` set (itRequirements it) \<union> Key ` set (ofRequirements off) \<and>
   (\<forall>k. find (\<lambda>r. Key r = k) (PinChosen it off) = find (\<lambda>r. Key r = k) (itRequirements it @ ofRequirements off))"
proof -
  obtain s1 o1 where 1: "pin_loop (itRequirements it) [] [] = (s1, o1)" by fastforce
  obtain s2 o2 where 2: "pin_loop (ofRequirements off) s1 o1 = (s2, o2)" by fastforce
  from pin_loop_spec [of "[]" "[]" "itRequirements it"] 1 have 3:
    "set s1 = Key ` set o1" "distinct (map Key o1)" "Key ` set o1 = Key ` set (itRequirements it)"
    "\<forall>k. find (\<lambda>r. Key r = k) o1 = find (\<lambda>r. Key r = k) (itRequirements it)" by simp_all
  from pin_loop_spec [OF 3(1,2), of "ofRequirements off"] 2 3(3,4) show ?thesis
    by (simp add: PinChosen_def 1 2 find_append)
qed

end
