(* ===== verification/Ports.thy ===== *)
theory Ports
  imports Api "HOL-Library.Multiset"
begin

text \<open>
  \<open>pkg/controllers/provisioning/scheduling/ports.go\<close>: which public ports an exit still has free,
  and how a tunnel's ports are resolved against them. The expansion of a range is a loop over a 64-bit
  counter that does not return when the range ends at the largest \<open>int\<close>; \<open>None\<close> is that outcome,
  and everything that calls the expansion passes it on.
\<close>

section \<open>The code\<close>

text \<open>\<open>for p := lo; p \<le> hi; p++ { free[int32(p)] = struct{}{} }\<close>\<close>

partial_function (option) addRange :: "int \<Rightarrow> int \<Rightarrow> int list \<Rightarrow> int list option" where
  "addRange p hi free =
     (if p \<le> hi then addRange (int64 (p + 1)) hi (sput (int32 p) free) else Some free)"

declare addRange.simps [code]

definition addSpec :: "string \<Rightarrow> int list \<Rightarrow> int list option" where
  "addSpec spec0 free =
     (let spec = TrimSpace spec0
      in if spec = [] then Some free
         else (case Cut spec CHR ''-'' of
                 Some (loStr, hiStr) \<Rightarrow>
                   (case (Atoi (TrimSpace loStr), Atoi (TrimSpace hiStr)) of
                      (Some lo, Some hi) \<Rightarrow> if lo > hi then Some free else addRange lo hi free
                    | _ \<Rightarrow> Some free)
               | None \<Rightarrow>
                   (case Atoi spec of None \<Rightarrow> Some free | Some n \<Rightarrow> Some (sput (int32 n) free))))"

fun addSpecs :: "string list \<Rightarrow> int list \<Rightarrow> int list option" where
  "addSpecs [] free = Some free"
| "addSpecs (spec # specs) free = Option.bind (addSpec spec free) (addSpecs specs)"

definition computeFree :: "string list \<Rightarrow> int list \<Rightarrow> int list \<Rightarrow> int list option" where
  "computeFree allowPorts reserved used =
     Option.bind (addSpecs allowPorts []) (\<lambda>free. Some (sdel_all used (sdel_all reserved free)))"

text \<open>\<open>sortedKeys\<close> is an insertion sort on the keys, in whatever order \<open>range\<close> gave them.\<close>

fun sift :: "nat \<Rightarrow> int list \<Rightarrow> int list" where
  "sift 0 out = out"
| "sift (Suc j) out =
     (if out ! j > out ! Suc j then sift j (out[j := out ! Suc j, Suc j := out ! j]) else out)"

definition sortedKeys :: "int list \<Rightarrow> int list" where
  "sortedKeys m = foldl (\<lambda>out i. sift i out) m [1..<length m]"

text \<open>
  Pass 1 of \<open>ResolveAutoAssign\<close>: explicit ports leave the free set and enter the result at their
  position; the positions of the others are collected. \<open>None\<close> is the early \<open>return nil, false\<close>.
\<close>

fun claimExplicit ::
  "nat \<Rightarrow> TunnelPort list \<Rightarrow> int list \<Rightarrow> int list \<Rightarrow> nat list \<Rightarrow>
     (int list \<times> int list \<times> nat list) option" where
  "claimExplicit i [] free out autoIdx = Some (free, out, autoIdx)"
| "claimExplicit i (p # ps) free out autoIdx =
     (if PublicPort p = None \<or> PublicPort p = Some 0 then
        claimExplicit (Suc i) ps free out (autoIdx @ [i])
      else let want = the (PublicPort p)
           in if want \<notin> set free then None
              else claimExplicit (Suc i) ps (sdel want free) (out[i := want]) autoIdx)"

definition assignAutos :: "nat list \<Rightarrow> int list \<Rightarrow> int list \<Rightarrow> int list" where
  "assignAutos autoIdx freeSorted out =
     foldl (\<lambda>out (idx, p). out[idx := p]) out (zip autoIdx freeSorted)"

text \<open>\<open>None\<close>: does not return; \<open>Some None\<close>: \<open>nil, false\<close>; \<open>Some (Some out)\<close>: \<open>out, true\<close>.\<close>

definition ResolveAutoAssign ::
  "string list \<Rightarrow> int list \<Rightarrow> int list \<Rightarrow> TunnelPort list \<Rightarrow> int list option option" where
  "ResolveAutoAssign allowPorts reserved used requested =
     Option.bind (computeFree allowPorts reserved used) (\<lambda>free.
       case claimExplicit 0 requested free (replicate (length requested) 0) [] of
         None \<Rightarrow> Some None
       | Some (free', out, autoIdx) \<Rightarrow>
           if autoIdx = [] then Some (Some out)
           else let freeSorted = sortedKeys free'
                in if length freeSorted < length autoIdx then Some None
                   else Some (Some (assignAutos autoIdx freeSorted out)))"

definition PortsFit ::
  "string list \<Rightarrow> int list \<Rightarrow> int list \<Rightarrow> TunnelPort list \<Rightarrow> bool option" where
  "PortsFit allowPorts reserved used requested =
     map_option (\<lambda>r. r \<noteq> None) (ResolveAutoAssign allowPorts reserved used requested)"

section \<open>The range loop\<close>

lemma is_int64_le_max: "is_int64 p \<Longrightarrow> p \<le> max_int64"
  by (simp add: is_int64_def)

lemma addRange_returns_aux:
  "is_int64 p \<Longrightarrow> hi < max_int64 \<Longrightarrow> nat (hi + 1 - p) = n \<Longrightarrow>
     \<exists>r. addRange p hi free = Some r \<and> set r = set free \<union> int32 ` {p..hi} \<and>
         (distinct free \<longrightarrow> distinct r)"
proof (induction n arbitrary: p free)
  case 0
  then show ?case by (subst addRange.simps) auto
next
  case (Suc n)
  then have p: "p \<le> hi" "is_int64 (p + 1)"
    by (auto simp: is_int64_def)
  then have range: "{p..hi} = insert p {p + 1..hi}" by auto
  have "nat (hi + 1 - (p + 1)) = n"
    using Suc.prems(3) p(1) by linarith
  from Suc.IH [OF p(2) Suc.prems(2) this, of "sput (int32 p) free"] obtain r
    where "addRange (p + 1) hi (sput (int32 p) free) = Some r"
      "set r = set (sput (int32 p) free) \<union> int32 ` {p + 1..hi}"
      "distinct (sput (int32 p) free) \<longrightarrow> distinct r" by blast
  with p range show ?case
    by (subst addRange.simps) auto
qed

lemma addRange_returns:
  assumes "is_int64 p" and "hi < max_int64"
  obtains r where "addRange p hi free = Some r" and "set r = set free \<union> int32 ` {p..hi}"
    and "distinct free \<Longrightarrow> distinct r"
  using addRange_returns_aux [OF assms refl, of free] by blast

text \<open>Whatever the loop returns has the keys of the range; it never returns if \<open>hi\<close> is the largest \<open>int\<close>.\<close>

lemma addRange_max_diverges: "is_int64 p \<Longrightarrow> addRange p max_int64 free = None"
proof (rule ccontr)
  assume p: "is_int64 p" and "addRange p max_int64 free \<noteq> None"
  then obtain r where r: "addRange p max_int64 free = Some r" by blast
  have "\<not> (hi = max_int64 \<and> is_int64 q)"
    if "addRange q hi free = Some r" for q hi free r
    using that
    by (rule addRange.raw_induct [where P = "\<lambda>q hi free r. \<not> (hi = max_int64 \<and> is_int64 q)", rotated])
      (metis is_int64_int64 is_int64_le_max)
  with r p show False by blast
qed

section \<open>The free set\<close>

text \<open>The ports that one entry of \<open>AllowPorts\<close> stands for, and the entries whose expansion does not return.\<close>

definition spec_ports :: "string \<Rightarrow> int set" where
  "spec_ports s =
     (case Cut (TrimSpace s) CHR ''-'' of
        Some (lo, hi) \<Rightarrow>
          (case (Atoi (TrimSpace lo), Atoi (TrimSpace hi)) of
             (Some l, Some h) \<Rightarrow> int32 ` {l..h}
           | _ \<Rightarrow> {})
      | None \<Rightarrow> (case Atoi (TrimSpace s) of None \<Rightarrow> {} | Some n \<Rightarrow> {int32 n}))"

definition spec_diverges :: "string \<Rightarrow> bool" where
  "spec_diverges s =
     (case Cut (TrimSpace s) CHR ''-'' of
        Some (lo, hi) \<Rightarrow> Atoi (TrimSpace lo) \<noteq> None \<and> Atoi (TrimSpace hi) = Some max_int64
      | None \<Rightarrow> False)"

definition allowed_ports :: "string list \<Rightarrow> int list \<Rightarrow> int set" where
  "allowed_ports allow reserved = (\<Union>s \<in> set allow. spec_ports s) - set reserved"

lemma addRange_cases:
  assumes "is_int64 lo" and "is_int64 hi" and "lo \<le> hi"
  shows "if hi = max_int64 then addRange lo hi free = None
         else \<exists>r. addRange lo hi free = Some r \<and> set r = set free \<union> int32 ` {lo..hi} \<and>
                (distinct free \<longrightarrow> distinct r)"
proof (cases "hi = max_int64")
  case True
  then show ?thesis using addRange_max_diverges [OF assms(1)] by simp
next
  case False
  then have "hi < max_int64" using assms(2) is_int64_le_max by fastforce
  then show ?thesis using False addRange_returns [OF assms(1)] by (metis (no_types, lifting))
qed

lemma addSpec_cases:
  "if spec_diverges s then addSpec s free = None
   else \<exists>r. addSpec s free = Some r \<and> set r = set free \<union> spec_ports s \<and> (distinct free \<longrightarrow> distinct r)"
proof (cases "Cut (TrimSpace s) CHR ''-''")
  case None
  then show ?thesis
    by (auto simp: addSpec_def spec_diverges_def spec_ports_def Let_def split: option.splits)
next
  case (Some ab)
  then obtain lo hi where cut: "Cut (TrimSpace s) CHR ''-'' = Some (lo, hi)" by (cases ab) auto
  then have ne: "TrimSpace s \<noteq> []" by auto
  show ?thesis
  proof (cases "\<exists>l h. Atoi (TrimSpace lo) = Some l \<and> Atoi (TrimSpace hi) = Some h \<and> l \<le> h")
    case True
    then obtain l h where lh: "Atoi (TrimSpace lo) = Some l" "Atoi (TrimSpace hi) = Some h" "l \<le> h"
      by blast
    with addRange_cases [of l h free] show ?thesis
      using cut ne Atoi_is_int64 [of "TrimSpace lo" l] Atoi_is_int64 [of "TrimSpace hi" h]
      by (auto simp: addSpec_def spec_diverges_def spec_ports_def Let_def split: if_splits)
  next
    case False
    moreover have "l \<le> max_int64" if "Atoi (TrimSpace lo) = Some l" for l
      using Atoi_is_int64 [OF that] by (rule is_int64_le_max)
    ultimately show ?thesis
      using cut ne
      by (auto simp: addSpec_def spec_diverges_def spec_ports_def Let_def split: option.splits)
  qed
qed

lemma addSpecs_cases:
  "if \<exists>s \<in> set specs. spec_diverges s then addSpecs specs free = None
   else \<exists>r. addSpecs specs free = Some r \<and> set r = set free \<union> (\<Union>s \<in> set specs. spec_ports s) \<and>
          (distinct free \<longrightarrow> distinct r)"
proof (induction specs arbitrary: free)
  case Nil
  then show ?case by simp
next
  case (Cons s specs)
  show ?case
  proof (cases "spec_diverges s")
    case True
    then show ?thesis using addSpec_cases [of s free] by simp
  next
    case False
    then obtain r where "addSpec s free = Some r" "set r = set free \<union> spec_ports s"
      "distinct free \<longrightarrow> distinct r"
      using addSpec_cases [of s free] by auto
    with Cons.IH [of r] False show ?thesis by (auto split: if_splits)
  qed
qed

lemma computeFree_None_iff:
  "computeFree allow reserved used = None \<longleftrightarrow> (\<exists>s \<in> set allow. spec_diverges s)"
  using addSpecs_cases [of allow "[]"] by (auto simp: computeFree_def split: if_splits)

lemma computeFree_Some:
  assumes "computeFree allow reserved used = Some free"
  shows "distinct free \<and> set free = allowed_ports allow reserved - set used"
proof -
  obtain r where r: "addSpecs allow [] = Some r" and free: "free = sdel_all used (sdel_all reserved r)"
    using assms by (auto simp: computeFree_def bind_eq_Some_conv)
  then have "set r = (\<Union>s \<in> set allow. spec_ports s)" "distinct r"
    using addSpecs_cases [of allow "[]"] by (auto split: if_splits)
  with free show ?thesis by (auto simp: allowed_ports_def)
qed

section \<open>Sorting the free keys\<close>

lemma sift_insert:
  "sorted ys \<Longrightarrow> \<exists>r. sift (length ys) (ys @ x # zs) = r @ zs \<and> sorted r \<and> mset r = mset (x # ys)"
proof (induction ys arbitrary: zs rule: rev_induct)
  case Nil
  show ?case by (intro exI [of _ "[x]"]) simp
next
  case (snoc y ys)
  show ?case
  proof (cases "y > x")
    case True
    from snoc.IH [of "y # zs"] snoc.prems obtain r
      where r: "sift (length ys) (ys @ x # y # zs) = r @ y # zs" "sorted r" "mset r = mset (x # ys)"
      by (auto simp: sorted_append)
    have "set r = insert x (set ys)"
      using r(3) by (metis list.simps(15) mset_eq_setD)
    then have "\<forall>a \<in> set r. a \<le> y"
      using snoc.prems True by (auto simp: sorted_append)
    with r have "sorted (r @ [y])" by (simp add: sorted_append)
    with r True show ?thesis
      by (intro exI [of _ "r @ [y]"]) (simp add: nth_append list_update_append)
  next
    case False
    with snoc.prems have "sorted (ys @ [y, x])" by (fastforce simp: sorted_append)
    with False show ?thesis
      by (intro exI [of _ "ys @ [y, x]"]) (simp add: nth_append)
  qed
qed

lemma sortedKeys_prefix:
  "k < length m \<Longrightarrow> \<exists>r. foldl (\<lambda>out i. sift i out) m [1..<Suc k] = r @ drop (Suc k) m \<and>
     sorted r \<and> mset r = mset (take (Suc k) m)"
proof (induction k)
  case 0
  then show ?case by (intro exI [of _ "take 1 m"]) (cases m; simp)
next
  case (Suc k)
  then obtain r where r: "foldl (\<lambda>out i. sift i out) m [1..<Suc k] = r @ drop (Suc k) m"
    "sorted r" "mset r = mset (take (Suc k) m)" by auto
  from r(3) have len: "length r = Suc k"
    using Suc.prems by (metis length_take min.absorb2 size_mset less_imp_le)
  have d: "drop (Suc k) m = m ! Suc k # drop (Suc (Suc k)) m"
    using Suc.prems by (simp add: Cons_nth_drop_Suc)
  from sift_insert [OF r(2), of "m ! Suc k" "drop (Suc (Suc k)) m"] obtain r'
    where r': "sift (Suc k) (r @ m ! Suc k # drop (Suc (Suc k)) m) = r' @ drop (Suc (Suc k)) m"
      "sorted r'" "mset r' = mset (m ! Suc k # r)" using len by auto
  have "mset r' = mset (take (Suc (Suc k)) m)"
    using r'(3) r(3) Suc.prems by (simp add: take_Suc_conv_app_nth)
  with r r' d show ?case by auto
qed

lemma sortedKeys_eq_sort: "sortedKeys m = sort m"
proof (cases m)
  case Nil
  then show ?thesis by (simp add: sortedKeys_def)
next
  case (Cons a m')
  then have n: "length m = Suc (length m')" by simp
  from sortedKeys_prefix [of "length m'" m]
  have "sorted (sortedKeys m) \<and> mset (sortedKeys m) = mset m"
    unfolding sortedKeys_def n by (auto simp: n)
  then show ?thesis by (metis properties_for_sort)
qed

text \<open>So the order in which \<open>range\<close> visits the map does not matter.\<close>

lemma sortedKeys_set:
  "distinct m \<Longrightarrow> sortedKeys m = sorted_list_of_set (set m)"
  by (simp add: sortedKeys_eq_sort sorted_list_of_set_sort_remdups distinct_remdups_id)

section \<open>Resolution against a reference definition\<close>

definition explicit :: "TunnelPort \<Rightarrow> bool" where
  "explicit p \<longleftrightarrow> PublicPort p \<noteq> None \<and> PublicPort p \<noteq> Some 0"

definition wants :: "TunnelPort list \<Rightarrow> int list" where
  "wants ps = map (\<lambda>p. the (PublicPort p)) (filter explicit ps)"

definition autos :: "TunnelPort list \<Rightarrow> nat" where
  "autos ps = length (filter (\<lambda>p. \<not> explicit p) ps)"

text \<open>The reference: explicit ports as they are, the others from a supply, in order.\<close>

fun resolved :: "TunnelPort list \<Rightarrow> int list \<Rightarrow> int list" where
  "resolved [] supply = []"
| "resolved (p # ps) supply =
     (if explicit p then the (PublicPort p) # resolved ps supply
      else hd supply # resolved ps (tl supply))"

definition resolve_spec :: "int set \<Rightarrow> TunnelPort list \<Rightarrow> int list option" where
  "resolve_spec free ps =
     (if distinct (wants ps) \<and> set (wants ps) \<subseteq> free \<and> autos ps \<le> card (free - set (wants ps))
      then Some (resolved ps (sorted_list_of_set (free - set (wants ps)))) else None)"

fun put_explicit :: "nat \<Rightarrow> TunnelPort list \<Rightarrow> int list \<Rightarrow> int list" where
  "put_explicit i [] out = out"
| "put_explicit i (p # ps) out =
     put_explicit (Suc i) ps (if explicit p then out[i := the (PublicPort p)] else out)"

fun auto_idx :: "nat \<Rightarrow> TunnelPort list \<Rightarrow> nat list" where
  "auto_idx i [] = []"
| "auto_idx i (p # ps) = (if explicit p then auto_idx (Suc i) ps else i # auto_idx (Suc i) ps)"

lemma wants_simps [simp]:
  "wants [] = []"
  "wants (p # ps) = (if explicit p then the (PublicPort p) # wants ps else wants ps)"
  by (simp_all add: wants_def)

lemma autos_simps [simp]:
  "autos [] = 0"
  "autos (p # ps) = (if explicit p then autos ps else Suc (autos ps))"
  by (simp_all add: autos_def)

lemma length_auto_idx [simp]: "length (auto_idx i ps) = autos ps"
  by (induction ps arbitrary: i) auto

lemma sdel_all_Cons: "sdel_all (x # xs) s = sdel_all xs (sdel x s)"
  by (simp add: sdel_all_def)

lemma claimExplicit_eq:
  "claimExplicit i ps free out auto =
     (if distinct (wants ps) \<and> set (wants ps) \<subseteq> set free
      then Some (sdel_all (wants ps) free, put_explicit i ps out, auto @ auto_idx i ps) else None)"
proof (induction ps arbitrary: i free out auto)
  case Nil
  then show ?case by (simp add: sdel_all_def)
next
  case (Cons p ps)
  then show ?case
    by (auto simp: explicit_def Let_def sdel_all_Cons)
qed

lemma put_explicit_swap:
  "j < i \<Longrightarrow> put_explicit i ps (out[j := v]) = (put_explicit i ps out)[j := v]"
proof (induction ps arbitrary: i out)
  case Nil
  then show ?case by simp
next
  case (Cons p ps)
  then have "j \<noteq> i" by simp
  then show ?case
    using Cons by (simp add: list_update_swap [of j i])
qed

lemma assignAutos_simps [simp]:
  "assignAutos [] S out = out"
  "assignAutos (i # is) (s # S) out = assignAutos is S (out[i := s])"
  by (simp_all add: assignAutos_def)

lemma assignAutos_resolved:
  "autos ps \<le> length S \<Longrightarrow>
     assignAutos (auto_idx (length pre) ps) S
       (put_explicit (length pre) ps (pre @ replicate (length ps) 0)) = pre @ resolved ps S"
proof (induction ps arbitrary: pre S)
  case Nil
  then show ?case by simp
next
  case (Cons p ps)
  show ?case
  proof (cases "explicit p")
    case True
    with Cons.IH [of S "pre @ [the (PublicPort p)]"] Cons.prems show ?thesis
      by (simp add: list_update_append)
  next
    case False
    with Cons.prems obtain s S' where S: "S = s # S'" "autos ps \<le> length S'"
      by (cases S) auto
    with Cons.IH [of S' "pre @ [s]"] False show ?thesis
      by (simp add: put_explicit_swap [symmetric] list_update_append)
  qed
qed

lemma length_resolved [simp]: "length (resolved ps S) = length ps"
  by (induction ps arbitrary: S) auto

lemma resolved_no_autos: "autos ps = 0 \<Longrightarrow> resolved ps S = resolved ps S'"
  by (induction ps arbitrary: S S') (auto split: if_splits)

lemma ResolveAutoAssign_None_iff:
  "ResolveAutoAssign allow reserved used ps = None \<longleftrightarrow> (\<exists>s \<in> set allow. spec_diverges s)"
  using computeFree_None_iff [of allow reserved used]
  by (auto simp: ResolveAutoAssign_def Let_def split: option.splits if_splits Option.bind_splits)

lemma ResolveAutoAssign_spec:
  assumes "\<not> (\<exists>s \<in> set allow. spec_diverges s)"
  shows "ResolveAutoAssign allow reserved used ps =
           Some (resolve_spec (allowed_ports allow reserved - set used) ps)"
proof -
  obtain free where free: "computeFree allow reserved used = Some free"
    using assms computeFree_None_iff by (cases "computeFree allow reserved used") auto
  define F where "F = allowed_ports allow reserved - set used"
  have F: "distinct free" "set free = F"
    using computeFree_Some [OF free] by (simp_all add: F_def)
  define S where "S = sortedKeys (sdel_all (wants ps) free)"
  have S: "S = sorted_list_of_set (F - set (wants ps))"
    using F by (simp add: S_def sortedKeys_set)
  have len: "length S = card (F - set (wants ps))"
    by (simp add: S)
  have out: "assignAutos (auto_idx 0 ps) S (put_explicit 0 ps (replicate (length ps) 0)) = resolved ps S"
    if "autos ps \<le> length S"
    using assignAutos_resolved [OF that, of "[]"] by simp
  have empty: "auto_idx 0 ps = [] \<longleftrightarrow> autos ps = 0"
    by (metis length_0_conv length_auto_idx)
  show ?thesis
    using out empty F
    by (auto simp: ResolveAutoAssign_def free claimExplicit_eq resolve_spec_def Let_def
        S_def [symmetric] F_def [symmetric] len S [symmetric])
qed

section \<open>Correctness of the resolution\<close>

text \<open>
  An assignment of public ports to the requested ports: one port each, no port twice, all of
  them free, and the explicit ones as requested.
\<close>

definition valid_assignment :: "int set \<Rightarrow> TunnelPort list \<Rightarrow> int list \<Rightarrow> bool" where
  "valid_assignment free ps out \<longleftrightarrow>
     length out = length ps \<and> distinct out \<and> set out \<subseteq> free \<and>
     (\<forall>(p, x) \<in> set (zip ps out). explicit p \<longrightarrow> x = the (PublicPort p))"

lemma assignment_wants:
  "length ps = length out \<Longrightarrow> distinct out \<Longrightarrow>
     \<forall>(p, x) \<in> set (zip ps out). explicit p \<longrightarrow> x = the (PublicPort p) \<Longrightarrow>
     distinct (wants ps) \<and> set (wants ps) \<subseteq> set out \<and> autos ps = card (set out - set (wants ps))"
proof (induction ps out rule: list_induct2)
  case Nil
  then show ?case by simp
next
  case (Cons p ps x out)
  then have IH: "distinct (wants ps)" "set (wants ps) \<subseteq> set out" "autos ps = card (set out - set (wants ps))"
    by auto
  have x: "x \<notin> set out" using Cons.prems by simp
  show ?case
  proof (cases "explicit p")
    case True
    with Cons.prems have "x = the (PublicPort p)" by auto
    moreover have "insert x (set out) - insert x (set (wants ps)) = set out - set (wants ps)"
      using x by auto
    ultimately show ?thesis using IH x True by auto
  next
    case False
    have "insert x (set out) - set (wants ps) = insert x (set out - set (wants ps))"
      using IH(2) x by auto
    then show ?thesis using IH x False by auto
  qed
qed

lemma resolved_assignment:
  "distinct (wants ps) \<Longrightarrow> distinct S \<Longrightarrow> set S \<inter> set (wants ps) = {} \<Longrightarrow> autos ps \<le> length S \<Longrightarrow>
     distinct (resolved ps S) \<and> set (resolved ps S) = set (wants ps) \<union> set (take (autos ps) S) \<and>
     (\<forall>(p, x) \<in> set (zip ps (resolved ps S)). explicit p \<longrightarrow> x = the (PublicPort p))"
proof (induction ps arbitrary: S)
  case Nil
  then show ?case by simp
next
  case (Cons p ps)
  show ?case
  proof (cases "explicit p")
    case True
    with Cons.IH [of S] Cons.prems show ?thesis
      by (auto dest: in_set_takeD)
  next
    case False
    with Cons.prems obtain s S' where S: "S = s # S'" by (cases S) auto
    with False Cons.IH [of S'] Cons.prems show ?thesis
      by (auto dest: in_set_takeD)
  qed
qed

lemma resolve_spec_valid:
  assumes "finite F" and "resolve_spec F ps = Some out"
  shows "valid_assignment F ps out \<and>
     set out = set (wants ps) \<union> set (take (autos ps) (sorted_list_of_set (F - set (wants ps))))"
proof -
  let ?S = "sorted_list_of_set (F - set (wants ps))"
  from assms have c: "distinct (wants ps)" "set (wants ps) \<subseteq> F" "autos ps \<le> length ?S" "out = resolved ps ?S"
    by (auto simp: resolve_spec_def split: if_splits)
  moreover have "set ?S \<inter> set (wants ps) = {}" "set ?S \<subseteq> F" "distinct ?S"
    using assms(1) by auto
  ultimately show ?thesis
    using resolved_assignment [of ps ?S] by (auto simp: valid_assignment_def dest: in_set_takeD)
qed

lemma resolve_spec_None:
  assumes "finite F" and "resolve_spec F ps = None"
  shows "\<not> valid_assignment F ps out"
proof
  assume v: "valid_assignment F ps out"
  with assignment_wants [of ps out] have w: "distinct (wants ps)" "set (wants ps) \<subseteq> set out"
    "autos ps = card (set out - set (wants ps))" "set out \<subseteq> F" by (auto simp: valid_assignment_def)
  moreover have "card (set out - set (wants ps)) \<le> card (F - set (wants ps))"
    using w(4) assms(1) by (intro card_mono) auto
  ultimately show False using assms(2) by (auto simp: resolve_spec_def split: if_splits)
qed

lemma finite_spec_ports [simp]: "finite (spec_ports s)"
  by (auto simp: spec_ports_def split: option.splits prod.splits)

lemma finite_allowed_ports [simp]: "finite (allowed_ports allow reserved)"
  by (simp add: allowed_ports_def)

lemma ResolveAutoAssign_SomeD:
  assumes "ResolveAutoAssign allow reserved used ps = Some (Some out)"
  shows "valid_assignment (allowed_ports allow reserved - set used) ps out"
proof -
  have "\<not> (\<exists>s \<in> set allow. spec_diverges s)"
    using assms ResolveAutoAssign_None_iff [of allow reserved used ps] by auto
  with assms ResolveAutoAssign_spec [of allow reserved used ps] resolve_spec_valid show ?thesis
    by simp
qed

text \<open>
  C7: The resolution of ports is sound, complete and lowest-first. If it returns ports, they
  are one per requested port, all different, allowed, not reserved and not in use, with every
  explicit port as requested; the others are the lowest ports that remain. If it reports that the ports
  do not fit, then no assignment exists at all. And it fails to return exactly
  when an entry of the allowed ports is a range that ends at the largest 64-bit integer.
\<close>

theorem ResolveAutoAssign_correct:
  "case ResolveAutoAssign allow reserved used ps of
     Some (Some out) \<Rightarrow>
       valid_assignment (allowed_ports allow reserved - set used) ps out \<and>
       set out = set (wants ps) \<union> set (take (autos ps)
         (sorted_list_of_set (allowed_ports allow reserved - set used - set (wants ps))))
   | Some None \<Rightarrow> (\<nexists>out. valid_assignment (allowed_ports allow reserved - set used) ps out)
   | None \<Rightarrow> (\<exists>s \<in> set allow. spec_diverges s)"
proof (cases "\<exists>s \<in> set allow. spec_diverges s")
  case True
  with ResolveAutoAssign_None_iff show ?thesis by (simp add: option.case_eq_if)
next
  case False
  define F where "F = allowed_ports allow reserved - set used"
  have fin: "finite F" by (simp add: F_def)
  have eq: "ResolveAutoAssign allow reserved used ps = Some (resolve_spec F ps)"
    using ResolveAutoAssign_spec [OF False] by (simp add: F_def)
  show ?thesis
  proof (cases "resolve_spec F ps")
    case None
    then show ?thesis
      unfolding eq None option.case F_def [symmetric] using resolve_spec_None [OF fin None] by blast
  next
    case (Some out)
    then show ?thesis
      unfolding eq Some option.case F_def [symmetric] using resolve_spec_valid [OF fin Some] by blast
  qed
qed

text \<open>
  A range that ends at the largest 64-bit integer is fatal: on an exit or pool that lists
  one, the resolution does not return for any request, because the loop counter wraps around.
\<close>

theorem allow_ports_overflow_diverges:
  "ResolveAutoAssign (pre @ ''1-9223372036854775807'' # post) reserved used ps = None"
proof -
  have "Cut ''1-9223372036854775807'' CHR ''-'' = Some (''1'', ''9223372036854775807'')"
    by simp
  moreover have "TrimSpace ''1-9223372036854775807'' = ''1-9223372036854775807''"
    "TrimSpace ''1'' = ''1''" "TrimSpace ''9223372036854775807'' = ''9223372036854775807''"
    by code_simp+
  moreover have "Atoi ''1'' = Some 1" "Atoi ''9223372036854775807'' = Some max_int64"
    by (simp_all add: Atoi_def unsigned_val_def digit_val_def is_int64_def max_int64_def min_int64_def)
  ultimately have "spec_diverges ''1-9223372036854775807''"
    by (simp add: spec_diverges_def)
  then show ?thesis by (auto simp: ResolveAutoAssign_None_iff)
qed

end
