(* ===== verification/Sha256.thy ===== *)
theory Sha256
  imports Prelude "HOL-Library.Word"
begin

text \<open>
  SHA-256 of Go's \<open>crypto/sha256\<close> (FIPS 180-4) and \<open>hex.EncodeToString\<close>, which name the claims
  that the scheduler creates and hash the pool templates. Words are 32 bits wide and addition wraps.
\<close>

unbundle bit_operations_syntax

type_synonym w32 = "32 word"

definition rotr :: "nat \<Rightarrow> w32 \<Rightarrow> w32" where
  "rotr n x = word_rotr n x"

definition Ch :: "w32 \<Rightarrow> w32 \<Rightarrow> w32 \<Rightarrow> w32" where
  "Ch x y z = (x AND y) XOR (NOT x AND z)"

definition Maj :: "w32 \<Rightarrow> w32 \<Rightarrow> w32 \<Rightarrow> w32" where
  "Maj x y z = (x AND y) XOR (x AND z) XOR (y AND z)"

definition Sigma0 :: "w32 \<Rightarrow> w32" where
  "Sigma0 x = rotr 2 x XOR rotr 13 x XOR rotr 22 x"

definition Sigma1 :: "w32 \<Rightarrow> w32" where
  "Sigma1 x = rotr 6 x XOR rotr 11 x XOR rotr 25 x"

definition sigma0 :: "w32 \<Rightarrow> w32" where
  "sigma0 x = rotr 7 x XOR rotr 18 x XOR drop_bit 3 x"

definition sigma1 :: "w32 \<Rightarrow> w32" where
  "sigma1 x = rotr 17 x XOR rotr 19 x XOR drop_bit 10 x"

text \<open>
  The constants are not listed but computed: the standard takes the first 32 bits of the fractional
  parts of the cube roots of the first 64 primes, and of the square roots of the first 8.
\<close>

definition first_primes :: "nat \<Rightarrow> int list" where
  "first_primes k = take k (filter (\<lambda>p. list_all (\<lambda>d. p mod d \<noteq> 0) [2..p - 1]) [2..311])"

text \<open>The integer \<open>e\<close>-th root, one bit at a time from \<open>2^b\<close> downwards.\<close>

fun root_bits :: "nat \<Rightarrow> nat \<Rightarrow> int \<Rightarrow> int \<Rightarrow> int" where
  "root_bits e 0 n r = r"
| "root_bits e (Suc b) n r =
     (if (r + 2 ^ b) ^ e \<le> n then root_bits e b n (r + 2 ^ b) else root_bits e b n r)"

definition root_word :: "nat \<Rightarrow> int \<Rightarrow> w32" where
  "root_word e p = of_int (root_bits e 37 (p * 2 ^ (32 * e)) 0)"

definition round_constants :: "w32 list" where
  "round_constants = map (root_word 3) (first_primes 64)"

definition initial_hash :: "w32 list" where
  "initial_hash = map (root_word 2) (first_primes 8)"

text \<open>Padding: the bit 1, zero bits, and the bit length as 64 bits, to a multiple of 64 bytes.\<close>

fun be_bytes :: "nat \<Rightarrow> int \<Rightarrow> int list" where
  "be_bytes 0 n = []"
| "be_bytes (Suc k) n = be_bytes k (n div 256) @ [n mod 256]"

definition pad :: "int list \<Rightarrow> int list" where
  "pad m = m @ [128] @ replicate ((119 - length m mod 64) mod 64) 0 @ be_bytes 8 (8 * int (length m))"

fun words_of :: "int list \<Rightarrow> w32 list" where
  "words_of (a # b # c # d # bs) =
     of_int (((a * 256 + b) * 256 + c) * 256 + d) # words_of bs"
| "words_of _ = []"

fun schedule :: "nat \<Rightarrow> w32 list \<Rightarrow> w32 list" where
  "schedule 0 w = w"
| "schedule (Suc k) w =
     (let t = length w
      in schedule k (w @ [sigma1 (w ! (t - 2)) + w ! (t - 7) + sigma0 (w ! (t - 15)) + w ! (t - 16)]))"

type_synonym vars = "w32 \<times> w32 \<times> w32 \<times> w32 \<times> w32 \<times> w32 \<times> w32 \<times> w32"

fun round_step :: "vars \<Rightarrow> w32 \<times> w32 \<Rightarrow> vars" where
  "round_step (a, b, c, d, e, f, g, h) (k, w) =
     (let t1 = h + Sigma1 e + Ch e f g + k + w;
          t2 = Sigma0 a + Maj a b c
      in (t1 + t2, a, b, c, d + t1, e, f, g))"

fun compress :: "vars \<Rightarrow> w32 list \<Rightarrow> vars" where
  "compress (a, b, c, d, e, f, g, h) block =
     (case foldl round_step (a, b, c, d, e, f, g, h) (zip round_constants (schedule 48 block)) of
        (a', b', c', d', e', f', g', h') \<Rightarrow>
          (a + a', b + b', c + c', d + d', e + e', f + f', g + g', h + h'))"

fun blocks :: "nat \<Rightarrow> w32 list \<Rightarrow> w32 list list" where
  "blocks 0 ws = []"
| "blocks (Suc n) ws = take 16 ws # blocks n (drop 16 ws)"

definition vars_of :: "w32 list \<Rightarrow> vars" where
  "vars_of ws = (ws ! 0, ws ! 1, ws ! 2, ws ! 3, ws ! 4, ws ! 5, ws ! 6, ws ! 7)"

definition bytes_of_string :: "string \<Rightarrow> int list" where
  "bytes_of_string s = map of_char s"

definition sha256 :: "string \<Rightarrow> w32 list" where
  "sha256 s =
     (let ws = words_of (pad (bytes_of_string s))
      in case foldl compress (vars_of initial_hash) (blocks (length ws div 16) ws) of
           (a, b, c, d, e, f, g, h) \<Rightarrow> [a, b, c, d, e, f, g, h])"

definition hex_digit :: "int \<Rightarrow> char" where
  "hex_digit d = char_of (if d < 10 then 48 + d else 87 + d)"

fun hex_digits :: "nat \<Rightarrow> int \<Rightarrow> string" where
  "hex_digits 0 n = []"
| "hex_digits (Suc k) n = hex_digits k (n div 16) @ [hex_digit (n mod 16)]"

definition hex_word :: "w32 \<Rightarrow> string" where
  "hex_word w = hex_digits 8 (uint w)"

definition hex_sha256 :: "string \<Rightarrow> string" where
  "hex_sha256 s = concat (map hex_word (sha256 s))"

lemma length_sha256: "length (sha256 s) = 8"
  by (simp add: sha256_def Let_def split: prod.splits)

lemma length_hex_digits [simp]: "length (hex_digits k n) = k"
  by (induction k arbitrary: n) simp_all

lemma length_hex_word [simp]: "length (hex_word w) = 8"
  by (simp add: hex_word_def)

lemma length_hex_sha256 [simp]: "length (hex_sha256 s) = 64"
  using length_sha256 [of s]
  by (simp add: hex_sha256_def length_concat comp_def sum_list_triv)

text \<open>The first and the last constant of the standard, evaluated by the kernel.\<close>

lemma root_word_standard:
  "root_word 3 2 = 0x428a2f98" "root_word 3 311 = 0xc67178f2" "root_word 2 2 = 0x6a09e667"
  by code_simp+

end
