(* ===== verification/Scheduler.thy ===== *)
theory Scheduler
  imports Synced Offering Ports Sha256
begin

text \<open>
  \<open>pkg/controllers/provisioning/scheduling\<close>: the placement of a batch of tunnels. \<open>Solve\<close> reads
  the cluster once, wraps its exits and its claims that are not ready yet, and places each tunnel in
  turn: on an existing exit, on a claim in flight, or on a new claim of the heaviest pool that can
  make one. As everywhere, \<open>None\<close> is a call that does not return, and the left side of a sum is
  a Go error.
\<close>

section \<open>Errors and conditions\<close>

datatype sched_error =
    ExitHasNoClaim
  | ExitMarked string
  | ExitBeingDeleted string
  | ExitBeingDisrupted string
  | ExitNotReady string
  | Incompatible Requirement Requirement
  | ResourcesDontFit string
  | PortsDontFit string
  | PortsDontFitInflight string
  | NoExistingExitFits
  | NoInflightClaimFits
  | PoolLimitExceeded string string
  | NoInstanceType select_error
  | NoPoolCanProduce string

definition tunnelKey :: "Tunnel \<Rightarrow> string" where
  "tunnelKey t = Namespace t @ ''/'' @ Name t"

fun readyTrue :: "Condition list \<Rightarrow> bool" where
  "readyTrue [] = False"
| "readyTrue (c # conds) = (if Type c = ''Ready'' \<and> Status c = ConditionTrue then True else readyTrue conds)"

fun disruptedTrue :: "Condition list \<Rightarrow> bool" where
  "disruptedTrue [] = False"
| "disruptedTrue (c # conds) =
     (if Type c = ConditionTypeDisrupted \<and> Status c = ConditionTrue then True else disruptedTrue conds)"

fun ready_loop :: "Condition list \<Rightarrow> bool" where
  "ready_loop [] = False"
| "ready_loop (c # conds) =
     (if Type c = ConditionTypeReady \<and> Status c = ConditionTrue then True else ready_loop conds)"

definition isReady :: "ExitClaim \<Rightarrow> bool" where
  "isReady claim = ready_loop (claim_conds claim)"

section \<open>Existing exits\<close>

record ExistingExit =
  exState :: "StateExit option"
  NewlyBound :: "Tunnel list"
  NewlyUsedPorts :: "int list"

definition snapshotClaimAndUsed :: "ExistingExit \<Rightarrow> ExitClaim option \<times> int list" where
  "snapshotClaimAndUsed e =
     (case exState e of
        None \<Rightarrow> (None, [])
      | Some se \<Rightarrow>
          (case SnapshotForRead se of
             None \<Rightarrow> (None, [])
           | Some (claim, allocs) \<Rightarrow> (Some claim, sput_all (map fst allocs) [])))"

definition mergePortSets :: "int list \<Rightarrow> int list \<Rightarrow> int list" where
  "mergePortSets a b = (if b = [] then a else sput_all b (sput_all a []))"

definition sumTunnelRequests :: "Tunnel list \<Rightarrow> ResourceList" where
  "sumTunnelRequests tunnels = Sum (map tunnel_requests tunnels)"

definition ex_CanAdd :: "ExistingExit \<Rightarrow> Tunnel \<Rightarrow> (sched_error + int list) option" where
  "ex_CanAdd e tunnel =
     (case snapshotClaimAndUsed e of
        (None, _) \<Rightarrow> Some (Inl ExitHasNoClaim)
      | (Some claim, used) \<Rightarrow>
          if MarkedForDeletion (the (exState e)) then Some (Inl (ExitMarked (Name claim)))
          else if DeletionTimestamp claim \<noteq> None then Some (Inl (ExitBeingDeleted (Name claim)))
          else if disruptedTrue (claim_conds claim) then Some (Inl (ExitBeingDisrupted (Name claim)))
          else if \<not> readyTrue (claim_conds claim) then Some (Inl (ExitNotReady (Name claim)))
          else
            (case Compatible (Requirements (cSpec claim)) (tunnel_reqs tunnel) of
               Some (p, t) \<Rightarrow> Some (Inl (Incompatible p t))
             | None \<Rightarrow>
                 let avail = Subtract (Allocatable (cStatus claim)) (sumTunnelRequests (NewlyBound e))
                 in if \<not> ResourcesFit avail (tunnel_requests tunnel) then
                      Some (Inl (ResourcesDontFit (Name claim)))
                    else
                      let mergedUsed = mergePortSets used (NewlyUsedPorts e)
                      in (case ResolveAutoAssign (AllowPorts (Frps (cSpec claim)))
                                 (ReservedPorts (Frps (cSpec claim))) mergedUsed (tunnel_ports tunnel) of
                            None \<Rightarrow> None
                          | Some None \<Rightarrow> Some (Inl (PortsDontFit (Name claim)))
                          | Some (Some assigned) \<Rightarrow> Some (Inr assigned))))"

definition ex_Add :: "ExistingExit \<Rightarrow> Tunnel \<Rightarrow> int list \<Rightarrow> ExistingExit" where
  "ex_Add e tunnel assignedPorts =
     e\<lparr>NewlyBound := NewlyBound e @ [tunnel],
       NewlyUsedPorts := sput_all assignedPorts (NewlyUsedPorts e)\<rparr>"

section \<open>Claims in flight\<close>

record InflightClaim =
  icSpec :: ExitClaimSpec
  icName :: string
  icPool :: "ExitPool option"
  icTunnels :: "Tunnel list"
  icUsedPorts :: "int list"
  Persisted :: bool

definition ic_CanAdd :: "InflightClaim \<Rightarrow> Tunnel \<Rightarrow> (sched_error + int list) option" where
  "ic_CanAdd c tunnel =
     (case Compatible (Requirements (icSpec c)) (tunnel_reqs tunnel) of
        Some (p, t) \<Rightarrow> Some (Inl (Incompatible p t))
      | None \<Rightarrow>
          (case ResolveAutoAssign (AllowPorts (Frps (icSpec c))) (ReservedPorts (Frps (icSpec c)))
                  (icUsedPorts c) (tunnel_ports tunnel) of
             None \<Rightarrow> None
           | Some None \<Rightarrow> Some (Inl (PortsDontFitInflight (icName c)))
           | Some (Some assigned) \<Rightarrow> Some (Inr assigned)))"

definition ic_Add :: "InflightClaim \<Rightarrow> Tunnel \<Rightarrow> int list \<Rightarrow> InflightClaim" where
  "ic_Add c tunnel assignedPorts =
     c\<lparr>icTunnels := icTunnels c @ [tunnel], icUsedPorts := sput_all assignedPorts (icUsedPorts c)\<rparr>"

definition SortByLoad :: "InflightClaim list \<Rightarrow> InflightClaim list" where
  "SortByLoad claims = sort_key (\<lambda>c. length (icTunnels c)) claims"

definition NewClaimFromPool :: "ExitPool \<Rightarrow> string \<Rightarrow> InflightClaim" where
  "NewClaimFromPool pool tunnelUID =
     (let sum = hex_sha256 (Name pool @ ''|'' @ tunnelUID);
          name = Name pool @ ''-'' @ take 8 sum;
          tmpl = pool_tmpl pool;
          spec = \<lparr>ProviderClassRef = tmplProviderClassRef tmpl, Requirements = tmplRequirements tmpl,
                  Frps = tmplFrps tmpl, Requests = [], ExpireAfter = tmplExpireAfter tmpl,
                  TerminationGracePeriod = tmplTerminationGracePeriod tmpl\<rparr>
      in \<lparr>icSpec = spec, icName = name, icPool = Some pool, icTunnels = [], icUsedPorts = [],
          Persisted = False\<rparr>)"

section \<open>Results and the state of one Solve\<close>

record Binding =
  bTunnelKey :: string
  bExitClaimName :: string
  bAssignedPorts :: "int list"

record Results =
  NewClaims :: "InflightClaim list"
  rBindings :: "Binding list"
  TunnelErrors :: "(string, sched_error) gomap"

definition AllScheduled :: "Results \<Rightarrow> nat \<Rightarrow> bool" where
  "AllScheduled r inputTunnels \<longleftrightarrow> length (rBindings r) = inputTunnels"

record Sched =
  existingExits :: "ExistingExit list"
  inflightClaims :: "InflightClaim list"
  spools :: "ExitPool list"

definition add_binding :: "Tunnel \<Rightarrow> string \<Rightarrow> int list \<Rightarrow> Results \<Rightarrow> Results" where
  "add_binding t name ports r =
     r\<lparr>rBindings := rBindings r @ [\<lparr>bTunnelKey = tunnelKey t, bExitClaimName = name, bAssignedPorts = ports\<rparr>]\<rparr>"

definition weight :: "ExitPool \<Rightarrow> int" where
  "weight p = (case Weight (pSpec p) of None \<Rightarrow> 0 | Some w \<Rightarrow> w)"

definition sortPoolsByWeight :: "ExitPool list \<Rightarrow> ExitPool list" where
  "sortPoolsByWeight ps = sort_key (\<lambda>p. - weight p) ps"

definition copyResourceList :: "ResourceList \<Rightarrow> ResourceList" where
  "copyResourceList l = (if l = [] then [] else put_each l [])"

fun limits_loop :: "ResourceList \<Rightarrow> ResourceList \<Rightarrow> string option" where
  "limits_loop used [] = None"
| "limits_loop used ((k, limit) # limits) =
     (case mget used k of
        None \<Rightarrow> limits_loop used limits
      | Some cur \<Rightarrow> if cur \<ge> limit then Some k else limits_loop used limits)"

definition poolLimitsExceeded :: "order \<Rightarrow> ExitPool \<Rightarrow> Cluster \<Rightarrow> string option" where
  "poolLimitsExceeded ord pool c =
     (let limits = Limits (pSpec pool)
      in if limits = [] then None
         else case Pool c (Name pool) of
                None \<Rightarrow> None
              | Some sp \<Rightarrow> limits_loop (fst (SnapshotResources sp)) (in_order ord limits))"

section \<open>Placing one tunnel\<close>

text \<open>
  A step returns the error, if any, with the new state; \<open>state.Claim.Name\<close> is read through the
  pointer, which \<open>CanAdd\<close> has found not to be nil.
\<close>

definition ex_name :: "ExistingExit \<Rightarrow> string" where
  "ex_name e = Name (the (seClaim (the (exState e))))"

definition addToExistingExit ::
  "Tunnel \<Rightarrow> Sched \<Rightarrow> Results \<Rightarrow> (sched_error option \<times> Sched \<times> Results) option" where
  "addToExistingExit t s r =
     (case first_fit ex_CanAdd ex_Add (existingExits s) t of
        None \<Rightarrow> None
      | Some (es, None) \<Rightarrow> Some (Some NoExistingExitFits, s, r)
      | Some (es, Some (e, assigned)) \<Rightarrow>
          Some (None, s\<lparr>existingExits := es\<rparr>, add_binding t (ex_name e) assigned r))"

definition addToInflightClaim ::
  "Tunnel \<Rightarrow> Sched \<Rightarrow> Results \<Rightarrow> (sched_error option \<times> Sched \<times> Results) option" where
  "addToInflightClaim t s r =
     (let sorted = SortByLoad (inflightClaims s);
          s = s\<lparr>inflightClaims := sorted\<rparr>
      in (case first_fit ic_CanAdd ic_Add sorted t of
            None \<Rightarrow> None
          | Some (cs, None) \<Rightarrow> Some (Some NoInflightClaimFits, s, r)
          | Some (cs, Some (c, assigned)) \<Rightarrow>
              Some (None, s\<lparr>inflightClaims := cs\<rparr>, add_binding t (icName c) assigned r)))"

text \<open>What a pool would make for a tunnel: the claim, pinned to the chosen instance type.\<close>

definition pinned_claim :: "ExitPool \<Rightarrow> Tunnel \<Rightarrow> InstanceType \<Rightarrow> Offering \<Rightarrow> InflightClaim" where
  "pinned_claim pool t it off =
     (let c = NewClaimFromPool pool (UID t);
          c = c\<lparr>icSpec := (icSpec c)\<lparr>Requirements := Requirements (icSpec c) @ PinChosen it off\<rparr>\<rparr>
      in c\<lparr>icSpec := (icSpec c)\<lparr>Requests := copyResourceList (tunnel_requests t)\<rparr>\<rparr>)"

definition pool_attempt ::
  "('p \<Rightarrow> ExitPool \<Rightarrow> string + InstanceType list) \<Rightarrow> 'p Registry option \<Rightarrow> order \<Rightarrow> Cluster \<Rightarrow>
     Tunnel \<Rightarrow> ExitPool \<Rightarrow> (sched_error + InflightClaim \<times> int list) option" where
  "pool_attempt get reg ord cluster t pool =
     (case Compatible (tmplRequirements (pool_tmpl pool)) (tunnel_reqs t) of
        Some (p, q) \<Rightarrow> Some (Inl (Incompatible p q))
      | None \<Rightarrow>
     (case poolLimitsExceeded ord pool cluster of
        Some k \<Rightarrow> Some (Inl (PoolLimitExceeded (Name pool) k))
      | None \<Rightarrow>
     (case SelectInstanceType get reg pool (tunnel_reqs t) (tunnel_requests t) of
        Inl e \<Rightarrow> Some (Inl (NoInstanceType e))
      | Inr (it, off) \<Rightarrow>
          let c = pinned_claim pool t it off
          in (case ic_CanAdd c t of
                None \<Rightarrow> None
              | Some (Inl e) \<Rightarrow> Some (Inl e)
              | Some (Inr assigned) \<Rightarrow> Some (Inr (ic_Add c t assigned, assigned))))))"

fun new_claim_loop ::
  "(ExitPool \<Rightarrow> (sched_error + InflightClaim \<times> int list) option) \<Rightarrow> Tunnel \<Rightarrow> ExitPool list \<Rightarrow>
     sched_error option \<Rightarrow> (sched_error + InflightClaim \<times> int list) option" where
  "new_claim_loop attempt t [] lastErr =
     Some (Inl (case lastErr of Some e \<Rightarrow> e | None \<Rightarrow> NoPoolCanProduce (tunnelKey t)))"
| "new_claim_loop attempt t (pool # ps) lastErr =
     (case attempt pool of
        None \<Rightarrow> None
      | Some (Inl e) \<Rightarrow> new_claim_loop attempt t ps (Some e)
      | Some (Inr ca) \<Rightarrow> Some (Inr ca))"

definition addToNewClaim ::
  "('p \<Rightarrow> ExitPool \<Rightarrow> string + InstanceType list) \<Rightarrow> 'p Registry option \<Rightarrow> order \<Rightarrow> Cluster \<Rightarrow>
     Tunnel \<Rightarrow> Sched \<Rightarrow> Results \<Rightarrow> (sched_error option \<times> Sched \<times> Results) option" where
  "addToNewClaim get reg ord cluster t s r =
     (case new_claim_loop (pool_attempt get reg ord cluster t) t (spools s) None of
        None \<Rightarrow> None
      | Some (Inl e) \<Rightarrow> Some (Some e, s, r)
      | Some (Inr (c, assigned)) \<Rightarrow>
          Some (None, s\<lparr>inflightClaims := inflightClaims s @ [c]\<rparr>, add_binding t (icName c) assigned r))"

definition sched_add ::
  "('p \<Rightarrow> ExitPool \<Rightarrow> string + InstanceType list) \<Rightarrow> 'p Registry option \<Rightarrow> order \<Rightarrow> Cluster \<Rightarrow>
     Tunnel \<Rightarrow> Sched \<Rightarrow> Results \<Rightarrow> (sched_error option \<times> Sched \<times> Results) option" where
  "sched_add get reg ord cluster t s r =
     (case addToExistingExit t s r of
        None \<Rightarrow> None
      | Some (None, s, r) \<Rightarrow> Some (None, s, r)
      | Some (Some _, s, r) \<Rightarrow>
          (case addToInflightClaim t s r of
             None \<Rightarrow> None
           | Some (None, s, r) \<Rightarrow> Some (None, s, r)
           | Some (Some _, s, r) \<Rightarrow> addToNewClaim get reg ord cluster t s r))"

text \<open>\<open>Preferences.Relax\<close> drops nothing in this version; \<open>Solve\<close> loops until it returns false.\<close>

definition Relax :: "Tunnel \<Rightarrow> bool" where
  "Relax t = False"

partial_function (option) solve_tunnel ::
  "('p \<Rightarrow> ExitPool \<Rightarrow> string + InstanceType list) \<Rightarrow> 'p Registry option \<Rightarrow> order \<Rightarrow> Cluster \<Rightarrow>
     Tunnel \<Rightarrow> Sched \<Rightarrow> Results \<Rightarrow> (Sched \<times> Results) option" where
  "solve_tunnel get reg ord cluster t s r =
     Option.bind (sched_add get reg ord cluster t s r) (\<lambda>(err, s, r).
       case err of
         None \<Rightarrow> Some (s, r)
       | Some e \<Rightarrow>
           if \<not> Relax t then Some (s, r\<lparr>TunnelErrors := mput (tunnelKey t) e (TunnelErrors r)\<rparr>)
           else solve_tunnel get reg ord cluster t s r)"

fun solve_tunnels ::
  "('p \<Rightarrow> ExitPool \<Rightarrow> string + InstanceType list) \<Rightarrow> 'p Registry option \<Rightarrow> order \<Rightarrow> Cluster \<Rightarrow>
     Tunnel list \<Rightarrow> Sched \<Rightarrow> Results \<Rightarrow> (Sched \<times> Results) option" where
  "solve_tunnels get reg ord cluster [] s r = Some (s, r)"
| "solve_tunnels get reg ord cluster (t # ts) s r =
     (case solve_tunnel get reg ord cluster t s r of
        None \<Rightarrow> None
      | Some (s, r) \<Rightarrow> solve_tunnels get reg ord cluster ts s r)"

section \<open>Rehydration and Solve\<close>

definition rehydrate ::
  "ExitPool list \<Rightarrow> ExitClaim \<Rightarrow> int list \<Rightarrow> InflightClaim list \<times> string list \<Rightarrow>
     InflightClaim list \<times> string list" where
  "rehydrate ps claim used st =
     (let (inflight, rehydrated) = st
      in if Name claim \<in> set rehydrated then st
         else let poolName = mget_str (Labels claim) LabelExitPool
              in case find (\<lambda>p. Name p = poolName) ps of
                   None \<Rightarrow> st
                 | Some pool \<Rightarrow>
                     (inflight @ [\<lparr>icSpec = cSpec claim, icName = Name claim, icPool = Some pool,
                                   icTunnels = [], icUsedPorts = used, Persisted = True\<rparr>],
                      sput (Name claim) rehydrated))"

fun rehydrate_exits ::
  "ExitPool list \<Rightarrow> StateExit list \<Rightarrow> InflightClaim list \<times> string list \<Rightarrow>
     InflightClaim list \<times> string list" where
  "rehydrate_exits ps [] st = st"
| "rehydrate_exits ps (se # ses) st =
     (case SnapshotForRead se of
        None \<Rightarrow> rehydrate_exits ps ses st
      | Some (claim, allocs) \<Rightarrow>
          if isReady claim then rehydrate_exits ps ses st
          else if DeletionTimestamp claim \<noteq> None then rehydrate_exits ps ses st
          else if MarkedForDeletion se then rehydrate_exits ps ses st
          else if disruptedTrue (claim_conds claim) then rehydrate_exits ps ses st
          else rehydrate_exits ps ses (rehydrate ps claim (sput_all (map fst allocs) []) st))"

fun rehydrate_pending ::
  "order \<Rightarrow> Cluster \<Rightarrow> ExitPool list \<Rightarrow> ExitClaim list \<Rightarrow> InflightClaim list \<times> string list \<Rightarrow>
     InflightClaim list \<times> string list" where
  "rehydrate_pending ord cluster ps [] st = st"
| "rehydrate_pending ord cluster ps (claim # claims) st =
     (if isReady claim then rehydrate_pending ord cluster ps claims st
      else if DeletionTimestamp claim \<noteq> None then rehydrate_pending ord cluster ps claims st
      else if disruptedTrue (claim_conds claim) then rehydrate_pending ord cluster ps claims st
      else rehydrate_pending ord cluster ps claims
             (rehydrate ps claim (PortsForClaimName ord cluster (Name claim)) st))"

text \<open>
  \<open>ord k\<close> is the order of the \<open>k\<close>-th \<open>range\<close> over a map: the exits, the pools, the exits
  again, the pending claims, the bindings and the limits of a pool.
\<close>

definition solve_start :: "(nat \<Rightarrow> order) \<Rightarrow> Cluster \<Rightarrow> Sched" where
  "solve_start ord cluster =
     (let existing = map (\<lambda>se. \<lparr>exState = Some se, NewlyBound = [], NewlyUsedPorts = []\<rparr>)
                         (Exits (ord 0) cluster);
          ps = sortPoolsByWeight (List.map_filter Snapshot (Pools (ord 1) cluster));
          st = rehydrate_exits ps (Exits (ord 2) cluster) ([], []);
          st = rehydrate_pending (ord 4) cluster ps (PendingClaims (ord 3) cluster) st
      in \<lparr>existingExits = existing, inflightClaims = fst st, spools = ps\<rparr>)"

definition Solve ::
  "('p \<Rightarrow> ExitPool \<Rightarrow> string + InstanceType list) \<Rightarrow> 'p Registry option \<Rightarrow> (nat \<Rightarrow> order) \<Rightarrow> Cluster \<Rightarrow>
     Tunnel list \<Rightarrow> Results option" where
  "Solve get reg ord cluster tunnels =
     (case solve_tunnels get reg (ord 5) cluster tunnels (solve_start ord cluster)
             \<lparr>NewClaims = [], rBindings = [], TunnelErrors = []\<rparr> of
        None \<Rightarrow> None
      | Some (s, r) \<Rightarrow>
          Some (r\<lparr>NewClaims := NewClaims r @ filter (\<lambda>c. \<not> Persisted c) (inflightClaims s)\<rparr>))"

end
