(* ===== verification/SchedulerInv.thy ===== *)
theory SchedulerInv
  imports Scheduler
begin

text \<open>
  What the scheduler keeps true while it places a batch. Existing exits and claims in flight share
  one interface, the locale \<open>bin\<close>; the placement of one tunnel is specified by the relation
  \<open>place\<close>; the invariant \<open>sched_inv\<close> accounts for every port and every request that the batch has given out.
\<close>

section \<open>What CanAdd checks\<close>

lemma readyTrue_iff: "readyTrue conds \<longleftrightarrow> (\<exists>c \<in> set conds. Type c = ConditionTypeReady \<and> Status c = ConditionTrue)"
  by (induction conds) (auto simp: ConditionTypeReady_def)

lemma disruptedTrue_iff:
  "disruptedTrue conds \<longleftrightarrow> (\<exists>c \<in> set conds. Type c = ConditionTypeDisrupted \<and> Status c = ConditionTrue)"
  by (induction conds) auto

lemma isReady_iff: "isReady cl \<longleftrightarrow> readyTrue (claim_conds cl)"
proof -
  have "ready_loop conds = readyTrue conds" for conds
    by (induction conds) (auto simp: ConditionTypeReady_def)
  then show ?thesis by (simp add: isReady_def)
qed

text \<open>An exit that the scheduler may use: ready, and neither marked, disrupted nor being deleted.\<close>

definition exit_open :: "StateExit \<Rightarrow> bool" where
  "exit_open se \<longleftrightarrow> (\<exists>cl. seClaim se = Some cl \<and> \<not> MarkedForDeletion se \<and> DeletionTimestamp cl = None \<and>
     \<not> disruptedTrue (claim_conds cl) \<and> readyTrue (claim_conds cl))"

definition ex_open :: "ExistingExit \<Rightarrow> bool" where
  "ex_open e \<longleftrightarrow> (\<exists>se. exState e = Some se \<and> exit_open se)"

definition ex_claim :: "ExistingExit \<Rightarrow> ExitClaim" where
  "ex_claim e = the (seClaim (the (exState e)))"

definition ex_used :: "ExistingExit \<Rightarrow> int set" where
  "ex_used e = fst ` set (Allocations (the (exState e))) \<union> set (NewlyUsedPorts e)"

definition claim_ports :: "FrpsConfig \<Rightarrow> int set" where
  "claim_ports f = allowed_ports (AllowPorts f) (ReservedPorts f)"

lemma set_mergePortSets [simp]: "set (mergePortSets a b) = set a \<union> set b"
  by (auto simp: mergePortSets_def)

lemma ex_CanAdd_Inr:
  assumes "ex_CanAdd e t = Some (Inr ps)"
  shows "ex_open e \<and> Compatible (Requirements (cSpec (ex_claim e))) (tunnel_reqs t) = None \<and>
     ResourcesFit (Subtract (Allocatable (cStatus (ex_claim e))) (sumTunnelRequests (NewlyBound e)))
       (tunnel_requests t) \<and>
     valid_assignment (claim_ports (Frps (cSpec (ex_claim e))) - ex_used e) (tunnel_ports t) ps"
proof -
  obtain claim used where sn: "snapshotClaimAndUsed e = (Some claim, used)"
    using assms by (cases "snapshotClaimAndUsed e"; cases "fst (snapshotClaimAndUsed e)")
      (auto simp: ex_CanAdd_def)
  then obtain se where se: "exState e = Some se" "seClaim se = Some claim"
    "used = sput_all (map fst (Allocations se)) []"
    by (auto simp: snapshotClaimAndUsed_def SnapshotForRead_def split: option.splits)
  have used: "ex_used e = set (mergePortSets used (NewlyUsedPorts e))"
    using se by (simp add: ex_used_def)
  show ?thesis
    using assms sn se used
    by (auto simp: ex_CanAdd_def ex_open_def exit_open_def ex_claim_def claim_ports_def Let_def
        dest!: ResolveAutoAssign_SomeD split: if_splits option.splits)
qed

lemma ic_CanAdd_Inr:
  assumes "ic_CanAdd c t = Some (Inr ps)"
  shows "Compatible (Requirements (icSpec c)) (tunnel_reqs t) = None \<and>
     valid_assignment (claim_ports (Frps (icSpec c)) - set (icUsedPorts c)) (tunnel_ports t) ps"
  using assms ResolveAutoAssign_SomeD
  by (auto simp: ic_CanAdd_def claim_ports_def split: option.splits)

lemma valid_assignment_fresh: "valid_assignment (F - U) ps out \<Longrightarrow> distinct out \<and> set out \<inter> U = {}"
  by (auto simp: valid_assignment_def)

section \<open>The interface of a bin\<close>

text \<open>The ports that the bindings of a result give out on one claim.\<close>

definition booked :: "Results \<Rightarrow> string \<Rightarrow> int list" where
  "booked r n = concat (map bAssignedPorts (filter (\<lambda>b. bExitClaimName b = n) (rBindings r)))"

lemma booked_add [simp]:
  "booked (add_binding t m ps r) n = (if m = n then booked r n @ ps else booked r n)"
  by (simp add: booked_def add_binding_def)

definition safe :: "(string \<Rightarrow> int set) \<Rightarrow> Results \<Rightarrow> bool" where
  "safe init r \<longleftrightarrow> (\<forall>n. distinct (booked r n) \<and> set (booked r n) \<inter> init n = {})"

locale bin =
  fixes can_add :: "'b \<Rightarrow> Tunnel \<Rightarrow> ('e + int list) option"
    and add :: "'b \<Rightarrow> Tunnel \<Rightarrow> int list \<Rightarrow> 'b"
    and used :: "'b \<Rightarrow> int set"
    and bname :: "'b \<Rightarrow> string"
    and usable :: "'b \<Rightarrow> bool"
  assumes can_add_fresh: "can_add b t = Some (Inr ps) \<Longrightarrow> distinct ps \<and> set ps \<inter> used b = {}"
    and can_add_usable: "can_add b t = Some (Inr ps) \<Longrightarrow> usable b"
    and used_add: "used (add b t ps) = used b \<union> set ps"
    and bname_add: "bname (add b t ps) = bname b"
    and usable_add: "usable (add b t ps) = usable b"
begin

definition tracked :: "(string \<Rightarrow> int set) \<Rightarrow> Results \<Rightarrow> 'b list \<Rightarrow> bool" where
  "tracked init r bs \<longleftrightarrow> (\<forall>b \<in> set bs. usable b \<longrightarrow> used b = init (bname b) \<union> set (booked r (bname b)))"

definition names :: "'b list \<Rightarrow> string list" where
  "names bs = map bname (filter usable bs)"

lemma names_add: "usable b \<Longrightarrow> names (xs @ add b t ps # ys) = names (xs @ b # ys)"
  by (simp add: names_def bname_add usable_add)

lemma tracked_add:
  assumes "can_add b t = Some (Inr ps)" and "distinct (names (xs @ b # ys))"
    and "tracked init r (xs @ b # ys)" and "safe init r"
  shows "tracked init (add_binding t (bname b) ps r) (xs @ add b t ps # ys)"
    and "safe init (add_binding t (bname b) ps r)"
proof -
  have u: "usable b" "distinct ps" "set ps \<inter> used b = {}"
    using assms(1) can_add_usable can_add_fresh by blast+
  then have b: "used b = init (bname b) \<union> set (booked r (bname b))"
    using assms(3) by (simp add: tracked_def)
  have "bname b \<notin> set (names xs) \<union> set (names ys)"
    using assms(2) u(1) by (auto simp: names_def)
  moreover have "bname x \<in> set (names xs) \<union> set (names ys)" if "x \<in> set xs \<union> set ys" "usable x" for x
    using that by (auto simp: names_def)
  ultimately have "\<forall>x \<in> set xs \<union> set ys. usable x \<longrightarrow> bname x \<noteq> bname b"
    by metis
  with assms(3) b show "tracked init (add_binding t (bname b) ps r) (xs @ add b t ps # ys)"
    by (auto simp: tracked_def used_add bname_add usable_add)
  from assms(4) b u show "safe init (add_binding t (bname b) ps r)"
    by (auto simp: safe_def)
qed

lemma tracked_other:
  "n \<notin> set (names bs) \<Longrightarrow> tracked init r bs \<Longrightarrow> tracked init (add_binding t n ps r) bs"
  by (auto simp: tracked_def names_def)

end

interpretation ex: bin ex_CanAdd ex_Add ex_used ex_name ex_open
proof unfold_locales
  fix e t ps
  assume "ex_CanAdd e t = Some (Inr ps)"
  then show "distinct ps \<and> set ps \<inter> ex_used e = {}" and "ex_open e"
    using ex_CanAdd_Inr valid_assignment_fresh by blast+
qed (auto simp: ex_Add_def ex_used_def ex_name_def ex_open_def)

interpretation ic: bin ic_CanAdd ic_Add "\<lambda>c. set (icUsedPorts c)" icName "\<lambda>_. True"
proof unfold_locales
  fix c t ps
  assume "ic_CanAdd c t = Some (Inr ps)"
  then show "distinct ps \<and> set ps \<inter> set (icUsedPorts c) = {}"
    using ic_CanAdd_Inr valid_assignment_fresh by blast
qed (auto simp: ic_Add_def)

section \<open>The placement of one tunnel, as a relation\<close>

text \<open>
  \<open>place get reg ord cluster t s r err s' r'\<close>: the first existing exit that can take the tunnel
  takes it; failing all of them, the first claim in flight in the order of their load; failing
  those, the first pool in the order of weight that can make a claim; otherwise the tunnel gets an error.
\<close>

definition refuses :: "('b \<Rightarrow> Tunnel \<Rightarrow> ('e + 'a) option) \<Rightarrow> 'b list \<Rightarrow> Tunnel \<Rightarrow> bool" where
  "refuses can_add bs t \<longleftrightarrow> (\<forall>b \<in> set bs. \<exists>e. can_add b t = Some (Inl e))"

inductive place ::
  "('p \<Rightarrow> ExitPool \<Rightarrow> string + InstanceType list) \<Rightarrow> 'p Registry option \<Rightarrow> order \<Rightarrow> Cluster \<Rightarrow>
     Tunnel \<Rightarrow> Sched \<Rightarrow> Results \<Rightarrow> sched_error option \<Rightarrow> Sched \<Rightarrow> Results \<Rightarrow> bool"
  for get reg ord cluster t s r where
  on_exit: "existingExits s = xs @ e # ys \<Longrightarrow> refuses ex_CanAdd xs t \<Longrightarrow> ex_CanAdd e t = Some (Inr ps) \<Longrightarrow>
     place get reg ord cluster t s r None (s\<lparr>existingExits := xs @ ex_Add e t ps # ys\<rparr>)
       (add_binding t (ex_name e) ps r)"
| in_flight: "refuses ex_CanAdd (existingExits s) t \<Longrightarrow>
     SortByLoad (inflightClaims s) = xs @ c # ys \<Longrightarrow> refuses ic_CanAdd xs t \<Longrightarrow>
     ic_CanAdd c t = Some (Inr ps) \<Longrightarrow>
     place get reg ord cluster t s r None (s\<lparr>inflightClaims := xs @ ic_Add c t ps # ys\<rparr>)
       (add_binding t (icName c) ps r)"
| new_claim: "refuses ex_CanAdd (existingExits s) t \<Longrightarrow> refuses ic_CanAdd (SortByLoad (inflightClaims s)) t \<Longrightarrow>
     spools s = ps1 @ pool # ps2 \<Longrightarrow>
     refuses (\<lambda>p t. pool_attempt get reg ord cluster t p) ps1 t \<Longrightarrow>
     pool_attempt get reg ord cluster t pool = Some (Inr (c, ps)) \<Longrightarrow>
     place get reg ord cluster t s r None (s\<lparr>inflightClaims := SortByLoad (inflightClaims s) @ [c]\<rparr>)
       (add_binding t (icName c) ps r)"
| unplaced: "refuses ex_CanAdd (existingExits s) t \<Longrightarrow> refuses ic_CanAdd (SortByLoad (inflightClaims s)) t \<Longrightarrow>
     refuses (\<lambda>p t. pool_attempt get reg ord cluster t p) (spools s) t \<Longrightarrow>
     place get reg ord cluster t s r (Some err) (s\<lparr>inflightClaims := SortByLoad (inflightClaims s)\<rparr>) r"

inductive_cases placeE: "place get reg ord cluster t s r err s' r'"

lemma new_claim_loop_cases:
  assumes "new_claim_loop attempt t ps lastErr = Some res"
  shows "(\<exists>e. res = Inl e \<and> (\<forall>p \<in> set ps. \<exists>e. attempt p = Some (Inl e))) \<or>
     (\<exists>ca ps1 p ps2. res = Inr ca \<and> ps = ps1 @ p # ps2 \<and> (\<forall>q \<in> set ps1. \<exists>e. attempt q = Some (Inl e)) \<and>
        attempt p = Some (Inr ca))"
  using assms
proof (induction attempt t ps lastErr rule: new_claim_loop.induct)
  case (1 attempt t lastErr)
  then show ?case by auto
next
  case (2 attempt t pool ps lastErr)
  then consider (ok) ca where "attempt pool = Some (Inr ca)" "res = Inr ca"
    | (err) e where "attempt pool = Some (Inl e)" "new_claim_loop attempt t ps (Some e) = Some res"
    by (auto split: option.splits sum.splits)
  then show ?case
  proof cases
    case ok
    then show ?thesis by (intro disjI2 exI [of _ ca] exI [of _ "[]"]) auto
  next
    case err
    from 2(1) [OF err(1) refl err(2)] show ?thesis
    proof (elim disjE exE conjE)
      fix ca ps1 p ps2
      assume "res = Inr ca" "ps = ps1 @ p # ps2" "\<forall>q \<in> set ps1. \<exists>e. attempt q = Some (Inl e)"
        "attempt p = Some (Inr ca)"
      with err(1) show ?thesis
        by (intro disjI2 exI [of _ ca] exI [of _ "pool # ps1"] exI [of _ p] exI [of _ ps2]) auto
    qed (use err(1) in auto)
  qed
qed

lemma sched_add_place:
  assumes "sched_add get reg ord cluster t s r = Some (err, s', r')"
  shows "place get reg ord cluster t s r err s' r'"
proof (cases "first_fit ex_CanAdd ex_Add (existingExits s) t")
  case None
  with assms show ?thesis by (simp add: sched_add_def addToExistingExit_def)
next
  case (Some er)
  obtain es eo where er: "er = (es, eo)" by fastforce
  show ?thesis
  proof (cases eo)
    case (Some ep)
    obtain e ps where ep: "ep = (e, ps)" by fastforce
    have "first_fit ex_CanAdd ex_Add (existingExits s) t = Some (es, Some (e, ps))"
      using Some er ep \<open>first_fit _ _ _ _ = Some er\<close> by simp
    from first_fit_SomeD [OF this] obtain xs ys where "existingExits s = xs @ e # ys"
      "es = xs @ ex_Add e t ps # ys" "ex_CanAdd e t = Some (Inr ps)" "refuses ex_CanAdd xs t"
      by (metis refuses_def)
    moreover have "err = None" "s' = s\<lparr>existingExits := es\<rparr>" "r' = add_binding t (ex_name e) ps r"
      using assms \<open>first_fit _ _ _ _ = Some (es, _)\<close> by (simp_all add: sched_add_def addToExistingExit_def)
    ultimately show ?thesis by (auto intro: place.on_exit)
  next
    case None
    then have ff: "first_fit ex_CanAdd ex_Add (existingExits s) t = Some (es, None)"
      using er \<open>first_fit _ _ _ _ = Some er\<close> by simp
    then have ref: "refuses ex_CanAdd (existingExits s) t"
      using first_fit_NoneD [OF ff] by (simp add: refuses_def)
    let ?cs = "SortByLoad (inflightClaims s)"
    from assms ff have step: "(case first_fit ic_CanAdd ic_Add ?cs t of
          None \<Rightarrow> None
        | Some (cs, None) \<Rightarrow> addToNewClaim get reg ord cluster t (s\<lparr>inflightClaims := ?cs\<rparr>) r
        | Some (cs, Some (c, ps)) \<Rightarrow>
            Some (None, s\<lparr>inflightClaims := cs\<rparr>, add_binding t (icName c) ps r)) = Some (err, s', r')"
      by (simp add: sched_add_def addToExistingExit_def addToInflightClaim_def Let_def
          split: option.splits prod.splits)
    show ?thesis
    proof (cases "\<exists>cs c ps. first_fit ic_CanAdd ic_Add ?cs t = Some (cs, Some (c, ps))")
      case True
      then obtain cs c ps where fi: "first_fit ic_CanAdd ic_Add ?cs t = Some (cs, Some (c, ps))" by blast
      from first_fit_SomeD [OF fi] obtain xs ys where "?cs = xs @ c # ys"
        "cs = xs @ ic_Add c t ps # ys" "ic_CanAdd c t = Some (Inr ps)" "refuses ic_CanAdd xs t"
        by (metis refuses_def)
      moreover have "err = None" "s' = s\<lparr>inflightClaims := cs\<rparr>" "r' = add_binding t (icName c) ps r"
        using step fi by simp_all
      ultimately show ?thesis using ref by (auto intro: place.in_flight)
    next
      case False
      with step obtain cs where fi: "first_fit ic_CanAdd ic_Add ?cs t = Some (cs, None)"
        by (auto split: option.splits prod.splits)
      have refi: "refuses ic_CanAdd ?cs t"
        using first_fit_NoneD [OF fi] by (simp add: refuses_def)
      from step fi obtain res where
        loop: "new_claim_loop (pool_attempt get reg ord cluster t) t (spools s) None = Some res"
        and fin: "(case res of Inl e \<Rightarrow> (Some e, s\<lparr>inflightClaims := ?cs\<rparr>, r)
          | Inr (c, ps) \<Rightarrow> (None, s\<lparr>inflightClaims := ?cs @ [c]\<rparr>, add_binding t (icName c) ps r)) = (err, s', r')"
        by (auto simp: addToNewClaim_def split: option.splits sum.splits prod.splits)
      from new_claim_loop_cases [OF loop] show ?thesis
      proof (elim disjE exE conjE)
        fix e assume "res = Inl e" "\<forall>p \<in> set (spools s). \<exists>e. pool_attempt get reg ord cluster t p = Some (Inl e)"
        then have "refuses (\<lambda>p t. pool_attempt get reg ord cluster t p) (spools s) t"
          by (simp add: refuses_def)
        from place.unplaced [OF ref refi this, where err = e and r = r] fin \<open>res = Inl e\<close>
        show ?thesis by simp
      next
        fix ca ps1 p ps2
        assume a: "res = Inr ca" "spools s = ps1 @ p # ps2"
          "\<forall>q \<in> set ps1. \<exists>e. pool_attempt get reg ord cluster t q = Some (Inl e)"
          "pool_attempt get reg ord cluster t p = Some (Inr ca)"
        then have "refuses (\<lambda>p t. pool_attempt get reg ord cluster t p) ps1 t"
          by (simp add: refuses_def)
        from place.new_claim [OF ref refi a(2) this, of "fst ca" "snd ca" r] fin a(1,4)
        show ?thesis by (simp split: prod.splits)
      qed
    qed
  qed
qed

end
