(* ===== verification/SchedulerSteps.thy ===== *)
theory SchedulerSteps
  imports SchedulerInv
begin

text \<open>
  The invariants of the scheduler under \<open>place\<close>, the start of a \<open>Solve\<close>, and what they give for
  a whole batch.
\<close>

section \<open>What a placement changes\<close>

definition ic_key :: "InflightClaim \<Rightarrow> string \<times> ExitClaimSpec \<times> bool" where
  "ic_key c = (icName c, icSpec c, Persisted c)"

lemma ic_key_Add [simp]: "ic_key (ic_Add c t ps) = ic_key c"
  by (simp add: ic_key_def ic_Add_def)

lemma icName_Add [simp]: "icName (ic_Add c t ps) = icName c"
  by (simp add: ic_Add_def)

lemma exState_Add [simp]: "exState (ex_Add e t ps) = exState e"
  by (simp add: ex_Add_def)

lemma set_SortByLoad [simp]: "set (SortByLoad cs) = set cs"
  by (simp add: SortByLoad_def)

lemma mset_SortByLoad [simp]: "mset (SortByLoad cs) = mset cs"
  by (simp add: SortByLoad_def)

lemma ic_names [simp]: "ic.names cs = map icName cs"
  by (simp add: ic.names_def)

lemma place_existing:
  "place get reg ord cluster t s r err s' r' \<Longrightarrow> map exState (existingExits s') = map exState (existingExits s)"
  by (erule placeE) auto

lemma place_pools: "place get reg ord cluster t s r err s' r' \<Longrightarrow> spools s' = spools s"
  by (erule placeE) auto

text \<open>The claims in flight keep their names and specs; a new one has the name of a pool of the tunnel.\<close>

definition claim_name :: "ExitPool \<Rightarrow> Tunnel \<Rightarrow> string" where
  "claim_name pool t = icName (NewClaimFromPool pool (UID t))"

lemma pool_attempt_Inr:
  assumes "pool_attempt get reg ord cluster t pool = Some (Inr (c, ps))"
  obtains it off where "c = ic_Add (pinned_claim pool t it off) t ps"
    and "ic_CanAdd (pinned_claim pool t it off) t = Some (Inr ps)"
    and "SelectInstanceType get reg pool (tunnel_reqs t) (tunnel_requests t) = Inr (it, off)"
    and "poolLimitsExceeded ord pool cluster = None"
    and "Compatible (tmplRequirements (pool_tmpl pool)) (tunnel_reqs t) = None"
  using assms by (auto simp: pool_attempt_def Let_def split: option.splits sum.splits)

lemma pinned_claim_simps [simp]:
  "icName (pinned_claim pool t it off) = claim_name pool t"
  "icUsedPorts (pinned_claim pool t it off) = []"
  "icTunnels (pinned_claim pool t it off) = []"
  "Persisted (pinned_claim pool t it off) = False"
  "icPool (pinned_claim pool t it off) = Some pool"
  "Frps (icSpec (pinned_claim pool t it off)) = tmplFrps (pool_tmpl pool)"
  by (simp_all add: pinned_claim_def claim_name_def NewClaimFromPool_def Let_def)

lemma pool_attempt_claim:
  assumes "pool_attempt get reg ord cluster t pool = Some (Inr (c, ps))"
  shows "icName c = claim_name pool t" "set (icUsedPorts c) = set ps" "distinct ps" "\<not> Persisted c"
    "icTunnels c = [t]" "Frps (icSpec c) = tmplFrps (pool_tmpl pool)" "icPool c = Some pool"
  using assms ic.can_add_fresh by (auto elim!: pool_attempt_Inr simp: ic_Add_def)

definition new_keys :: "Tunnel \<Rightarrow> ExitPool list \<Rightarrow> (string \<times> ExitClaimSpec \<times> bool) set" where
  "new_keys t ps = {ic_key c | c. \<not> Persisted c \<and>
     (\<exists>pool \<in> set ps. icName c = claim_name pool t \<and> Frps (icSpec c) = tmplFrps (pool_tmpl pool))}"

lemma place_inflight:
  assumes "place get reg ord cluster t s r err s' r'"
  shows "ic_key ` set (inflightClaims s) \<subseteq> ic_key ` set (inflightClaims s') \<and>
     ic_key ` set (inflightClaims s') \<subseteq> ic_key ` set (inflightClaims s) \<union> new_keys t (spools s)"
  using assms
proof (cases rule: place.cases)
  case (in_flight xs c ys ps)
  have "set (SortByLoad (inflightClaims s)) = set (inflightClaims s)" by simp
  then have "set (inflightClaims s) = set xs \<union> {c} \<union> set ys"
    using in_flight(5) by simp
  with in_flight(2) show ?thesis by auto
next
  case (new_claim ps1 pool ps2 c ps)
  with pool_attempt_claim [OF new_claim(8)] show ?thesis by (auto simp: new_keys_def)
qed auto

section \<open>Every port is given out once\<close>

definition slot_names :: "Sched \<Rightarrow> string list" where
  "slot_names s = ex.names (existingExits s) @ map icName (inflightClaims s)"

definition sched_inv :: "(string \<Rightarrow> int set) \<Rightarrow> string set \<Rightarrow> Sched \<Rightarrow> Results \<Rightarrow> bool" where
  "sched_inv init N s r \<longleftrightarrow>
     ex.tracked init r (existingExits s) \<and> ic.tracked init r (inflightClaims s) \<and> safe init r \<and>
     distinct (slot_names s) \<and> bExitClaimName ` set (rBindings r) \<subseteq> set (slot_names s) \<and>
     set (slot_names s) \<subseteq> N"

lemma rBindings_add [simp]:
  "rBindings (add_binding t n ps r) =
     rBindings r @ [\<lparr>bTunnelKey = tunnelKey t, bExitClaimName = n, bAssignedPorts = ps\<rparr>]"
  by (simp add: add_binding_def)

lemma booked_unbound: "n \<notin> bExitClaimName ` set (rBindings r) \<Longrightarrow> booked r n = []"
  by (auto simp: booked_def filter_empty_conv)

lemma ic_tracked_cong: "set xs = set ys \<Longrightarrow> ic.tracked init r xs = ic.tracked init r ys"
  by (simp add: ic.tracked_def)

lemma place_inv:
  assumes pl: "place get reg ord cluster t s r err s' r'" and inv: "sched_inv init N s r"
    and fresh: "\<And>pool. pool \<in> set (spools s) \<Longrightarrow> claim_name pool t \<notin> N \<and> init (claim_name pool t) = {}"
  shows "sched_inv init (N \<union> (\<lambda>p. claim_name p t) ` set (spools s)) s' r'"
  using pl
proof (cases rule: place.cases)
  case (on_exit xs e ys ps)
  have u: "ex_open e" using on_exit ex.can_add_usable by blast
  have n: "ex.names (xs @ ex_Add e t ps # ys) = ex.names (existingExits s)"
    using ex.names_add [OF u] on_exit by simp
  have name: "ex_name e \<in> set (ex.names (existingExits s))"
    using u on_exit(4) by (auto simp: ex.names_def)
  have "distinct (ex.names (xs @ e # ys))" "ex.tracked init r (xs @ e # ys)" "safe init r"
    "ex_name e \<notin> set (ic.names (inflightClaims s))"
    using inv on_exit(4) name by (auto simp: sched_inv_def slot_names_def)
  note ex.tracked_add [OF on_exit(6) this(1,2,3)] and ic.tracked_other [OF this(4)]
  with inv n name on_exit(2,3,4) show ?thesis
    by (auto simp: sched_inv_def slot_names_def)
next
  case (in_flight xs c ys ps)
  have st: "set (inflightClaims s) = set (xs @ c # ys)" "mset (inflightClaims s) = mset (xs @ c # ys)"
    using in_flight(5) set_SortByLoad mset_SortByLoad by metis+
  have d: "distinct (map icName (xs @ c # ys)) \<longleftrightarrow> distinct (map icName (inflightClaims s))"
    using st(2) by (metis mset_eq_imp_distinct_iff mset_map)
  have name: "icName c \<in> set (map icName (inflightClaims s))" using st(1) by simp
  have "distinct (ic.names (xs @ c # ys))" "ic.tracked init r (xs @ c # ys)" "safe init r"
    "icName c \<notin> set (ex.names (existingExits s))"
    using inv name d ic_tracked_cong [OF st(1)] by (auto simp: sched_inv_def slot_names_def)
  note ic.tracked_add [OF in_flight(7) this(1,2,3)] and ex.tracked_other [OF this(4)]
  with inv name d st(1) in_flight(2,3) show ?thesis
    by (auto simp: sched_inv_def slot_names_def)
next
  case (new_claim ps1 pool ps2 c ps)
  note c = pool_attempt_claim [OF new_claim(8)]
  have f: "icName c \<notin> N" "init (icName c) = {}" using fresh [of pool] new_claim(6) c(1) by auto
  have out: "icName c \<notin> set (slot_names s)" using inv f(1) by (auto simp: sched_inv_def)
  then have free: "booked r (icName c) = []"
    using inv by (intro booked_unbound) (auto simp: sched_inv_def)
  have d: "distinct (map icName (SortByLoad (inflightClaims s))) \<longleftrightarrow> distinct (map icName (inflightClaims s))"
    by (metis mset_eq_imp_distinct_iff mset_map mset_SortByLoad)
  have "ic.tracked init r (SortByLoad (inflightClaims s))"
    using inv ic_tracked_cong [OF set_SortByLoad] by (simp add: sched_inv_def)
  then have "ic.tracked init (add_binding t (icName c) ps r) (SortByLoad (inflightClaims s) @ [c])"
    using out c(2) f(2) free by (auto simp: ic.tracked_def slot_names_def)
  moreover have "safe init (add_binding t (icName c) ps r)"
    using inv c(3) f(2) free by (auto simp: sched_inv_def safe_def)
  moreover have "ex.tracked init (add_binding t (icName c) ps r) (existingExits s)"
    using inv out by (intro ex.tracked_other) (auto simp: sched_inv_def slot_names_def)
  ultimately show ?thesis
    using inv d out new_claim(2,3,6) c(1) by (auto simp: sched_inv_def slot_names_def)
next
  case (unplaced e)
  have d: "distinct (map icName (SortByLoad (inflightClaims s))) \<longleftrightarrow> distinct (map icName (inflightClaims s))"
    by (metis mset_eq_imp_distinct_iff mset_map mset_SortByLoad)
  with unplaced inv ic_tracked_cong [OF set_SortByLoad] show ?thesis
    by (auto simp: sched_inv_def slot_names_def)
qed

end
