(* ===== verification/SchedulerSolve.thy ===== *)
theory SchedulerSolve
  imports SchedulerSteps
begin

text \<open>
  The start of a \<open>Solve\<close> satisfies the invariant, and the loop over the tunnels keeps it.
\<close>

section \<open>The claims of the cluster\<close>

lemma exit_claim_of:
  assumes "cluster_ok c" and "mget (exits c) pid = Some se"
  obtains cl where "seClaim se = Some cl" and "claim_of c (Name cl) = Some cl"
    and "mget (nameToProviderID c) (Name cl) = Some pid"
    and "allocs_exact (bindings c) (Name cl) (Allocations se)"
proof -
  from assms obtain n where n: "mget (nameToProviderID c) n = Some pid" "pid \<noteq> []"
    unfolding cluster_ok_def launched_ok_def by blast
  with assms obtain cl where "seClaim se = Some cl" "Name cl = n"
    "allocs_exact (bindings c) n (Allocations se)"
    unfolding cluster_ok_def launched_ok_def by (metis option.inject)
  with n assms(2) show ?thesis by (intro that [of cl]) (auto simp: claim_of_def)
qed

lemma pending_claim_of:
  assumes "cluster_ok c" and "mget (pendingClaims c) n = Some cl"
  shows "Name cl = n \<and> claim_of c n = Some cl \<and> mget (nameToProviderID c) n = Some []"
proof -
  from assms have "mget (nameToProviderID c) n = Some []" "Name cl = n"
    unfolding cluster_ok_def pending_ok_def by auto
  with assms(2) show ?thesis by (simp add: claim_of_def)
qed

text \<open>A claim that is not ready and may be joined: it is not going away, and no one has marked its exit.\<close>

definition joinable :: "Cluster \<Rightarrow> ExitClaim \<Rightarrow> bool" where
  "joinable c cl \<longleftrightarrow>
     ((\<exists>pid se. mget (exits c) pid = Some se \<and> seClaim se = Some cl \<and> \<not> MarkedForDeletion se) \<or>
      (\<exists>n. mget (pendingClaims c) n = Some cl)) \<and>
     \<not> isReady cl \<and> DeletionTimestamp cl = None \<and> \<not> disruptedTrue (claim_conds cl)"

lemma joinable_claim_of:
  assumes "cluster_ok c" and "joinable c cl"
  shows "claim_of c (Name cl) = Some cl \<and> Name cl \<in> mkeys (nameToProviderID c)"
  using assms(2) unfolding joinable_def
proof (elim conjE disjE exE)
  fix pid se
  assume "mget (exits c) pid = Some se" "seClaim se = Some cl"
  with assms(1) show ?thesis by (metis exit_claim_of mkeys_iff option.inject)
next
  fix n
  assume "mget (pendingClaims c) n = Some cl"
  with pending_claim_of [OF assms(1)] show ?thesis by (auto simp: mkeys_iff)
qed

section \<open>Rehydration\<close>

definition rh_ok :: "Cluster \<Rightarrow> ExitPool list \<Rightarrow> InflightClaim list \<times> string list \<Rightarrow> bool" where
  "rh_ok c ps st \<longleftrightarrow>
     distinct (map icName (fst st)) \<and> set (snd st) = icName ` set (fst st) \<and>
     (\<forall>ic \<in> set (fst st). Persisted ic \<and> icTunnels ic = [] \<and>
        set (icUsedPorts ic) = bound_ports (bindings c) (icName ic) \<and>
        (\<exists>cl. joinable c cl \<and> icName ic = Name cl \<and> icSpec ic = cSpec cl \<and>
           (\<exists>pool \<in> set ps. icPool ic = Some pool \<and> Name pool = mget_str (Labels cl) LabelExitPool)))"

lemma rehydrate_ok:
  assumes "rh_ok c ps st" and "joinable c cl" and "set used = bound_ports (bindings c) (Name cl)"
  shows "rh_ok c ps (rehydrate ps cl used st)"
proof -
  obtain inflight rh where st: "st = (inflight, rh)" by fastforce
  show ?thesis
  proof (cases "Name cl \<in> set rh")
    case True
    with assms(1) st show ?thesis by (simp add: rehydrate_def)
  next
    case False
    show ?thesis
    proof (cases "find (\<lambda>p. Name p = mget_str (Labels cl) LabelExitPool) ps")
      case None
      with False assms(1) st show ?thesis by (simp add: rehydrate_def)
    next
      case (Some pool)
      then have "pool \<in> set ps" "Name pool = mget_str (Labels cl) LabelExitPool"
        by (auto simp: find_Some_iff)
      with Some False assms st show ?thesis by (auto simp: rehydrate_def rh_ok_def)
    qed
  qed
qed

lemma rehydrate_exits_ok:
  assumes ok: "cluster_ok c" and "rh_ok c ps st" and "\<forall>se \<in> set ses. \<exists>pid. mget (exits c) pid = Some se"
  shows "rh_ok c ps (rehydrate_exits ps ses st)"
  using assms(2,3)
proof (induction ses arbitrary: st)
  case Nil
  then show ?case by simp
next
  case (Cons se ses)
  then obtain pid where pid: "mget (exits c) pid = Some se" by auto
  from exit_claim_of [OF ok this] obtain cl where cl: "seClaim se = Some cl"
    "allocs_exact (bindings c) (Name cl) (Allocations se)" by blast
  then have used: "set (sput_all (map fst (Allocations se)) []) = bound_ports (bindings c) (Name cl)"
    by (simp add: allocs_exact_def mkeys_def)
  have "joinable c cl" if "\<not> isReady cl" "DeletionTimestamp cl = None" "\<not> MarkedForDeletion se"
    "\<not> disruptedTrue (claim_conds cl)"
    using pid cl that by (auto simp: joinable_def)
  with rehydrate_ok [OF Cons.prems(1) _ used] Cons cl show ?case
    by (auto simp: SnapshotForRead_def)
qed

lemma rehydrate_pending_ok:
  assumes ok: "cluster_ok c" and ord: "is_order ord" and "rh_ok c ps st"
    and "\<forall>cl \<in> set cls. \<exists>n. mget (pendingClaims c) n = Some cl"
  shows "rh_ok c ps (rehydrate_pending ord c ps cls st)"
  using assms(3,4)
proof (induction cls arbitrary: st)
  case Nil
  then show ?case by simp
next
  case (Cons cl cls)
  have used: "set (PortsForClaimName ord c (Name cl)) = bound_ports (bindings c) (Name cl)"
    using ok ord by (simp add: set_PortsForClaimName cluster_ok_def maps_wf_def)
  have "joinable c cl" if "\<not> isReady cl" "DeletionTimestamp cl = None" "\<not> disruptedTrue (claim_conds cl)"
    using Cons.prems(2) that by (auto simp: joinable_def)
  with rehydrate_ok [OF Cons.prems(1) _ used] Cons show ?case by auto
qed

section \<open>The start\<close>

definition init_ports :: "Cluster \<Rightarrow> string \<Rightarrow> int set" where
  "init_ports c n = bound_ports (bindings c) n"

definition known_names :: "Cluster \<Rightarrow> string set" where
  "known_names c = mkeys (nameToProviderID c) \<union> {BoundExit b | k b. mget (bindings c) k = Some b}"

definition no_results :: Results where
  "no_results = \<lparr>NewClaims = [], rBindings = [], TunnelErrors = []\<rparr>"

lemma set_Exits:
  "cluster_ok c \<Longrightarrow> is_order ord \<Longrightarrow> se \<in> set (Exits ord c) \<longleftrightarrow> (\<exists>pid. mget (exits c) pid = Some se)"
  by (force simp: Exits_def cluster_ok_def maps_wf_def wf_map_mget [symmetric])

lemma set_PendingClaims:
  "cluster_ok c \<Longrightarrow> is_order ord \<Longrightarrow> cl \<in> set (PendingClaims ord c) \<longleftrightarrow> (\<exists>n. mget (pendingClaims c) n = Some cl)"
  by (force simp: PendingClaims_def cluster_ok_def maps_wf_def wf_map_mget [symmetric])

lemma distinct_map_by_key:
  "distinct (map fst xs) \<Longrightarrow> (\<And>p. p \<in> set xs \<Longrightarrow> fst p = g (f p)) \<Longrightarrow> distinct (map f xs)"
  by (metis (mono_tags, lifting) comp_apply distinct_map map_eq_conv map_map)

lemma distinct_exit_names:
  assumes "cluster_ok c" and "is_order ord"
  shows "distinct (map (\<lambda>se. Name (the (seClaim se))) (Exits ord c))"
proof -
  have "distinct (map (\<lambda>p. Name (the (seClaim (snd p)))) (exits c))"
  proof (rule distinct_map_by_key [where g = "\<lambda>n. the (mget (nameToProviderID c) n)"])
    show wf: "distinct (map fst (exits c))"
      using assms(1) by (simp add: cluster_ok_def maps_wf_def wf_map_def)
    fix p assume "p \<in> set (exits c)"
    then have "mget (exits c) (fst p) = Some (snd p)"
      using wf by simp
    with assms(1) show "fst p = the (mget (nameToProviderID c) (Name (the (seClaim (snd p)))))"
      by (metis exit_claim_of option.sel)
  qed
  from distinct_map_in_order [OF assms(2) this] show ?thesis
    by (simp add: Exits_def comp_def)
qed

definition fresh_exit :: "StateExit \<Rightarrow> ExistingExit" where
  "fresh_exit se = \<lparr>exState = Some se, NewlyBound = [], NewlyUsedPorts = []\<rparr>"

lemma solve_start_parts:
  assumes ok: "cluster_ok c" and ord: "\<And>k. is_order (ord k)"
  shows "existingExits (solve_start ord c) = map fresh_exit (Exits (ord 0) c)"
    and "spools (solve_start ord c) = sortPoolsByWeight (List.map_filter Snapshot (Pools (ord 1) c))"
    and "rh_ok c (spools (solve_start ord c)) (inflightClaims (solve_start ord c), map icName (inflightClaims (solve_start ord c)))"
proof -
  let ?ps = "sortPoolsByWeight (List.map_filter Snapshot (Pools (ord 1) c))"
  have "rh_ok c ?ps ([], [])" by (simp add: rh_ok_def)
  then have "rh_ok c ?ps (rehydrate_exits ?ps (Exits (ord 2) c) ([], []))"
    by (rule rehydrate_exits_ok [OF ok]) (simp add: set_Exits [OF ok ord])
  then have "rh_ok c ?ps (rehydrate_pending (ord 4) c ?ps (PendingClaims (ord 3) c)
      (rehydrate_exits ?ps (Exits (ord 2) c) ([], [])))"
    by (rule rehydrate_pending_ok [OF ok ord]) (simp add: set_PendingClaims [OF ok ord])
  then show "rh_ok c (spools (solve_start ord c))
      (inflightClaims (solve_start ord c), map icName (inflightClaims (solve_start ord c)))"
    by (simp add: solve_start_def Let_def rh_ok_def)
qed (simp_all add: solve_start_def Let_def fresh_exit_def [abs_def])

lemma fresh_exit_simps [simp]:
  "exState (fresh_exit se) = Some se" "NewlyBound (fresh_exit se) = []" "NewlyUsedPorts (fresh_exit se) = []"
  "ex_open (fresh_exit se) = exit_open se" "ex_name (fresh_exit se) = Name (the (seClaim se))"
  "ex_claim (fresh_exit se) = the (seClaim se)" "ex_used (fresh_exit se) = fst ` set (Allocations se)"
  by (simp_all add: fresh_exit_def ex_open_def ex_name_def ex_claim_def ex_used_def)

lemma exit_open_ready: "exit_open se \<Longrightarrow> isReady (the (seClaim se))"
  by (auto simp: exit_open_def isReady_iff)

lemma solve_start_inv:
  assumes ok: "cluster_ok c" and ord: "\<And>k. is_order (ord k)"
  shows "sched_inv (init_ports c) (known_names c) (solve_start ord c) no_results"
proof -
  let ?s = "solve_start ord c"
  note P = solve_start_parts [where ord = ord, OF ok ord]
  have inflight: "\<exists>cl. joinable c cl \<and> icName ic = Name cl"
    "set (icUsedPorts ic) = bound_ports (bindings c) (icName ic)" if "ic \<in> set (inflightClaims ?s)" for ic
    using P(3) that by (auto simp: rh_ok_def)
  have exit: "\<exists>cl. seClaim se = Some cl \<and> claim_of c (Name cl) = Some cl \<and> Name cl \<in> mkeys (nameToProviderID c) \<and>
      fst ` set (Allocations se) = bound_ports (bindings c) (Name cl)" if "se \<in> set (Exits (ord 0) c)" for se
  proof -
    from that ok ord obtain pid where "mget (exits c) pid = Some se" by (auto simp: set_Exits)
    from exit_claim_of [OF ok this] obtain cl where "seClaim se = Some cl" "claim_of c (Name cl) = Some cl"
      "mget (nameToProviderID c) (Name cl) = Some pid" "allocs_exact (bindings c) (Name cl) (Allocations se)" .
    then show ?thesis
      by (intro exI [of _ cl]) (auto simp: allocs_exact_def mkeys_iff mkeys_def [of "Allocations se", symmetric])
  qed
  have [simp]: "booked no_results n = []" for n by (simp add: booked_def no_results_def)
  have "ex.tracked (init_ports c) no_results (existingExits ?s)"
  proof -
    have "fst ` set (Allocations se) = bound_ports (bindings c) (Name (the (seClaim se)))"
      if "se \<in> set (Exits (ord 0) c)" for se
      using exit [OF that] by (elim exE conjE) simp
    then show ?thesis by (simp add: ex.tracked_def P(1) init_ports_def)
  qed
  moreover have "ic.tracked (init_ports c) no_results (inflightClaims ?s)"
    using inflight by (auto simp: ic.tracked_def init_ports_def)
  moreover have "safe (init_ports c) no_results" by (simp add: safe_def)
  moreover have "distinct (slot_names ?s)"
  proof -
    have "distinct (ex.names (existingExits ?s))"
      using distinct_exit_names [OF ok ord] by (simp add: ex.names_def P(1) filter_map comp_def distinct_map_filter)
    moreover have "distinct (map icName (inflightClaims ?s))"
      using P(3) by (simp add: rh_ok_def)
    moreover have "Name (the (seClaim se)) \<noteq> icName ic"
      if m: "se \<in> set (Exits (ord 0) c)" "exit_open se" "ic \<in> set (inflightClaims ?s)" for se ic
    proof
      assume eq: "Name (the (seClaim se)) = icName ic"
      from exit [OF m(1)] have "claim_of c (icName ic) = Some (the (seClaim se))"
        using eq by auto
      moreover obtain cl where cl: "joinable c cl" "icName ic = Name cl"
        using inflight(1) [OF m(3)] by blast
      ultimately have "cl = the (seClaim se)" using joinable_claim_of [OF ok cl(1)] by simp
      with cl(1) exit_open_ready [OF m(2)] show False by (simp add: joinable_def)
    qed
    ultimately show ?thesis
      by (auto simp: slot_names_def ex.names_def P(1))
  qed
  moreover have "set (slot_names ?s) \<subseteq> known_names c"
  proof -
    have "icName ic \<in> mkeys (nameToProviderID c)" if "ic \<in> set (inflightClaims ?s)" for ic
      using inflight(1) [OF that] joinable_claim_of [OF ok] by auto
    with exit show ?thesis
      by (fastforce simp: slot_names_def ex.names_def P(1) known_names_def)
  qed
  ultimately show ?thesis
    by (simp add: sched_inv_def no_results_def)
qed

section \<open>The loop\<close>

lemma solve_tunnel_eq:
  "solve_tunnel get reg ord c t s r =
     (case sched_add get reg ord c t s r of
        None \<Rightarrow> None
      | Some (None, s', r') \<Rightarrow> Some (s', r')
      | Some (Some e, s', r') \<Rightarrow> Some (s', r'\<lparr>TunnelErrors := mput (tunnelKey t) e (TunnelErrors r')\<rparr>))"
  by (subst solve_tunnel.simps) (simp add: Relax_def split: option.splits Option.bind_splits)

declare solve_tunnel_eq [code]

text \<open>
  Freshness of the deterministic names: no pool gives the tunnel a name that the cluster or an
  earlier tunnel of the batch has.
\<close>

fun names_fresh :: "ExitPool set \<Rightarrow> string set \<Rightarrow> Tunnel list \<Rightarrow> bool" where
  "names_fresh ps N [] \<longleftrightarrow> True"
| "names_fresh ps N (t # ts) \<longleftrightarrow>
     (\<forall>p \<in> ps. claim_name p t \<notin> N) \<and> names_fresh ps (N \<union> (\<lambda>p. claim_name p t) ` ps) ts"

lemma sched_inv_errors [simp]:
  "sched_inv init N s (r\<lparr>TunnelErrors := es\<rparr>) = sched_inv init N s r"
proof -
  have [simp]: "booked (r\<lparr>TunnelErrors := es\<rparr>) n = booked r n" for n by (simp add: booked_def)
  show ?thesis by (simp add: sched_inv_def ex.tracked_def ic.tracked_def safe_def)
qed

lemma solve_tunnel_cases:
  assumes "solve_tunnel get reg ord c t s r = Some (s', r')"
  obtains err r'' where "place get reg ord c t s r err s' r''"
    and "r' = (case err of None \<Rightarrow> r'' | Some e \<Rightarrow> r''\<lparr>TunnelErrors := mput (tunnelKey t) e (TunnelErrors r'')\<rparr>)"
  using assms sched_add_place [of get reg ord c t s r]
  by (auto simp: solve_tunnel_eq split: option.splits prod.splits)

lemma solve_tunnels_inv:
  assumes "solve_tunnels get reg ord c ts s r = Some (s', r')"
    and "sched_inv init N s r" and "names_fresh (set (spools s)) N ts"
    and "\<And>n. n \<notin> N \<Longrightarrow> init n = {}"
  shows "\<exists>N'. sched_inv init N' s' r'"
  using assms
proof (induction ts arbitrary: s r N)
  case Nil
  then show ?case by auto
next
  case (Cons t ts)
  then obtain s1 r1 where st: "solve_tunnel get reg ord c t s r = Some (s1, r1)"
    "solve_tunnels get reg ord c ts s1 r1 = Some (s', r')" by (auto split: option.splits)
  from st(1) obtain err r2 where pl: "place get reg ord c t s r err s1 r2"
    and r1: "r1 = (case err of None \<Rightarrow> r2 | Some e \<Rightarrow> r2\<lparr>TunnelErrors := mput (tunnelKey t) e (TunnelErrors r2)\<rparr>)"
    by (rule solve_tunnel_cases)
  have "sched_inv init (N \<union> (\<lambda>p. claim_name p t) ` set (spools s)) s1 r2"
    using place_inv [OF pl Cons.prems(2)] Cons.prems(3,4) by simp
  then have "sched_inv init (N \<union> (\<lambda>p. claim_name p t) ` set (spools s)) s1 r1"
    using r1 by (cases err) simp_all
  from Cons.IH [OF st(2) this] Cons.prems(3,4) place_pools [OF pl] show ?case by simp
qed

lemma Solve_cases:
  assumes "Solve get reg ord c ts = Some r"
  obtains s r0 where "solve_tunnels get reg (ord 5) c ts (solve_start ord c) no_results = Some (s, r0)"
    and "r = r0\<lparr>NewClaims := NewClaims r0 @ filter (\<lambda>c. \<not> Persisted c) (inflightClaims s)\<rparr>"
  using assms by (auto simp: Solve_def no_results_def split: option.splits prod.splits)

definition cluster_pools :: "Cluster \<Rightarrow> ExitPool set" where
  "cluster_pools c = {p. \<exists>n sp. mget (pools c) n = Some sp \<and> spPool sp = Some p}"

lemma set_spools:
  assumes "cluster_ok c" and "\<And>k. is_order (ord k)"
  shows "set (spools (solve_start ord c)) = cluster_pools c"
proof -
  have "set (List.map_filter f xs) = {y. \<exists>x \<in> set xs. f x = Some y}" for f :: "StatePool \<Rightarrow> ExitPool option" and xs
    by (induction xs) (auto simp: List.map_filter_simps split: option.splits)
  with assms show ?thesis
    by (force simp: solve_start_parts sortPoolsByWeight_def cluster_pools_def Pools_def Snapshot_def cluster_ok_def
        maps_wf_def wf_map_mget [symmetric])
qed

end
