(* ===== verification/SchedulerBatch.thy ===== *)
theory SchedulerBatch
  imports SchedulerSolve
begin

text \<open>
  The second invariant of a batch: what became of the tunnels placed so far, where each binding
  points, and how much of an exit's capacity the batch has used.
\<close>

section \<open>Targets and capacity\<close>

text \<open>A spec fits a tunnel with the given ports: compatible, and the ports are a valid assignment.\<close>

definition fits :: "ExitClaimSpec \<Rightarrow> Tunnel \<Rightarrow> int list \<Rightarrow> bool" where
  "fits spec t ps \<longleftrightarrow> Compatible (Requirements spec) (tunnel_reqs t) = None \<and>
     valid_assignment (claim_ports (Frps spec)) (tunnel_ports t) ps"

lemma valid_assignment_mono: "valid_assignment (F - U) ps out \<Longrightarrow> valid_assignment F ps out"
  by (auto simp: valid_assignment_def)

lemma ex_CanAdd_fits: "ex_CanAdd e t = Some (Inr ps) \<Longrightarrow> fits (cSpec (ex_claim e)) t ps"
  using ex_CanAdd_Inr valid_assignment_mono by (simp add: fits_def) blast

lemma ic_CanAdd_fits: "ic_CanAdd c t = Some (Inr ps) \<Longrightarrow> fits (icSpec c) t ps"
  using ic_CanAdd_Inr valid_assignment_mono by (simp add: fits_def) blast

definition target :: "Sched \<Rightarrow> Tunnel \<Rightarrow> string \<Rightarrow> int list \<Rightarrow> bool" where
  "target s t n ps \<longleftrightarrow>
     (\<exists>e \<in> set (existingExits s). ex_open e \<and> ex_name e = n \<and> fits (cSpec (ex_claim e)) t ps) \<or>
     (\<exists>c \<in> set (inflightClaims s). icName c = n \<and> fits (icSpec c) t ps)"

lemma target_place:
  assumes "place get reg ord cluster t s r err s' r'" and "target s x n ps"
  shows "target s' x n ps"
proof -
  have "exState ` set (existingExits s') = exState ` set (existingExits s)"
    using place_existing [OF assms(1)] by (metis set_map)
  then have ex: "\<exists>e' \<in> set (existingExits s'). exState e' = exState e" if "e \<in> set (existingExits s)" for e
    using that by (metis imageE imageI)
  have ic: "\<exists>c' \<in> set (inflightClaims s'). icName c' = icName c \<and> icSpec c' = icSpec c"
    if "c \<in> set (inflightClaims s)" for c
  proof -
    have "ic_key c \<in> ic_key ` set (inflightClaims s')" using place_inflight [OF assms(1)] that by blast
    then show ?thesis by (auto simp: ic_key_def)
  qed
  from assms(2) show ?thesis
    unfolding target_def
  proof (elim disjE bexE conjE)
    fix e assume "e \<in> set (existingExits s)" "ex_open e" "ex_name e = n" "fits (cSpec (ex_claim e)) x ps"
    moreover from this(1) obtain e' where "e' \<in> set (existingExits s')" "exState e' = exState e"
      using ex by blast
    ultimately show "(\<exists>e \<in> set (existingExits s'). ex_open e \<and> ex_name e = n \<and> fits (cSpec (ex_claim e)) x ps) \<or>
       (\<exists>c \<in> set (inflightClaims s'). icName c = n \<and> fits (icSpec c) x ps)"
      by (intro disjI1 bexI [of _ e']) (simp_all add: ex_open_def ex_name_def ex_claim_def)
  next
    fix c assume "c \<in> set (inflightClaims s)" "icName c = n" "fits (icSpec c) x ps"
    with ic [of c] show "(\<exists>e \<in> set (existingExits s'). ex_open e \<and> ex_name e = n \<and> fits (cSpec (ex_claim e)) x ps) \<or>
       (\<exists>c \<in> set (inflightClaims s'). icName c = n \<and> fits (icSpec c) x ps)"
      by auto
  qed
qed

lemma place_target:
  assumes "place get reg ord cluster t s r err s' r'"
  shows "(err = None \<and> (\<exists>n ps. r' = add_binding t n ps r \<and> target s' t n ps)) \<or> (err \<noteq> None \<and> r' = r)"
  using assms
proof (cases rule: place.cases)
  case (on_exit xs e ys ps)
  have "ex_open e" using on_exit ex.can_add_usable by blast
  then have "target s' t (ex_name e) ps"
    using ex_CanAdd_fits [OF on_exit(6)] on_exit(2) ex.usable_add ex.bname_add
    by (auto simp: target_def ex_claim_def)
  with on_exit show ?thesis by blast
next
  case (in_flight xs c ys ps)
  then have "target s' t (icName c) ps"
    using ic_CanAdd_fits [OF in_flight(7)] by (auto simp: target_def ic_Add_def)
  with in_flight show ?thesis by blast
next
  case (new_claim ps1 pool ps2 c ps)
  from new_claim(8) obtain it off where "c = ic_Add (pinned_claim pool t it off) t ps"
    "ic_CanAdd (pinned_claim pool t it off) t = Some (Inr ps)" by (rule pool_attempt_Inr)
  then have "target s' t (icName c) ps"
    using ic_CanAdd_fits new_claim(2) by (auto simp: target_def ic_Add_def)
  with new_claim show ?thesis by blast
qed simp

definition bound_to :: "Results \<Rightarrow> Tunnel \<Rightarrow> string \<Rightarrow> bool" where
  "bound_to r t n \<longleftrightarrow> (\<exists>b \<in> set (rBindings r). bTunnelKey b = tunnelKey t \<and> bExitClaimName b = n)"

definition within_capacity :: "ResourceList \<Rightarrow> Tunnel list \<Rightarrow> bool" where
  "within_capacity alloc ts \<longleftrightarrow>
     (\<forall>k \<in> mkeys alloc. (\<exists>t \<in> set ts. k \<in> mkeys (tunnel_requests t)) \<longrightarrow>
        (\<Sum>t\<leftarrow>ts. rget (tunnel_requests t) k) \<le> rget alloc k)"

lemma within_capacity_add:
  assumes "within_capacity alloc ts" and "ResourcesFit (Subtract alloc (sumTunnelRequests ts)) (tunnel_requests t)"
    and "wf_map alloc" and "\<forall>x \<in> set (t # ts). wf_map (tunnel_requests x)"
  shows "within_capacity alloc (ts @ [t])"
  unfolding within_capacity_def
proof (intro ballI impI)
  fix k
  assume k: "k \<in> mkeys alloc" and req: "\<exists>x \<in> set (ts @ [t]). k \<in> mkeys (tunnel_requests x)"
  show "(\<Sum>x\<leftarrow>ts @ [t]. rget (tunnel_requests x) k) \<le> rget alloc k"
  proof (cases "k \<in> mkeys (tunnel_requests t)")
    case True
    then show ?thesis
      using fit_after_subtract [of alloc "tunnel_requests t" "map tunnel_requests ts" k] assms k
      by (simp add: sumTunnelRequests_def comp_def)
  next
    case False
    with req assms(1) k show ?thesis
      by (auto simp: within_capacity_def rget_notin)
  qed
qed

section \<open>The invariant of the batch\<close>

definition from_cluster :: "Cluster \<Rightarrow> Sched \<Rightarrow> bool" where
  "from_cluster c s \<longleftrightarrow>
     (\<forall>e \<in> set (existingExits s). \<exists>pid se. exState e = Some se \<and> mget (exits c) pid = Some se) \<and>
     (\<forall>ic \<in> set (inflightClaims s). Persisted ic \<longrightarrow> (\<exists>cl. joinable c cl \<and> icName ic = Name cl \<and> icSpec ic = cSpec cl))"

definition bound_exactly :: "Tunnel list \<Rightarrow> Sched \<Rightarrow> Results \<Rightarrow> bool" where
  "bound_exactly done s r \<longleftrightarrow>
     (\<forall>e \<in> set (existingExits s). ex_open e \<longrightarrow> NewlyBound e = filter (\<lambda>t. bound_to r t (ex_name e)) done)"

definition capacity_ok :: "Sched \<Rightarrow> bool" where
  "capacity_ok s \<longleftrightarrow>
     (\<forall>e \<in> set (existingExits s). ex_open e \<longrightarrow> within_capacity (Allocatable (cStatus (ex_claim e))) (NewlyBound e))"

definition batch_inv :: "Cluster \<Rightarrow> Tunnel list \<Rightarrow> Sched \<Rightarrow> Results \<Rightarrow> bool" where
  "batch_inv c done s r \<longleftrightarrow>
     mset (map bTunnelKey (rBindings r)) + mset (map fst (TunnelErrors r)) = mset (map tunnelKey done) \<and>
     (\<forall>b \<in> set (rBindings r). \<exists>t \<in> set done. bTunnelKey b = tunnelKey t \<and>
        target s t (bExitClaimName b) (bAssignedPorts b)) \<and>
     from_cluster c s"

lemma mset_mput_fresh: "k \<notin> fst ` set m \<Longrightarrow> image_mset fst (mset (mput k v m)) = add_mset k (image_mset fst (mset m))"
  by (induction m) auto

lemma place_from_cluster:
  assumes "place get reg ord c t s r err s' r'" and "from_cluster c s"
  shows "from_cluster c s'"
proof -
  have "exState ` set (existingExits s') = exState ` set (existingExits s)"
    using place_existing [OF assms(1)] by (metis set_map)
  then have "\<exists>e' \<in> set (existingExits s). exState e' = exState e" if "e \<in> set (existingExits s')" for e
    using that by (metis imageE imageI)
  moreover have "\<exists>c' \<in> set (inflightClaims s). icName c' = icName ic \<and> icSpec c' = icSpec ic \<and> Persisted c'"
    if "ic \<in> set (inflightClaims s')" "Persisted ic" for ic
  proof -
    have "ic_key ic \<in> ic_key ` set (inflightClaims s) \<union> new_keys t (spools s)"
      using place_inflight [OF assms(1)] that(1) by blast
    moreover have "ic_key ic \<notin> new_keys t (spools s)"
      using that(2) by (auto simp: new_keys_def ic_key_def)
    ultimately obtain c' where "c' \<in> set (inflightClaims s)" "ic_key c' = ic_key ic" by (auto dest: sym)
    with that(2) show ?thesis by (auto simp: ic_key_def)
  qed
  ultimately show ?thesis
    using assms(2) unfolding from_cluster_def by metis
qed

lemma batch_place:
  assumes pl: "place get reg ord c t s r err s' r1" and inv: "batch_inv c done s r"
    and new: "tunnelKey t \<notin> tunnelKey ` set done"
    and r': "r' = (case err of None \<Rightarrow> r1 | Some e \<Rightarrow> r1\<lparr>TunnelErrors := mput (tunnelKey t) e (TunnelErrors r1)\<rparr>)"
  shows "batch_inv c (done @ [t]) s' r'"
proof -
  have keys: "mset (map bTunnelKey (rBindings r)) + mset (map fst (TunnelErrors r)) = mset (map tunnelKey done)"
    and tg: "\<forall>b \<in> set (rBindings r). \<exists>t \<in> set done. bTunnelKey b = tunnelKey t \<and>
        target s' t (bExitClaimName b) (bAssignedPorts b)"
    and fc: "from_cluster c s'"
    using inv target_place [OF pl] place_from_cluster [OF pl] unfolding batch_inv_def by blast+
  have out: "tunnelKey t \<notin> fst ` set (TunnelErrors r)"
  proof
    assume "tunnelKey t \<in> fst ` set (TunnelErrors r)"
    then have "tunnelKey t \<in># mset (map tunnelKey done)"
      unfolding keys [symmetric] by simp
    with new show False by auto
  qed
  from place_target [OF pl] show ?thesis
  proof (elim disjE conjE exE)
    fix n ps assume "err = None" "r1 = add_binding t n ps r" "target s' t n ps"
    moreover from this have "TunnelErrors r' = TunnelErrors r" using r' by (simp add: add_binding_def)
    ultimately show ?thesis
      using keys tg fc r' by (simp add: batch_inv_def)
  next
    assume "err \<noteq> None" "r1 = r"
    then obtain e where "r' = r\<lparr>TunnelErrors := mput (tunnelKey t) e (TunnelErrors r)\<rparr>" using r' by auto
    with keys tg fc out show ?thesis
      by (auto simp: batch_inv_def mset_mput_fresh)
  qed
qed

text \<open>An existing exit other than the one that took the tunnel has another name.\<close>

lemma bound_to_add:
  "tunnelKey x \<noteq> tunnelKey t \<Longrightarrow> bound_to (add_binding t n ps r) x m = bound_to r x m"
  "bound_to (add_binding t n ps r) t m \<longleftrightarrow> n = m \<or> bound_to r t m"
  by (auto simp: bound_to_def)

lemma bound_to_errors [simp]: "bound_to (r\<lparr>TunnelErrors := es\<rparr>) t n = bound_to r t n"
  by (simp add: bound_to_def)

lemma filter_bound_add:
  assumes "tunnelKey t \<notin> tunnelKey ` set done" and "\<not> bound_to r t m"
  shows "filter (\<lambda>x. bound_to (add_binding t n ps r) x m) (done @ [t]) =
     filter (\<lambda>x. bound_to r x m) done @ (if n = m then [t] else [])"
proof -
  have "filter (\<lambda>x. bound_to (add_binding t n ps r) x m) done = filter (\<lambda>x. bound_to r x m) done"
  proof (rule filter_cong [OF refl])
    fix x assume "x \<in> set done"
    then have "tunnelKey x \<noteq> tunnelKey t" using assms(1) by (metis imageI)
    then show "bound_to (add_binding t n ps r) x m = bound_to r x m" by (rule bound_to_add(1))
  qed
  with assms(2) show ?thesis by (simp add: bound_to_add(2))
qed

lemma bound_place:
  assumes pl: "place get reg ord c t s r err s' r1"
    and names: "distinct (slot_names s')"
    and unbound: "\<And>m. \<not> bound_to r t m" and new: "tunnelKey t \<notin> tunnelKey ` set done"
    and b: "bound_exactly done s r"
  shows "bound_exactly (done @ [t]) s' r1"
  using pl
proof (cases rule: place.cases)
  case (on_exit xs e ys ps)
  have u: "ex_open e" using on_exit ex.can_add_usable by blast
  then have d: "distinct (ex.names (xs @ e # ys))"
    using names on_exit(2) ex.names_add [OF u, of xs t ps ys] by (simp add: slot_names_def)
  have "ex_name e \<notin> set (ex.names xs) \<union> set (ex.names ys)"
    using d u by (auto simp: ex.names_def)
  moreover have "ex_name x \<in> set (ex.names xs) \<union> set (ex.names ys)" if "x \<in> set xs \<union> set ys" "ex_open x" for x
    using that by (auto simp: ex.names_def)
  ultimately have "\<forall>x \<in> set xs \<union> set ys. ex_open x \<longrightarrow> ex_name e \<noteq> ex_name x" by metis
  with b on_exit u filter_bound_add [OF new unbound] show ?thesis
    by (auto simp: bound_exactly_def ex_Add_def ex_open_def ex_name_def simp del: filter_append)
next
  case (in_flight xs c' ys ps)
  have "icName c' \<in> set (map icName (inflightClaims s'))" using in_flight(2) by simp
  then have "icName c' \<notin> set (ex.names (existingExits s'))" using names by (auto simp: slot_names_def)
  then have "\<forall>x \<in> set (existingExits s). ex_open x \<longrightarrow> icName c' \<noteq> ex_name x"
    using in_flight(2) by (auto simp: ex.names_def)
  with b in_flight(2,3) filter_bound_add [OF new unbound] show ?thesis
    by (auto simp: bound_exactly_def simp del: filter_append)
next
  case (new_claim ps1 pool ps2 c' ps)
  have "icName c' \<in> set (map icName (inflightClaims s'))" using new_claim(2) by simp
  then have "icName c' \<notin> set (ex.names (existingExits s'))" using names by (auto simp: slot_names_def)
  then have "\<forall>x \<in> set (existingExits s). ex_open x \<longrightarrow> icName c' \<noteq> ex_name x"
    using new_claim(2) by (auto simp: ex.names_def)
  with b new_claim(2,3) filter_bound_add [OF new unbound] show ?thesis
    by (auto simp: bound_exactly_def simp del: filter_append)
next
  case (unplaced e)
  with b unbound show ?thesis by (auto simp: bound_exactly_def)
qed

lemma capacity_place:
  assumes pl: "place get reg ord c t s r err s' r1" and cap: "capacity_ok s" and ok: "from_cluster c s"
    and wf: "\<And>pid se cl. mget (exits c) pid = Some se \<Longrightarrow> seClaim se = Some cl \<Longrightarrow> wf_map (Allocatable (cStatus cl))"
    and wft: "\<And>x. x \<in> set (done @ [t]) \<Longrightarrow> wf_map (tunnel_requests x)"
    and b: "bound_exactly done s r"
  shows "capacity_ok s'"
  using pl
proof (cases rule: place.cases)
  case (on_exit xs e ys ps)
  note C = ex_CanAdd_Inr [OF on_exit(6)]
  from C have u: "ex_open e" by blast
  have e: "e \<in> set (existingExits s)" using on_exit(4) by simp
  obtain pid se where se: "exState e = Some se" "mget (exits c) pid = Some se"
    using ok e unfolding from_cluster_def by blast
  then have "wf_map (Allocatable (cStatus (ex_claim e)))"
    using wf u by (auto simp: ex_claim_def ex_open_def exit_open_def)
  moreover have "\<forall>x \<in> set (t # NewlyBound e). wf_map (tunnel_requests x)"
    using b e u wft by (auto simp: bound_exactly_def)
  moreover have "within_capacity (Allocatable (cStatus (ex_claim e))) (NewlyBound e)"
    using cap e u by (simp add: capacity_ok_def)
  ultimately have "within_capacity (Allocatable (cStatus (ex_claim e))) (NewlyBound e @ [t])"
    using C by (intro within_capacity_add) auto
  with cap on_exit(2,4) show ?thesis
    by (auto simp: capacity_ok_def ex_Add_def ex_claim_def ex_open_def)
qed (use cap in \<open>auto simp: capacity_ok_def\<close>)

end
