(* ===== verification/SchedulerTotal.thy ===== *)
theory SchedulerTotal
  imports SchedulerProps
begin

text \<open>
  \<open>Solve\<close> returns when no range of allowed ports diverges, new claims come from the heaviest
  pool, and the witnesses of the scheduler's properties.
\<close>

section \<open>Solve returns\<close>

definition expandable :: "FrpsConfig \<Rightarrow> bool" where
  "expandable f \<longleftrightarrow> (\<forall>s \<in> set (AllowPorts f). \<not> spec_diverges s)"

definition all_expandable :: "Sched \<Rightarrow> bool" where
  "all_expandable s \<longleftrightarrow>
     (\<forall>e \<in> set (existingExits s). expandable (Frps (cSpec (ex_claim e)))) \<and>
     (\<forall>c \<in> set (inflightClaims s). expandable (Frps (icSpec c))) \<and>
     (\<forall>p \<in> set (spools s). expandable (tmplFrps (pool_tmpl p)))"

lemma resolve_returns: "expandable f \<Longrightarrow> (ResolveAutoAssign (AllowPorts f) rs used ps = None) = False"
  by (simp add: ResolveAutoAssign_None_iff expandable_def)

lemma ic_CanAdd_returns: "expandable (Frps (icSpec c)) \<Longrightarrow> ic_CanAdd c t \<noteq> None"
  by (auto simp: ic_CanAdd_def resolve_returns split: option.splits)

lemma ex_CanAdd_returns: "expandable (Frps (cSpec (ex_claim e))) \<Longrightarrow> ex_CanAdd e t \<noteq> None"
  by (auto simp: resolve_returns ex_CanAdd_def Let_def ex_claim_def snapshotClaimAndUsed_def SnapshotForRead_def
      split: option.splits prod.splits)

lemma pool_attempt_returns: "expandable (tmplFrps (pool_tmpl p)) \<Longrightarrow> pool_attempt get reg ord c t p \<noteq> None"
proof -
  assume "expandable (tmplFrps (pool_tmpl p))"
  then have r: "(ic_CanAdd (pinned_claim p t it off) t = None) = False" for it off
    using ic_CanAdd_returns [of "pinned_claim p t it off" t] by simp
  show ?thesis
    by (auto simp: r pool_attempt_def Let_def split: option.splits sum.splits)
qed

lemma new_claim_loop_returns:
  "(\<And>p. p \<in> set ps \<Longrightarrow> attempt p \<noteq> None) \<Longrightarrow> new_claim_loop attempt t ps e \<noteq> None"
proof (induction ps arbitrary: e)
  case Nil
  then show ?case by simp
next
  case (Cons p ps)
  have "attempt p \<noteq> None" using Cons.prems by simp
  moreover have "new_claim_loop attempt t ps e' \<noteq> None" for e'
    using Cons.IH Cons.prems by simp
  ultimately show ?case by (auto split: sum.splits)
qed

lemma sched_add_returns:
  assumes "all_expandable s"
  shows "sched_add get reg ord c t s r \<noteq> None"
proof -
  have 1: "first_fit ex_CanAdd ex_Add (existingExits s) t \<noteq> None"
    using assms by (intro first_fit_returns ex_CanAdd_returns) (simp add: all_expandable_def)
  have 2: "first_fit ic_CanAdd ic_Add (SortByLoad (inflightClaims s)) t \<noteq> None"
    using assms by (intro first_fit_returns ic_CanAdd_returns) (simp add: all_expandable_def)
  have 3: "new_claim_loop (pool_attempt get reg ord c t) t (spools s) None \<noteq> None"
    using assms by (intro new_claim_loop_returns pool_attempt_returns) (simp add: all_expandable_def)
  from 1 2 3 show ?thesis
    by (auto simp: sched_add_def addToExistingExit_def addToInflightClaim_def addToNewClaim_def Let_def
        split: option.splits prod.splits sum.splits)
qed

lemma place_expandable:
  assumes pl: "place get reg ord c t s r err s' r'" and ok: "all_expandable s"
  shows "all_expandable s'"
proof -
  have ex: "exState ` set (existingExits s') = exState ` set (existingExits s)"
    using place_existing [OF pl] by (metis set_map)
  have "expandable (Frps (cSpec (ex_claim e)))" if "e \<in> set (existingExits s')" for e
  proof -
    from that ex obtain e' where "e' \<in> set (existingExits s)" "exState e' = exState e" by (metis imageE imageI)
    with ok show ?thesis by (metis all_expandable_def ex_claim_def)
  qed
  moreover have "expandable (Frps (icSpec ic))" if "ic \<in> set (inflightClaims s')" for ic
  proof -
    have "ic_key ic \<in> ic_key ` set (inflightClaims s) \<union> new_keys t (spools s)"
      using place_inflight [OF pl] that by blast
    with ok show ?thesis by (auto simp: ic_key_def new_keys_def all_expandable_def)
  qed
  ultimately show ?thesis
    using ok place_pools [OF pl] by (simp add: all_expandable_def)
qed

lemma solve_tunnels_returns:
  "all_expandable s \<Longrightarrow> solve_tunnels get reg ord c ts s r \<noteq> None"
proof (induction ts arbitrary: s r)
  case Nil
  then show ?case by simp
next
  case (Cons t ts)
  obtain err s1 r1 where add: "sched_add get reg ord c t s r = Some (err, s1, r1)"
    using sched_add_returns [OF Cons.prems] by (metis not_None_eq prod.exhaust)
  have "all_expandable s1"
    using place_expandable [OF sched_add_place [OF add] Cons.prems] .
  from Cons.IH [OF this] show ?case
    by (simp add: solve_tunnel_eq add split: option.splits)
qed

text \<open>
  C5: The scheduler returns. If no allowed-ports entry of an exit, a pending claim or a pool of the
  cache is a range that ends at the largest 64-bit integer, \<open>Solve\<close> returns a result for
  every batch of tunnels, whatever the provider answers.
\<close>

theorem Solve_returns:
  assumes "reachable c" and "\<And>k. is_order (ord k)"
    and "\<And>n cl. claim_of c n = Some cl \<Longrightarrow> expandable (Frps (cSpec cl))"
    and "\<And>p. p \<in> cluster_pools c \<Longrightarrow> expandable (tmplFrps (pool_tmpl p))"
  shows "\<exists>r. Solve get reg ord c ts = Some r"
proof -
  from assms(1) have ok: "cluster_ok c" by (rule reachable_ok)
  note P = solve_start_parts [where ord = ord, OF ok assms(2)]
  have "expandable (Frps (cSpec (the (seClaim se))))" if "se \<in> set (Exits (ord 0) c)" for se
  proof -
    from that obtain pid where "mget (exits c) pid = Some se" using set_Exits [OF ok assms(2)] by blast
    from exit_claim_of [OF ok this] obtain cl where "seClaim se = Some cl" "claim_of c (Name cl) = Some cl" by blast
    with assms(3) show ?thesis by simp
  qed
  moreover have "expandable (Frps (icSpec ic))" if "ic \<in> set (inflightClaims (solve_start ord c))" for ic
  proof -
    from P(3) that obtain cl where "joinable c cl" "icSpec ic = cSpec cl" by (auto simp: rh_ok_def)
    with assms(3) joinable_claim_of [OF ok] show ?thesis by auto
  qed
  ultimately have "all_expandable (solve_start ord c)"
    using assms(4) set_spools [where ord = ord, OF ok assms(2)]
    by (simp add: all_expandable_def P(1))
  from solve_tunnels_returns [OF this, of get reg "ord 5" c ts no_results] show ?thesis
    by (auto simp: Solve_def no_results_def)
qed

section \<open>The heaviest pool\<close>

lemma limits_loop_iff:
  "limits_loop used ls = None \<longleftrightarrow> (\<forall>(k, limit) \<in> set ls. \<forall>cur. mget used k = Some cur \<longrightarrow> cur < limit)"
  by (induction used ls rule: limits_loop.induct) (auto split: option.splits)

lemma poolLimitsExceeded_iff:
  assumes "is_order ord"
  shows "poolLimitsExceeded ord pool c = None \<longleftrightarrow>
     (\<forall>sp. Pool c (Name pool) = Some sp \<longrightarrow>
        (\<forall>(k, limit) \<in> set (Limits (pSpec pool)). \<forall>cur. mget (spResources sp) k = Some cur \<longrightarrow> cur < limit))"
  using assms by (auto simp: poolLimitsExceeded_def limits_loop_iff SnapshotResources_def Let_def split: option.splits)

lemma sortPoolsByWeight_sorted: "sorted_wrt (\<lambda>p q. weight q \<le> weight p) (sortPoolsByWeight ps)"
proof -
  have "sorted (map (\<lambda>p. - weight p) (sortPoolsByWeight ps))"
    by (simp add: sortPoolsByWeight_def)
  then show ?thesis by (simp add: sorted_map)
qed

text \<open>
  C6: A new claim comes from the heaviest pool that can make one. When \<open>addToNewClaim\<close> succeeds
  on pools sorted by \<open>sortPoolsByWeight\<close>, the pool it uses is compatible with the tunnel and below
  all its limits, every pool of greater weight has refused, and the claim has the deterministic
  name of the pool and the tunnel, the requirements of the pool followed by those of the instance type
  and offering that \<open>SelectInstanceType\<close> chose, the request of the tunnel, and the ports
  of the tunnel as the only ones in use.
\<close>

theorem addToNewClaim_heaviest:
  assumes "spools s = sortPoolsByWeight ps" and "addToNewClaim get reg ord c t s r = Some (None, s', r')"
  shows "\<exists>pool \<in> set ps. \<exists>ic ports it off.
     pool_attempt get reg ord c t pool = Some (Inr (ic, ports)) \<and>
     (\<forall>q \<in> set ps. weight pool < weight q \<longrightarrow> (\<exists>e. pool_attempt get reg ord c t q = Some (Inl e))) \<and>
     Compatible (tmplRequirements (pool_tmpl pool)) (tunnel_reqs t) = None \<and>
     poolLimitsExceeded ord pool c = None \<and>
     SelectInstanceType get reg pool (tunnel_reqs t) (tunnel_requests t) = Inr (it, off) \<and>
     icName ic = Name pool @ ''-'' @ take 8 (hex_sha256 (Name pool @ ''|'' @ UID t)) \<and>
     Requirements (icSpec ic) = tmplRequirements (pool_tmpl pool) @ PinChosen it off \<and>
     Requests (icSpec ic) = copyResourceList (tunnel_requests t) \<and>
     set (icUsedPorts ic) = set ports \<and> icTunnels ic = [t] \<and>
     inflightClaims s' = inflightClaims s @ [ic] \<and> r' = add_binding t (icName ic) ports r"
proof -
  from assms(2) obtain ic ports where loop:
    "new_claim_loop (pool_attempt get reg ord c t) t (spools s) None = Some (Inr (ic, ports))"
    and s': "inflightClaims s' = inflightClaims s @ [ic]" "r' = add_binding t (icName ic) ports r"
    by (auto simp: addToNewClaim_def split: option.splits sum.splits)
  from new_claim_loop_cases [OF loop] obtain ps1 pool ps2 where sp: "spools s = ps1 @ pool # ps2"
    and ref: "\<forall>q \<in> set ps1. \<exists>e. pool_attempt get reg ord c t q = Some (Inl e)"
    and at: "pool_attempt get reg ord c t pool = Some (Inr (ic, ports))" by auto
  have "sorted_wrt (\<lambda>p q. weight q \<le> weight p) (ps1 @ pool # ps2)"
    using sortPoolsByWeight_sorted [of ps] assms(1) sp by simp
  then have "q \<in> set ps1" if "q \<in> set (spools s)" "weight pool < weight q" for q
    using that sp by (auto simp: sorted_wrt_append)
  moreover have "set (spools s) = set ps" using assms(1) by (simp add: sortPoolsByWeight_def)
  ultimately have heavy: "\<forall>q \<in> set ps. weight pool < weight q \<longrightarrow> (\<exists>e. pool_attempt get reg ord c t q = Some (Inl e))"
    and mem: "pool \<in> set ps" using ref sp by auto
  from at obtain it off where ic: "ic = ic_Add (pinned_claim pool t it off) t ports"
    and sel: "SelectInstanceType get reg pool (tunnel_reqs t) (tunnel_requests t) = Inr (it, off)"
    and lc: "poolLimitsExceeded ord pool c = None"
      "Compatible (tmplRequirements (pool_tmpl pool)) (tunnel_reqs t) = None" by (rule pool_attempt_Inr)
  have "icName ic = Name pool @ ''-'' @ take 8 (hex_sha256 (Name pool @ ''|'' @ UID t))"
    "Requirements (icSpec ic) = tmplRequirements (pool_tmpl pool) @ PinChosen it off"
    "Requests (icSpec ic) = copyResourceList (tunnel_requests t)"
    "set (icUsedPorts ic) = set ports" "icTunnels ic = [t]"
    by (simp_all add: ic ic_Add_def pinned_claim_def NewClaimFromPool_def Let_def)
  with mem heavy lc sel at s' show ?thesis by blast
qed

section \<open>Evaluation on a batch\<close>

definition second_tunnel :: Tunnel where
  "second_tunnel = sample_tunnel\<lparr>Name := ''t2'', UID := ''ut2''\<rparr>"

text \<open>This one asks for a reserved port.\<close>

definition third_tunnel :: Tunnel where
  "third_tunnel = sample_tunnel\<lparr>Name := ''t3'', UID := ''ut3'',
     tSpec := (tSpec sample_tunnel)\<lparr>Ports := [fixed_port 81]\<rparr>\<rparr>"

definition sample_batch :: "Tunnel list" where
  "sample_batch = [sample_tunnel, second_tunnel, third_tunnel]"

definition solve_cluster :: Cluster where
  "solve_cluster = run_events [ExitUpdated sample_claim] started"

definition sample_solve :: "Results option" where
  "sample_solve = Solve (\<lambda>(_::unit) _. Inl []) None (\<lambda>_. list_order) solve_cluster sample_batch"

lemma sample_solve_eq:
  "map_option rBindings sample_solve =
     Some [\<lparr>bTunnelKey = ''ns/t'', bExitClaimName = ''x'', bAssignedPorts = [80]\<rparr>,
           \<lparr>bTunnelKey = ''ns/t2'', bExitClaimName = ''x'', bAssignedPorts = [82]\<rparr>]"
  by code_simp

lemma solve_cluster_eq:
  "exits solve_cluster = [(''fake://1'', \<lparr>seClaim = Some sample_claim, Allocations = [],
     MarkedForDeletion = False, Nominated = False, DisruptionCost = 0\<rparr>)]"
  "pools solve_cluster = []" "pendingClaims solve_cluster = []"
  "nameToProviderID solve_cluster = [(''x'', ''fake://1'')]"
  by (simp_all add: solve_cluster_def cluster_eval sample_claim_def)

lemma reachable_solve_cluster: "reachable solve_cluster"
  unfolding solve_cluster_def
  by (rule reachable_run [OF reachable_started]) (simp add: cluster_eval)

lemma names_fresh_no_pools [simp]: "names_fresh {} N ts"
  by (induction ts arbitrary: N) simp_all

lemma no_pools [simp]: "cluster_pools solve_cluster = {}"
  by (simp add: cluster_pools_def solve_cluster_eq)

lemma sample_keys: "map tunnelKey sample_batch = [''ns/t'', ''ns/t2'', ''ns/t3'']"
  by (simp add: sample_batch_def second_tunnel_def third_tunnel_def tunnelKey_def sample_tunnel_def)

lemma sample_solve_Some:
  obtains r where "Solve (\<lambda>(_::unit) _. Inl []) None (\<lambda>_. list_order) solve_cluster sample_batch = Some r"
    and "rBindings r = [\<lparr>bTunnelKey = ''ns/t'', bExitClaimName = ''x'', bAssignedPorts = [80]\<rparr>,
           \<lparr>bTunnelKey = ''ns/t2'', bExitClaimName = ''x'', bAssignedPorts = [82]\<rparr>]"
  using sample_solve_eq by (auto simp: sample_solve_def map_option_case split: option.splits)


theorem Solve_one_outcome_each_witness:
  "\<exists>r. sample_solve = Some r \<and> mset (map fst (TunnelErrors r)) = {# ''ns/t3'' #} \<and>
     \<not> AllScheduled r 3 \<and> TunnelErrors r \<noteq> []"
proof -
  obtain r where r: "Solve (\<lambda>(_::unit) _. Inl []) None (\<lambda>_. list_order) solve_cluster sample_batch = Some r"
    "rBindings r = [\<lparr>bTunnelKey = ''ns/t'', bExitClaimName = ''x'', bAssignedPorts = [80]\<rparr>,
       \<lparr>bTunnelKey = ''ns/t2'', bExitClaimName = ''x'', bAssignedPorts = [82]\<rparr>]" by (rule sample_solve_Some)
  have "distinct (map tunnelKey sample_batch)" by (simp add: sample_keys)
  from Solve_one_outcome_each [OF reachable_solve_cluster _ this r(1)]
  have eq: "mset (map bTunnelKey (rBindings r)) + mset (map fst (TunnelErrors r)) = mset (map tunnelKey sample_batch)"
    and all: "AllScheduled r (length sample_batch) \<longleftrightarrow> TunnelErrors r = []" by simp_all
  from eq have "mset (map fst (TunnelErrors r)) = {# ''ns/t3'' #}"
    unfolding sample_keys r(2) by simp
  moreover from this have "TunnelErrors r \<noteq> []" by auto
  moreover have "\<not> AllScheduled r 3" using r(2) by (simp add: AllScheduled_def)
  ultimately show ?thesis using r(1) by (simp add: sample_solve_def)
qed



lemma sample_expandable: "expandable sample_frps"
  by (simp add: expandable_def sample_frps_def) code_simp

theorem Solve_returns_witness:
  "\<exists>r. Solve (\<lambda>(_::unit) _. Inl []) None (\<lambda>_. list_order) solve_cluster sample_batch = Some r"
proof (rule Solve_returns [OF reachable_solve_cluster])
  show "expandable (Frps (cSpec cl))" if "claim_of solve_cluster n = Some cl" for n cl
    using that sample_expandable
    by (auto simp: claim_of_def solve_cluster_eq sample_claim_def split: if_splits)
qed simp_all

definition pool_sched :: Sched where
  "pool_sched = \<lparr>existingExits = [], inflightClaims = [], spools = sortPoolsByWeight [sample_pool]\<rparr>"

theorem addToNewClaim_heaviest_witness:
  "\<exists>s' r' ic. addToNewClaim (\<lambda>_ _. Inr sample_types) (Some [(''Fake'', ())]) list_order solve_cluster
      sample_tunnel pool_sched no_results = Some (None, s', r') \<and>
     inflightClaims s' = [ic] \<and>
     icName ic = ''p-'' @ take 8 (hex_sha256 (''p|ut''))"
proof -
  have "\<exists>s' r'. addToNewClaim (\<lambda>_ _. Inr sample_types) (Some [(''Fake'', ())]) list_order solve_cluster
      sample_tunnel pool_sched no_results = Some (None, s', r')"
  proof -
    have pin: "PinChosen (sample_types ! Suc 0) (offer 3 True) = []"
      by (simp add: PinChosen_def sample_types_def offer_def)
    have sel: "SelectInstanceType (\<lambda>_ _. Inr sample_types) (Some [(''Fake'', ())]) sample_pool [] [(''cpu'', 1)] =
        Inr (sample_types ! Suc 0, offer 3 True)"
      by (simp add: SelectInstanceType_def For_def sample_defs sample_types_def it_Allocatable_def
          cheapestCompatibleOffering_def offer_def)
    have "ResolveAutoAssign [''80-82''] [81] [] [auto_port] = Some (Some [80])" by code_simp
    then have "ic_CanAdd (pinned_claim sample_pool sample_tunnel (sample_types ! Suc 0) (offer 3 True)) sample_tunnel =
        Some (Inr [80])"
      by (simp add: ic_CanAdd_def pinned_claim_def NewClaimFromPool_def Let_def pin sample_pool_def
          sample_frps_def sample_tunnel_def)
    then have "pool_attempt (\<lambda>_ _. Inr sample_types) (Some [(''Fake'', ())]) list_order solve_cluster sample_tunnel
        sample_pool = Some (Inr (ic_Add (pinned_claim sample_pool sample_tunnel (sample_types ! Suc 0) (offer 3 True))
          sample_tunnel [80], [80]))"
      using sel by (simp add: pool_attempt_def poolLimitsExceeded_def sample_pool_def sample_tunnel_def)
    then show ?thesis
      by (simp add: addToNewClaim_def pool_sched_def sortPoolsByWeight_def)
  qed
  then obtain s' r' where run: "addToNewClaim (\<lambda>_ _. Inr sample_types) (Some [(''Fake'', ())]) list_order
      solve_cluster sample_tunnel pool_sched no_results = Some (None, s', r')" by blast
  have "spools pool_sched = sortPoolsByWeight [sample_pool]" by (simp add: pool_sched_def)
  from addToNewClaim_heaviest [OF this run] obtain ic where
    "icName ic = Name sample_pool @ ''-'' @ take 8 (hex_sha256 (Name sample_pool @ ''|'' @ UID sample_tunnel))"
    "inflightClaims s' = inflightClaims pool_sched @ [ic]" by auto
  then show ?thesis using run by (auto simp: pool_sched_def sample_pool_def sample_tunnel_def)
qed

end
