(* ===== verification/Conditions.thy ===== *)
theory Conditions
  imports Api Samples
begin

text \<open>
  Status conditions. The operator has four routines that write one: \<open>conditions.MakeCondition\<close>
  with \<open>PatchCondition\<close>, the two copies of \<open>upsertCondition\<close> (\<open>exitclaim/emptiness\<close> and
  \<open>disruption/queue.go\<close>) and \<open>setTunnelCondition\<close> (\<open>provisioning/provisioner.go\<close>). The locale
  \<open>condition_store\<close> is the contract they share; it is interpreted on each of them. The API
  server's two patch formats are written out as \<open>apply_patch\<close>.
\<close>

section \<open>The code\<close>

fun MakeCondition ::
  "int \<Rightarrow> Condition list \<Rightarrow> string \<Rightarrow> ConditionStatus \<Rightarrow> int \<Rightarrow> string \<Rightarrow> string \<Rightarrow> Condition" where
  "MakeCondition now [] condType status gen reason message =
     \<lparr>Type = condType, Status = status, Reason = reason, Message = message,
      LastTransitionTime = now, ObservedGeneration = gen\<rparr>"
| "MakeCondition now (c # existing) condType status gen reason message =
     (if Type c \<noteq> condType then MakeCondition now existing condType status gen reason message
      else if Status c = status then
        \<lparr>Type = condType, Status = status, Reason = reason, Message = message,
         LastTransitionTime = LastTransitionTime c, ObservedGeneration = gen\<rparr>
      else
        \<lparr>Type = condType, Status = status, Reason = reason, Message = message,
         LastTransitionTime = now, ObservedGeneration = gen\<rparr>)"

text \<open>
  The patch that \<open>PatchCondition\<close> sends: a JSON merge patch of the whole list, or one JSON Patch
  operation on \<open>/status/conditions/i\<close> or \<open>/status/conditions/-\<close>.
\<close>

datatype cond_patch =
    MergeConditions "Condition list"
  | ReplaceCondition nat Condition
  | AddCondition Condition

fun cond_index :: "nat \<Rightarrow> Condition list \<Rightarrow> string \<Rightarrow> nat option" where
  "cond_index i [] ty = None"
| "cond_index i (cur # existing) ty =
     (if Type cur = ty then Some i else cond_index (Suc i) existing ty)"

definition PatchCondition :: "Condition list \<Rightarrow> Condition \<Rightarrow> cond_patch" where
  "PatchCondition existing newCond =
     (case cond_index 0 existing (Type newCond) of
        None \<Rightarrow> if existing = [] then MergeConditions [newCond] else AddCondition newCond
      | Some i \<Rightarrow> ReplaceCondition i newCond)"

fun findCondition :: "Condition list \<Rightarrow> string \<Rightarrow> Condition option" where
  "findCondition [] t = None"
| "findCondition (c # conds) t = (if Type c = t then Some c else findCondition conds t)"

fun upsertCondition :: "Condition list \<Rightarrow> Condition \<Rightarrow> Condition list" where
  "upsertCondition [] new = [new]"
| "upsertCondition (c # conds) new =
     (if Type c = Type new then
        (if Status c = Status new then new\<lparr>LastTransitionTime := LastTransitionTime c\<rparr> else new) # conds
      else c # upsertCondition conds new)"

fun set_tunnel_conds ::
  "int \<Rightarrow> int \<Rightarrow> Condition list \<Rightarrow> string \<Rightarrow> ConditionStatus \<Rightarrow> string \<Rightarrow> string \<Rightarrow> Condition list" where
  "set_tunnel_conds now gen [] condType status reason message =
     [\<lparr>Type = condType, Status = status, Reason = reason, Message = message,
       LastTransitionTime = now, ObservedGeneration = gen\<rparr>]"
| "set_tunnel_conds now gen (c # conds) condType status reason message =
     (if Type c \<noteq> condType then c # set_tunnel_conds now gen conds condType status reason message
      else (if Status c \<noteq> status then c\<lparr>LastTransitionTime := now\<rparr> else c)
             \<lparr>Status := status, Reason := reason, Message := message, ObservedGeneration := gen\<rparr> # conds)"

definition setTunnelCondition ::
  "int \<Rightarrow> Tunnel \<Rightarrow> string \<Rightarrow> ConditionStatus \<Rightarrow> string \<Rightarrow> string \<Rightarrow> Tunnel" where
  "setTunnelCondition now t condType status reason message =
     t\<lparr>tStatus := (tStatus t)\<lparr>tConditions :=
         set_tunnel_conds now (Generation t) (tConditions (tStatus t)) condType status reason message\<rparr>\<rparr>"

section \<open>What the API server does with a patch\<close>

text \<open>
  RFC 7386 (a merge patch replaces an array) and RFC 6902 (\<open>replace\<close> of a member that does not
  exist is an error, \<open>add\<close> at \<open>-\<close> appends).
\<close>

fun apply_patch :: "cond_patch \<Rightarrow> Condition list \<Rightarrow> Condition list option" where
  "apply_patch (MergeConditions cs) stored = Some cs"
| "apply_patch (ReplaceCondition i c) stored = (if i < length stored then Some (stored[i := c]) else None)"
| "apply_patch (AddCondition c) stored = Some (stored @ [c])"

fun apply_patches :: "cond_patch list \<Rightarrow> Condition list \<Rightarrow> Condition list option" where
  "apply_patches [] stored = Some stored"
| "apply_patches (p # ps) stored =
     (case apply_patch p stored of None \<Rightarrow> None | Some stored' \<Rightarrow> apply_patches ps stored')"

definition types_distinct :: "Condition list \<Rightarrow> bool" where
  "types_distinct cs \<longleftrightarrow> distinct (map Type cs)"

section \<open>The contract\<close>

text \<open>
  \<open>stamp now old c\<close> is the condition that writing \<open>c\<close> over \<open>old\<close> at time \<open>now\<close> must leave: the
  transition time moves exactly when the status does.
\<close>

definition stamp :: "int \<Rightarrow> Condition option \<Rightarrow> Condition \<Rightarrow> Condition" where
  "stamp now old c =
     c\<lparr>LastTransitionTime :=
         (case old of None \<Rightarrow> now | Some d \<Rightarrow> if Status d = Status c then LastTransitionTime d else now)\<rparr>"

lemma stamp_simps [simp]:
  "Type (stamp now old c) = Type c" "Status (stamp now old c) = Status c"
  "Reason (stamp now old c) = Reason c" "Message (stamp now old c) = Message c"
  by (simp_all add: stamp_def)

lemma findCondition_Type: "findCondition cs t = Some c \<Longrightarrow> Type c = t"
  by (induction cs) (auto split: if_splits)

lemma findCondition_mem: "findCondition cs t = Some c \<Longrightarrow> c \<in> set cs"
  by (induction cs) (auto split: if_splits)

lemma findCondition_append:
  "findCondition (cs @ ds) t = (case findCondition cs t of None \<Rightarrow> findCondition ds t | Some c \<Rightarrow> Some c)"
  by (induction cs) auto

lemma findCondition_None_iff: "findCondition cs t = None \<longleftrightarrow> t \<notin> Type ` set cs"
  by (induction cs) auto

locale condition_store =
  fixes upsert :: "int \<Rightarrow> Condition list \<Rightarrow> Condition \<Rightarrow> Condition list"
  assumes lookup_upsert: "findCondition (upsert now cs c) t =
    (if t = Type c then Some (stamp now (findCondition cs (Type c)) c) else findCondition cs t)"
begin

text \<open>Writers of different types commute, as far as any reader can tell.\<close>

lemma upsert_commute:
  "Type c \<noteq> Type d \<Longrightarrow>
     findCondition (upsert n (upsert m cs c) d) t = findCondition (upsert m (upsert n cs d) c) t"
  by (auto simp: lookup_upsert)

text \<open>A run of writes \<open>(now, c)\<close>, the oldest first.\<close>

definition writes :: "Condition list \<Rightarrow> (int \<times> Condition) list \<Rightarrow> Condition list" where
  "writes cs ws = foldl (\<lambda>cs w. upsert (fst w) cs (snd w)) cs ws"

lemma writes_Nil [simp]: "writes cs [] = cs"
  by (simp add: writes_def)

lemma writes_snoc [simp]: "writes cs (ws @ [w]) = upsert (fst w) (writes cs ws) (snd w)"
  by (simp add: writes_def)

lemma writes_single [simp]: "writes cs [w] = upsert (fst w) cs (snd w)"
  by (simp add: writes_def)

lemma writes_other:
  "\<forall>w \<in> set ws. Type (snd w) \<noteq> t \<Longrightarrow> findCondition (writes cs ws) t = findCondition cs t"
  by (induction ws rule: rev_induct) (auto simp: lookup_upsert)

text \<open>
  The transition time is the time since when the status holds: after writes of one type to a store
  that lacks it, it is the time of the first write of the last run of equal statuses.
\<close>

definition last_run :: "(int \<times> Condition) list \<Rightarrow> (int \<times> Condition) list" where
  "last_run ws = rev (takeWhile (\<lambda>w. Status (snd w) = Status (snd (last ws))) (rev ws))"

lemma last_run_snoc:
  "last_run (ws @ [w]) =
     (if ws \<noteq> [] \<and> Status (snd (last ws)) = Status (snd w) then last_run ws @ [w] else [w])"
  by (cases ws rule: rev_cases) (auto simp: last_run_def)

lemma last_run_ne: "ws \<noteq> [] \<Longrightarrow> last_run ws \<noteq> []"
  by (cases ws rule: rev_cases) (auto simp: last_run_def)

lemma transition_time:
  assumes "ws \<noteq> []" and "\<forall>w \<in> set ws. Type (snd w) = t" and "findCondition cs t = None"
  shows "findCondition (writes cs ws) t =
    Some ((snd (last ws))\<lparr>LastTransitionTime := fst (hd (last_run ws))\<rparr>)"
  using assms(1,2)
proof (induction ws rule: rev_induct)
  case Nil
  then show ?case by simp
next
  case (snoc w ws)
  show ?case
  proof (cases "ws = []")
    case True
    with snoc.prems assms(3) show ?thesis
      by (simp add: lookup_upsert stamp_def last_run_def)
  next
    case False
    with snoc.IH snoc.prems have "findCondition (writes cs ws) t =
      Some ((snd (last ws))\<lparr>LastTransitionTime := fst (hd (last_run ws))\<rparr>)" by simp
    with snoc.prems False last_run_ne show ?thesis
      by (simp add: lookup_upsert stamp_def last_run_snoc)
  qed
qed

end

section \<open>Every writer keeps the contract\<close>

lemma lookup_upsertCondition:
  "findCondition (upsertCondition cs c) t =
     (if t = Type c then Some (stamp (LastTransitionTime c) (findCondition cs (Type c)) c)
      else findCondition cs t)"
  by (induction cs) (auto simp: stamp_def)

text \<open>\<open>upsertCondition\<close>, with the clock's reading already in the condition.\<close>

definition upsert_now :: "int \<Rightarrow> Condition list \<Rightarrow> Condition \<Rightarrow> Condition list" where
  "upsert_now now cs c = upsertCondition cs (c\<lparr>LastTransitionTime := now\<rparr>)"

interpretation ups: condition_store upsert_now
  by unfold_locales (auto simp: upsert_now_def lookup_upsertCondition stamp_def split: option.splits)

text \<open>\<open>setTunnelCondition\<close>, for a tunnel of the generation that the condition carries.\<close>

definition tunnel_upsert :: "int \<Rightarrow> Condition list \<Rightarrow> Condition \<Rightarrow> Condition list" where
  "tunnel_upsert now cs c =
     set_tunnel_conds now (ObservedGeneration c) cs (Type c) (Status c) (Reason c) (Message c)"

lemma lookup_set_tunnel_conds:
  "findCondition (set_tunnel_conds now g cs ty st re ms) t =
     (if t = ty then Some (stamp now (findCondition cs ty)
        \<lparr>Type = ty, Status = st, Reason = re, Message = ms, LastTransitionTime = now, ObservedGeneration = g\<rparr>)
      else findCondition cs t)"
  by (induction cs) (auto simp: stamp_def)

lemma stamp_eta:
  "stamp now old \<lparr>Type = Type c, Status = Status c, Reason = Reason c, Message = Message c,
     LastTransitionTime = x, ObservedGeneration = ObservedGeneration c\<rparr> = stamp now old c"
  by (cases c) (simp add: stamp_def split: option.splits)

interpretation tun: condition_store tunnel_upsert
  by unfold_locales (simp only: tunnel_upsert_def lookup_set_tunnel_conds stamp_eta)

text \<open>\<open>MakeCondition\<close> and \<open>PatchCondition\<close> on the list that the server stores.\<close>

lemma MakeCondition_stamp:
  "MakeCondition now cs ty st g re ms = stamp now (findCondition cs ty)
     \<lparr>Type = ty, Status = st, Reason = re, Message = ms, LastTransitionTime = now, ObservedGeneration = g\<rparr>"
  by (induction cs) (auto simp: stamp_def)

lemma cond_index_Suc: "cond_index (Suc i) cs t = map_option Suc (cond_index i cs t)"
  by (induction cs arbitrary: i) auto

lemma cond_index_None: "cond_index i cs t = None \<longleftrightarrow> t \<notin> Type ` set cs"
  by (induction cs arbitrary: i) auto

lemma cond_index_SomeD: "cond_index 0 cs t = Some i \<Longrightarrow> i < length cs \<and> Type (cs ! i) = t"
  by (induction cs arbitrary: i) (auto simp: cond_index_Suc split: if_splits)

lemma findCondition_replace:
  "cond_index 0 cs t = Some i \<Longrightarrow> Type c = t \<Longrightarrow>
     findCondition (cs[i := c]) s = (if s = t then Some c else findCondition cs s)"
  by (induction cs arbitrary: i) (auto simp: cond_index_Suc split: if_splits)

lemma apply_PatchCondition:
  "\<exists>cs'. apply_patch (PatchCondition cs c) cs = Some cs' \<and>
     (\<forall>t. findCondition cs' t = (if t = Type c then Some c else findCondition cs t))"
proof (cases "cond_index 0 cs (Type c)")
  case None
  then have "findCondition cs (Type c) = None"
    by (simp add: cond_index_None findCondition_None_iff)
  with None show ?thesis
    by (auto simp: PatchCondition_def findCondition_append split: option.splits)
next
  case (Some i)
  then show ?thesis
    using cond_index_SomeD [OF Some] by (simp add: PatchCondition_def findCondition_replace)
qed

definition server_upsert :: "int \<Rightarrow> Condition list \<Rightarrow> Condition \<Rightarrow> Condition list" where
  "server_upsert now cs c =
     (let new = MakeCondition now cs (Type c) (Status c) (ObservedGeneration c) (Reason c) (Message c)
      in case apply_patch (PatchCondition cs new) cs of None \<Rightarrow> cs | Some cs' \<Rightarrow> cs')"

interpretation srv: condition_store server_upsert
proof unfold_locales
  fix now cs c t
  show "findCondition (server_upsert now cs c) t =
    (if t = Type c then Some (stamp now (findCondition cs (Type c)) c) else findCondition cs t)"
    using apply_PatchCondition [of cs "stamp now (findCondition cs (Type c)) c"]
    by (auto simp: server_upsert_def MakeCondition_stamp stamp_eta)
qed

section \<open>Concurrent writers\<close>

text \<open>
  Writers that all read \<open>existing\<close> and then send their patches one after the other. The list the
  server holds may have grown since the read; the entries that were read keep their places.
\<close>

definition grown :: "Condition list \<Rightarrow> Condition list \<Rightarrow> bool" where
  "grown existing stored \<longleftrightarrow> take (length existing) (map Type stored) = map Type existing"

lemma grown_refl [simp]: "grown cs cs"
  by (simp add: grown_def)

lemma grown_split:
  assumes "grown existing stored"
  obtains xs ys where "stored = xs @ ys" and "map Type xs = map Type existing"
    and "length xs = length existing" and "ys = drop (length existing) stored"
proof -
  let ?xs = "take (length existing) stored" and ?ys = "drop (length existing) stored"
  have "map Type ?xs = map Type existing"
    using assms by (simp add: grown_def take_map)
  moreover from this have "length ?xs = length existing"
    by (metis length_map)
  ultimately show thesis
    using that [of ?xs ?ys] by simp
qed

lemma disjoint_step: "A \<inter> B = {} \<Longrightarrow> C \<subseteq> insert x B \<Longrightarrow> x \<notin> A \<Longrightarrow> A \<inter> C = {}"
  by blast

lemma cond_index_map: "map Type xs = map Type ys \<Longrightarrow> cond_index i xs t = cond_index i ys t"
proof (induction xs arbitrary: i ys)
  case Nil
  then show ?case by simp
next
  case (Cons x xs)
  then show ?case by (cases ys) auto
qed

lemma apply_stale_patch:
  assumes "grown existing stored" and "existing \<noteq> []"
    and "Type c \<notin> Type ` set (drop (length existing) stored)"
  shows "\<exists>cs. apply_patch (PatchCondition existing c) stored = Some cs \<and> grown existing cs \<and>
    (\<forall>t. findCondition cs t = (if t = Type c then Some c else findCondition stored t)) \<and>
    Type ` set (drop (length existing) cs) \<subseteq> insert (Type c) (Type ` set (drop (length existing) stored))"
proof -
  obtain xs ys where st: "stored = xs @ ys" "map Type xs = map Type existing"
    "length xs = length existing" "ys = drop (length existing) stored"
    using assms(1) by (rule grown_split)
  have drop_xs: "drop (length existing) (us @ zs) = zs" and
    grown_us: "grown existing (us @ zs) \<longleftrightarrow> map Type us = map Type existing"
    if "length us = length existing" for us zs :: "Condition list"
    using that by (simp_all add: grown_def)
  show ?thesis
  proof (cases "cond_index 0 existing (Type c)")
    case None
    then have "Type c \<notin> Type ` set stored"
      using assms(3) st cond_index_None [of 0 xs "Type c"] cond_index_map [OF st(2)]
      by (metis UnE image_Un set_append)
    then have "findCondition stored (Type c) = None"
      by (simp add: findCondition_None_iff)
    then have "findCondition (stored @ [c]) t = (if t = Type c then Some c else findCondition stored t)" for t
      by (auto simp: findCondition_append split: option.splits)
    moreover have "apply_patch (PatchCondition existing c) stored = Some (stored @ [c])"
      using None assms(2) by (simp add: PatchCondition_def)
    moreover have "grown existing (stored @ [c])" "drop (length existing) (stored @ [c]) = ys @ [c]"
      using st(1-3) drop_xs [of xs "ys @ [c]"] grown_us [of xs "ys @ [c]"] by simp_all
    ultimately show ?thesis
      using st(4) by auto
  next
    case (Some i)
    then have i: "cond_index 0 xs (Type c) = Some i"
      using cond_index_map [OF st(2)] by simp
    note ix = cond_index_SomeD [OF i]
    have "map Type (xs[i := c]) = map Type xs"
      by (metis ix list_update_id map_update nth_map)
    moreover have upd: "stored[i := c] = xs[i := c] @ ys"
      using ix st(1) by (simp add: list_update_append)
    moreover have "findCondition (stored[i := c]) t = (if t = Type c then Some c else findCondition stored t)" for t
      unfolding upd using findCondition_replace [OF i refl, of t] by (simp add: st(1) findCondition_append)
    moreover have "apply_patch (PatchCondition existing c) stored = Some (stored[i := c])"
      using Some ix st(1) by (simp add: PatchCondition_def)
    moreover have "grown existing (stored[i := c])" "drop (length existing) (stored[i := c]) = ys"
      using calculation(1) st(2,3) drop_xs [of "xs[i := c]" ys] grown_us [of "xs[i := c]" ys] by (simp_all add: upd)
    ultimately show ?thesis
      using st(4) by auto
  qed
qed



text \<open>
  The case that the comment of \<open>PatchCondition\<close> leaves open: two writers that both read an empty
  list send merge patches, and the first write is lost.
\<close>

lemma first_init_race:
  "apply_patches [PatchCondition [] c, PatchCondition [] d] [] = Some [d]"
  by (simp add: PatchCondition_def)

text \<open>Two writers of one new type append it twice.\<close>

lemma same_type_race:
  "existing \<noteq> [] \<Longrightarrow> findCondition existing (Type c) = None \<Longrightarrow> Type d = Type c \<Longrightarrow>
     apply_patches [PatchCondition existing c, PatchCondition existing d] existing = Some (existing @ [c, d])"
  by (simp add: PatchCondition_def findCondition_None_iff cond_index_None [THEN iffD2])

end
