(* ===== verification/Trace.thy ===== *)
theory Trace
  imports Prelude "HOL-Library.State_Monad"
begin

text \<open>
  Code that calls the outside world: a process is a computation in the state monad over the history
  of the calls made so far, the oldest first. An answer may depend on the whole history before the
  call, so that whatever the outside does is some answer function. The controllers, the service
  watcher and the cloud providers are processes over different kinds of calls.
\<close>

type_synonym ('e, 'a) proc = "('e list, 'a) state"

definition call :: "'e \<Rightarrow> ('e list \<Rightarrow> 'a) \<Rightarrow> ('e, 'a) proc" where
  "call e answer = State (\<lambda>h. (answer h, h @ [e]))"

abbreviation ret :: "'a \<Rightarrow> ('e, 'a) proc" where
  "ret \<equiv> State_Monad.return"

lemma run_call [simp]: "run_state (call e f) h = (f h, h @ [e])"
  by (simp add: call_def)

lemma run_if [simp]: "run_state (if b then m else n) h = (if b then run_state m h else run_state n h)"
  by simp

section \<open>Traces\<close>

text \<open>
  \<open>emits P m\<close>: from any history, \<open>m\<close> appends events that all satisfy \<open>P\<close>.
\<close>

definition emits :: "('e \<Rightarrow> bool) \<Rightarrow> ('e, 'a) proc \<Rightarrow> bool" where
  "emits P m \<longleftrightarrow> (\<forall>h. \<exists>es. snd (run_state m h) = h @ es \<and> list_all P es)"

named_theorems emits_intros \<open>rules that follow the structure of a reconciler\<close>

lemma emits_ret [emits_intros]: "emits P (ret x)"
  by (simp add: emits_def)

lemma emits_call [emits_intros]: "P e \<Longrightarrow> emits P (call e f)"
  by (simp add: emits_def)

lemma emits_bind [emits_intros]:
  assumes "emits P m" and "\<And>x. emits P (f x)"
  shows "emits P (m \<bind> f)"
  unfolding emits_def
proof
  fix h
  obtain x h' where m: "run_state m h = (x, h')" by fastforce
  with assms(1) obtain es where es: "h' = h @ es" "list_all P es"
    unfolding emits_def by (metis snd_conv)
  obtain ds where "snd (run_state (f x) h') = h' @ ds" "list_all P ds"
    using assms(2) unfolding emits_def by metis
  with m es show "\<exists>es. snd (run_state (m \<bind> f) h) = h @ es \<and> list_all P es"
    by (intro exI [of _ "es @ ds"]) simp
qed

lemma emits_if [emits_intros]: "(b \<Longrightarrow> emits P m) \<Longrightarrow> (\<not> b \<Longrightarrow> emits P n) \<Longrightarrow> emits P (if b then m else n)"
  by simp

lemma emits_sum [emits_intros]:
  "(\<And>x. s = Inl x \<Longrightarrow> emits P (f x)) \<Longrightarrow> (\<And>y. s = Inr y \<Longrightarrow> emits P (g y)) \<Longrightarrow>
     emits P (case s of Inl x \<Rightarrow> f x | Inr y \<Rightarrow> g y)"
  by (cases s) auto

lemma emits_option [emits_intros]:
  "(s = None \<Longrightarrow> emits P m) \<Longrightarrow> (\<And>y. s = Some y \<Longrightarrow> emits P (g y)) \<Longrightarrow>
     emits P (case s of None \<Rightarrow> m | Some y \<Rightarrow> g y)"
  by (cases s) auto

lemma emits_prod [emits_intros]:
  "(\<And>x y. s = (x, y) \<Longrightarrow> emits P (f x y)) \<Longrightarrow> emits P (case s of (x, y) \<Rightarrow> f x y)"
  by (cases s) auto

lemma emits_let [emits_intros]: "(\<And>y. y = x \<Longrightarrow> emits P (f y)) \<Longrightarrow> emits P (let y = x in f y)"
  by simp

lemma emits_mono: "emits P m \<Longrightarrow> (\<And>e. P e \<Longrightarrow> Q e) \<Longrightarrow> emits Q m"
  unfolding emits_def by (metis list_all_iff)

lemma emitsD: "emits P m \<Longrightarrow> e \<in> set (snd (run_state m [])) \<Longrightarrow> P e"
  unfolding emits_def by (metis append_Nil list_all_iff)

lemma run_get [simp]: "run_state State_Monad.get h = (h, h)"
  by (simp add: State_Monad.get_def)

lemma emits_get [emits_intros]: "emits P State_Monad.get"
  by (simp add: emits_def)

lemma emits_run:
  assumes "emits P m" and "run_state m h = (x, h')"
  obtains es where "h' = h @ es" and "list_all P es"
  using assms unfolding emits_def by (metis snd_conv)

section \<open>Events with the history before them\<close>

fun steps :: "'e list \<Rightarrow> 'e list \<Rightarrow> ('e list \<times> 'e) list" where
  "steps h [] = []"
| "steps h (e # es) = (h, e) # steps (h @ [e]) es"

lemma steps_append [simp]: "steps h (as @ bs) = steps h as @ steps (h @ as) bs"
  by (induction as arbitrary: h) auto

lemma steps_event: "(pre, e) \<in> set (steps h es) \<Longrightarrow> e \<in> set es"
  by (induction es arbitrary: h) auto

lemma steps_prefix: "(pre, e) \<in> set (steps h es) \<Longrightarrow> \<exists>ds. pre = h @ ds"
  by (induction es arbitrary: h) (auto, metis append.assoc)

lemma event_steps: "e \<in> set es \<Longrightarrow> \<exists>pre. (pre, e) \<in> set (steps h es)"
  by (induction es arbitrary: h) auto

end
