(* ===== verification/Kube.thy ===== *)
theory Kube
  imports Conditions Offering Trace
begin

text \<open>
  What the controllers talk to: the API server behind controller-runtime's \<open>client.Client\<close>, the
  cloud providers, the frps admin API and the clock. A reconciler is a process
  (\<open>Trace\<close>) over the calls below; the environment \<open>E\<close> answers a call
  by an arbitrary function of that history, so any behaviour of the outside world, other writers
  included, is some \<open>E\<close>. A statement about what a reconciler does is a statement about the events
  it appends.
\<close>

section \<open>Errors and results\<close>

text \<open>\<open>pkg/cloudprovider/errors.go\<close>; \<open>CloudWrap\<close> is an error wrapped with \<open>fmt.Errorf\<close> and \<open>%w\<close>.\<close>

datatype cloud_error =
    ExitNotFoundError string
  | InsufficientCapacityError string
  | CloudOther string
  | CloudWrap string cloud_error

fun IsExitNotFound :: "cloud_error \<Rightarrow> bool" where
  "IsExitNotFound (ExitNotFoundError pid) = True"
| "IsExitNotFound (InsufficientCapacityError reason) = False"
| "IsExitNotFound (CloudOther msg) = False"
| "IsExitNotFound (CloudWrap msg err) = IsExitNotFound err"

fun IsInsufficientCapacity :: "cloud_error \<Rightarrow> bool" where
  "IsInsufficientCapacity (ExitNotFoundError pid) = False"
| "IsInsufficientCapacity (InsufficientCapacityError reason) = True"
| "IsInsufficientCapacity (CloudOther msg) = False"
| "IsInsufficientCapacity (CloudWrap msg err) = IsInsufficientCapacity err"

datatype goerror =
    ApiErr apierror
  | RegErr registry_error
  | CloudErr cloud_error
  | ProbeErr string
  | Msg string
  | Wrap string goerror

definition IgnoreNotFound :: "apierror \<Rightarrow> goerror option" where
  "IgnoreNotFound e = (if e = NotFound then None else Some (ApiErr e))"

text \<open>\<open>reconcile.Result\<close>.\<close>

record Result =
  Requeue :: bool
  RequeueAfter :: int

definition finished :: Result where
  "finished = \<lparr>Requeue = False, RequeueAfter = 0\<rparr>"

definition requeue :: Result where
  "requeue = \<lparr>Requeue = True, RequeueAfter = 0\<rparr>"

definition after :: "int \<Rightarrow> Result" where
  "after d = \<lparr>Requeue = False, RequeueAfter = d\<rparr>"

definition IsZero :: "Result \<Rightarrow> bool" where
  "IsZero r \<longleftrightarrow> r = finished"

lemmas result_defs = finished_def requeue_def after_def IsZero_def

section \<open>Calls\<close>

text \<open>
  A provider class of any kind: its metadata and the JSON of its \<open>Spec\<close> field, if the object has one
  that can be marshalled.
\<close>

record ProviderClass = ObjectMeta +
  specJSON :: "string option"

datatype event =
    EGetClaim string
  | EListClaims
  | EListPoolClaims string
  | ECreateClaim ExitClaim
  | EPatchClaim ExitClaim ExitClaim
  | EPatchClaimStatus ExitClaim ExitClaim
  | EDeleteClaim ExitClaim
  | EGetTunnel string string
  | EListTunnels
  | EPatchTunnelStatus Tunnel Tunnel
  | EGetPool string
  | EListPools
  | EPatchPool ExitPool ExitPool
  | EPatchPoolStatus ExitPool ExitPool
  | EPatchPoolConditions string cond_patch
  | EGetProviderClass string string
  | EPatchProviderClass ProviderClass ProviderClass
  | ECloudCreate string ExitClaim
  | ECloudDelete string ExitClaim
  | EServerInfo string
  | EMarkExit string
  | ESleep int
  | ENow

text \<open>
  The answers. The fields after \<open>clock\<close> are the library routines that the reconcilers call:
  \<open>apimeta.SetStatusCondition\<close> (with the time it reads), \<open>FindStatusCondition\<close> and
  \<open>IsStatusConditionTrue\<close>, \<open>controllerutil\<close>'s three finalizer routines, and \<open>err.Error()\<close>.
\<close>

record ServerInfo =
  siVersion :: string
  siBindPort :: int

record env =
  onGetClaim :: "event list \<Rightarrow> string \<Rightarrow> apierror + ExitClaim"
  onListClaims :: "event list \<Rightarrow> apierror + ExitClaim list"
  onListPoolClaims :: "event list \<Rightarrow> string \<Rightarrow> apierror + ExitClaim list"
  onCreateClaim :: "event list \<Rightarrow> ExitClaim \<Rightarrow> apierror + ExitClaim"
  onPatchClaim :: "event list \<Rightarrow> ExitClaim \<Rightarrow> ExitClaim \<Rightarrow> apierror + ExitClaim"
  onPatchClaimStatus :: "event list \<Rightarrow> ExitClaim \<Rightarrow> ExitClaim \<Rightarrow> apierror + ExitClaim"
  onDeleteClaim :: "event list \<Rightarrow> ExitClaim \<Rightarrow> apierror option"
  onGetTunnel :: "event list \<Rightarrow> string \<Rightarrow> string \<Rightarrow> apierror + Tunnel"
  onListTunnels :: "event list \<Rightarrow> apierror + Tunnel list"
  onPatchTunnelStatus :: "event list \<Rightarrow> Tunnel \<Rightarrow> Tunnel \<Rightarrow> apierror + Tunnel"
  onGetPool :: "event list \<Rightarrow> string \<Rightarrow> apierror + ExitPool"
  onListPools :: "event list \<Rightarrow> apierror + ExitPool list"
  onPatchPool :: "event list \<Rightarrow> ExitPool \<Rightarrow> ExitPool \<Rightarrow> apierror + ExitPool"
  onPatchPoolStatus :: "event list \<Rightarrow> ExitPool \<Rightarrow> ExitPool \<Rightarrow> apierror + ExitPool"
  onPatchPoolConditions :: "event list \<Rightarrow> string \<Rightarrow> cond_patch \<Rightarrow> apierror + ExitPool"
  onGetProviderClass :: "event list \<Rightarrow> string \<Rightarrow> string \<Rightarrow> apierror + ProviderClass"
  onPatchProviderClass :: "event list \<Rightarrow> ProviderClass \<Rightarrow> ProviderClass \<Rightarrow> apierror + ProviderClass"
  onCloudCreate :: "event list \<Rightarrow> string \<Rightarrow> ExitClaim \<Rightarrow> cloud_error + ExitClaim"
  onCloudDelete :: "event list \<Rightarrow> string \<Rightarrow> ExitClaim \<Rightarrow> cloud_error option"
  onServerInfo :: "event list \<Rightarrow> string \<Rightarrow> string + ServerInfo option"
  clock :: "event list \<Rightarrow> int"
  SetStatusCondition :: "int \<Rightarrow> Condition list \<Rightarrow> Condition \<Rightarrow> Condition list"
  FindStatusCondition :: "Condition list \<Rightarrow> string \<Rightarrow> Condition option"
  IsStatusConditionTrue :: "Condition list \<Rightarrow> string \<Rightarrow> bool"
  ContainsFinalizer :: "string list \<Rightarrow> string \<Rightarrow> bool"
  AddFinalizer :: "string list \<Rightarrow> string \<Rightarrow> string list"
  RemoveFinalizer :: "string list \<Rightarrow> string \<Rightarrow> string list"
  errorText :: "goerror \<Rightarrow> string"

type_synonym 'a io = "(event, 'a) proc"

definition GetClaim :: "env \<Rightarrow> string \<Rightarrow> (apierror + ExitClaim) io" where
  "GetClaim E n = call (EGetClaim n) (\<lambda>h. onGetClaim E h n)"

definition ListClaims :: "env \<Rightarrow> (apierror + ExitClaim list) io" where
  "ListClaims E = call EListClaims (onListClaims E)"

text \<open>\<open>List\<close> with \<open>MatchingLabels\<close> of the pool label.\<close>

definition ListPoolClaims :: "env \<Rightarrow> string \<Rightarrow> (apierror + ExitClaim list) io" where
  "ListPoolClaims E pool = call (EListPoolClaims pool) (\<lambda>h. onListPoolClaims E h pool)"

definition CreateClaim :: "env \<Rightarrow> ExitClaim \<Rightarrow> (apierror + ExitClaim) io" where
  "CreateClaim E c = call (ECreateClaim c) (\<lambda>h. onCreateClaim E h c)"

definition PatchClaim :: "env \<Rightarrow> ExitClaim \<Rightarrow> ExitClaim \<Rightarrow> (apierror + ExitClaim) io" where
  "PatchClaim E orig c = call (EPatchClaim orig c) (\<lambda>h. onPatchClaim E h orig c)"

definition PatchClaimStatus :: "env \<Rightarrow> ExitClaim \<Rightarrow> ExitClaim \<Rightarrow> (apierror + ExitClaim) io" where
  "PatchClaimStatus E orig c = call (EPatchClaimStatus orig c) (\<lambda>h. onPatchClaimStatus E h orig c)"

definition DeleteClaim :: "env \<Rightarrow> ExitClaim \<Rightarrow> apierror option io" where
  "DeleteClaim E c = call (EDeleteClaim c) (\<lambda>h. onDeleteClaim E h c)"

definition GetTunnel :: "env \<Rightarrow> string \<Rightarrow> string \<Rightarrow> (apierror + Tunnel) io" where
  "GetTunnel E ns n = call (EGetTunnel ns n) (\<lambda>h. onGetTunnel E h ns n)"

definition ListTunnels :: "env \<Rightarrow> (apierror + Tunnel list) io" where
  "ListTunnels E = call EListTunnels (onListTunnels E)"

definition PatchTunnelStatus :: "env \<Rightarrow> Tunnel \<Rightarrow> Tunnel \<Rightarrow> (apierror + Tunnel) io" where
  "PatchTunnelStatus E orig t = call (EPatchTunnelStatus orig t) (\<lambda>h. onPatchTunnelStatus E h orig t)"

definition GetPool :: "env \<Rightarrow> string \<Rightarrow> (apierror + ExitPool) io" where
  "GetPool E n = call (EGetPool n) (\<lambda>h. onGetPool E h n)"

definition ListPools :: "env \<Rightarrow> (apierror + ExitPool list) io" where
  "ListPools E = call EListPools (onListPools E)"

definition PatchPool :: "env \<Rightarrow> ExitPool \<Rightarrow> ExitPool \<Rightarrow> (apierror + ExitPool) io" where
  "PatchPool E orig p = call (EPatchPool orig p) (\<lambda>h. onPatchPool E h orig p)"

definition PatchPoolStatus :: "env \<Rightarrow> ExitPool \<Rightarrow> ExitPool \<Rightarrow> (apierror + ExitPool) io" where
  "PatchPoolStatus E orig p = call (EPatchPoolStatus orig p) (\<lambda>h. onPatchPoolStatus E h orig p)"

definition PatchPoolConditions :: "env \<Rightarrow> string \<Rightarrow> cond_patch \<Rightarrow> (apierror + ExitPool) io" where
  "PatchPoolConditions E n p = call (EPatchPoolConditions n p) (\<lambda>h. onPatchPoolConditions E h n p)"

definition GetProviderClass :: "env \<Rightarrow> string \<Rightarrow> string \<Rightarrow> (apierror + ProviderClass) io" where
  "GetProviderClass E kind n = call (EGetProviderClass kind n) (\<lambda>h. onGetProviderClass E h kind n)"

definition PatchProviderClass :: "env \<Rightarrow> ProviderClass \<Rightarrow> ProviderClass \<Rightarrow> (apierror + ProviderClass) io" where
  "PatchProviderClass E orig p = call (EPatchProviderClass orig p) (\<lambda>h. onPatchProviderClass E h orig p)"

definition CloudCreate :: "env \<Rightarrow> string \<Rightarrow> ExitClaim \<Rightarrow> (cloud_error + ExitClaim) io" where
  "CloudCreate E cp c = call (ECloudCreate cp c) (\<lambda>h. onCloudCreate E h cp c)"

definition CloudDelete :: "env \<Rightarrow> string \<Rightarrow> ExitClaim \<Rightarrow> cloud_error option io" where
  "CloudDelete E cp c = call (ECloudDelete cp c) (\<lambda>h. onCloudDelete E h cp c)"

definition GetServerInfo :: "env \<Rightarrow> string \<Rightarrow> (string + ServerInfo option) io" where
  "GetServerInfo E url = call (EServerInfo url) (\<lambda>h. onServerInfo E h url)"

definition MarkExit :: "string \<Rightarrow> unit io" where
  "MarkExit n = call (EMarkExit n) (\<lambda>h. ())"

definition Sleep :: "int \<Rightarrow> unit io" where
  "Sleep d = call (ESleep d) (\<lambda>h. ())"

definition Now :: "env \<Rightarrow> int io" where
  "Now E = call ENow (clock E)"

lemmas call_defs = GetClaim_def ListClaims_def ListPoolClaims_def CreateClaim_def PatchClaim_def PatchClaimStatus_def
  DeleteClaim_def GetTunnel_def ListTunnels_def PatchTunnelStatus_def GetPool_def ListPools_def
  PatchPool_def PatchPoolStatus_def PatchPoolConditions_def GetProviderClass_def PatchProviderClass_def CloudCreate_def
  CloudDelete_def GetServerInfo_def MarkExit_def Sleep_def Now_def

section \<open>Finding an event in an evaluated history\<close>

lemma ex_status_patch:
  assumes "list_ex (\<lambda>e. case e of EPatchClaimStatus a b \<Rightarrow> P a b | _ \<Rightarrow> False) h"
  shows "\<exists>a b. EPatchClaimStatus a b \<in> set h \<and> P a b"
proof -
  obtain e where "e \<in> set h" "case e of EPatchClaimStatus a b \<Rightarrow> P a b | _ \<Rightarrow> False"
    using assms by (auto simp: list_ex_iff)
  then show ?thesis by (cases rule: event.exhaust [of e]) auto
qed

lemma ex_claim_patch:
  assumes "list_ex (\<lambda>e. case e of EPatchClaim a b \<Rightarrow> P a b | _ \<Rightarrow> False) h"
  shows "\<exists>a b. EPatchClaim a b \<in> set h \<and> P a b"
proof -
  obtain e where "e \<in> set h" "case e of EPatchClaim a b \<Rightarrow> P a b | _ \<Rightarrow> False"
    using assms by (auto simp: list_ex_iff)
  then show ?thesis by (cases rule: event.exhaust [of e]) auto
qed

lemma ex_cloud_create:
  assumes "list_ex (\<lambda>e. case e of ECloudCreate a b \<Rightarrow> P a b | _ \<Rightarrow> False) h"
  shows "\<exists>a b. ECloudCreate a b \<in> set h \<and> P a b"
proof -
  obtain e where "e \<in> set h" "case e of ECloudCreate a b \<Rightarrow> P a b | _ \<Rightarrow> False"
    using assms by (auto simp: list_ex_iff)
  then show ?thesis by (cases rule: event.exhaust [of e]) auto
qed

section \<open>The documented behaviour of the library routines\<close>

text \<open>
  \<open>apimeta\<close>: \<open>FindStatusCondition\<close> finds the condition of a type, \<open>IsStatusConditionTrue\<close> says
  whether it is present and \<open>True\<close>, \<open>SetStatusCondition\<close> replaces or appends it, and sets its
  transition time if the status changes. \<open>controllerutil\<close>: the finalizers are a set.
\<close>

definition meta_ok :: "env \<Rightarrow> bool" where
  "meta_ok E \<longleftrightarrow>
     (\<forall>cs t. IsStatusConditionTrue E cs t \<longleftrightarrow>
        (\<exists>c. FindStatusCondition E cs t = Some c \<and> Status c = ConditionTrue)) \<and>
     (\<forall>now cs c t. t \<noteq> Type c \<longrightarrow>
        FindStatusCondition E (SetStatusCondition E now cs c) t = FindStatusCondition E cs t) \<and>
     (\<forall>now cs c. \<exists>d. FindStatusCondition E (SetStatusCondition E now cs c) (Type c) = Some d \<and>
        Type d = Type c \<and> Status d = Status c \<and> Reason d = Reason c \<and> Message d = Message c \<and>
        LastTransitionTime d =
          (case FindStatusCondition E cs (Type c) of
             None \<Rightarrow> if LastTransitionTime c = 0 then now else LastTransitionTime c
           | Some b \<Rightarrow> if Status b = Status c then LastTransitionTime b
                      else if LastTransitionTime c = 0 then now else LastTransitionTime c))"

definition finalizers_ok :: "env \<Rightarrow> bool" where
  "finalizers_ok E \<longleftrightarrow>
     (\<forall>fs f. ContainsFinalizer E fs f \<longleftrightarrow> f \<in> set fs) \<and>
     (\<forall>fs f. set (AddFinalizer E fs f) = insert f (set fs)) \<and>
     (\<forall>fs f. set (RemoveFinalizer E fs f) = set fs - {f})"

lemma meta_true:
  "meta_ok E \<Longrightarrow> IsStatusConditionTrue E cs t \<longleftrightarrow>
     (\<exists>c. FindStatusCondition E cs t = Some c \<and> Status c = ConditionTrue)"
  unfolding meta_ok_def by blast

lemma meta_other:
  "meta_ok E \<Longrightarrow> t \<noteq> Type c \<Longrightarrow>
     FindStatusCondition E (SetStatusCondition E now cs c) t = FindStatusCondition E cs t"
  unfolding meta_ok_def by blast

lemma meta_same:
  "meta_ok E \<Longrightarrow> \<exists>d. FindStatusCondition E (SetStatusCondition E now cs c) (Type c) = Some d \<and>
     Status d = Status c \<and> Reason d = Reason c \<and>
     LastTransitionTime d =
       (case FindStatusCondition E cs (Type c) of
          None \<Rightarrow> if LastTransitionTime c = 0 then now else LastTransitionTime c
        | Some b \<Rightarrow> if Status b = Status c then LastTransitionTime b
                   else if LastTransitionTime c = 0 then now else LastTransitionTime c)"
  unfolding meta_ok_def by blast

lemma true_after_set:
  assumes "meta_ok E"
  shows "IsStatusConditionTrue E (SetStatusCondition E now cs c) t \<longleftrightarrow>
     (if t = Type c then Status c = ConditionTrue else IsStatusConditionTrue E cs t)"
proof (cases "t = Type c")
  case True
  with meta_same [OF assms, of now cs c] show ?thesis
    by (auto simp: meta_true [OF assms])
next
  case False
  with assms show ?thesis by (simp add: meta_true meta_other)
qed

end
