(* ===== verification/Lifecycle.thy ===== *)
theory Lifecycle
  imports Kube
begin

text \<open>
  \<open>pkg/controllers/exitclaim/lifecycle\<close>: the reconciler of one \<open>ExitClaim\<close>. A live claim runs
  through the phases \<open>Launcher\<close>, \<open>Registrar\<close>, \<open>Initializer\<close> and \<open>Liveness\<close>, a deleted one through
  \<open>finalize\<close>. A phase takes the claim in memory and returns it as it leaves it.
\<close>

section \<open>Conditions of a claim (conditions.go)\<close>

definition isCondTrue :: "env \<Rightarrow> ExitClaim \<Rightarrow> string \<Rightarrow> bool" where
  "isCondTrue E claim t = IsStatusConditionTrue E (claim_conds claim) t"

definition with_cond :: "env \<Rightarrow> int \<Rightarrow> ExitClaim \<Rightarrow> Condition \<Rightarrow> ExitClaim" where
  "with_cond E now claim c =
     claim\<lparr>cStatus := (cStatus claim)\<lparr>Conditions := SetStatusCondition E now (claim_conds claim) c\<rparr>\<rparr>"

definition setCond ::
  "env \<Rightarrow> ExitClaim \<Rightarrow> string \<Rightarrow> ConditionStatus \<Rightarrow> string \<Rightarrow> string \<Rightarrow> ExitClaim io" where
  "setCond E claim t status reason msg =
     do { now \<leftarrow> Now E;
          ret (with_cond E now claim
            \<lparr>Type = t, Status = status, Reason = reason, Message = msg, LastTransitionTime = now,
             ObservedGeneration = 0\<rparr>) }"

definition condTransitionTime :: "env \<Rightarrow> ExitClaim \<Rightarrow> string \<Rightarrow> int" where
  "condTransitionTime E claim t =
     (case FindStatusCondition E (claim_conds claim) t of
        None \<Rightarrow> 0
      | Some c \<Rightarrow> LastTransitionTime c)"

section \<open>The controller\<close>

definition DefaultTerminationGracePeriod :: int where
  "DefaultTerminationGracePeriod = Hour"

definition DefaultRegistrationTTL :: int where
  "DefaultRegistrationTTL = 15 * Minute"

definition DefaultLivenessProbeInterval :: int where
  "DefaultLivenessProbeInterval = 30 * Second"

definition DefaultLivenessFailureThreshold :: int where
  "DefaultLivenessFailureThreshold = 3"

lemmas lifecycle_defaults = DefaultTerminationGracePeriod_def DefaultRegistrationTTL_def
  DefaultLivenessProbeInterval_def DefaultLivenessFailureThreshold_def

definition AnnotationLivenessFailures :: string where
  "AnnotationLivenessFailures = Group @ ''/liveness-failures''"

record Liveness =
  RegistrationTTL :: int
  ProbeInterval :: int
  FailureThreshold :: int

text \<open>The registry maps a kind to the name of its provider; \<open>HasCluster\<close> is \<open>Cluster != nil\<close>.\<close>

record Controller =
  CloudProvider :: "string Registry"
  HasCluster :: bool
  liveness :: Liveness

definition NewWithTTL :: "string Registry \<Rightarrow> int \<Rightarrow> Controller" where
  "NewWithTTL cp registrationTTL =
     \<lparr>CloudProvider = cp, HasCluster = False,
      liveness = \<lparr>RegistrationTTL = registrationTTL, ProbeInterval = 0, FailureThreshold = 0\<rparr>\<rparr>"

definition New :: "string Registry \<Rightarrow> Controller" where
  "New cp = NewWithTTL cp 0"

type_synonym outcome = "ExitClaim \<times> Result \<times> goerror option"

definition patch_status_or :: "env \<Rightarrow> ExitClaim \<Rightarrow> ExitClaim \<Rightarrow> (apierror \<Rightarrow> goerror) \<Rightarrow> Result \<Rightarrow> outcome io" where
  "patch_status_or E orig claim wrap res =
     do { r \<leftarrow> PatchClaimStatus E orig claim;
          ret (case r of Inl e \<Rightarrow> (claim, finished, Some (wrap e)) | Inr c \<Rightarrow> (c, res, None)) }"

text \<open>A patch whose error is ignored.\<close>

definition patch_status_best :: "env \<Rightarrow> ExitClaim \<Rightarrow> ExitClaim \<Rightarrow> ExitClaim io" where
  "patch_status_best E orig claim =
     do { r \<leftarrow> PatchClaimStatus E orig claim;
          ret (case r of Inl e \<Rightarrow> claim | Inr c \<Rightarrow> c) }"

section \<open>Phase 1: launch.go\<close>

definition launch_Reconcile :: "env \<Rightarrow> Controller \<Rightarrow> ExitClaim \<Rightarrow> outcome io" where
  "launch_Reconcile E R claim =
     (if isCondTrue E claim ConditionTypeLaunched then ret (claim, finished, None)
      else
        let orig = claim;
            status_err = (\<lambda>e. Wrap ''status patch: '' (ApiErr e))
        in case For (CloudProvider R) (refKind (ProviderClassRef (cSpec claim))) of
          Inl err \<Rightarrow>
            do { claim \<leftarrow> setCond E claim ConditionTypeLaunched ConditionFalse ReasonProviderError
                            (errorText E (RegErr err));
                 patch_status_or E orig claim status_err (after (30 * Second)) }
        | Inr cp \<Rightarrow>
            do { created \<leftarrow> CloudCreate E cp claim;
                 case created of
                   Inl err \<Rightarrow>
                     do { claim \<leftarrow> setCond E claim ConditionTypeLaunched ConditionFalse
                                     ReasonProviderError (errorText E (CloudErr err));
                          claim \<leftarrow> patch_status_best E orig claim;
                          ret (claim, after (30 * Second), None) }
                 | Inr hydrated \<Rightarrow>
                     let conditions = claim_conds claim;
                         claim = claim\<lparr>cStatus := (cStatus hydrated)\<lparr>Conditions := conditions\<rparr>\<rparr>
                     in do { claim \<leftarrow> setCond E claim ConditionTypeLaunched ConditionTrue
                                        ReasonProvisioned ''exit launched'';
                             patch_status_or E orig claim status_err requeue } })"

section \<open>Phase 2: registration.go\<close>

definition admin_url :: "ExitClaim \<Rightarrow> string" where
  "admin_url claim =
     (let adminPort = AdminPort (Frps (cSpec claim));
          adminPort = (if adminPort = 0 then 7400 else adminPort)
      in ''http://'' @ PublicIP (cStatus claim) @ '':'' @ Itoa adminPort)"

definition registration_Reconcile :: "env \<Rightarrow> Controller \<Rightarrow> ExitClaim \<Rightarrow> outcome io" where
  "registration_Reconcile E R claim =
     (if \<not> isCondTrue E claim ConditionTypeLaunched then ret (claim, finished, None)
      else if isCondTrue E claim ConditionTypeRegistered then ret (claim, finished, None)
      else if PublicIP (cStatus claim) = [] then ret (claim, after (5 * Second), None)
      else
        let orig = claim in
        do { info \<leftarrow> GetServerInfo E (admin_url claim);
             case info of
               Inl err \<Rightarrow>
                 do { claim \<leftarrow> setCond E claim ConditionTypeRegistered ConditionFalse
                                 ReasonAdminAPIUnreachable (errorText E (ProbeErr err));
                      claim \<leftarrow> patch_status_best E orig claim;
                      ret (claim, after (10 * Second), None) }
             | Inr info \<Rightarrow>
                 let claim = (case info of
                                None \<Rightarrow> claim
                              | Some i \<Rightarrow>
                                  if siVersion i \<noteq> [] then
                                    claim\<lparr>cStatus := (cStatus claim)\<lparr>FrpsVersion := siVersion i\<rparr>\<rparr>
                                  else claim)
                 in do { claim \<leftarrow> setCond E claim ConditionTypeRegistered ConditionTrue
                                    ReasonReconciled ''admin API reachable'';
                         patch_status_or E orig claim ApiErr requeue } })"

section \<open>Phase 3: initialization.go\<close>

definition initialization_Reconcile :: "env \<Rightarrow> Controller \<Rightarrow> ExitClaim \<Rightarrow> outcome io" where
  "initialization_Reconcile E R claim =
     (if \<not> isCondTrue E claim ConditionTypeRegistered then ret (claim, finished, None)
      else if isCondTrue E claim ConditionTypeInitialized \<and> isCondTrue E claim ConditionTypeReady
      then ret (claim, finished, None)
      else
        let orig = claim in
        do { claim \<leftarrow> setCond E claim ConditionTypeInitialized ConditionTrue ReasonReconciled
                        ''ready for tunnels'';
             claim \<leftarrow> setCond E claim ConditionTypeReady ConditionTrue ReasonReconciled [];
             patch_status_or E orig claim ApiErr finished })"

section \<open>Phase 4: liveness.go\<close>

definition ttl :: "Liveness \<Rightarrow> int" where
  "ttl l = (if RegistrationTTL l > 0 then RegistrationTTL l else DefaultRegistrationTTL)"

definition probeInterval :: "Liveness \<Rightarrow> int" where
  "probeInterval l = (if ProbeInterval l > 0 then ProbeInterval l else DefaultLivenessProbeInterval)"

definition threshold :: "Liveness \<Rightarrow> int" where
  "threshold l = (if FailureThreshold l > 0 then FailureThreshold l else DefaultLivenessFailureThreshold)"

definition readFailureCount :: "ExitClaim \<Rightarrow> int" where
  "readFailureCount claim =
     (let v = mget_str (Annotations claim) AnnotationLivenessFailures in
      if v = [] then 0
      else case Atoi v of None \<Rightarrow> 0 | Some n \<Rightarrow> if n < 0 then 0 else n)"

definition recordFailure :: "env \<Rightarrow> Liveness \<Rightarrow> ExitClaim \<Rightarrow> string \<Rightarrow> outcome io" where
  "recordFailure E l claim probeErr =
     (let count = int64 (readFailureCount claim + 1);
          orig = claim;
          claim = claim\<lparr>Annotations :=
                    mput AnnotationLivenessFailures (Itoa count) (Annotations claim)\<rparr>
      in do { r \<leftarrow> PatchClaim E orig claim;
              case r of
                Inl e \<Rightarrow> ret (claim, finished, Some (ApiErr e))
              | Inr claim \<Rightarrow>
                  if count < threshold l then ret (claim, after (probeInterval l), None)
                  else
                    let statusOrig = claim in
                    do { claim \<leftarrow> setCond E claim ConditionTypeReady ConditionFalse
                                    ReasonAdminAPIUnreachable
                                    (''admin probe failed '' @ Itoa count @ '' consecutive times: ''
                                       @ errorText E (ProbeErr probeErr));
                         claim \<leftarrow> setCond E claim ConditionTypeDisrupted ConditionTrue
                                    ReasonAdminAPIUnreachable ''liveness threshold exceeded'';
                         patch_status_or E statusOrig claim ApiErr (after (probeInterval l)) } })"

definition recordSuccess :: "env \<Rightarrow> Liveness \<Rightarrow> ExitClaim \<Rightarrow> outcome io" where
  "recordSuccess E l claim =
     (if \<not> mhas (Annotations claim) AnnotationLivenessFailures then
        ret (claim, after (probeInterval l), None)
      else
        let orig = claim;
            claim = claim\<lparr>Annotations := mdel AnnotationLivenessFailures (Annotations claim)\<rparr>
        in do { r \<leftarrow> PatchClaim E orig claim;
                ret (case r of
                       Inl e \<Rightarrow> (claim, finished, Some (ApiErr e))
                     | Inr claim \<Rightarrow> (claim, after (probeInterval l), None)) })"

definition probe :: "env \<Rightarrow> Liveness \<Rightarrow> ExitClaim \<Rightarrow> outcome io" where
  "probe E l claim =
     (if PublicIP (cStatus claim) = [] then ret (claim, after (probeInterval l), None)
      else do { info \<leftarrow> GetServerInfo E (admin_url claim);
                case info of
                  Inl err \<Rightarrow> recordFailure E l claim err
                | Inr _ \<Rightarrow> recordSuccess E l claim })"

definition liveness_Reconcile :: "env \<Rightarrow> Controller \<Rightarrow> ExitClaim \<Rightarrow> outcome io" where
  "liveness_Reconcile E R claim =
     (let l = liveness R in
      if \<not> isCondTrue E claim ConditionTypeLaunched then ret (claim, finished, None)
      else if isCondTrue E claim ConditionTypeReady then probe E l claim
      else if isCondTrue E claim ConditionTypeRegistered then ret (claim, finished, None)
      else
        let launchedAt = condTransitionTime E claim ConditionTypeLaunched in
        if time_is_zero launchedAt then ret (claim, after (30 * Second), None)
        else do { now \<leftarrow> Now E;
                  if time_sub now launchedAt < ttl l then ret (claim, after (30 * Second), None)
                  else
                    let orig = claim in
                    do { claim \<leftarrow> setCond E claim ConditionTypeDisrupted ConditionTrue
                                    ReasonRegistrationTimeout ''exceeded RegistrationTTL'';
                         claim \<leftarrow> patch_status_best E orig claim;
                         r \<leftarrow> DeleteClaim E claim;
                         ret (claim, finished, map_option ApiErr r) } })"

section \<open>Deletion\<close>

definition tunnelsBoundTo :: "env \<Rightarrow> string \<Rightarrow> (apierror + Tunnel list) io" where
  "tunnelsBoundTo E claimName =
     do { r \<leftarrow> ListTunnels E;
          ret (case r of
                 Inl e \<Rightarrow> Inl e
               | Inr ts \<Rightarrow> Inr (filter (\<lambda>t. AssignedExit (tStatus t) = claimName) ts)) }"

definition released :: "Tunnel \<Rightarrow> Tunnel" where
  "released t = t\<lparr>tStatus := (tStatus t)\<lparr>AssignedExit := [], AssignedIP := [], AssignedPorts := []\<rparr>\<rparr>"

text \<open>The loop over the bound tunnels keeps the first error.\<close>

fun release_all :: "env \<Rightarrow> Tunnel list \<Rightarrow> apierror option \<Rightarrow> apierror option io" where
  "release_all E [] firstErr = ret firstErr"
| "release_all E (t # bound) firstErr =
     do { r \<leftarrow> PatchTunnelStatus E t (released t);
          release_all E bound
            (case r of Inl err \<Rightarrow> (if firstErr = None then Some err else firstErr) | Inr _ \<Rightarrow> firstErr) }"

definition strip_finalizer :: "env \<Rightarrow> ExitClaim \<Rightarrow> (Result \<times> goerror option) io" where
  "strip_finalizer E claim =
     (if ContainsFinalizer E (Finalizers claim) TerminationFinalizer then
        do { r \<leftarrow> PatchClaim E claim
                    (claim\<lparr>Finalizers := RemoveFinalizer E (Finalizers claim) TerminationFinalizer\<rparr>);
             ret (finished, case r of Inl e \<Rightarrow> Some (ApiErr e) | Inr _ \<Rightarrow> None) }
      else ret (finished, None))"

definition grace_period :: "ExitClaim \<Rightarrow> int" where
  "grace_period claim =
     (case TerminationGracePeriod (cSpec claim) of
        None \<Rightarrow> DefaultTerminationGracePeriod
      | Some d \<Rightarrow> if d > 0 then d else DefaultTerminationGracePeriod)"

definition deleted_at :: "ExitClaim \<Rightarrow> int" where
  "deleted_at claim = (case DeletionTimestamp claim of None \<Rightarrow> 0 | Some t \<Rightarrow> t)"

definition finalize_rest :: "env \<Rightarrow> Controller \<Rightarrow> ExitClaim \<Rightarrow> (Result \<times> goerror option) io" where
  "finalize_rest E R claim =
     (case For (CloudProvider R) (refKind (ProviderClassRef (cSpec claim))) of
        Inl err \<Rightarrow> strip_finalizer E claim
      | Inr cp \<Rightarrow>
          do { r \<leftarrow> CloudDelete E cp claim;
               case r of
                 None \<Rightarrow> strip_finalizer E claim
               | Some err \<Rightarrow>
                   if \<not> IsExitNotFound err then ret (after (30 * Second), None)
                   else strip_finalizer E claim })"

definition finalize :: "env \<Rightarrow> Controller \<Rightarrow> ExitClaim \<Rightarrow> (Result \<times> goerror option) io" where
  "finalize E R claim =
     do { _ \<leftarrow> (if HasCluster R then MarkExit (Name claim) else ret ());
          bound \<leftarrow> tunnelsBoundTo E (Name claim);
          case bound of
            Inl err \<Rightarrow> ret (finished, Some (ApiErr err))
          | Inr bound \<Rightarrow>
              do { now \<leftarrow> (if bound \<noteq> [] then Now E else ret 0);
                   if bound \<noteq> [] \<and> time_sub now (deleted_at claim) < grace_period claim then
                     do { firstErr \<leftarrow> release_all E bound None;
                          ret (after (5 * Second), map_option ApiErr firstErr) }
                   else finalize_rest E R claim } }"

section \<open>Reconcile\<close>

fun run_phases :: "(ExitClaim \<Rightarrow> outcome io) list \<Rightarrow> ExitClaim \<Rightarrow> (Result \<times> goerror option) io" where
  "run_phases [] claim = ret (finished, None)"
| "run_phases (phase # phases) claim =
     do { (claim, res, err) \<leftarrow> phase claim;
          if err \<noteq> None then ret (res, err)
          else if \<not> IsZero res then ret (res, None)
          else run_phases phases claim }"

definition is_deleted :: "ExitClaim \<Rightarrow> bool" where
  "is_deleted claim = (case DeletionTimestamp claim of None \<Rightarrow> False | Some t \<Rightarrow> \<not> time_is_zero t)"

definition lifecycle_Reconcile :: "env \<Rightarrow> Controller \<Rightarrow> string \<Rightarrow> (Result \<times> goerror option) io" where
  "lifecycle_Reconcile E R name =
     do { got \<leftarrow> GetClaim E name;
          case got of
            Inl err \<Rightarrow> ret (finished, IgnoreNotFound err)
          | Inr claim \<Rightarrow>
              if is_deleted claim then finalize E R claim
              else if \<not> ContainsFinalizer E (Finalizers claim) TerminationFinalizer then
                do { r \<leftarrow> PatchClaim E claim
                            (claim\<lparr>Finalizers := AddFinalizer E (Finalizers claim) TerminationFinalizer\<rparr>);
                     ret (requeue, case r of Inl e \<Rightarrow> Some (ApiErr e) | Inr _ \<Rightarrow> None) }
              else
                run_phases [launch_Reconcile E R, registration_Reconcile E R,
                            initialization_Reconcile E R, liveness_Reconcile E R] claim }"

end
