(* ===== verification/LifecycleProps.thy ===== *)
theory LifecycleProps
  imports Lifecycle Samples
begin

text \<open>
  Properties of the lifecycle reconciler. The specification of the phase chain is a small state
  machine over the truth values of five conditions (\<open>phase_step\<close>); every status patch of the code is
  one of its steps. The other statements are about the events of one \<open>Reconcile\<close>.
\<close>

section \<open>The phase machine\<close>

record phases =
  launched :: bool
  registered :: bool
  initialized :: bool
  ready :: bool
  disrupted :: bool

definition phases_of :: "env \<Rightarrow> ExitClaim \<Rightarrow> phases" where
  "phases_of E c =
     \<lparr>launched = isCondTrue E c ConditionTypeLaunched,
      registered = isCondTrue E c ConditionTypeRegistered,
      initialized = isCondTrue E c ConditionTypeInitialized,
      ready = isCondTrue E c ConditionTypeReady,
      disrupted = isCondTrue E c ConditionTypeDisrupted\<rparr>"

inductive phase_step :: "phases \<Rightarrow> phases \<Rightarrow> bool" where
  launch_failed: "\<not> launched p \<Longrightarrow> phase_step p p"
| launch: "\<not> launched p \<Longrightarrow> phase_step p (p\<lparr>launched := True\<rparr>)"
| register_failed: "launched p \<Longrightarrow> \<not> registered p \<Longrightarrow> phase_step p p"
| register: "launched p \<Longrightarrow> \<not> registered p \<Longrightarrow> phase_step p (p\<lparr>registered := True\<rparr>)"
| initialize: "registered p \<Longrightarrow> phase_step p (p\<lparr>initialized := True, ready := True\<rparr>)"
| unreachable: "phase_step p (p\<lparr>ready := False, disrupted := True\<rparr>)"
| timed_out: "launched p \<Longrightarrow> \<not> registered p \<Longrightarrow> phase_step p (p\<lparr>disrupted := True\<rparr>)"

inductive phases_reachable :: "phases \<Rightarrow> bool" where
  start: "phases_reachable
    \<lparr>launched = False, registered = False, initialized = False, ready = False, disrupted = False\<rparr>"
| more: "phases_reachable p \<Longrightarrow> phase_step p q \<Longrightarrow> phases_reachable q"

definition phase_order :: "phases \<Rightarrow> bool" where
  "phase_order p \<longleftrightarrow> (ready p \<longrightarrow> initialized p) \<and> (initialized p \<longrightarrow> registered p) \<and>
     (registered p \<longrightarrow> launched p)"

inductive_cases phase_stepE: "phase_step p q"

lemma phase_step_order: "phase_step p q \<Longrightarrow> phase_order p \<Longrightarrow> phase_order q"
  by (auto simp: phase_order_def elim!: phase_stepE)

lemma phases_reachable_order: "phases_reachable p \<Longrightarrow> phase_order p"
  by (induction rule: phases_reachable.induct) (auto simp: phase_order_def elim!: phase_stepE)

lemma phase_step_mono:
  "phase_step p q \<Longrightarrow> (launched p \<longrightarrow> launched q) \<and> (registered p \<longrightarrow> registered q) \<and>
     (initialized p \<longrightarrow> initialized q) \<and> (disrupted p \<longrightarrow> disrupted q)"
  by (auto elim!: phase_stepE)

section \<open>Every status patch is a step of the machine\<close>

definition condition_of :: "string \<Rightarrow> ConditionStatus \<Rightarrow> string \<Rightarrow> string \<Rightarrow> int \<Rightarrow> Condition" where
  "condition_of t s r m now = \<lparr>Type = t, Status = s, Reason = r, Message = m, LastTransitionTime = now,
     ObservedGeneration = 0\<rparr>"

lemma setCond_eq:
  "setCond E claim t s r m = do { now \<leftarrow> Now E; ret (with_cond E now claim (condition_of t s r m now)) }"
  by (simp add: setCond_def condition_of_def)

lemma condition_of_simps [simp]:
  "Type (condition_of t s r m now) = t" "Status (condition_of t s r m now) = s"
  "Reason (condition_of t s r m now) = r" "Message (condition_of t s r m now) = m"
  "LastTransitionTime (condition_of t s r m now) = now"
  by (simp_all add: condition_of_def)

lemma conds_with_cond [simp]:
  "claim_conds (with_cond E now c d) = SetStatusCondition E now (claim_conds c) d"
  by (simp add: with_cond_def)

lemma isCondTrue_with_cond:
  "meta_ok E \<Longrightarrow> isCondTrue E (with_cond E now c d) t \<longleftrightarrow>
     (if t = Type d then Status d = ConditionTrue else isCondTrue E c t)"
  by (simp add: isCondTrue_def true_after_set)

lemma isCondTrue_status: "claim_conds c = claim_conds d \<Longrightarrow> isCondTrue E c t = isCondTrue E d t"
  by (simp add: isCondTrue_def)

definition status_step :: "env \<Rightarrow> event \<Rightarrow> bool" where
  "status_step E e =
     (case e of EPatchClaimStatus orig new \<Rightarrow> phase_step (phases_of E orig) (phases_of E new) | _ \<Rightarrow> True)"

lemmas phase_defs = launch_Reconcile_def registration_Reconcile_def initialization_Reconcile_def
  liveness_Reconcile_def probe_def recordFailure_def recordSuccess_def

lemma launched_types [simp]:
  "ConditionTypeLaunched \<noteq> ConditionTypeRegistered" "ConditionTypeLaunched \<noteq> ConditionTypeInitialized"
  "ConditionTypeLaunched \<noteq> ConditionTypeReady" "ConditionTypeLaunched \<noteq> ConditionTypeDisrupted"
  "ConditionTypeRegistered \<noteq> ConditionTypeLaunched" "ConditionTypeRegistered \<noteq> ConditionTypeInitialized"
  "ConditionTypeRegistered \<noteq> ConditionTypeReady" "ConditionTypeRegistered \<noteq> ConditionTypeDisrupted"
  "ConditionTypeInitialized \<noteq> ConditionTypeLaunched" "ConditionTypeInitialized \<noteq> ConditionTypeRegistered"
  "ConditionTypeInitialized \<noteq> ConditionTypeReady" "ConditionTypeInitialized \<noteq> ConditionTypeDisrupted"
  "ConditionTypeReady \<noteq> ConditionTypeLaunched" "ConditionTypeReady \<noteq> ConditionTypeRegistered"
  "ConditionTypeReady \<noteq> ConditionTypeInitialized" "ConditionTypeReady \<noteq> ConditionTypeDisrupted"
  "ConditionTypeDisrupted \<noteq> ConditionTypeLaunched" "ConditionTypeDisrupted \<noteq> ConditionTypeRegistered"
  "ConditionTypeDisrupted \<noteq> ConditionTypeInitialized" "ConditionTypeDisrupted \<noteq> ConditionTypeReady"
  by (simp_all add: condition_type_defs)

lemma emits_run_phases:
  assumes "\<And>p c. p \<in> set ps \<Longrightarrow> emits P (p c)"
  shows "emits P (run_phases ps claim)"
  using assms
proof (induction ps arbitrary: claim)
  case Nil
  show ?case by (simp add: emits_ret)
next
  case (Cons p ps)
  have "emits P (run_phases ps c)" for c
    using Cons by simp
  with Cons.prems show ?case
    by (auto intro!: emits_intros)
qed

lemma phases_of_eq:
  "claim_conds c = claim_conds d \<Longrightarrow> phases_of E c = phases_of E d"
  by (simp add: phases_of_def isCondTrue_def)

lemma emits_patch_status_or [emits_intros]:
  "P (EPatchClaimStatus o' n) \<Longrightarrow> emits P (patch_status_or E o' n w r)"
  by (auto simp: patch_status_or_def PatchClaimStatus_def intro!: emits_intros)

lemma emits_patch_status_best [emits_intros]:
  "P (EPatchClaimStatus o' n) \<Longrightarrow> emits P (patch_status_best E o' n)"
  by (auto simp: patch_status_best_def PatchClaimStatus_def intro!: emits_intros)

lemma phases_of_with_cond:
  assumes "meta_ok E"
  shows
  "phases_of E (with_cond E now c (condition_of ConditionTypeLaunched s r m n)) =
     (phases_of E c)\<lparr>launched := s = ConditionTrue\<rparr>"
  "phases_of E (with_cond E now c (condition_of ConditionTypeRegistered s r m n)) =
     (phases_of E c)\<lparr>registered := s = ConditionTrue\<rparr>"
  "phases_of E (with_cond E now c (condition_of ConditionTypeInitialized s r m n)) =
     (phases_of E c)\<lparr>initialized := s = ConditionTrue\<rparr>"
  "phases_of E (with_cond E now c (condition_of ConditionTypeReady s r m n)) =
     (phases_of E c)\<lparr>ready := s = ConditionTrue\<rparr>"
  "phases_of E (with_cond E now c (condition_of ConditionTypeDisrupted s r m n)) =
     (phases_of E c)\<lparr>disrupted := s = ConditionTrue\<rparr>"
  by (simp_all add: phases_of_def isCondTrue_with_cond [OF assms])

lemma phases_sel:
  "isCondTrue E c ConditionTypeLaunched = launched (phases_of E c)"
  "isCondTrue E c ConditionTypeRegistered = registered (phases_of E c)"
  "isCondTrue E c ConditionTypeInitialized = initialized (phases_of E c)"
  "isCondTrue E c ConditionTypeReady = ready (phases_of E c)"
  "isCondTrue E c ConditionTypeDisrupted = disrupted (phases_of E c)"
  by (simp_all add: phases_of_def)

lemma phases_of_frame [simp]:
  "phases_of E (c\<lparr>cStatus := s\<lparr>Conditions := claim_conds c\<rparr>\<rparr>) = phases_of E c"
  "phases_of E (c\<lparr>cStatus := (cStatus c)\<lparr>FrpsVersion := v\<rparr>\<rparr>) = phases_of E c"
  by (simp_all add: phases_of_def isCondTrue_def)

text \<open>A handler as a sequence of calls: \<open>setCond\<close> reads the clock and changes the claim in memory.\<close>

lemmas handler_simps = setCond_eq State_Monad.bind_assoc State_Monad.bind_left_identity Let_def

lemmas handler_calls = call_defs patch_status_or_def patch_status_best_def

lemma launch_steps:
  assumes "meta_ok E"
  shows "emits (status_step E) (launch_Reconcile E R claim)"
proof -
  have *: "phase_step (phases_of E claim) ((phases_of E claim)\<lparr>launched := b\<rparr>)"
    if "\<not> launched (phases_of E claim)" for b
    using that phase_step.launch_failed [OF that] phase_step.launch [OF that]
    by (cases b; cases "phases_of E claim") auto
  show ?thesis
    unfolding launch_Reconcile_def handler_simps handler_calls phases_sel
    by (intro emits_intros)
      (simp_all add: status_step_def phases_of_with_cond [OF assms] *)
qed

lemma registration_steps:
  assumes "meta_ok E"
  shows "emits (status_step E) (registration_Reconcile E R claim)"
proof -
  have *: "phase_step (phases_of E claim) ((phases_of E claim)\<lparr>registered := b\<rparr>)"
    if "launched (phases_of E claim)" "\<not> registered (phases_of E claim)" for b
    using that phase_step.register_failed [OF that] phase_step.register [OF that]
    by (cases b; cases "phases_of E claim") auto
  show ?thesis
    unfolding registration_Reconcile_def handler_simps handler_calls phases_sel
    by (intro emits_intros)
      (simp_all add: status_step_def phases_of_with_cond [OF assms] * split: option.split)
qed

lemma initialization_steps:
  assumes "meta_ok E"
  shows "emits (status_step E) (initialization_Reconcile E R claim)"
  unfolding initialization_Reconcile_def handler_simps handler_calls phases_sel
  by (intro emits_intros)
    (simp_all add: status_step_def phases_of_with_cond [OF assms] phase_step.initialize)

lemma recordSuccess_steps: "emits (status_step E) (recordSuccess E l claim)"
  unfolding recordSuccess_def handler_simps handler_calls
  by (intro emits_intros) (simp_all add: status_step_def)

lemma recordFailure_steps:
  assumes "meta_ok E"
  shows "emits (status_step E) (recordFailure E l claim err)"
  unfolding recordFailure_def handler_simps handler_calls
  by (intro emits_intros)
    (simp_all add: status_step_def phases_of_with_cond [OF assms] phase_step.unreachable)

lemma liveness_steps:
  assumes "meta_ok E"
  shows "emits (status_step E) (liveness_Reconcile E R claim)"
  unfolding liveness_Reconcile_def probe_def handler_simps handler_calls phases_sel
  by (intro emits_intros recordFailure_steps [OF assms] recordSuccess_steps)
    (simp_all add: status_step_def phases_of_with_cond [OF assms] phase_step.timed_out)

lemma emits_release_all: "(\<And>t. t \<in> set ts \<Longrightarrow> P (EPatchTunnelStatus t (released t))) \<Longrightarrow> emits P (release_all E ts err)"
  by (induction ts arbitrary: err) (auto simp: PatchTunnelStatus_def intro!: emits_intros)

lemma finalize_steps: "emits (status_step E) (finalize E R claim)"
  unfolding finalize_def finalize_rest_def strip_finalizer_def tunnelsBoundTo_def handler_simps handler_calls
  by (intro emits_intros emits_release_all) (simp_all add: status_step_def)

lemma lifecycle_steps:
  assumes "meta_ok E"
  shows "emits (status_step E) (lifecycle_Reconcile E R name)"
  unfolding lifecycle_Reconcile_def handler_simps handler_calls
  by (intro emits_intros finalize_steps emits_run_phases)
    (auto simp: status_step_def launch_steps [OF assms] registration_steps [OF assms]
      initialization_steps [OF assms] liveness_steps [OF assms])

text \<open>
  C13: Refinement of the phase machine. Whatever the API server, the provider and the
  admin API answer, every status patch that one \<open>Reconcile\<close> sends is a step of the abstract phase
  machine: \<open>Launched\<close>, \<open>Registered\<close> and \<open>Initialized\<close> are only ever gained, in this order, and \<open>Ready\<close> is
  set only together with \<open>Initialized\<close> on a registered claim.
\<close>

theorem status_patches_refine_phase_machine:
  assumes "meta_ok E"
    and "EPatchClaimStatus orig new \<in> set (snd (run_state (lifecycle_Reconcile E R name) []))"
  shows "phase_step (phases_of E orig) (phases_of E new)"
  using emitsD [OF lifecycle_steps [OF assms(1)] assms(2)] by (simp add: status_step_def)

text \<open>
  In every state of the phase machine that is reachable from a claim without
  conditions, \<open>Ready\<close> implies \<open>Initialized\<close>, which implies \<open>Registered\<close>, which implies \<open>Launched\<close>; and the
  status that a patch of the code leaves on a claim in such a state is again reachable.
\<close>

theorem conditions_in_order:
  assumes "meta_ok E" and "phases_reachable (phases_of E orig)"
    and "EPatchClaimStatus orig new \<in> set (snd (run_state (lifecycle_Reconcile E R name) []))"
  shows "phases_reachable (phases_of E new) \<and>
    (isCondTrue E new ConditionTypeReady \<longrightarrow> isCondTrue E new ConditionTypeInitialized) \<and>
    (isCondTrue E new ConditionTypeInitialized \<longrightarrow> isCondTrue E new ConditionTypeRegistered) \<and>
    (isCondTrue E new ConditionTypeRegistered \<longrightarrow> isCondTrue E new ConditionTypeLaunched)"
proof -
  have "phase_step (phases_of E orig) (phases_of E new)"
    using emitsD [OF lifecycle_steps [OF assms(1)] assms(3)] by (simp add: status_step_def)
  with assms(2) have "phases_reachable (phases_of E new)"
    by (rule phases_reachable.more)
  moreover from this have "phase_order (phases_of E new)"
    by (rule phases_reachable_order)
  ultimately show ?thesis
    by (simp add: phase_order_def phases_of_def)
qed

section \<open>Launching\<close>

text \<open>
  A provider is asked to create an exit only for a live claim that carries the finalizer and is not
  launched, so that an exit that exists is always torn down again.
\<close>

definition create_guarded :: "env \<Rightarrow> Controller \<Rightarrow> event \<Rightarrow> bool" where
  "create_guarded E R e =
     (case e of
        ECloudCreate cp c \<Rightarrow>
          ContainsFinalizer E (Finalizers c) TerminationFinalizer \<and> \<not> is_deleted c \<and>
          \<not> isCondTrue E c ConditionTypeLaunched \<and>
          For (CloudProvider R) (refKind (ProviderClassRef (cSpec c))) = Inr cp
      | _ \<Rightarrow> True)"

definition is_create :: "event \<Rightarrow> bool" where
  "is_create e = (case e of ECloudCreate cp c \<Rightarrow> True | _ \<Rightarrow> False)"

definition no_create :: "event \<Rightarrow> bool" where
  "no_create e \<longleftrightarrow> \<not> is_create e"

lemmas no_create_defs = no_create_def is_create_def

lemma registration_no_create: "emits no_create (registration_Reconcile E R c)"
  unfolding phase_defs handler_simps handler_calls
  by (intro emits_intros) (simp_all add: no_create_defs)

lemma initialization_no_create: "emits no_create (initialization_Reconcile E R c)"
  unfolding phase_defs handler_simps handler_calls
  by (intro emits_intros) (simp_all add: no_create_defs)

lemma liveness_no_create: "emits no_create (liveness_Reconcile E R c)"
  unfolding phase_defs handler_simps handler_calls
  by (intro emits_intros) (simp_all add: no_create_defs)

lemma finalize_no_create: "emits no_create (finalize E R c)"
  unfolding finalize_def finalize_rest_def strip_finalizer_def tunnelsBoundTo_def handler_simps handler_calls
  by (intro emits_intros emits_release_all) (simp_all add: no_create_def is_create_def)

lemma launch_guarded:
  assumes "ContainsFinalizer E (Finalizers c) TerminationFinalizer" and "\<not> is_deleted c"
  shows "emits (create_guarded E R) (launch_Reconcile E R c)"
  unfolding launch_Reconcile_def handler_simps handler_calls
  by (intro emits_intros) (simp_all add: create_guarded_def assms)

lemma no_create_guarded: "emits no_create m \<Longrightarrow> emits (create_guarded E R) m"
  by (erule emits_mono) (simp add: no_create_def is_create_def create_guarded_def split: event.splits)

lemma lifecycle_create_guarded: "emits (create_guarded E R) (lifecycle_Reconcile E R name)"
proof -
  have rest: "emits (create_guarded E R) (run_phases [registration_Reconcile E R,
    initialization_Reconcile E R, liveness_Reconcile E R] c)" for c
    by (rule emits_run_phases) (auto intro!: no_create_guarded registration_no_create
      initialization_no_create liveness_no_create)
  show ?thesis
    unfolding lifecycle_Reconcile_def handler_calls
    by (intro emits_intros no_create_guarded [OF finalize_no_create]; (subst run_phases.simps)?)
      (auto simp: create_guarded_def simp del: run_phases.simps intro!: emits_intros launch_guarded rest)
qed

text \<open>
  C14: The provider is asked to create an exit only for a claim that is not being deleted,
  already carries the termination finalizer and is not launched, and the provider asked is the one
  registered for the claim's kind: no exit can exist that the finalizer would not tear down.
\<close>

theorem create_only_with_finalizer:
  assumes "ECloudCreate cp c \<in> set (snd (run_state (lifecycle_Reconcile E R name) []))"
  shows "ContainsFinalizer E (Finalizers c) TerminationFinalizer \<and> \<not> is_deleted c \<and>
    \<not> isCondTrue E c ConditionTypeLaunched \<and>
    For (CloudProvider R) (refKind (ProviderClassRef (cSpec c))) = Inr cp"
  using emitsD [OF lifecycle_create_guarded assms] by (simp add: create_guarded_def)

section \<open>Deletion\<close>

text \<open>
  What must have happened in a history \<open>h\<close> before the finalizer may go: the provider said that the exit
  is gone (or no provider is registered for the kind), and no tunnel was bound or the grace period was
  over.
\<close>

definition happened :: "event list \<Rightarrow> event \<Rightarrow> event list \<Rightarrow> bool" where
  "happened before e h \<longleftrightarrow> (\<exists>rest. h = before @ e # rest)"

definition exit_gone :: "env \<Rightarrow> Controller \<Rightarrow> ExitClaim \<Rightarrow> event list \<Rightarrow> bool" where
  "exit_gone E R c h \<longleftrightarrow>
     (case For (CloudProvider R) (refKind (ProviderClassRef (cSpec c))) of
        Inl err \<Rightarrow> True
      | Inr cp \<Rightarrow> \<exists>before. happened before (ECloudDelete cp c) h \<and>
          (case onCloudDelete E before cp c of None \<Rightarrow> True | Some err \<Rightarrow> IsExitNotFound err))"

definition bound_to :: "string \<Rightarrow> Tunnel list \<Rightarrow> Tunnel list" where
  "bound_to name ts = filter (\<lambda>t. AssignedExit (tStatus t) = name) ts"

definition drained :: "env \<Rightarrow> ExitClaim \<Rightarrow> event list \<Rightarrow> bool" where
  "drained E c h \<longleftrightarrow>
     (\<exists>before ts. happened before EListTunnels h \<and> onListTunnels E before = Inr ts \<and>
        (bound_to (Name c) ts = [] \<or>
         (\<exists>earlier. happened earlier ENow h \<and>
            grace_period c \<le> time_sub (clock E earlier) (deleted_at c))))"

lemma happened_snoc [intro]: "happened b e h \<Longrightarrow> happened b e (h @ [x])"
  by (auto simp: happened_def)

lemma happened_last [intro]: "happened h e (h @ [e])"
  by (simp add: happened_def)

lemma exit_gone_snoc: "exit_gone E R c h \<Longrightarrow> exit_gone E R c (h @ [x])"
  by (auto simp: exit_gone_def split: sum.splits)

lemma drained_snoc: "drained E c h \<Longrightarrow> drained E c (h @ [x])"
  unfolding drained_def by blast

text \<open>The event that removes the finalizer.\<close>

definition strips :: "event \<Rightarrow> bool" where
  "strips e =
     (case e of
        EPatchClaim orig new \<Rightarrow>
          TerminationFinalizer \<in> set (Finalizers orig) \<and> TerminationFinalizer \<notin> set (Finalizers new)
      | _ \<Rightarrow> False)"

definition keeps :: "event \<Rightarrow> bool" where
  "keeps e \<longleftrightarrow> \<not> strips e"

lemmas keeps_defs = keeps_def strips_def

text \<open>
  \<open>safe_strip\<close>: every event that removes the finalizer is the last one, for the claim that was read,
  after the exit is gone and the tunnels are drained.
\<close>

definition safe_strip :: "env \<Rightarrow> Controller \<Rightarrow> ExitClaim \<Rightarrow> event list \<Rightarrow> bool" where
  "safe_strip E R c h \<longleftrightarrow>
     (\<forall>orig new. EPatchClaim orig new \<in> set h \<and> strips (EPatchClaim orig new) \<longrightarrow>
        orig = c \<and> exit_gone E R c h \<and> drained E c h)"

lemma safe_strip_keeps: "list_all keeps h \<Longrightarrow> safe_strip E R c h"
  by (auto simp: safe_strip_def keeps_def list_all_iff)

lemma strip_finalizer_safe:
  assumes "list_all keeps h" and "exit_gone E R c h" and "drained E c h"
  shows "safe_strip E R c (snd (run_state (strip_finalizer E c) h))"
  using assms
  by (auto simp: strip_finalizer_def PatchClaim_def safe_strip_def list_all_iff keeps_def
      intro: exit_gone_snoc drained_snoc)

lemma finalize_rest_safe:
  assumes "list_all keeps h" and "drained E c h"
  shows "safe_strip E R c (snd (run_state (finalize_rest E R c) h))"
proof (cases "For (CloudProvider R) (refKind (ProviderClassRef (cSpec c)))")
  case (Inl err)
  then have "exit_gone E R c h" by (simp add: exit_gone_def)
  with Inl assms show ?thesis
    by (simp add: finalize_rest_def strip_finalizer_safe)
next
  case (Inr cp)
  let ?h = "h @ [ECloudDelete cp c]"
  have k: "list_all keeps ?h"
    using assms(1) by (simp add: keeps_defs)
  have "safe_strip E R c (snd (run_state (strip_finalizer E c) ?h))"
    if "case onCloudDelete E h cp c of None \<Rightarrow> True | Some err \<Rightarrow> IsExitNotFound err"
  proof (rule strip_finalizer_safe)
    show "exit_gone E R c ?h"
      using Inr that by (auto simp: exit_gone_def)
  qed (use k assms(2) drained_snoc in auto)
  with Inr k show ?thesis
    by (auto simp: finalize_rest_def CloudDelete_def safe_strip_keeps split: option.splits)
qed

lemma emits_from: "emits P m \<Longrightarrow> list_all P h \<Longrightarrow> list_all P (snd (run_state m h))"
  unfolding emits_def by (metis list_all_append)

lemma finalize_run:
  assumes h1: "h1 = (if HasCluster R then h @ [EMarkExit (Name c)] else h)"
  shows "run_state (finalize E R c) h =
    (case onListTunnels E h1 of
       Inl err \<Rightarrow> (((finished, Some (ApiErr err))), h1 @ [EListTunnels])
     | Inr ts \<Rightarrow>
         if bound_to (Name c) ts = [] then run_state (finalize_rest E R c) (h1 @ [EListTunnels])
         else if time_sub (clock E (h1 @ [EListTunnels])) (deleted_at c) < grace_period c then
           run_state (do { firstErr \<leftarrow> release_all E (bound_to (Name c) ts) None;
                           ret (after (5 * Second), map_option ApiErr firstErr) })
             ((h1 @ [EListTunnels]) @ [ENow])
         else run_state (finalize_rest E R c) ((h1 @ [EListTunnels]) @ [ENow]))"
  unfolding h1 by (simp add: finalize_def tunnelsBoundTo_def bound_to_def call_defs split: sum.split)

lemma finalize_safe:
  assumes "list_all keeps h"
  shows "safe_strip E R c (snd (run_state (finalize E R c) h))"
proof -
  let ?h1 = "if HasCluster R then h @ [EMarkExit (Name c)] else h"
  let ?h2 = "?h1 @ [EListTunnels]"
  have k: "list_all keeps ?h2" "list_all keeps (?h2 @ [ENow])"
    using assms by (simp_all add: keeps_defs)
  note unf = finalize_run [OF refl, of E R c h]
  show ?thesis
  proof (cases "onListTunnels E ?h1")
    case (Inl err)
    with k show ?thesis by (simp add: unf safe_strip_keeps)
  next
    case (Inr ts)
    show ?thesis
    proof (cases "bound_to (Name c) ts = []")
      case True
      have "happened ?h1 EListTunnels ?h2" by blast
      with Inr True have "drained E c ?h2" unfolding drained_def by meson
      with Inr True k finalize_rest_safe show ?thesis by (simp add: unf)
    next
      case bound: False
      show ?thesis
      proof (cases "time_sub (clock E ?h2) (deleted_at c) < grace_period c")
        case True
        have "emits keeps (do { firstErr \<leftarrow> release_all E (bound_to (Name c) ts) None;
                           ret (after (5 * Second), map_option ApiErr firstErr) })"
          by (intro emits_intros emits_release_all) (simp add: keeps_defs)
        from safe_strip_keeps [OF emits_from [OF this k(2)]] show ?thesis
          using Inr bound True by (simp add: unf)
      next
        case False
        have "happened ?h1 EListTunnels (?h2 @ [ENow])" "happened ?h2 ENow (?h2 @ [ENow])"
          by blast+
        with Inr False have "drained E c (?h2 @ [ENow])"
          unfolding drained_def by (meson linorder_not_less)
        with k(2) have "safe_strip E R c (snd (run_state (finalize_rest E R c) (?h2 @ [ENow])))"
          by (rule finalize_rest_safe)
        with Inr bound False show ?thesis by (simp add: unf)
      qed
    qed
  qed
qed

text \<open>No other phase touches the finalizers.\<close>

lemma launch_keeps: "emits keeps (launch_Reconcile E R c)"
  unfolding launch_Reconcile_def handler_simps handler_calls
  by (intro emits_intros) (simp_all add: keeps_defs)

lemma registration_keeps: "emits keeps (registration_Reconcile E R c)"
  unfolding registration_Reconcile_def handler_simps handler_calls
  by (intro emits_intros) (simp_all add: keeps_defs)

lemma initialization_keeps: "emits keeps (initialization_Reconcile E R c)"
  unfolding initialization_Reconcile_def handler_simps handler_calls
  by (intro emits_intros) (simp_all add: keeps_defs)

lemma liveness_keeps: "emits keeps (liveness_Reconcile E R c)"
  unfolding phase_defs handler_simps handler_calls
  by (intro emits_intros) (simp_all add: keeps_defs)

lemma phases_keep:
  "emits keeps (run_phases [launch_Reconcile E R, registration_Reconcile E R,
     initialization_Reconcile E R, liveness_Reconcile E R] c)"
  by (rule emits_run_phases)
    (auto intro: launch_keeps registration_keeps initialization_keeps liveness_keeps)


section \<open>Registration timeout\<close>

definition no_delete :: "event \<Rightarrow> bool" where
  "no_delete e = (case e of EDeleteClaim c \<Rightarrow> False | _ \<Rightarrow> True)"

definition timed_out_claim :: "env \<Rightarrow> Controller \<Rightarrow> event list \<Rightarrow> ExitClaim \<Rightarrow> bool" where
  "timed_out_claim E R h c \<longleftrightarrow>
     isCondTrue E c ConditionTypeLaunched \<and> \<not> isCondTrue E c ConditionTypeRegistered \<and>
     \<not> isCondTrue E c ConditionTypeReady \<and>
     (\<exists>before. happened before ENow h \<and>
        ttl (liveness R) \<le> time_sub (clock E before) (condTransitionTime E c ConditionTypeLaunched)) \<and>
     (\<exists>new. EPatchClaimStatus c new \<in> set h)"

definition delete_guarded :: "env \<Rightarrow> Controller \<Rightarrow> event list \<Rightarrow> bool" where
  "delete_guarded E R h \<longleftrightarrow> list_all no_delete h \<or> (\<exists>c. timed_out_claim E R h c)"

lemma no_delete_guarded: "list_all no_delete h \<Longrightarrow> delete_guarded E R h"
  by (simp add: delete_guarded_def)

lemma liveness_delete_guarded:
  assumes "list_all no_delete h"
  shows "delete_guarded E R (snd (run_state (liveness_Reconcile E R c) h))"
proof (cases "isCondTrue E c ConditionTypeLaunched \<and> \<not> isCondTrue E c ConditionTypeReady \<and>
    \<not> isCondTrue E c ConditionTypeRegistered \<and> \<not> time_is_zero (condTransitionTime E c ConditionTypeLaunched) \<and>
    \<not> time_sub (clock E h) (condTransitionTime E c ConditionTypeLaunched) < ttl (liveness R)")
  case True
  then have "\<exists>new k. snd (run_state (liveness_Reconcile E R c) h) =
    h @ ENow # ENow # EPatchClaimStatus c new # k"
    by (simp add: liveness_Reconcile_def handler_simps handler_calls split: sum.split)
  then obtain new k where k: "snd (run_state (liveness_Reconcile E R c) h) =
    h @ ENow # ENow # EPatchClaimStatus c new # k" by blast
  have "happened h ENow (h @ ENow # ENow # EPatchClaimStatus c new # k)"
    by (simp add: happened_def)
  moreover have "EPatchClaimStatus c new \<in> set (h @ ENow # ENow # EPatchClaimStatus c new # k)"
    by simp
  ultimately have "timed_out_claim E R (h @ ENow # ENow # EPatchClaimStatus c new # k) c"
    using True unfolding timed_out_claim_def by (metis linorder_not_less)
  then show ?thesis unfolding delete_guarded_def k by blast
next
  case False
  have "emits no_delete (probe E (liveness R) c)"
    unfolding probe_def recordFailure_def recordSuccess_def handler_simps handler_calls
    by (intro emits_intros) (simp_all add: no_delete_def)
  from emits_from [OF this assms] False assms show ?thesis
    by (auto simp: delete_guarded_def liveness_Reconcile_def Let_def Now_def no_delete_def)
qed

lemma launch_no_delete: "emits no_delete (launch_Reconcile E R c)"
  unfolding launch_Reconcile_def handler_simps handler_calls
  by (intro emits_intros) (simp_all add: no_delete_def)

lemma registration_no_delete: "emits no_delete (registration_Reconcile E R c)"
  unfolding registration_Reconcile_def handler_simps handler_calls
  by (intro emits_intros) (simp_all add: no_delete_def)

lemma initialization_no_delete: "emits no_delete (initialization_Reconcile E R c)"
  unfolding initialization_Reconcile_def handler_simps handler_calls
  by (intro emits_intros) (simp_all add: no_delete_def)

lemma finalize_no_delete: "emits no_delete (finalize E R c)"
  unfolding finalize_def finalize_rest_def strip_finalizer_def tunnelsBoundTo_def handler_simps handler_calls
  by (intro emits_intros emits_release_all) (simp_all add: no_delete_def)

text \<open>
  The phase by itself deletes on a timeout only. But it comes last: \<open>Registrar\<close> never lets a launched
  claim that is not registered pass.
\<close>

lemma launch_zero:
  "run_state (launch_Reconcile E R c) h = ((c', res, None), h') \<Longrightarrow> IsZero res \<Longrightarrow>
     isCondTrue E c' ConditionTypeLaunched"
  unfolding launch_Reconcile_def handler_simps handler_calls
  by (auto simp: result_defs Second_def split: if_splits sum.splits)

lemma registration_zero:
  "run_state (registration_Reconcile E R c) h = ((c', res, None), h') \<Longrightarrow> IsZero res \<Longrightarrow>
     isCondTrue E c ConditionTypeLaunched \<Longrightarrow> isCondTrue E c' ConditionTypeRegistered"
  unfolding registration_Reconcile_def handler_simps handler_calls
  by (auto simp: result_defs Second_def split: if_splits sum.splits)

text \<open>The server answers a status patch with the conditions that were sent.\<close>

definition status_stored :: "env \<Rightarrow> bool" where
  "status_stored E \<longleftrightarrow>
     (\<forall>h orig new c. onPatchClaimStatus E h orig new = Inr c \<longrightarrow> claim_conds c = claim_conds new)"

lemma initialization_zero:
  assumes "meta_ok E" and "status_stored E"
    and "run_state (initialization_Reconcile E R c) h = ((c', res, None), h')"
    and "isCondTrue E c ConditionTypeRegistered"
  shows "isCondTrue E c' ConditionTypeRegistered"
proof (cases "isCondTrue E c ConditionTypeInitialized \<and> isCondTrue E c ConditionTypeReady")
  case True
  then show ?thesis
    using assms(3,4) by (simp add: initialization_Reconcile_def)
next
  case False
  then obtain h1 orig new where p: "onPatchClaimStatus E h1 orig new = Inr c'"
    "isCondTrue E new ConditionTypeRegistered"
    using assms(3,4) unfolding initialization_Reconcile_def handler_simps handler_calls
    by (auto simp: isCondTrue_with_cond [OF assms(1)] split: sum.splits)
  then have "claim_conds c' = claim_conds new"
    using assms(2) unfolding status_stored_def by blast
  with p(2) show ?thesis by (simp add: isCondTrue_def)
qed

lemma probe_no_delete: "emits no_delete (probe E l c)"
  unfolding probe_def recordFailure_def recordSuccess_def handler_simps handler_calls
  by (intro emits_intros) (simp_all add: no_delete_def)

lemma liveness_registered_no_delete:
  "isCondTrue E c ConditionTypeRegistered \<Longrightarrow> emits no_delete (liveness_Reconcile E R c)"
  unfolding liveness_Reconcile_def Let_def
  by (auto intro!: emits_intros probe_no_delete)

lemma run_phases_Cons_stop:
  assumes "run_state (p c) h = ((c', res, err), h')" and "err \<noteq> None \<or> \<not> IsZero res"
  shows "snd (run_state (run_phases (p # ps) c) h) = h'"
  using assms by auto

lemma run_phases_Cons_pass:
  assumes "run_state (p c) h = ((c', res, None), h')" and "IsZero res"
  shows "snd (run_state (run_phases (p # ps) c) h) = snd (run_state (run_phases ps c') h')"
  using assms by auto

lemma run_phases_Cons_no_delete:
  assumes "list_all no_delete h" and "emits no_delete (p c)"
    and "\<And>c' res h'. run_state (p c) h = ((c', res, None), h') \<Longrightarrow> IsZero res \<Longrightarrow> list_all no_delete h' \<Longrightarrow>
      list_all no_delete (snd (run_state (run_phases ps c') h'))"
  shows "list_all no_delete (snd (run_state (run_phases (p # ps) c) h))"
proof -
  obtain c' res err h' where r: "run_state (p c) h = ((c', res, err), h')"
    by (metis prod_cases3 surj_pair)
  have h': "list_all no_delete h'"
    using emits_from [OF assms(2,1)] r by simp
  show ?thesis
  proof (cases "err = None \<and> IsZero res")
    case True
    with r h' assms(3) run_phases_Cons_pass [of p c h c' res h' ps] show ?thesis by simp
  next
    case False
    with r h' run_phases_Cons_stop [of p c h c' res err h' ps] show ?thesis by simp
  qed
qed

lemma phases_no_delete:
  assumes "meta_ok E" and "status_stored E" and "list_all no_delete h"
  shows "list_all no_delete (snd (run_state (run_phases [launch_Reconcile E R,
    registration_Reconcile E R, initialization_Reconcile E R, liveness_Reconcile E R] c) h))"
proof (rule run_phases_Cons_no_delete [of _ "launch_Reconcile E R", OF assms(3) launch_no_delete])
  fix c1 r1 h1
  assume l: "run_state (launch_Reconcile E R c) h = ((c1, r1, None), h1)" "IsZero r1"
    and h1: "list_all no_delete h1"
  note L = launch_zero [OF l]
  show "list_all no_delete (snd (run_state (run_phases [registration_Reconcile E R,
    initialization_Reconcile E R, liveness_Reconcile E R] c1) h1))"
  proof (rule run_phases_Cons_no_delete [of _ "registration_Reconcile E R", OF h1 registration_no_delete])
    fix c2 r2 h2
    assume r: "run_state (registration_Reconcile E R c1) h1 = ((c2, r2, None), h2)" "IsZero r2"
      and h2: "list_all no_delete h2"
    note Rg = registration_zero [OF r L]
    show "list_all no_delete (snd (run_state (run_phases [initialization_Reconcile E R,
      liveness_Reconcile E R] c2) h2))"
    proof (rule run_phases_Cons_no_delete [of _ "initialization_Reconcile E R", OF h2 initialization_no_delete])
      fix c3 r3 h3
      assume i: "run_state (initialization_Reconcile E R c2) h2 = ((c3, r3, None), h3)"
        and h3: "list_all no_delete h3"
      have "isCondTrue E c3 ConditionTypeRegistered"
        by (rule initialization_zero [OF assms(1,2) i Rg])
      from run_phases_Cons_no_delete [of _ "liveness_Reconcile E R", OF h3
          liveness_registered_no_delete [OF this], of "[]"]
      show "list_all no_delete (snd (run_state (run_phases [liveness_Reconcile E R] c3) h3))"
        by simp
    qed
  qed
qed


text \<open>
  Once the grace period is over, \<open>finalize\<close> goes on to delete the exit without telling
  the tunnels that are still bound to release: no tunnel status is patched any more, so they keep
  pointing at an exit that is gone (and \<open>listPendingTunnels\<close> does not pick them up again).
\<close>

theorem past_grace_tunnels_stay_bound:
  assumes "onListTunnels E (if HasCluster R then [EMarkExit (Name c)] else []) = Inr ts"
    and "bound_to (Name c) ts \<noteq> []"
    and "\<And>h. grace_period c \<le> time_sub (clock E h) (deleted_at c)"
  shows "EPatchTunnelStatus t t' \<notin> set (snd (run_state (finalize E R c) []))"
proof -
  define P where "P e = (case e of EPatchTunnelStatus a b \<Rightarrow> False | _ \<Rightarrow> True)" for e
  let ?h = "((if HasCluster R then [EMarkExit (Name c)] else []) @ [EListTunnels]) @ [ENow]"
  have "\<not> time_sub (clock E h) (deleted_at c) < grace_period c" for h
    using assms(3) [of h] by simp
  then have "run_state (finalize E R c) [] = run_state (finalize_rest E R c) ?h"
    using assms(1,2) by (simp only: finalize_run [OF refl] append_Nil sum.case if_False)
  moreover have "emits P (finalize_rest E R c)"
    unfolding finalize_rest_def strip_finalizer_def handler_calls
    by (intro emits_intros) (simp_all add: P_def)
  from emits_from [OF this, of ?h] have "list_all P (snd (run_state (finalize_rest E R c) ?h))"
    by (simp add: P_def)
  moreover have "\<not> P (EPatchTunnelStatus t t')"
    by (simp add: P_def)
  ultimately show ?thesis
    by (metis list_all_iff)
qed

end
