(* ===== verification/LifecycleRuns.thy ===== *)
theory LifecycleRuns
  imports LifecycleProps
begin

text \<open>
  Runs of several \<open>Reconcile\<close> calls on one claim, against an API server that stores what the
  controller writes (\<open>single_writer\<close>): a claim becomes ready, the failure counter counts, a lost exit
  is marked at the threshold. The concrete world \<open>world\<close> at the end shows that the hypotheses can hold.
\<close>

section \<open>The server as a store\<close>

fun claim_after :: "event list \<Rightarrow> ExitClaim \<Rightarrow> ExitClaim" where
  "claim_after [] c = c"
| "claim_after (e # h) c =
     claim_after h (case e of EPatchClaim orig new \<Rightarrow> new | EPatchClaimStatus orig new \<Rightarrow> new | _ \<Rightarrow> c)"

lemma claim_after_append [simp]: "claim_after (h @ k) c = claim_after k (claim_after h c)"
  by (induction h c rule: claim_after.induct) auto

definition single_writer :: "env \<Rightarrow> string \<Rightarrow> ExitClaim \<Rightarrow> bool" where
  "single_writer E name c0 \<longleftrightarrow>
     (\<forall>h. onGetClaim E h name = Inr (claim_after h c0)) \<and>
     (\<forall>h orig new. onPatchClaim E h orig new = Inr new \<and> onPatchClaimStatus E h orig new = Inr new)"

text \<open>The history after one more \<open>Reconcile\<close>, and the stored claim after \<open>n\<close> of them.\<close>

definition one :: "env \<Rightarrow> Controller \<Rightarrow> string \<Rightarrow> event list \<Rightarrow> event list" where
  "one E R name h = snd (run_state (lifecycle_Reconcile E R name) h)"

definition claim_now :: "env \<Rightarrow> Controller \<Rightarrow> string \<Rightarrow> ExitClaim \<Rightarrow> nat \<Rightarrow> ExitClaim" where
  "claim_now E R name c0 n = claim_after ((one E R name ^^ n) []) c0"

lemma claim_now_0 [simp]: "claim_now E R name c0 0 = c0"
  by (simp add: claim_now_def)

lemma claim_now_Suc:
  assumes "\<And>h. claim_after h c0 = claim_now E R name c0 n \<Longrightarrow> P (claim_after (one E R name h) c0)"
  shows "P (claim_now E R name c0 (Suc n))"
  using assms [of "(one E R name ^^ n) []"] by (simp add: claim_now_def)

section \<open>A claim becomes ready\<close>

text \<open>How many steps a claim is away from ready.\<close>

definition stage :: "env \<Rightarrow> ExitClaim \<Rightarrow> nat" where
  "stage E c =
     (if ContainsFinalizer E (Finalizers c) TerminationFinalizer then 0 else 1) +
     (if \<not> isCondTrue E c ConditionTypeLaunched then 3
      else if \<not> isCondTrue E c ConditionTypeRegistered then 2
      else if isCondTrue E c ConditionTypeInitialized \<and> isCondTrue E c ConditionTypeReady then 0
      else 1)"

definition healthy :: "env \<Rightarrow> Controller \<Rightarrow> bool" where
  "healthy E R \<longleftrightarrow>
     (\<forall>h cp c. \<exists>d. onCloudCreate E h cp c = Inr d \<and> PublicIP (cStatus d) \<noteq> []) \<and>
     (\<forall>h url. \<exists>info. onServerInfo E h url = Inr info)"

definition live :: "env \<Rightarrow> Controller \<Rightarrow> ExitClaim \<Rightarrow> bool" where
  "live E R c \<longleftrightarrow> \<not> is_deleted c \<and>
     (\<exists>cp. For (CloudProvider R) (refKind (ProviderClassRef (cSpec c))) = Inr cp) \<and>
     (isCondTrue E c ConditionTypeLaunched \<longrightarrow> PublicIP (cStatus c) \<noteq> [])"

lemma healthy_create:
  "healthy E R \<Longrightarrow> \<exists>d. onCloudCreate E h cp c = Inr d \<and> PublicIP (cStatus d) \<noteq> []"
  "healthy E R \<Longrightarrow> \<exists>info. onServerInfo E h url = Inr info"
  unfolding healthy_def by blast+

lemma status_frame [simp]:
  "is_deleted (c\<lparr>cStatus := s\<rparr>) = is_deleted c" "Finalizers (c\<lparr>cStatus := s\<rparr>) = Finalizers c"
  "is_deleted (c\<lparr>Finalizers := f\<rparr>) = is_deleted c" "is_deleted (c\<lparr>Annotations := a\<rparr>) = is_deleted c"
  by (simp_all add: is_deleted_def)

lemma with_cond_frame [simp]:
  "is_deleted (with_cond E now c d) = is_deleted c" "Finalizers (with_cond E now c d) = Finalizers c"
  "cSpec (with_cond E now c d) = cSpec c" "PublicIP (cStatus (with_cond E now c d)) = PublicIP (cStatus c)"
  "Annotations (with_cond E now c d) = Annotations c"
  by (simp_all add: with_cond_def)

lemma isCondTrue_frame [simp]:
  "isCondTrue E (c\<lparr>Finalizers := f\<rparr>) t = isCondTrue E c t"
  "isCondTrue E (c\<lparr>Annotations := a\<rparr>) t = isCondTrue E c t"
  "isCondTrue E (c\<lparr>cStatus := s\<lparr>Conditions := claim_conds c\<rparr>\<rparr>) t = isCondTrue E c t"
  "isCondTrue E (c\<lparr>cStatus := (cStatus c)\<lparr>FrpsVersion := v\<rparr>\<rparr>) t = isCondTrue E c t"
  by (simp_all add: isCondTrue_def)

text \<open>The phases on the stored claim, one after the other.\<close>

lemma single_writerD:
  assumes "single_writer E name c0"
  shows "onGetClaim E h name = Inr (claim_after h c0)" "onPatchClaim E h o' n = Inr n"
    "onPatchClaimStatus E h o' n = Inr n"
  using assms by (auto simp: single_writer_def)

lemmas run_simps = handler_simps handler_calls single_writerD isCondTrue_with_cond result_defs

lemma one_deleted_or_phases:
  assumes "single_writer E name c0" and "\<not> is_deleted (claim_after h c0)"
    and "ContainsFinalizer E (Finalizers (claim_after h c0)) TerminationFinalizer"
  shows "one E R name h =
    snd (run_state (run_phases [launch_Reconcile E R, registration_Reconcile E R,
      initialization_Reconcile E R, liveness_Reconcile E R] (claim_after h c0)) (h @ [EGetClaim name]))"
  using assms by (simp add: one_def lifecycle_Reconcile_def GetClaim_def single_writerD del: run_phases.simps)

lemma one_add_finalizer:
  assumes "single_writer E name c0" and "\<not> is_deleted (claim_after h c0)"
    and "\<not> ContainsFinalizer E (Finalizers (claim_after h c0)) TerminationFinalizer"
  shows "claim_after (one E R name h) c0 = (claim_after h c0)
    \<lparr>Finalizers := AddFinalizer E (Finalizers (claim_after h c0)) TerminationFinalizer\<rparr>"
  using assms by (simp add: one_def lifecycle_Reconcile_def GetClaim_def PatchClaim_def single_writerD
    del: run_phases.simps)

lemma launch_run:
  assumes "single_writer E name c0" and "meta_ok E" and "healthy E R" and "live E R c"
    and "\<not> isCondTrue E c ConditionTypeLaunched"
  shows "\<exists>c' es. run_state (launch_Reconcile E R c) h = ((c', requeue, None), h @ es) \<and>
    (\<forall>x. claim_after es x = c') \<and> isCondTrue E c' ConditionTypeLaunched \<and> live E R c' \<and>
    Finalizers c' = Finalizers c \<and>
    (\<forall>t. t \<noteq> ConditionTypeLaunched \<longrightarrow> isCondTrue E c' t = isCondTrue E c t)"
proof -
  obtain cp where cp: "For (CloudProvider R) (refKind (ProviderClassRef (cSpec c))) = Inr cp"
    using assms(4) by (auto simp: live_def)
  obtain d where d: "onCloudCreate E h cp c = Inr d" "PublicIP (cStatus d) \<noteq> []"
    using healthy_create [OF assms(3)] by blast
  show ?thesis
    using assms(4,5) cp d
    by (simp add: launch_Reconcile_def run_simps assms(1,2) live_def single_writerD [OF assms(1)])
qed

lemma registration_run:
  assumes "single_writer E name c0" and "meta_ok E" and "healthy E R" and "live E R c"
    and "isCondTrue E c ConditionTypeLaunched" and "\<not> isCondTrue E c ConditionTypeRegistered"
  shows "\<exists>c' es. run_state (registration_Reconcile E R c) h = ((c', requeue, None), h @ es) \<and>
    (\<forall>x. claim_after es x = c') \<and> isCondTrue E c' ConditionTypeRegistered \<and> live E R c' \<and>
    Finalizers c' = Finalizers c \<and>
    (\<forall>t. t \<noteq> ConditionTypeRegistered \<longrightarrow> isCondTrue E c' t = isCondTrue E c t)"
proof -
  obtain i where i: "onServerInfo E h (admin_url c) = Inr i"
    using healthy_create [OF assms(3)] by blast
  show ?thesis
    using assms(4-6) i
    by (simp add: registration_Reconcile_def run_simps assms(1,2) live_def single_writerD [OF assms(1)]
        split: option.split)
qed

lemma initialization_run:
  assumes "single_writer E name c0" and "meta_ok E" and "live E R c"
    and "isCondTrue E c ConditionTypeRegistered"
    and "\<not> (isCondTrue E c ConditionTypeInitialized \<and> isCondTrue E c ConditionTypeReady)"
  shows "\<exists>c' es. run_state (initialization_Reconcile E R c) h = ((c', finished, None), h @ es) \<and>
    (\<forall>x. claim_after es x = c') \<and> isCondTrue E c' ConditionTypeInitialized \<and>
    isCondTrue E c' ConditionTypeReady \<and> live E R c' \<and> Finalizers c' = Finalizers c \<and>
    (\<exists>orig. EPatchClaimStatus orig c' \<in> set es) \<and> Annotations c' = Annotations c \<and>
    PublicIP (cStatus c') = PublicIP (cStatus c) \<and>
    (\<forall>t. t \<noteq> ConditionTypeInitialized \<and> t \<noteq> ConditionTypeReady \<longrightarrow> isCondTrue E c' t = isCondTrue E c t)"
  using assms(3-5)
  by (simp add: initialization_Reconcile_def run_simps assms(1,2) live_def single_writerD [OF assms(1)])

text \<open>A successful probe leaves the conditions alone.\<close>

lemma probe_ok_run:
  assumes "single_writer E name c0" and "healthy E R" and "live E R c"
    and "isCondTrue E c ConditionTypeLaunched" and "isCondTrue E c ConditionTypeReady"
  shows "\<exists>c' es r. run_state (liveness_Reconcile E R c) h = ((c', r, None), h @ es) \<and>
    claim_after es c = c' \<and> live E R c' \<and> Finalizers c' = Finalizers c \<and>
    (\<forall>t. isCondTrue E c' t = isCondTrue E c t)"
proof -
  obtain i where i: "onServerInfo E h (admin_url c) = Inr i"
    using healthy_create [OF assms(2)] by blast
  show ?thesis
    using assms(3-5) i
    by (simp add: liveness_Reconcile_def probe_def recordSuccess_def run_simps live_def
        single_writerD [OF assms(1)])
qed

lemma probe_res: 
  "run_state (liveness_Reconcile E R c) h = ((c', r, err), h') \<Longrightarrow>
     snd (run_state (run_phases [liveness_Reconcile E R] c) h) = h'"
  by simp

lemma live_step:
  assumes "single_writer E name c0" and "meta_ok E" and "finalizers_ok E" and "healthy E R"
    and "live E R (claim_after h c0)"
  shows "live E R (claim_after (one E R name h) c0) \<and>
    stage E (claim_after (one E R name h) c0) \<le> stage E (claim_after h c0) - 1"
proof -
  let ?c = "claim_after h c0" and ?h = "h @ [EGetClaim name]"
  note run = one_deleted_or_phases [OF assms(1)]
  have del: "\<not> is_deleted ?c" using assms(5) by (simp add: live_def)
  have add: "ContainsFinalizer E (AddFinalizer E fs f) f" for fs f
    using assms(3) by (auto simp: finalizers_ok_def)
  consider (fin) "\<not> ContainsFinalizer E (Finalizers ?c) TerminationFinalizer"
    | (launch) "ContainsFinalizer E (Finalizers ?c) TerminationFinalizer"
        "\<not> isCondTrue E ?c ConditionTypeLaunched"
    | (reg) "ContainsFinalizer E (Finalizers ?c) TerminationFinalizer"
        "isCondTrue E ?c ConditionTypeLaunched" "\<not> isCondTrue E ?c ConditionTypeRegistered"
    | (init) "ContainsFinalizer E (Finalizers ?c) TerminationFinalizer"
        "isCondTrue E ?c ConditionTypeLaunched" "isCondTrue E ?c ConditionTypeRegistered"
        "\<not> (isCondTrue E ?c ConditionTypeInitialized \<and> isCondTrue E ?c ConditionTypeReady)"
    | (ok) "ContainsFinalizer E (Finalizers ?c) TerminationFinalizer"
        "isCondTrue E ?c ConditionTypeLaunched" "isCondTrue E ?c ConditionTypeRegistered"
        "isCondTrue E ?c ConditionTypeInitialized" "isCondTrue E ?c ConditionTypeReady"
    by blast
  then show ?thesis
  proof cases
    case fin
    then show ?thesis
      using one_add_finalizer [OF assms(1) del fin] assms(5) add
      by (simp add: live_def stage_def)
  next
    case launch
    obtain c' es where c': "run_state (launch_Reconcile E R ?c) ?h = ((c', requeue, None), ?h @ es)"
      "\<And>x. claim_after es x = c'" "isCondTrue E c' ConditionTypeLaunched" "live E R c'"
      "Finalizers c' = Finalizers ?c"
      using launch_run [OF assms(1,2,4,5) launch(2)] by blast
    then show ?thesis
      using launch by (simp add: run [OF del launch(1)] result_defs stage_def)
  next
    case reg
    obtain c' es where c': "run_state (registration_Reconcile E R ?c) ?h = ((c', requeue, None), ?h @ es)"
      "\<And>x. claim_after es x = c'" "isCondTrue E c' ConditionTypeRegistered" "live E R c'"
      "Finalizers c' = Finalizers ?c"
      "\<And>t. t \<noteq> ConditionTypeRegistered \<Longrightarrow> isCondTrue E c' t = isCondTrue E ?c t"
      using registration_run [OF assms(1,2,4,5) reg(2,3)] by blast
    then show ?thesis
      using reg by (simp add: run [OF del reg(1)] result_defs stage_def launch_Reconcile_def)
  next
    case init
    obtain c' es where c': "run_state (initialization_Reconcile E R ?c) ?h = ((c', finished, None), ?h @ es)"
      "\<And>x. claim_after es x = c'" "isCondTrue E c' ConditionTypeInitialized"
      "isCondTrue E c' ConditionTypeReady" "live E R c'" "Finalizers c' = Finalizers ?c"
      "\<And>t. t \<noteq> ConditionTypeInitialized \<Longrightarrow> t \<noteq> ConditionTypeReady \<Longrightarrow> isCondTrue E c' t = isCondTrue E ?c t"
      using initialization_run [OF assms(1,2,5) init(3,4)] by blast
    have l: "isCondTrue E c' ConditionTypeLaunched" "isCondTrue E c' ConditionTypeRegistered"
      using init c'(7) by simp_all
    obtain d ds r where d: "run_state (liveness_Reconcile E R c') (?h @ es) = ((d, r, None), (?h @ es) @ ds)"
      "claim_after ds c' = d" "live E R d" "Finalizers d = Finalizers c'"
      "\<And>t. isCondTrue E d t = isCondTrue E c' t"
      using probe_ok_run [OF assms(1,4) c'(5) l(1) c'(4)] by blast
    show ?thesis
      using init c' d l by (simp add: run [OF del init(1)] result_defs stage_def launch_Reconcile_def
        registration_Reconcile_def)
  next
    case ok
    obtain d ds r where d: "run_state (liveness_Reconcile E R ?c) ?h = ((d, r, None), ?h @ ds)"
      "claim_after ds ?c = d" "live E R d" "Finalizers d = Finalizers ?c"
      "\<And>t. isCondTrue E d t = isCondTrue E ?c t"
      using probe_ok_run [OF assms(1,4,5) ok(2,5)] by blast
    show ?thesis
      using ok d by (simp add: run [OF del ok(1)] result_defs stage_def launch_Reconcile_def
        registration_Reconcile_def initialization_Reconcile_def)
  qed
qed

text \<open>
  C18: Progress. If the API server stores what is written, the provider creates an exit with
  an address and the admin API answers, then a live claim of a registered kind is \<open>Ready\<close> after four
  calls of \<open>Reconcile\<close> (one for the finalizer and at most one for each phase) and stays so.
\<close>

theorem claim_becomes_ready:
  assumes "single_writer E name c0" and "meta_ok E" and "finalizers_ok E" and "healthy E R"
    and "live E R c0" and "4 \<le> n"
  shows "isCondTrue E (claim_now E R name c0 n) ConditionTypeReady"
proof -
  have "live E R (claim_now E R name c0 n) \<and> stage E (claim_now E R name c0 n) \<le> 4 - n" for n
  proof (induction n)
    case 0
    show ?case using assms(5) by (simp add: stage_def)
  next
    case (Suc n)
    show ?case
    proof (rule claim_now_Suc)
      fix h assume "claim_after h c0 = claim_now E R name c0 n"
      with live_step [OF assms(1-4), of h] Suc
      show "live E R (claim_after (one E R name h) c0) \<and>
        stage E (claim_after (one E R name h) c0) \<le> 4 - Suc n" by auto
    qed
  qed
  from this [of n] assms(6) show ?thesis
    by (simp add: stage_def split: if_splits)
qed

section \<open>An exit that stops answering\<close>

text \<open>The failure counter survives its trip through the annotation.\<close>

lemma Itoa_ne: "Itoa n \<noteq> []"
  by (simp add: Itoa_def nat_string_ne)

lemma readFailureCount_mput:
  assumes "0 \<le> n" and "is_int64 n"
  shows "readFailureCount (c\<lparr>Annotations := mput AnnotationLivenessFailures (Itoa n) a\<rparr>) = n"
  using assms by (simp add: readFailureCount_def mget_str_def Itoa_ne Atoi_Itoa)

lemma readFailureCount_frame [simp]:
  "readFailureCount (with_cond E now c d) = readFailureCount c"
  by (simp add: readFailureCount_def)

lemma readFailureCount_nonneg: "0 \<le> readFailureCount c"
  by (auto simp: readFailureCount_def Let_def split: option.split)

definition unreachable :: "env \<Rightarrow> bool" where
  "unreachable E \<longleftrightarrow> (\<forall>h url. \<exists>err. onServerInfo E h url = Inl err)"

definition serving :: "env \<Rightarrow> ExitClaim \<Rightarrow> bool" where
  "serving E c \<longleftrightarrow> \<not> is_deleted c \<and> ContainsFinalizer E (Finalizers c) TerminationFinalizer \<and>
     PublicIP (cStatus c) \<noteq> [] \<and> isCondTrue E c ConditionTypeLaunched \<and>
     isCondTrue E c ConditionTypeRegistered \<and> isCondTrue E c ConditionTypeInitialized"

text \<open>One failed probe of a ready claim whose counter reads \<open>n\<close>.\<close>

lemma probe_fails_run:
  assumes "single_writer E name c0" and "meta_ok E" and "unreachable E" and "serving E c"
    and "isCondTrue E c ConditionTypeReady" and "readFailureCount c = n" and "n < max_int64"
  shows "\<exists>c' es r. run_state (liveness_Reconcile E R c) h = ((c', r, None), h @ es) \<and>
    claim_after es c = c' \<and> serving E c' \<and> readFailureCount c' = n + 1 \<and>
    (isCondTrue E c' ConditionTypeReady \<longleftrightarrow> n + 1 < threshold (liveness R)) \<and>
    (isCondTrue E c' ConditionTypeDisrupted \<longleftrightarrow>
       isCondTrue E c ConditionTypeDisrupted \<or> threshold (liveness R) \<le> n + 1)"
proof -
  obtain err where err: "onServerInfo E h (admin_url c) = Inl err"
    using assms(3) by (auto simp: unreachable_def)
  have n: "0 \<le> n + 1" "is_int64 (n + 1)"
    using assms(6,7) readFailureCount_nonneg [of c]
    by (simp_all add: is_int64_def min_int64_def max_int64_def)
  show ?thesis
    using assms(4,5) n
    by (simp add: liveness_Reconcile_def probe_def recordFailure_def run_simps assms(1,2) err assms(6)
        readFailureCount_mput serving_def single_writerD [OF assms(1)])
qed

lemma failing_step:
  assumes "single_writer E name c0" and "meta_ok E" and "unreachable E"
    and "serving E (claim_after h c0)" and "isCondTrue E (claim_after h c0) ConditionTypeReady"
    and "readFailureCount (claim_after h c0) = n" and "n < max_int64"
  shows "serving E (claim_after (one E R name h) c0) \<and>
    readFailureCount (claim_after (one E R name h) c0) = n + 1 \<and>
    (isCondTrue E (claim_after (one E R name h) c0) ConditionTypeReady \<longleftrightarrow> n + 1 < threshold (liveness R)) \<and>
    (isCondTrue E (claim_after (one E R name h) c0) ConditionTypeDisrupted \<longleftrightarrow>
       isCondTrue E (claim_after h c0) ConditionTypeDisrupted \<or> threshold (liveness R) \<le> n + 1)"
proof -
  let ?c = "claim_after h c0" and ?h = "h @ [EGetClaim name]"
  have del: "\<not> is_deleted ?c" and fin: "ContainsFinalizer E (Finalizers ?c) TerminationFinalizer"
    using assms(4) by (simp_all add: serving_def)
  obtain d ds r where d: "run_state (liveness_Reconcile E R ?c) ?h = ((d, r, None), ?h @ ds)"
    "claim_after ds ?c = d" and concl: "serving E d \<and> readFailureCount d = n + 1 \<and>
      (isCondTrue E d ConditionTypeReady \<longleftrightarrow> n + 1 < threshold (liveness R)) \<and>
      (isCondTrue E d ConditionTypeDisrupted \<longleftrightarrow>
         isCondTrue E ?c ConditionTypeDisrupted \<or> threshold (liveness R) \<le> n + 1)"
    using probe_fails_run [OF assms(1-7)] by blast
  have "claim_after (one E R name h) c0 = d"
    using assms(4,5) d
    by (simp add: one_deleted_or_phases [OF assms(1) del fin] result_defs launch_Reconcile_def
        registration_Reconcile_def initialization_Reconcile_def serving_def)
  with concl show ?thesis by simp
qed

text \<open>
  C19: The liveness threshold. While the admin API of a ready claim does not answer, the
  \<open>k\<close>-th \<open>Reconcile\<close> brings the counter to \<open>k\<close>, and the claim stays ready until exactly the threshold,
  when \<open>Ready\<close> becomes false and \<open>Disrupted\<close> true.
\<close>

theorem liveness_threshold_exact:
  assumes "single_writer E name c0" and "meta_ok E" and "unreachable E" and "serving E c0"
    and "isCondTrue E c0 ConditionTypeReady" and "readFailureCount c0 = 0"
    and "\<not> isCondTrue E c0 ConditionTypeDisrupted"
    and "int k \<le> threshold (liveness R)" and "threshold (liveness R) < max_int64"
  shows "readFailureCount (claim_now E R name c0 k) = int k \<and>
    (isCondTrue E (claim_now E R name c0 k) ConditionTypeReady \<longleftrightarrow> int k < threshold (liveness R)) \<and>
    (isCondTrue E (claim_now E R name c0 k) ConditionTypeDisrupted \<longleftrightarrow> int k = threshold (liveness R))"
proof -
  have pos: "0 < threshold (liveness R)"
    by (simp add: threshold_def DefaultLivenessFailureThreshold_def)
  have "serving E (claim_now E R name c0 k) \<and> readFailureCount (claim_now E R name c0 k) = int k \<and>
    (isCondTrue E (claim_now E R name c0 k) ConditionTypeReady \<longleftrightarrow> int k < threshold (liveness R)) \<and>
    (isCondTrue E (claim_now E R name c0 k) ConditionTypeDisrupted \<longleftrightarrow> int k = threshold (liveness R))"
    using assms(8)
  proof (induction k)
    case 0
    show ?case using assms(4-7) pos by simp
  next
    case (Suc k)
    then have IH: "serving E (claim_now E R name c0 k)" "readFailureCount (claim_now E R name c0 k) = int k"
      "isCondTrue E (claim_now E R name c0 k) ConditionTypeReady"
      "\<not> isCondTrue E (claim_now E R name c0 k) ConditionTypeDisrupted"
      by simp_all
    show ?case
    proof (rule claim_now_Suc)
      fix h assume "claim_after h c0 = claim_now E R name c0 k"
      with failing_step [OF assms(1-3), of h "int k" R] IH Suc.prems assms(9)
      show "serving E (claim_after (one E R name h) c0) \<and>
        readFailureCount (claim_after (one E R name h) c0) = int (Suc k) \<and>
        (isCondTrue E (claim_after (one E R name h) c0) ConditionTypeReady \<longleftrightarrow> int (Suc k) < threshold (liveness R)) \<and>
        (isCondTrue E (claim_after (one E R name h) c0) ConditionTypeDisrupted \<longleftrightarrow> int (Suc k) = threshold (liveness R))"
        by (simp add: add.commute) linarith
    qed
  qed
  then show ?thesis by blast
qed

text \<open>
  A divergence from the comments of \<open>liveness.go\<close>, which leave a lost exit to the
  disruption queue: a claim that was marked at the threshold and then answers again is ready after the
  next \<open>Reconcile\<close> and stays so, but nothing here ever clears \<open>Disrupted\<close>, so that it also stays
  excluded from scheduling for good.
\<close>

theorem recovered_claim_stays_disrupted:
  assumes "single_writer E name c0" and "meta_ok E" and "healthy E R"
    and "serving E c0" and "For (CloudProvider R) (refKind (ProviderClassRef (cSpec c0))) = Inr cp"
    and "isCondTrue E c0 ConditionTypeDisrupted"
  shows "isCondTrue E (claim_now E R name c0 (Suc n)) ConditionTypeReady \<and>
    isCondTrue E (claim_now E R name c0 (Suc n)) ConditionTypeDisrupted"
proof -
  define ok where "ok c \<longleftrightarrow> live E R c \<and> ContainsFinalizer E (Finalizers c) TerminationFinalizer \<and>
    isCondTrue E c ConditionTypeLaunched \<and> isCondTrue E c ConditionTypeRegistered \<and>
    isCondTrue E c ConditionTypeInitialized \<and> isCondTrue E c ConditionTypeDisrupted" for c
  have step: "ok (claim_after (one E R name h) c0) \<and>
    isCondTrue E (claim_after (one E R name h) c0) ConditionTypeReady" if "ok (claim_after h c0)" for h
  proof -
    let ?c = "claim_after h c0" and ?h = "h @ [EGetClaim name]"
    have c: "live E R ?c" "\<not> is_deleted ?c" "ContainsFinalizer E (Finalizers ?c) TerminationFinalizer"
      "isCondTrue E ?c ConditionTypeLaunched" "isCondTrue E ?c ConditionTypeRegistered"
      "isCondTrue E ?c ConditionTypeInitialized" "isCondTrue E ?c ConditionTypeDisrupted"
      using that by (simp_all add: ok_def live_def)
    note run = one_deleted_or_phases [OF assms(1) c(2,3)]
    show ?thesis
    proof (cases "isCondTrue E ?c ConditionTypeReady")
      case True
      obtain d ds r where d: "run_state (liveness_Reconcile E R ?c) ?h = ((d, r, None), ?h @ ds)"
        "claim_after ds ?c = d" "live E R d" "Finalizers d = Finalizers ?c"
        "\<And>t. isCondTrue E d t = isCondTrue E ?c t"
        using probe_ok_run [OF assms(1,3) c(1,4) True] by blast
      then show ?thesis
        using c True by (simp add: run result_defs ok_def launch_Reconcile_def registration_Reconcile_def
          initialization_Reconcile_def)
    next
      case False
      obtain c' es where c': "run_state (initialization_Reconcile E R ?c) ?h = ((c', finished, None), ?h @ es)"
        "\<And>x. claim_after es x = c'" "isCondTrue E c' ConditionTypeInitialized"
        "isCondTrue E c' ConditionTypeReady" "live E R c'" "Finalizers c' = Finalizers ?c"
        "\<And>t. t \<noteq> ConditionTypeInitialized \<Longrightarrow> t \<noteq> ConditionTypeReady \<Longrightarrow> isCondTrue E c' t = isCondTrue E ?c t"
        using initialization_run [OF assms(1,2) c(1,5)] False by blast
      have l: "isCondTrue E c' ConditionTypeLaunched" "isCondTrue E c' ConditionTypeRegistered"
        "isCondTrue E c' ConditionTypeDisrupted"
        using c c'(7) by simp_all
      obtain d ds r where d: "run_state (liveness_Reconcile E R c') (?h @ es) = ((d, r, None), (?h @ es) @ ds)"
        "claim_after ds c' = d" "live E R d" "Finalizers d = Finalizers c'"
        "\<And>t. isCondTrue E d t = isCondTrue E c' t"
        using probe_ok_run [OF assms(1,3) c'(5) l(1) c'(4)] by blast
      show ?thesis
        using c c' d l False by (simp add: run result_defs ok_def launch_Reconcile_def
          registration_Reconcile_def)
    qed
  qed
  have "ok c0"
    using assms(4-6) by (simp add: ok_def live_def serving_def)
  then have "ok (claim_now E R name c0 n)"
  proof (induction n)
    case 0
    then show ?case by simp
  next
    case (Suc n)
    show ?case
      by (rule claim_now_Suc) (use step Suc in simp)
  qed
  then show ?thesis
    using step [of "(one E R name ^^ n) []"] by (simp add: claim_now_def ok_def)
qed

section \<open>A concrete world\<close>

text \<open>
  A server that stores the claim \<open>c0\<close>, a provider that answers with \<open>hydrated\<close>, an admin API that
  answers \<open>info\<close>, and the library routines as their documentation describes them.
\<close>

definition std_SetStatusCondition :: "int \<Rightarrow> Condition list \<Rightarrow> Condition \<Rightarrow> Condition list" where
  "std_SetStatusCondition now cs c =
     upsertCondition cs (c\<lparr>LastTransitionTime := if LastTransitionTime c = 0 then now else LastTransitionTime c\<rparr>)"

definition world :: "ExitClaim \<Rightarrow> ExitClaim \<Rightarrow> Tunnel list \<Rightarrow> (string + ServerInfo option) \<Rightarrow> env" where
  "world c0 hydrated ts info = \<lparr>
     onGetClaim = (\<lambda>h name. Inr (claim_after h c0)),
     onListClaims = (\<lambda>h. Inr [claim_after h c0]),
     onListPoolClaims = (\<lambda>h pool. Inr [claim_after h c0]),
     onCreateClaim = (\<lambda>h c. Inr c),
     onPatchClaim = (\<lambda>h orig new. Inr new),
     onPatchClaimStatus = (\<lambda>h orig new. Inr new),
     onDeleteClaim = (\<lambda>h c. None),
     onGetTunnel = (\<lambda>h ns name. Inl NotFound),
     onListTunnels = (\<lambda>h. Inr ts),
     onPatchTunnelStatus = (\<lambda>h orig new. Inr new),
     onGetPool = (\<lambda>h name. Inl NotFound),
     onListPools = (\<lambda>h. Inr []),
     onPatchPool = (\<lambda>h orig new. Inr new),
     onPatchPoolStatus = (\<lambda>h orig new. Inr new),
     onPatchPoolConditions = (\<lambda>h name p. Inl NotFound),
     onGetProviderClass = (\<lambda>h kind name. Inl NotFound),
     onPatchProviderClass = (\<lambda>h orig new. Inr new),
     onCloudCreate = (\<lambda>h cp c. Inr hydrated),
     onCloudDelete = (\<lambda>h cp c. None),
     onServerInfo = (\<lambda>h url. info),
     clock = (\<lambda>h. 10000 * Second + int (length h)),
     SetStatusCondition = std_SetStatusCondition,
     FindStatusCondition = findCondition,
     IsStatusConditionTrue = (\<lambda>cs t. case findCondition cs t of None \<Rightarrow> False | Some c \<Rightarrow> Status c = ConditionTrue),
     ContainsFinalizer = (\<lambda>fs f. List.member fs f),
     AddFinalizer = (\<lambda>fs f. List.insert f fs),
     RemoveFinalizer = (\<lambda>fs f. removeAll f fs),
     errorText = (\<lambda>e. ''error'')\<rparr>"

lemma world_meta_ok: "meta_ok (world c0 d ts info)"
  unfolding meta_ok_def world_def
  by (auto simp: std_SetStatusCondition_def lookup_upsertCondition stamp_def split: option.split)

lemma world_finalizers_ok: "finalizers_ok (world c0 d ts info)"
  by (simp add: finalizers_ok_def world_def)

lemma world_single_writer: "single_writer (world c0 d ts info) name c0"
  by (simp add: single_writer_def world_def)

lemma world_healthy: "PublicIP (cStatus d) \<noteq> [] \<Longrightarrow> healthy (world c0 d ts (Inr i)) R"
  by (simp add: healthy_def world_def)

lemma world_unreachable: "unreachable (world c0 d ts (Inl e))"
  by (simp add: unreachable_def world_def)

lemmas world_ok = world_meta_ok world_finalizers_ok world_single_writer world_healthy world_unreachable

section \<open>Witnesses\<close>

definition fresh_claim :: ExitClaim where
  "fresh_claim = sample_claim\<lparr>Finalizers := [TerminationFinalizer],
     cStatus := (cStatus sample_claim)\<lparr>Conditions := []\<rparr>\<rparr>"

definition dying_claim :: ExitClaim where
  "dying_claim = sample_claim\<lparr>Finalizers := [TerminationFinalizer], DeletionTimestamp := Some 5\<rparr>"

definition serving_claim :: "Condition list \<Rightarrow> ExitClaim" where
  "serving_claim cs = sample_claim\<lparr>Finalizers := [TerminationFinalizer],
     cStatus := (cStatus sample_claim)\<lparr>Conditions :=
       [cond ConditionTypeLaunched ConditionTrue 1, cond ConditionTypeRegistered ConditionTrue 2,
        cond ConditionTypeInitialized ConditionTrue 3] @ cs\<rparr>\<rparr>"

definition a_controller :: Controller where
  "a_controller = New [(''Fake'', ''fake'')]"

definition fresh_world :: env where
  "fresh_world = world fresh_claim sample_claim [] (Inr None)"

definition dying_world :: env where
  "dying_world = world dying_claim sample_claim [] (Inr None)"

definition serving_world :: "Condition list \<Rightarrow> (string + ServerInfo option) \<Rightarrow> env" where
  "serving_world cs info = world (serving_claim cs) sample_claim [] info"

lemmas world_defs = fresh_world_def dying_world_def serving_world_def

lemma fresh_patches: "\<exists>orig new. claim_conds orig = [] \<and> EPatchClaimStatus orig new \<in>
  set (snd (run_state (lifecycle_Reconcile fresh_world a_controller ''x'') []))"
proof -
  have "list_ex (\<lambda>e. case e of EPatchClaimStatus a b \<Rightarrow> claim_conds a = [] | _ \<Rightarrow> False)
    (snd (run_state (lifecycle_Reconcile fresh_world a_controller ''x'') []))"
    by code_simp
  from ex_status_patch [OF this] show ?thesis by blast
qed

lemma status_patches_refine_phase_machine_witness:
  "\<exists>orig new. EPatchClaimStatus orig new \<in>
     set (snd (run_state (lifecycle_Reconcile fresh_world a_controller ''x'') [])) \<and>
     phase_step (phases_of fresh_world orig) (phases_of fresh_world new)"
  using fresh_patches status_patches_refine_phase_machine [of fresh_world _ _ a_controller "''x''"]
    world_meta_ok unfolding fresh_world_def by blast

lemma no_conditions_reachable:
  "claim_conds c = [] \<Longrightarrow> phases_reachable (phases_of (world a b ts i) c)"
  by (simp add: phases_of_def isCondTrue_def world_def phases_reachable.start)

lemma conditions_in_order_witness:
  "\<exists>orig new. EPatchClaimStatus orig new \<in>
     set (snd (run_state (lifecycle_Reconcile fresh_world a_controller ''x'') [])) \<and>
     phases_reachable (phases_of fresh_world new)"
proof -
  obtain orig new where p: "claim_conds orig = []" "EPatchClaimStatus orig new \<in>
    set (snd (run_state (lifecycle_Reconcile fresh_world a_controller ''x'') []))"
    using fresh_patches by blast
  have "phases_reachable (phases_of fresh_world orig)"
    unfolding fresh_world_def using p(1) by (rule no_conditions_reachable)
  then have "phases_reachable (phases_of fresh_world new)"
    using conditions_in_order [OF _ _ p(2)] world_meta_ok unfolding fresh_world_def by blast
  with p(2) show ?thesis by blast
qed

lemma create_only_with_finalizer_witness:
  "\<exists>cp c. ECloudCreate cp c \<in>
     set (snd (run_state (lifecycle_Reconcile fresh_world a_controller ''x'') [])) \<and> \<not> is_deleted c"
proof -
  have "list_ex (\<lambda>e. case e of ECloudCreate cp c \<Rightarrow> True | _ \<Rightarrow> False)
    (snd (run_state (lifecycle_Reconcile fresh_world a_controller ''x'') []))"
    by code_simp
  from ex_cloud_create [OF this] obtain cp c where "ECloudCreate cp c \<in>
     set (snd (run_state (lifecycle_Reconcile fresh_world a_controller ''x'') []))"
    by blast
  with create_only_with_finalizer [OF this] show ?thesis by blast
qed



lemma past_grace_tunnels_stay_bound_witness:
  "\<not> (\<exists>t t'. EPatchTunnelStatus t t' \<in> set (snd (run_state
     (finalize (world dying_claim sample_claim [released sample_tunnel\<lparr>tStatus :=
        (tStatus sample_tunnel)\<lparr>AssignedExit := ''x''\<rparr>\<rparr>] (Inr None)) a_controller dying_claim) [])))"
  using past_grace_tunnels_stay_bound [of "world dying_claim sample_claim [released sample_tunnel\<lparr>tStatus :=
        (tStatus sample_tunnel)\<lparr>AssignedExit := ''x''\<rparr>\<rparr>] (Inr None)" a_controller dying_claim]
  by (simp add: world_def bound_to_def dying_claim_def sample_defs grace_period_def deleted_at_def
      time_sub_def lifecycle_defaults Hour_def Minute_def Second_def max_int64_def min_int64_def)

lemma fresh_live: "live fresh_world a_controller fresh_claim"
  by (simp add: live_def fresh_world_def world_def fresh_claim_def sample_defs a_controller_def New_def
      NewWithTTL_def For_def is_deleted_def isCondTrue_def)

lemma claim_becomes_ready_witness:
  "isCondTrue fresh_world (claim_now fresh_world a_controller ''x'' fresh_claim 4) ConditionTypeReady"
  by (rule claim_becomes_ready [OF _ _ _ _ fresh_live])
    (auto simp: fresh_world_def world_ok sample_defs)

lemma serving_serving: "serving (serving_world cs i) (serving_claim cs)"
  by (simp add: serving_def serving_world_def world_def serving_claim_def sample_defs is_deleted_def
      isCondTrue_def condition_type_defs)

lemma liveness_threshold_exact_witness:
  "readFailureCount (claim_now (serving_world [cond ConditionTypeReady ConditionTrue 4] (Inl ''refused''))
     a_controller ''x'' (serving_claim [cond ConditionTypeReady ConditionTrue 4]) 3) = 3 \<and>
   \<not> isCondTrue (serving_world [cond ConditionTypeReady ConditionTrue 4] (Inl ''refused''))
     (claim_now (serving_world [cond ConditionTypeReady ConditionTrue 4] (Inl ''refused''))
       a_controller ''x'' (serving_claim [cond ConditionTypeReady ConditionTrue 4]) 3) ConditionTypeReady"
proof -
  let ?cs = "[cond ConditionTypeReady ConditionTrue 4]"
  let ?W = "serving_world ?cs (Inl ''refused'')" and ?c = "serving_claim ?cs"
  have "isCondTrue ?W ?c ConditionTypeReady" "\<not> isCondTrue ?W ?c ConditionTypeDisrupted"
    "readFailureCount ?c = 0" "threshold (liveness a_controller) = 3"
    by (simp_all add: serving_world_def world_def serving_claim_def sample_defs isCondTrue_def
        condition_type_defs readFailureCount_def mget_str_def a_controller_def New_def NewWithTTL_def
        threshold_def lifecycle_defaults)
  with liveness_threshold_exact [of ?W "''x''" ?c 3 a_controller] serving_serving world_ok
  show ?thesis by (simp add: serving_world_def max_int64_def)
qed

lemma recovered_claim_stays_disrupted_witness:
  "isCondTrue (serving_world [cond ConditionTypeDisrupted ConditionTrue 4] (Inr None))
     (claim_now (serving_world [cond ConditionTypeDisrupted ConditionTrue 4] (Inr None))
       a_controller ''x'' (serving_claim [cond ConditionTypeDisrupted ConditionTrue 4]) (Suc 0))
     ConditionTypeDisrupted"
proof -
  let ?cs = "[cond ConditionTypeDisrupted ConditionTrue 4]"
  let ?W = "serving_world ?cs (Inr None)" and ?c = "serving_claim ?cs"
  have "isCondTrue ?W ?c ConditionTypeDisrupted"
    "For (CloudProvider a_controller) (refKind (ProviderClassRef (cSpec ?c))) = Inr ''fake''"
    "healthy ?W a_controller"
    by (simp_all add: serving_world_def world_def serving_claim_def sample_defs isCondTrue_def
        condition_type_defs a_controller_def New_def NewWithTTL_def For_def healthy_def)
  with recovered_claim_stays_disrupted [of ?W "''x''" ?c a_controller "''fake''" 0] serving_serving world_ok
  show ?thesis by (simp add: serving_world_def)
qed

end
