(* ===== verification/PoolControllers.thy ===== *)
theory PoolControllers
  imports Kube Sha256 "HOL-Library.Char_ord" "HOL-Library.List_Lexorder"
begin

text \<open>
  The small controllers that keep derived data on claims and pools: \<open>exitclaim/emptiness\<close> (the
  \<open>Empty\<close> condition), \<open>exitpool/counter\<close> (the pool's exits and resources), \<open>exitpool/readiness\<close>,
  \<open>exitpool/validation\<close>, and the two hash controllers \<open>exitpool/hash\<close> and \<open>providerclass/hash\<close>.
\<close>

section \<open>exitclaim/emptiness\<close>

definition reasonNoTunnels :: string where
  "reasonNoTunnels = ''NoTunnels''"

definition reasonHasTunnel :: string where
  "reasonHasTunnel = ''HasTunnel''"

definition emptiness_isReady :: "ExitClaim \<Rightarrow> bool" where
  "emptiness_isReady claim =
     (case findCondition (claim_conds claim) ConditionTypeReady of
        None \<Rightarrow> False
      | Some c \<Rightarrow> Status c = ConditionTrue)"

definition countBoundTunnels :: "env \<Rightarrow> string \<Rightarrow> (apierror + int) io" where
  "countBoundTunnels E claimName =
     do { r \<leftarrow> ListTunnels E;
          ret (case r of
                 Inl e \<Rightarrow> Inl e
               | Inr ts \<Rightarrow> Inr (int (length (filter (\<lambda>t. DeletionTimestamp t = None \<and>
                                   AssignedExit (tStatus t) = claimName) ts)))) }"

definition emptiness_setCondition ::
  "env \<Rightarrow> ExitClaim \<Rightarrow> ConditionStatus \<Rightarrow> string \<Rightarrow> string \<Rightarrow> (Result \<times> goerror option) io" where
  "emptiness_setCondition E claim status reason message =
     (if (case findCondition (claim_conds claim) ConditionTypeEmpty of
            None \<Rightarrow> False
          | Some cur \<Rightarrow> Status cur = status \<and> Reason cur = reason)
      then ret (finished, None)
      else do { now \<leftarrow> Now E;
                let next = \<lparr>Type = ConditionTypeEmpty, Status = status, Reason = reason, Message = message,
                            LastTransitionTime = now, ObservedGeneration = 0\<rparr>;
                    new = claim\<lparr>cStatus := (cStatus claim)\<lparr>Conditions :=
                            upsertCondition (claim_conds claim) next\<rparr>\<rparr>
                in do { r \<leftarrow> PatchClaimStatus E claim new;
                        ret (finished, case r of Inl e \<Rightarrow> Some (ApiErr e) | Inr _ \<Rightarrow> None) } })"

definition emptiness_Reconcile :: "env \<Rightarrow> string \<Rightarrow> (Result \<times> goerror option) io" where
  "emptiness_Reconcile E name =
     do { got \<leftarrow> GetClaim E name;
          case got of
            Inl err \<Rightarrow> ret (finished, IgnoreNotFound err)
          | Inr claim \<Rightarrow>
              if DeletionTimestamp claim \<noteq> None then ret (finished, None)
              else if \<not> emptiness_isReady claim then
                emptiness_setCondition E claim ConditionUnknown ReasonNotReady ''claim not yet Ready''
              else do { bound \<leftarrow> countBoundTunnels E (Name claim);
                        case bound of
                          Inl err \<Rightarrow> ret (finished, Some (ApiErr err))
                        | Inr n \<Rightarrow>
                            if n = 0 then
                              emptiness_setCondition E claim ConditionTrue reasonNoTunnels
                                ''no tunnels currently bound to this exit''
                            else
                              emptiness_setCondition E claim ConditionFalse reasonHasTunnel
                                ''one or more tunnels are bound to this exit'' } }"

definition tunnelToClaim :: "Tunnel \<Rightarrow> string list" where
  "tunnelToClaim t = (if AssignedExit (tStatus t) = [] then [] else [AssignedExit (tStatus t)])"

section \<open>exitpool/counter\<close>

fun count_loop :: "ExitClaim list \<Rightarrow> int \<times> ResourceList \<Rightarrow> int \<times> ResourceList" where
  "count_loop [] acc = acc"
| "count_loop (c # claims) (exits, resources) =
     (if DeletionTimestamp c \<noteq> None then count_loop claims (exits, resources)
      else count_loop claims (exits + 1, sum_list_into (Allocatable (cStatus c)) resources))"

text \<open>A quantity of \<open>n\<close> units.\<close>

definition NewQuantity :: "int \<Rightarrow> int" where
  "NewQuantity n = 1000000000 * n"

definition resourceListsEqual :: "ResourceList \<Rightarrow> ResourceList \<Rightarrow> bool" where
  "resourceListsEqual a b \<longleftrightarrow>
     length a = length b \<and>
     list_all (\<lambda>(k, va). case mget b k of None \<Rightarrow> False | Some vb \<Rightarrow> va = vb) a"

definition pool_totals :: "ExitClaim list \<Rightarrow> int \<times> ResourceList" where
  "pool_totals claims =
     (let (exits, resources) = count_loop claims (0, [])
      in (exits, mput ResourceExits (NewQuantity exits) resources))"

definition counter_Reconcile :: "env \<Rightarrow> string \<Rightarrow> (Result \<times> goerror option) io" where
  "counter_Reconcile E name =
     do { got \<leftarrow> GetPool E name;
          case got of
            Inl err \<Rightarrow> ret (finished, IgnoreNotFound err)
          | Inr pool \<Rightarrow>
              if DeletionTimestamp pool \<noteq> None then ret (finished, None)
              else do { listed \<leftarrow> ListPoolClaims E (Name pool);
                        case listed of
                          Inl err \<Rightarrow> ret (finished, Some (ApiErr err))
                        | Inr claims \<Rightarrow>
                            let (exits, resources) = pool_totals claims in
                            if pExits (pStatus pool) = exits \<and>
                               resourceListsEqual (pResources (pStatus pool)) resources
                            then ret (finished, None)
                            else
                              let new = pool\<lparr>pStatus := (pStatus pool)\<lparr>pExits := exits, pResources := resources\<rparr>\<rparr>
                              in do { r \<leftarrow> PatchPoolStatus E pool new;
                                      ret (finished, case r of Inl e \<Rightarrow> Some (ApiErr e) | Inr _ \<Rightarrow> None) } } }"

definition claimToPool :: "ExitClaim \<Rightarrow> string list" where
  "claimToPool c = (let poolName = mget_str (Labels c) LabelExitPool
                    in if poolName = [] then [] else [poolName])"

section \<open>exitpool/validation\<close>

definition ConditionTypeProviderClassReady :: string where
  "ConditionTypeProviderClassReady = ''ProviderClassReady''"

definition ConditionTypeValidationSucceeded :: string where
  "ConditionTypeValidationSucceeded = ''ValidationSucceeded''"

definition ReasonInvalidRequirements :: string where
  "ReasonInvalidRequirements = ''InvalidRequirements''"

definition ReasonProviderClassNotFound :: string where
  "ReasonProviderClassNotFound = ''ProviderClassNotFound''"

definition validatePool :: "ExitPool \<Rightarrow> string" where
  "validatePool pool =
     (if Replicas (pSpec pool) \<noteq> None \<and> Weight (pSpec pool) \<noteq> None
      then ''spec.replicas and spec.weight are mutually exclusive'' else [])"

definition pool_condition ::
  "env \<Rightarrow> ExitPool \<Rightarrow> string \<Rightarrow> ConditionStatus \<Rightarrow> string \<Rightarrow> string \<Rightarrow> (apierror + ExitPool) io" where
  "pool_condition E pool ty status reason message =
     do { now \<leftarrow> Now E;
          PatchPoolConditions E (Name pool)
            (PatchCondition (pConditions (pStatus pool))
               (MakeCondition now (pConditions (pStatus pool)) ty status (Generation pool) reason message)) }"

definition validation_Reconcile :: "env \<Rightarrow> string \<Rightarrow> (Result \<times> goerror option) io" where
  "validation_Reconcile E name =
     do { got \<leftarrow> GetPool E name;
          case got of
            Inl err \<Rightarrow> ret (finished, IgnoreNotFound err)
          | Inr pool \<Rightarrow>
              if DeletionTimestamp pool \<noteq> None then ret (finished, None)
              else
                let msg = validatePool pool in
                do { r \<leftarrow> (if msg \<noteq> [] then
                              pool_condition E pool ConditionTypeValidationSucceeded ConditionFalse
                                ReasonInvalidRequirements msg
                            else
                              pool_condition E pool ConditionTypeValidationSucceeded ConditionTrue
                                ReasonReconciled []);
                     ret (finished, case r of Inl e \<Rightarrow> Some (ApiErr e) | Inr _ \<Rightarrow> None) } }"

section \<open>exitpool/readiness\<close>

text \<open>\<open>kinds\<close> are the keys of \<open>KindToObject\<close>.\<close>

definition isTrue :: "Condition list \<Rightarrow> string \<Rightarrow> bool" where
  "isTrue conds t =
     (case findCondition conds t of None \<Rightarrow> False | Some c \<Rightarrow> Status c = ConditionTrue)"

definition provider_class_condition ::
  "env \<Rightarrow> string list \<Rightarrow> ExitPool \<Rightarrow> (apierror + ExitPool) io" where
  "provider_class_condition E kinds pool =
     (let ref = tmplProviderClassRef (pool_tmpl pool);
          report = pool_condition E pool ConditionTypeProviderClassReady
      in if \<not> List.member kinds (refKind ref) then
           report ConditionFalse ReasonProviderClassNotFound
             (''kind '' @ refKind ref @ '' is not registered with any provider'')
         else do { got \<leftarrow> GetProviderClass E (refKind ref) (refName ref);
                   case got of
                     Inl err \<Rightarrow>
                       if err = NotFound then
                         report ConditionFalse ReasonProviderClassNotFound
                           (refKind ref @ ''/'' @ refName ref @ '' not found'')
                       else
                         report ConditionFalse ReasonProviderError (errorText E (ApiErr err))
                   | Inr obj \<Rightarrow> report ConditionTrue ReasonReconciled [] })"

definition readiness_Reconcile :: "env \<Rightarrow> string list \<Rightarrow> string \<Rightarrow> (Result \<times> goerror option) io" where
  "readiness_Reconcile E kinds name =
     do { got \<leftarrow> GetPool E name;
          case got of
            Inl err \<Rightarrow> ret (finished, IgnoreNotFound err)
          | Inr pool \<Rightarrow>
              if DeletionTimestamp pool \<noteq> None then ret (finished, None)
              else
                do { r \<leftarrow> provider_class_condition E kinds pool;
                     case r of
                       Inl err \<Rightarrow> ret (finished, Some (ApiErr err))
                     | Inr _ \<Rightarrow>
                         do { again \<leftarrow> GetPool E name;
                              case again of
                                Inl err \<Rightarrow> ret (finished, IgnoreNotFound err)
                              | Inr pool \<Rightarrow>
                                  do { r \<leftarrow> (if isTrue (pConditions (pStatus pool)) ConditionTypeProviderClassReady
                                            then pool_condition E pool ConditionTypeReady ConditionTrue
                                                   ReasonReconciled []
                                            else pool_condition E pool ConditionTypeReady ConditionFalse
                                                   ReasonNotReady ''ProviderClassReady is not True'');
                                       ret (finished, case r of Inl e \<Rightarrow> Some (ApiErr e) | Inr _ \<Rightarrow> None) } } } }"

section \<open>exitpool/hash\<close>

text \<open>
  \<open>json\<close> is \<open>json.Marshal\<close> on the template (whose durations are marshalled by apimachinery);
  \<open>None\<close> is its error.
\<close>

definition canonicalize :: "ExitClaimTemplateSpec \<Rightarrow> ExitClaimTemplateSpec" where
  "canonicalize t =
     (let reqs = sort_key Key (tmplRequirements t);
          reqs = map (\<lambda>r. r\<lparr>Values := sort (Values r)\<rparr>) reqs;
          frps = (tmplFrps t)\<lparr>AllowPorts := sort (AllowPorts (tmplFrps t)),
                              ReservedPorts := sort (ReservedPorts (tmplFrps t))\<rparr>
      in t\<lparr>tmplRequirements := reqs, tmplFrps := frps\<rparr>)"

definition PoolTemplateHash :: "(ExitClaimTemplateSpec \<Rightarrow> string option) \<Rightarrow> ExitPool \<Rightarrow> string option" where
  "PoolTemplateHash json pool =
     map_option (\<lambda>raw. take 16 (hex_sha256 raw)) (json (canonicalize (pool_tmpl pool)))"

definition with_annotation :: "string \<Rightarrow> string \<Rightarrow> 'a ObjectMeta_scheme \<Rightarrow> 'a ObjectMeta_scheme" where
  "with_annotation key value obj = obj\<lparr>Annotations := mput key value (Annotations obj)\<rparr>"

text \<open>The loop over the claims to stamp; \<open>skip\<close> says which claims it passes over.\<close>

fun stamp_claims :: "env \<Rightarrow> string \<Rightarrow> string \<Rightarrow> (ExitClaim \<Rightarrow> bool) \<Rightarrow> ExitClaim list \<Rightarrow> apierror option io" where
  "stamp_claims E key value skip [] = ret None"
| "stamp_claims E key value skip (c # claims) =
     (if DeletionTimestamp c \<noteq> None then stamp_claims E key value skip claims
      else if skip c then stamp_claims E key value skip claims
      else if mget_str (Annotations c) key = value then stamp_claims E key value skip claims
      else do { r \<leftarrow> PatchClaim E c (with_annotation key value c);
                case r of
                  Inl err \<Rightarrow>
                    if err = Conflict \<or> err = NotFound then stamp_claims E key value skip claims
                    else ret (Some err)
                | Inr _ \<Rightarrow> stamp_claims E key value skip claims })"

definition hash_Reconcile ::
  "env \<Rightarrow> (ExitClaimTemplateSpec \<Rightarrow> string option) \<Rightarrow> string \<Rightarrow> (Result \<times> goerror option) io" where
  "hash_Reconcile E json name =
     do { got \<leftarrow> GetPool E name;
          case got of
            Inl err \<Rightarrow> ret (finished, IgnoreNotFound err)
          | Inr pool \<Rightarrow>
              if DeletionTimestamp pool \<noteq> None then ret (finished, None)
              else case PoolTemplateHash json pool of
                None \<Rightarrow> ret (finished, Some (Msg ''json''))
              | Some h \<Rightarrow>
                  let stamp_children = (\<lambda>pool :: ExitPool.
                        do { listed \<leftarrow> ListPoolClaims E (Name pool);
                             case listed of
                               Inl err \<Rightarrow> ret (finished, Some (ApiErr err))
                             | Inr claims \<Rightarrow>
                                 do { r \<leftarrow> stamp_claims E AnnotationPoolHash h (\<lambda>c. False) claims;
                                      ret (finished, map_option ApiErr r) } })
                  in if mget_str (Annotations pool) AnnotationPoolHash \<noteq> h then
                       do { r \<leftarrow> PatchPool E pool (with_annotation AnnotationPoolHash h pool);
                            case r of
                              Inl err \<Rightarrow> if err = Conflict then ret (requeue, None)
                                         else ret (finished, Some (ApiErr err))
                            | Inr pool \<Rightarrow> stamp_children pool }
                     else stamp_children pool }"

section \<open>providerclass/hash\<close>

definition SpecHash :: "ProviderClass \<Rightarrow> string option" where
  "SpecHash obj = map_option (\<lambda>raw. take 16 (hex_sha256 raw)) (specJSON obj)"

definition stampObject :: "env \<Rightarrow> ProviderClass \<Rightarrow> string \<Rightarrow> apierror option io" where
  "stampObject E obj h =
     (if mget_str (Annotations obj) AnnotationProviderClassHash = h then ret None
      else do { r \<leftarrow> PatchProviderClass E obj (with_annotation AnnotationProviderClassHash h obj);
                ret (case r of Inl e \<Rightarrow> Some e | Inr _ \<Rightarrow> None) })"

definition refers_to :: "string \<Rightarrow> string \<Rightarrow> ProviderClassRef \<Rightarrow> bool" where
  "refers_to kind pcName ref \<longleftrightarrow> refKind ref = kind \<and> refName ref = pcName"

fun stamp_pools :: "env \<Rightarrow> string \<Rightarrow> string \<Rightarrow> string \<Rightarrow> ExitPool list \<Rightarrow> apierror option io" where
  "stamp_pools E kind pcName h [] = ret None"
| "stamp_pools E kind pcName h (p # pools) =
     (if DeletionTimestamp p \<noteq> None then stamp_pools E kind pcName h pools
      else if \<not> refers_to kind pcName (tmplProviderClassRef (pool_tmpl p)) then
        stamp_pools E kind pcName h pools
      else if mget_str (Annotations p) AnnotationProviderClassHash = h then
        stamp_pools E kind pcName h pools
      else do { r \<leftarrow> PatchPool E p (with_annotation AnnotationProviderClassHash h p);
                case r of
                  Inl err \<Rightarrow>
                    if err = Conflict \<or> err = NotFound then stamp_pools E kind pcName h pools
                    else ret (Some err)
                | Inr _ \<Rightarrow> stamp_pools E kind pcName h pools })"

definition stampPools :: "env \<Rightarrow> string \<Rightarrow> string \<Rightarrow> string \<Rightarrow> apierror option io" where
  "stampPools E kind pcName h =
     do { r \<leftarrow> ListPools E;
          case r of Inl err \<Rightarrow> ret (Some err) | Inr pools \<Rightarrow> stamp_pools E kind pcName h pools }"

definition stampClaims :: "env \<Rightarrow> string \<Rightarrow> string \<Rightarrow> string \<Rightarrow> apierror option io" where
  "stampClaims E kind pcName h =
     do { r \<leftarrow> ListClaims E;
          case r of
            Inl err \<Rightarrow> ret (Some err)
          | Inr claims \<Rightarrow>
              stamp_claims E AnnotationProviderClassHash h
                (\<lambda>c. \<not> refers_to kind pcName (ProviderClassRef (cSpec c))) claims }"

definition pc_hash_Reconcile :: "env \<Rightarrow> string \<Rightarrow> string \<Rightarrow> (Result \<times> goerror option) io" where
  "pc_hash_Reconcile E kind name =
     do { got \<leftarrow> GetProviderClass E kind name;
          case got of
            Inl err \<Rightarrow> ret (finished, IgnoreNotFound err)
          | Inr obj \<Rightarrow>
              if DeletionTimestamp obj \<noteq> None then ret (finished, None)
              else case SpecHash obj of
                None \<Rightarrow> ret (finished, Some (Msg ''providerclass hash''))
              | Some h \<Rightarrow>
                  do { r \<leftarrow> stampObject E obj h;
                       case r of
                         Some err \<Rightarrow> if err = Conflict then ret (requeue, None)
                                     else ret (finished, Some (ApiErr err))
                       | None \<Rightarrow>
                           do { r \<leftarrow> stampPools E kind (Name obj) h;
                                case r of
                                  Some err \<Rightarrow> ret (finished, Some (ApiErr err))
                                | None \<Rightarrow>
                                    do { r \<leftarrow> stampClaims E kind (Name obj) h;
                                         ret (finished, map_option ApiErr r) } } } }"

definition ref_to_PC :: "string \<Rightarrow> ProviderClassRef \<Rightarrow> string list" where
  "ref_to_PC kind ref =
     (if refKind ref \<noteq> kind then [] else if refName ref = [] then [] else [refName ref])"

definition poolToPC :: "string \<Rightarrow> ExitPool \<Rightarrow> string list" where
  "poolToPC kind p = ref_to_PC kind (tmplProviderClassRef (pool_tmpl p))"

definition claimToPC :: "string \<Rightarrow> ExitClaim \<Rightarrow> string list" where
  "claimToPC kind c = ref_to_PC kind (ProviderClassRef (cSpec c))"

end
