(* ===== verification/PoolControllersProps.thy ===== *)
theory PoolControllersProps
  imports PoolControllers LifecycleRuns "HOL-Library.Multiset"
begin

text \<open>
  Properties of the small controllers: the counter's totals are exact and its write is idempotent,
  \<open>Ready\<close> of a pool follows the provider class, \<open>Empty\<close> of a claim follows the tunnels and carries the
  time since when it holds, and the template hash does not depend on the order of the declaration.
\<close>

section \<open>The counter\<close>

definition live_claims :: "ExitClaim list \<Rightarrow> ExitClaim list" where
  "live_claims cs = filter (\<lambda>c. DeletionTimestamp c = None) cs"

lemma count_loop_eq:
  "count_loop cs (n, r) =
     (n + int (length (live_claims cs)), sum_lists_into (map (\<lambda>c. Allocatable (cStatus c)) (live_claims cs)) r)"
  by (induction cs arbitrary: n r) (auto simp: live_claims_def)

definition exact_totals :: "ExitClaim list \<Rightarrow> int \<Rightarrow> ResourceList \<Rightarrow> bool" where
  "exact_totals cs exits res \<longleftrightarrow>
     exits = int (length (live_claims cs)) \<and>
     (\<forall>k. rget res k = (if k = ResourceExits then 1000000000 * exits
                        else (\<Sum>c\<leftarrow>live_claims cs. rget (Allocatable (cStatus c)) k)))"

lemma pool_totals_exact:
  assumes "\<forall>c \<in> set cs. wf_map (Allocatable (cStatus c))"
  shows "exact_totals cs (fst (pool_totals cs)) (snd (pool_totals cs))"
proof -
  have "\<forall>l \<in> set (map (\<lambda>c. Allocatable (cStatus c)) (live_claims cs)). wf_map l"
    using assms by (auto simp: live_claims_def)
  from rget_sum_lists_into [OF this, of "[]"] show ?thesis
    by (simp add: exact_totals_def pool_totals_def count_loop_eq NewQuantity_def comp_def)
qed

lemma resourceListsEqual_iff:
  assumes "wf_map a" and "wf_map b"
  shows "resourceListsEqual a b \<longleftrightarrow> map_of a = map_of b"
proof
  assume eq: "resourceListsEqual a b"
  have sub: "mget b k = Some v" if "mget a k = Some v" for k v
    using eq map_of_SomeD [OF that]
    by (fastforce simp: resourceListsEqual_def list_all_iff split: option.splits)
  have "map_of a \<subseteq>\<^sub>m map_of b"
    by (auto simp: map_le_def sub)
  moreover have "card (dom (map_of a)) = card (dom (map_of b))"
    using eq assms distinct_card [of "map fst a"] distinct_card [of "map fst b"]
    by (simp add: resourceListsEqual_def dom_map_of_conv_image_fst wf_map_def)
  ultimately have "dom (map_of a) = dom (map_of b)"
    by (metis card_subset_eq finite_dom_map_of map_le_implies_dom_le)
  with \<open>map_of a \<subseteq>\<^sub>m map_of b\<close> show "map_of a = map_of b"
    by (metis map_le_antisym map_le_def)
next
  assume eq: "map_of a = map_of b"
  then have "fst ` set a = fst ` set b"
    by (metis dom_map_of_conv_image_fst)
  then have "length a = length b"
    using assms by (metis distinct_card length_map list.set_map wf_map_def)
  then show "resourceListsEqual a b"
    using eq assms by (auto simp: resourceListsEqual_def list_all_iff wf_map_mget split: option.splits)
qed

text \<open>
  The counter is exact and idempotent. For a live pool whose claims the server lists, one
  \<open>Reconcile\<close> either writes a status whose exits are the number of claims that are not being deleted
  and whose resources are the sums of their allocatable resources, or writes nothing because the
  status already says so.
\<close>

theorem counter_exact:
  assumes "onGetPool E [] name = Inr pool" and "DeletionTimestamp pool = None"
    and "onListPoolClaims E [EGetPool name] (Name pool) = Inr claims"
    and "\<forall>c \<in> set claims. wf_map (Allocatable (cStatus c))"
    and "wf_map (pResources (pStatus pool))"
  shows "exact_totals claims (pExits (pStatus pool)) (pResources (pStatus pool)) \<and>
      snd (run_state (counter_Reconcile E name) []) = [EGetPool name, EListPoolClaims (Name pool)] \<or>
    (\<exists>new. exact_totals claims (pExits (pStatus new)) (pResources (pStatus new)) \<and>
      snd (run_state (counter_Reconcile E name) []) =
        [EGetPool name, EListPoolClaims (Name pool), EPatchPoolStatus pool new])"
proof -
  obtain n r where t: "pool_totals claims = (n, r)" by fastforce
  with pool_totals_exact [OF assms(4)] have ex: "exact_totals claims n r" by simp
  have wf: "wf_map r"
    using t wf_Sum [of "map (\<lambda>c. Allocatable (cStatus c)) (live_claims claims)"]
    by (auto simp: pool_totals_def count_loop_eq Sum_def)
  show ?thesis
  proof (cases "pExits (pStatus pool) = n \<and> resourceListsEqual (pResources (pStatus pool)) r")
    case True
    then have "map_of (pResources (pStatus pool)) = map_of r"
      using resourceListsEqual_iff [OF assms(5) wf] by simp
    then have "exact_totals claims (pExits (pStatus pool)) (pResources (pStatus pool))"
      using ex True by (simp add: exact_totals_def rget_def)
    with True t assms(1-3) show ?thesis
      by (simp add: counter_Reconcile_def call_defs)
  next
    case False
    let ?new = "pool\<lparr>pStatus := (pStatus pool)\<lparr>pExits := n, pResources := r\<rparr>\<rparr>"
    have "snd (run_state (counter_Reconcile E name) []) =
      [EGetPool name, EListPoolClaims (Name pool), EPatchPoolStatus pool ?new]"
      using False t assms(1-3) by (auto simp: counter_Reconcile_def call_defs Let_def)
    with ex show ?thesis by (intro disjI2 exI [of _ ?new]) simp
  qed
qed

section \<open>The template hash\<close>

definition norm_req :: "Requirement \<Rightarrow> Requirement" where
  "norm_req r = r\<lparr>Values := sort (Values r)\<rparr>"

lemma Key_norm_req [simp]: "Key (norm_req r) = Key r"
  by (simp add: norm_req_def)

text \<open>The same template up to the order of its requirements, their values and its ports.\<close>

definition same_template :: "ExitClaimTemplateSpec \<Rightarrow> ExitClaimTemplateSpec \<Rightarrow> bool" where
  "same_template t u \<longleftrightarrow>
     distinct (map Key (tmplRequirements t)) \<and>
     mset (map norm_req (tmplRequirements t)) = mset (map norm_req (tmplRequirements u)) \<and>
     mset (AllowPorts (tmplFrps t)) = mset (AllowPorts (tmplFrps u)) \<and>
     mset (ReservedPorts (tmplFrps t)) = mset (ReservedPorts (tmplFrps u)) \<and>
     t\<lparr>tmplRequirements := [], tmplFrps := (tmplFrps t)\<lparr>AllowPorts := [], ReservedPorts := []\<rparr>\<rparr> =
     u\<lparr>tmplRequirements := [], tmplFrps := (tmplFrps u)\<lparr>AllowPorts := [], ReservedPorts := []\<rparr>\<rparr>"

lemma sort_norm:
  assumes "distinct (map Key xs)"
  shows "map norm_req (sort_key Key xs) = sort_key Key (map norm_req xs)"
proof -
  have inj: "inj_on Key (set (map norm_req xs))"
    using assms by (auto simp: distinct_map inj_on_def)
  have "sort_key Key (map norm_req xs) = map norm_req (sort_key Key xs)"
    by (rule sort_key_inj_key_eq [OF _ inj]) (simp_all add: comp_def)
  then show ?thesis by simp
qed

lemma sort_key_mset:
  assumes "mset xs = mset ys" and "distinct (map f xs)"
  shows "sort_key f xs = sort_key f ys"
proof (rule sort_key_inj_key_eq)
  show "mset xs = mset (sort_key f ys)" using assms(1) by simp
  show "inj_on f (set xs)" using assms(2) by (simp add: distinct_map)
qed simp

lemma canonicalize_same:
  assumes "same_template t u"
  shows "canonicalize t = canonicalize u"
proof -
  have d: "distinct (map Key (tmplRequirements t))" and
    m: "mset (map norm_req (tmplRequirements t)) = mset (map norm_req (tmplRequirements u))"
    using assms by (simp_all add: same_template_def)
  have "map Key (map norm_req xs) = map Key xs" for xs by simp
  then have "mset (map Key (tmplRequirements u)) = mset (map Key (tmplRequirements t))"
    using m by (metis mset_map)
  with d have d': "distinct (map Key (tmplRequirements u))"
    by (metis mset_eq_imp_distinct_iff)
  have "map norm_req (sort_key Key (tmplRequirements t)) = map norm_req (sort_key Key (tmplRequirements u))"
    unfolding sort_norm [OF d] sort_norm [OF d']
    by (rule sort_key_mset [OF m]) (use d in \<open>simp add: comp_def\<close>)
  moreover have "sort (AllowPorts (tmplFrps t)) = sort (AllowPorts (tmplFrps u))"
    "sort (ReservedPorts (tmplFrps t)) = sort (ReservedPorts (tmplFrps u))"
    using assms by (auto simp: same_template_def intro!: properties_for_sort)
  ultimately show ?thesis
    using assms unfolding same_template_def canonicalize_def Let_def norm_req_def
    by (cases t; cases u; cases "tmplFrps t"; cases "tmplFrps u") simp
qed

text \<open>
  The pool hash does not depend on the order in which the template declares its
  requirements, their values, or the allowed and reserved ports (for requirements with pairwise
  different keys).
\<close>

theorem PoolTemplateHash_order_independent:
  assumes "same_template (pool_tmpl p) (pool_tmpl q)"
  shows "PoolTemplateHash json p = PoolTemplateHash json q"
  using canonicalize_same [OF assms] by (simp add: PoolTemplateHash_def)

section \<open>Pool readiness\<close>

text \<open>A server that stores the pool's conditions.\<close>

fun pool_after :: "event list \<Rightarrow> ExitPool \<Rightarrow> ExitPool" where
  "pool_after [] p = p"
| "pool_after (e # h) p = pool_after h
     (case e of
        EPatchPoolConditions name patch \<Rightarrow>
          (case apply_patch patch (pConditions (pStatus p)) of
             None \<Rightarrow> p
           | Some cs \<Rightarrow> p\<lparr>pStatus := (pStatus p)\<lparr>pConditions := cs\<rparr>\<rparr>)
      | _ \<Rightarrow> p)"

lemma pool_after_append [simp]: "pool_after (h @ k) p = pool_after k (pool_after h p)"
  by (induction h p rule: pool_after.induct) auto

lemma pool_after_frame [simp]:
  "Name (pool_after h p) = Name p" "DeletionTimestamp (pool_after h p) = DeletionTimestamp p"
  "pSpec (pool_after h p) = pSpec p" "Generation (pool_after h p) = Generation p"
  by (induction h p rule: pool_after.induct) (auto split: event.split option.split)

definition pool_writer :: "env \<Rightarrow> string \<Rightarrow> ExitPool \<Rightarrow> bool" where
  "pool_writer E name p0 \<longleftrightarrow> Name p0 = name \<and>
     (\<forall>h. onGetPool E h name = Inr (pool_after h p0)) \<and>
     (\<forall>h p. onPatchPoolConditions E h name p = Inr (pool_after (h @ [EPatchPoolConditions name p]) p0))"

lemma pool_writerD:
  assumes "pool_writer E name p0"
  shows "Name p0 = name" "onGetPool E h name = Inr (pool_after h p0)"
    "onPatchPoolConditions E h name p = Inr (pool_after (h @ [EPatchPoolConditions name p]) p0)"
  using assms by (auto simp: pool_writer_def)

definition pool_conds :: "event list \<Rightarrow> ExitPool \<Rightarrow> Condition list" where
  "pool_conds h p = pConditions (pStatus (pool_after h p))"

text \<open>Reporting a condition on the stored pool sets it and nothing else.\<close>

lemma pool_condition_run:
  assumes "pool_writer E name p0"
  shows "\<exists>es q. run_state (pool_condition E (pool_after h p0) ty st re ms) h = (Inr q, h @ es) \<and>
    (\<forall>t. isTrue (pool_conds (h @ es) p0) t \<longleftrightarrow>
       (if t = ty then st = ConditionTrue else isTrue (pool_conds h p0) t))"
proof -
  let ?cs = "pConditions (pStatus (pool_after h p0))"
  let ?c = "MakeCondition (clock E h) ?cs ty st (Generation p0) re ms"
  obtain cs' where cs': "apply_patch (PatchCondition ?cs ?c) ?cs = Some cs'"
    "\<And>t. findCondition cs' t = (if t = Type ?c then Some ?c else findCondition ?cs t)"
    using apply_PatchCondition [of ?cs ?c] by blast
  have "Type ?c = ty" "Status ?c = st"
    by (simp_all add: MakeCondition_stamp)
  then show ?thesis
    using cs'
    by (simp add: pool_condition_def call_defs pool_writerD [OF assms] pool_conds_def isTrue_def
        del: apply_patch.simps)
qed

definition class_found :: "env \<Rightarrow> string list \<Rightarrow> ExitPool \<Rightarrow> bool" where
  "class_found E kinds p \<longleftrightarrow>
     (let ref = tmplProviderClassRef (pool_tmpl p)
      in refKind ref \<in> set kinds \<and> (\<exists>obj. onGetProviderClass E [EGetPool (Name p)] (refKind ref) (refName ref) = Inr obj))"

lemma provider_class_condition_run:
  assumes "pool_writer E name p0" and "h = [EGetPool name]"
  shows "\<exists>es q. run_state (provider_class_condition E kinds p0) h = (Inr q, h @ es) \<and>
    (\<forall>t. isTrue (pool_conds (h @ es) p0) t \<longleftrightarrow>
       (if t = ConditionTypeProviderClassReady then class_found E kinds p0 else isTrue (pool_conds h p0) t))"
proof -
  let ?ref = "tmplProviderClassRef (pool_tmpl p0)"
  let ?h = "h @ [EGetProviderClass (refKind ?ref) (refName ?ref)]"
  note name = pool_writerD(1) [OF assms(1)]
  note at_h = pool_condition_run [OF assms(1), of h] and at_h' = pool_condition_run [OF assms(1), of ?h]
  have same: "pool_after h p0 = p0" "pool_after ?h p0 = p0" "pool_conds ?h p0 = pool_conds h p0"
    by (simp_all add: assms(2) pool_conds_def)
  show ?thesis
  proof (cases "refKind ?ref \<in> set kinds")
    case False
    then show ?thesis
      using at_h [of ConditionTypeProviderClassReady ConditionFalse] same(1)
      by (simp add: provider_class_condition_def class_found_def Let_def cong: if_cong)
  next
    case True
    note k = True
    show ?thesis
    proof (cases "onGetProviderClass E h (refKind ?ref) (refName ?ref)")
      case (Inl err)
      then have nf: "\<not> class_found E kinds p0"
        by (simp add: class_found_def Let_def name assms(2))
      let ?re = "if err = NotFound then ReasonProviderClassNotFound else ReasonProviderError"
      let ?ms = "if err = NotFound then refKind ?ref @ ''/'' @ refName ?ref @ '' not found''
        else errorText E (ApiErr err)"
      obtain es q where es: "run_state (pool_condition E p0 ConditionTypeProviderClassReady ConditionFalse ?re ?ms) ?h
          = (Inr q, ?h @ es)"
        "\<And>t. isTrue (pool_conds (?h @ es) p0) t \<longleftrightarrow>
          (if t = ConditionTypeProviderClassReady then ConditionFalse = ConditionTrue else isTrue (pool_conds h p0) t)"
        using at_h' [of ConditionTypeProviderClassReady ConditionFalse ?re ?ms] same by auto
      have "run_state (provider_class_condition E kinds p0) h = (Inr q, ?h @ es)"
        using k Inl es(1) by (cases "err = NotFound") (simp_all add: provider_class_condition_def call_defs Let_def)
      with es(2) nf show ?thesis
        by (intro exI [of _ "EGetProviderClass (refKind ?ref) (refName ?ref) # es"]) simp
    next
      case (Inr obj)
      then have f: "class_found E kinds p0"
        using k by (simp add: class_found_def Let_def name assms(2))
      obtain es q where es: "run_state (pool_condition E p0 ConditionTypeProviderClassReady ConditionTrue
          ReasonReconciled []) ?h = (Inr q, ?h @ es)"
        "\<And>t. isTrue (pool_conds (?h @ es) p0) t \<longleftrightarrow>
          (if t = ConditionTypeProviderClassReady then ConditionTrue = ConditionTrue else isTrue (pool_conds h p0) t)"
        using at_h' [of ConditionTypeProviderClassReady ConditionTrue ReasonReconciled "[]"] same by auto
      have "run_state (provider_class_condition E kinds p0) h = (Inr q, ?h @ es)"
        using k Inr es(1) by (simp add: provider_class_condition_def call_defs Let_def)
      with es(2) f show ?thesis
        by (intro exI [of _ "EGetProviderClass (refKind ?ref) (refName ?ref) # es"]) simp
    qed
  qed
qed

text \<open>
  The readiness rollup. For a live pool, after one \<open>Reconcile\<close> both \<open>ProviderClassReady\<close>
  and \<open>Ready\<close> are true exactly if the kind of the pool's provider class is registered and the object
  exists, and no other condition has changed its truth value.
\<close>

theorem readiness_follows_provider_class:
  assumes "pool_writer E name p0" and "DeletionTimestamp p0 = None"
    and "h = snd (run_state (readiness_Reconcile E kinds name) [])"
  shows "(isTrue (pool_conds h p0) ConditionTypeProviderClassReady \<longleftrightarrow> class_found E kinds p0) \<and>
    (isTrue (pool_conds h p0) ConditionTypeReady \<longleftrightarrow> class_found E kinds p0) \<and>
    (\<forall>t. t \<noteq> ConditionTypeProviderClassReady \<and> t \<noteq> ConditionTypeReady \<longrightarrow>
       isTrue (pool_conds h p0) t = isTrue (pool_conds [] p0) t)"
proof -
  let ?h0 = "[EGetPool name]"
  obtain es q where 1: "run_state (provider_class_condition E kinds p0) ?h0 = (Inr q, ?h0 @ es)"
    "\<And>t. isTrue (pool_conds (?h0 @ es) p0) t \<longleftrightarrow>
       (if t = ConditionTypeProviderClassReady then class_found E kinds p0 else isTrue (pool_conds ?h0 p0) t)"
    using provider_class_condition_run [OF assms(1) refl, of kinds] by blast
  let ?h1 = "(?h0 @ es) @ [EGetPool name]"
  let ?st = "if class_found E kinds p0 then ConditionTrue else ConditionFalse"
  let ?re = "if class_found E kinds p0 then ReasonReconciled else ReasonNotReady"
  let ?ms = "if class_found E kinds p0 then [] else ''ProviderClassReady is not True''"
  obtain fs q' where 2: "run_state (pool_condition E (pool_after ?h1 p0) ConditionTypeReady ?st ?re ?ms) ?h1 =
      (Inr q', ?h1 @ fs)"
    "\<And>t. isTrue (pool_conds (?h1 @ fs) p0) t \<longleftrightarrow>
       (if t = ConditionTypeReady then ?st = ConditionTrue else isTrue (pool_conds ?h1 p0) t)"
    using pool_condition_run [OF assms(1), of ?h1 ConditionTypeReady ?st ?re ?ms] by blast
  have same: "pool_conds ?h1 p0 = pool_conds (?h0 @ es) p0" "pool_conds ?h0 p0 = pool_conds [] p0"
    by (simp_all add: pool_conds_def)
  have "isTrue (pConditions (pStatus (pool_after ?h1 p0))) ConditionTypeProviderClassReady \<longleftrightarrow> class_found E kinds p0"
    using 1(2) [of ConditionTypeProviderClassReady] same(1) by (simp add: pool_conds_def)
  then have "h = ?h1 @ fs"
    using 1(1) 2(1) assms(2)
    by (cases "class_found E kinds p0")
      (simp_all add: assms(3) readiness_Reconcile_def call_defs pool_writerD [OF assms(1)])
  moreover have "ConditionTypeProviderClassReady \<noteq> ConditionTypeReady"
    by (simp add: ConditionTypeProviderClassReady_def ConditionTypeReady_def)
  ultimately show ?thesis
    using 1(2) 2(2) same by (cases "class_found E kinds p0") simp_all
qed

section \<open>Emptiness\<close>

definition has_tunnel :: "string \<Rightarrow> Tunnel list \<Rightarrow> bool" where
  "has_tunnel name ts \<longleftrightarrow> (\<exists>t \<in> set ts. DeletionTimestamp t = None \<and> AssignedExit (tStatus t) = name)"

definition wanted_empty :: "ExitClaim \<Rightarrow> Tunnel list \<Rightarrow> ConditionStatus" where
  "wanted_empty c ts =
     (if \<not> emptiness_isReady c then ConditionUnknown
      else if has_tunnel (Name c) ts then ConditionFalse else ConditionTrue)"

lemma setCondition_run:
  assumes "single_writer E name c0"
  shows "\<exists>es. snd (run_state (emptiness_setCondition E c st re ms) h) = h @ es \<and>
    (\<exists>d. findCondition (claim_conds (claim_after es c)) ConditionTypeEmpty = Some d \<and> Status d = st \<and>
       (case findCondition (claim_conds c) ConditionTypeEmpty of
          None \<Rightarrow> \<exists>b. LastTransitionTime d = clock E b
        | Some x \<Rightarrow> if Status x = st then LastTransitionTime d = LastTransitionTime x
                   else \<exists>b. LastTransitionTime d = clock E b)) \<and>
    (\<forall>t. t \<noteq> ConditionTypeEmpty \<longrightarrow>
       findCondition (claim_conds (claim_after es c)) t = findCondition (claim_conds c) t)"
proof (cases "findCondition (claim_conds c) ConditionTypeEmpty")
  case None
  then show ?thesis
    by (auto simp: emptiness_setCondition_def call_defs single_writerD [OF assms] Let_def
        lookup_upsertCondition stamp_def)
next
  case (Some x)
  then show ?thesis
    by (auto simp: emptiness_setCondition_def call_defs single_writerD [OF assms] Let_def
        lookup_upsertCondition stamp_def)
qed

text \<open>
  Emptiness. For a claim that is not being deleted, after one \<open>Reconcile\<close> the \<open>Empty\<close>
  condition is \<open>Unknown\<close> before the claim is ready, and then \<open>True\<close> exactly if no live tunnel is assigned
  to it; its transition time is kept exactly as long as the status is, so that it is the time since
  when the claim has been empty; and no other condition is touched.
\<close>

theorem emptiness_tracks_tunnels:
  assumes "single_writer E name c0" and "DeletionTimestamp c0 = None"
    and "\<And>h. onListTunnels E h = Inr ts"
  shows "\<exists>d. findCondition (claim_conds (claim_after (snd (run_state (emptiness_Reconcile E name) [])) c0))
      ConditionTypeEmpty = Some d \<and> Status d = wanted_empty c0 ts \<and>
    (case findCondition (claim_conds c0) ConditionTypeEmpty of
       None \<Rightarrow> \<exists>b. LastTransitionTime d = clock E b
     | Some x \<Rightarrow> if Status x = wanted_empty c0 ts then LastTransitionTime d = LastTransitionTime x
                else \<exists>b. LastTransitionTime d = clock E b) \<and>
    (\<forall>t. t \<noteq> ConditionTypeEmpty \<longrightarrow>
       findCondition (claim_conds (claim_after (snd (run_state (emptiness_Reconcile E name) [])) c0)) t =
       findCondition (claim_conds c0) t)"
proof -
  have none: "filter (\<lambda>t. DeletionTimestamp t = None \<and> AssignedExit (tStatus t) = Name c0) ts = [] \<longleftrightarrow>
    \<not> has_tunnel (Name c0) ts"
    by (auto simp: has_tunnel_def filter_empty_conv)
  obtain h re ms where h: "snd (run_state (emptiness_Reconcile E name) []) =
      snd (run_state (emptiness_setCondition E c0 (wanted_empty c0 ts) re ms) h)"
    "claim_after h c0 = c0"
  proof (cases "emptiness_isReady c0")
    case False
    then show ?thesis
      using assms(2) that [of ReasonNotReady "''claim not yet Ready''" "[EGetClaim name]"]
      by (simp add: emptiness_Reconcile_def call_defs single_writerD [OF assms(1)] wanted_empty_def)
  next
    case True
    show ?thesis
    proof (cases "has_tunnel (Name c0) ts")
      case False
      with True none show ?thesis
        using assms(2) that [of reasonNoTunnels "''no tunnels currently bound to this exit''"
            "[EGetClaim name, EListTunnels]"]
        by (simp add: emptiness_Reconcile_def call_defs single_writerD [OF assms(1)] wanted_empty_def
            countBoundTunnels_def assms(3))
    next
      case t: True
      with True none show ?thesis
        using assms(2) that [of reasonHasTunnel "''one or more tunnels are bound to this exit''"
            "[EGetClaim name, EListTunnels]"]
        by (simp add: emptiness_Reconcile_def call_defs single_writerD [OF assms(1)] wanted_empty_def
            countBoundTunnels_def assms(3))
    qed
  qed
  obtain es where es: "snd (run_state (emptiness_setCondition E c0 (wanted_empty c0 ts) re ms) h) = h @ es"
    and rest: "\<exists>d. findCondition (claim_conds (claim_after es c0)) ConditionTypeEmpty = Some d \<and>
       Status d = wanted_empty c0 ts \<and>
       (case findCondition (claim_conds c0) ConditionTypeEmpty of
          None \<Rightarrow> \<exists>b. LastTransitionTime d = clock E b
        | Some x \<Rightarrow> if Status x = wanted_empty c0 ts then LastTransitionTime d = LastTransitionTime x
                   else \<exists>b. LastTransitionTime d = clock E b)"
    "\<forall>t. t \<noteq> ConditionTypeEmpty \<longrightarrow>
       findCondition (claim_conds (claim_after es c0)) t = findCondition (claim_conds c0) t"
    using setCondition_run [OF assms(1)] by blast
  have "claim_after (snd (run_state (emptiness_Reconcile E name) [])) c0 = claim_after es c0"
    using h es by simp
  with rest show ?thesis by simp
qed

section \<open>Stamping\<close>

text \<open>
  When the loop returns without an error and no patch is lost to a conflict, every live claim that is
  not passed over carries the value, or has just been patched to carry it.
\<close>

definition stamped :: "string \<Rightarrow> string \<Rightarrow> event list \<Rightarrow> ExitClaim \<Rightarrow> bool" where
  "stamped key value h c \<longleftrightarrow>
     mget_str (Annotations c) key = value \<or> EPatchClaim c (with_annotation key value c) \<in> set h"

lemma emits_stamp_claims: "emits P (stamp_claims E key value skip cs)"
  if "\<And>c. P (EPatchClaim c (with_annotation key value c))"
  using that by (induction cs) (auto simp: PatchClaim_def intro!: emits_intros)

lemma stamp_claims_all:
  assumes "\<And>h orig new. \<exists>r. onPatchClaim E h orig new = Inr r"
  shows "\<exists>es. run_state (stamp_claims E key value skip cs) h = (None, h @ es) \<and>
    (\<forall>c \<in> set cs. DeletionTimestamp c = None \<and> \<not> skip c \<longrightarrow> stamped key value es c)"
proof (induction cs arbitrary: h)
  case Nil
  show ?case by simp
next
  case (Cons c cs)
  let ?p = "EPatchClaim c (with_annotation key value c)"
  obtain r where r: "onPatchClaim E h c (with_annotation key value c) = Inr r"
    using assms by blast
  obtain es where es: "run_state (stamp_claims E key value skip cs) h = (None, h @ es)"
    "\<forall>c \<in> set cs. DeletionTimestamp c = None \<and> \<not> skip c \<longrightarrow> stamped key value es c"
    using Cons.IH by blast
  obtain fs where fs: "run_state (stamp_claims E key value skip cs) (h @ [?p]) = (None, (h @ [?p]) @ fs)"
    "\<forall>c \<in> set cs. DeletionTimestamp c = None \<and> \<not> skip c \<longrightarrow> stamped key value fs c"
    using Cons.IH by blast
  show ?case
  proof (cases "DeletionTimestamp c \<noteq> None \<or> skip c \<or> mget_str (Annotations c) key = value")
    case True
    with es show ?thesis by (auto simp: stamped_def)
  next
    case False
    then have "run_state (stamp_claims E key value skip (c # cs)) h = (None, h @ ?p # fs)"
      using r fs(1) by (simp add: PatchClaim_def)
    moreover have "\<forall>d \<in> set (c # cs). DeletionTimestamp d = None \<and> \<not> skip d \<longrightarrow> stamped key value (?p # fs) d"
      using fs(2) by (auto simp: stamped_def)
    ultimately show ?thesis by blast
  qed
qed

section \<open>Witnesses\<close>

definition pool_world :: "ExitPool \<Rightarrow> ExitClaim list \<Rightarrow> (apierror + ProviderClass) \<Rightarrow> env" where
  "pool_world p0 claims pc = (world sample_claim sample_claim [] (Inr None))
     \<lparr>onGetPool := (\<lambda>h name. Inr (pool_after h p0)),
      onPatchPoolConditions := (\<lambda>h name p. Inr (pool_after (h @ [EPatchPoolConditions name p]) p0)),
      onListPoolClaims := (\<lambda>h name. Inr claims),
      onGetProviderClass := (\<lambda>h kind name. pc)\<rparr>"

lemma counter_exact_witness:
  "\<exists>new. exact_totals [sample_claim] (pExits (pStatus new)) (pResources (pStatus new)) \<and>
     EPatchPoolStatus sample_pool new \<in>
       set (snd (run_state (counter_Reconcile (pool_world sample_pool [sample_claim] (Inl NotFound)) ''p'') []))"
proof -
  let ?E = "pool_world sample_pool [sample_claim] (Inl NotFound)"
  have "\<not> exact_totals [sample_claim] (pExits (pStatus sample_pool)) (pResources (pStatus sample_pool))"
    by (simp add: exact_totals_def live_claims_def sample_defs)
  then show ?thesis
    using counter_exact [of ?E "''p''" sample_pool "[sample_claim]"]
    by (auto simp: pool_world_def sample_defs wf_map_def)
qed

lemma PoolTemplateHash_order_independent_witness:
  "PoolTemplateHash (\<lambda>t. Some (concat (AllowPorts (tmplFrps t))))
     (sample_pool\<lparr>pSpec := (pSpec sample_pool)\<lparr>Template := (Template (pSpec sample_pool))\<lparr>tmplSpec :=
       (pool_tmpl sample_pool)\<lparr>tmplFrps := (tmplFrps (pool_tmpl sample_pool))
         \<lparr>AllowPorts := [''80-82'', ''90'']\<rparr>\<rparr>\<rparr>\<rparr>\<rparr>) =
   PoolTemplateHash (\<lambda>t. Some (concat (AllowPorts (tmplFrps t))))
     (sample_pool\<lparr>pSpec := (pSpec sample_pool)\<lparr>Template := (Template (pSpec sample_pool))\<lparr>tmplSpec :=
       (pool_tmpl sample_pool)\<lparr>tmplFrps := (tmplFrps (pool_tmpl sample_pool))
         \<lparr>AllowPorts := [''90'', ''80-82'']\<rparr>\<rparr>\<rparr>\<rparr>\<rparr>)"
  by (rule PoolTemplateHash_order_independent) (simp add: same_template_def sample_defs add_mset_commute)

lemma readiness_follows_provider_class_witness:
  "isTrue (pool_conds (snd (run_state
     (readiness_Reconcile (pool_world sample_pool [] (Inl NotFound)) [''Fake''] ''p'') [])) sample_pool)
     ConditionTypeReady = False"
proof -
  have "pool_writer (pool_world sample_pool [] (Inl NotFound)) ''p'' sample_pool"
    by (simp add: pool_writer_def pool_world_def sample_pool_def)
  moreover have "\<not> class_found (pool_world sample_pool [] (Inl NotFound)) [''Fake''] sample_pool"
    by (simp add: class_found_def pool_world_def Let_def)
  moreover have "DeletionTimestamp sample_pool = None"
    by (simp add: sample_pool_def)
  ultimately show ?thesis
    using readiness_follows_provider_class [OF _ _ refl] by blast
qed

lemma emptiness_tracks_tunnels_witness:
  "\<exists>d. findCondition (claim_conds (claim_after (snd (run_state
     (emptiness_Reconcile (world sample_claim sample_claim [sample_tunnel] (Inr None)) ''x'') [])) sample_claim))
       ConditionTypeEmpty = Some d \<and> Status d = ConditionTrue"
proof -
  have "wanted_empty sample_claim [sample_tunnel] = ConditionTrue"
    by (simp add: wanted_empty_def emptiness_isReady_def has_tunnel_def sample_defs)
  moreover have "DeletionTimestamp sample_claim = None"
    by (simp add: sample_claim_def)
  moreover have "onListTunnels (world sample_claim sample_claim [sample_tunnel] (Inr None)) h = Inr [sample_tunnel]" for h
    by (simp add: world_def)
  note emptiness_tracks_tunnels [OF world_single_writer calculation(2) this, of "''x''"]
  ultimately show ?thesis by auto
qed

end
