(* ===== verification/CloudContract.thy ===== *)
theory CloudContract
  imports Kube
begin

text \<open>
  What the controllers need of a cloud provider (\<open>cloudprovider.CloudProvider\<close>): \<open>Create\<close> keeps at
  most one exit per claim, \<open>Delete\<close> removes it or reports that it is gone. The three providers of
  the repository interpret the locale, each over its own world: the fake one over its maps, the two
  others over the history of the calls to the API behind them.
\<close>

section \<open>Quantities of the catalogs\<close>

text \<open>Units and binary multiples in nano-units.\<close>

definition units :: "int \<Rightarrow> int" where
  "units n = 1000000000 * n"

definition Mi :: "int \<Rightarrow> int" where
  "Mi n = units (1048576 * n)"

definition Gi :: "int \<Rightarrow> int" where
  "Gi n = units (1073741824 * n)"

section \<open>The contract\<close>

text \<open>
  \<open>exits w\<close> are the exits that exist at the provider, as pairs of the name given to the exit and the
  provider id; \<open>exit_name\<close> is the name that a claim's exit has; \<open>valid_id\<close> are the ids that the
  provider gives out; \<open>ok\<close> are the worlds considered.
\<close>

locale cloud_provider =
  fixes create :: "ExitClaim \<Rightarrow> 'w \<Rightarrow> (cloud_error + ExitClaim) \<times> 'w"
    and delete :: "ExitClaim \<Rightarrow> 'w \<Rightarrow> cloud_error option \<times> 'w"
    and exits :: "'w \<Rightarrow> (string \<times> string) set"
    and exit_name :: "ExitClaim \<Rightarrow> string"
    and valid_id :: "string \<Rightarrow> bool"
    and ok :: "'w \<Rightarrow> bool"
  assumes create_keeps_ok: "ok w \<Longrightarrow> ok (snd (create c w))"
    and delete_keeps_ok: "ok w \<Longrightarrow> ok (snd (delete c w))"
    and one_per_name: "ok w \<Longrightarrow> (n, i) \<in> exits w \<Longrightarrow> (n, j) \<in> exits w \<Longrightarrow> i = j"
    and one_per_id: "ok w \<Longrightarrow> (n, i) \<in> exits w \<Longrightarrow> (m, i) \<in> exits w \<Longrightarrow> n = m"
    and created: "ok w \<Longrightarrow> create c w = (Inr d, w') \<Longrightarrow> (exit_name c, ProviderID (cStatus d)) \<in> exits w'"
    and valid: "ok w \<Longrightarrow> (n, i) \<in> exits w \<Longrightarrow> valid_id i"
    and create_keeps: "ok w \<Longrightarrow> exits w \<subseteq> exits (snd (create c w))"
    and create_adds: "ok w \<Longrightarrow> (n, i) \<in> exits (snd (create c w)) - exits w \<Longrightarrow> n = exit_name c"
    and deleted: "ok w \<Longrightarrow> valid_id (ProviderID (cStatus c)) \<Longrightarrow> delete c w = (None, w') \<Longrightarrow>
      exits w' = {(n, i) \<in> exits w. i \<noteq> ProviderID (cStatus c)}"
    and not_deleted: "ok w \<Longrightarrow> delete c w = (Some e, w') \<Longrightarrow> exits w' = exits w"
    and not_found: "ok w \<Longrightarrow> valid_id (ProviderID (cStatus c)) \<Longrightarrow> delete c w = (Some e, w') \<Longrightarrow> IsExitNotFound e \<Longrightarrow>
      (n, ProviderID (cStatus c)) \<notin> exits w"
    and unlaunched: "ok w \<Longrightarrow> ProviderID (cStatus c) = [] \<Longrightarrow>
      \<exists>e w'. delete c w = (Some e, w') \<and> IsExitNotFound e"
begin

text \<open>A second \<open>Create\<close> finds the exit of the first one and adds nothing.\<close>

lemma create_again:
  assumes "ok w" and "create c w = (Inr d, w1)" and "exit_name c' = exit_name c"
    and "create c' w1 = (Inr d', w2)"
  shows "ProviderID (cStatus d') = ProviderID (cStatus d) \<and> exits w2 = exits w1"
proof -
  have ok1: "ok w1" and ok2: "ok w2"
    using create_keeps_ok [OF assms(1), of c] create_keeps_ok [of w1 c'] assms(2,4) by auto
  have in1: "(exit_name c, ProviderID (cStatus d)) \<in> exits w1" by (rule created [OF assms(1,2)])
  have keep: "exits w1 \<subseteq> exits w2" using create_keeps [OF ok1, of c'] assms(4) by simp
  have "exits w2 \<subseteq> exits w1"
  proof
    fix x assume x: "x \<in> exits w2"
    obtain n i where ni: "x = (n, i)" by fastforce
    show "x \<in> exits w1"
    proof (rule ccontr)
      assume "x \<notin> exits w1"
      with x ni assms(4) have "(n, i) \<in> exits (snd (create c' w1)) - exits w1" by simp
      then have "n = exit_name c" using create_adds [OF ok1] assms(3) by metis
      then have "i = ProviderID (cStatus d)" using one_per_name [OF ok2] in1 keep x ni by blast
      with \<open>n = exit_name c\<close> in1 ni \<open>x \<notin> exits w1\<close> show False by simp
    qed
  qed
  moreover have "(exit_name c, ProviderID (cStatus d')) \<in> exits w2"
    using created [OF ok1 assms(4)] assms(3) by simp
  ultimately show ?thesis using in1 keep one_per_name [OF ok2] by blast
qed

text \<open>After a successful \<open>Create\<close> and a successful \<open>Delete\<close> of what it returned no exit of that name is left.\<close>

lemma create_delete:
  assumes "ok w" and "create c w = (Inr d, w1)" and "ProviderID (cStatus c') = ProviderID (cStatus d)"
    and "delete c' w1 = (None, w2)"
  shows "(exit_name c, i) \<notin> exits w2"
proof -
  have ok1: "ok w1" using create_keeps_ok [OF assms(1), of c] assms(2) by simp
  have "(exit_name c, ProviderID (cStatus d)) \<in> exits w1" by (rule created [OF assms(1,2)])
  with deleted [OF ok1 _ assms(4)] valid [OF ok1] one_per_name [OF ok1] assms(3) show ?thesis by auto
qed

text \<open>
  An exit whose id was never written into the claim cannot be deleted through the claim: \<open>Delete\<close> reports
  that there is none, and the exit stays.
\<close>

lemma lost_id_leaks:
  assumes "ok w" and "create c w = (Inr d, w1)" and "ProviderID (cStatus c) = []"
  shows "\<exists>e w2. delete c w1 = (Some e, w2) \<and> IsExitNotFound e \<and>
    (exit_name c, ProviderID (cStatus d)) \<in> exits w2"
proof -
  have ok1: "ok w1" using create_keeps_ok [OF assms(1), of c] assms(2) by simp
  obtain e w2 where "delete c w1 = (Some e, w2)" "IsExitNotFound e"
    using unlaunched [OF ok1 assms(3)] by blast
  with not_deleted [OF ok1] created [OF assms(1,2)] show ?thesis by auto
qed

text \<open>However often and for whatever claims \<open>Create\<close> runs, there is one exit per name.\<close>

lemma creates_ok: "ok w \<Longrightarrow> ok (fold (\<lambda>c w. snd (create c w)) cs w)"
  by (induction cs arbitrary: w) (simp_all add: create_keeps_ok)

end

end
