(* ===== verification/GoFmt.thy ===== *)
theory GoFmt
  imports Prelude "HOL-Library.Char_ord"
begin

text \<open>
  The parts of \<open>fmt\<close>, \<open>strconv\<close> and \<open>strings\<close> that the cloud providers use to render text: \<open>%q\<close> on a
  string (with the decoding of UTF-8 that it needs), \<open>Sprintf\<close> with string arguments, and a few
  searches. A string is its bytes.
\<close>

section \<open>Searching and splitting\<close>

definition HasPrefix :: "string \<Rightarrow> string \<Rightarrow> bool" where
  "HasPrefix s p \<longleftrightarrow> strip_prefix p s \<noteq> None"

definition TrimPrefix :: "string \<Rightarrow> string \<Rightarrow> string" where
  "TrimPrefix s p = (case strip_prefix p s of None \<Rightarrow> s | Some r \<Rightarrow> r)"

fun Contains :: "string \<Rightarrow> string \<Rightarrow> bool" where
  "Contains [] p = (p = [])"
| "Contains (c # s) p = (HasPrefix (c # s) p \<or> Contains s p)"

text \<open>\<open>strings.SplitSeq\<close> with a one-byte separator.\<close>

fun Split1 :: "string \<Rightarrow> char \<Rightarrow> string list" where
  "Split1 [] sep = [[]]"
| "Split1 (c # s) sep =
     (if c = sep then [] # Split1 s sep
      else case Split1 s sep of [] \<Rightarrow> [[c]] | l # ls \<Rightarrow> (c # l) # ls)"

lemma strip_prefix_same [simp]: "strip_prefix p (p @ r) = Some r"
  by (induction p) auto

lemma strip_prefix_Some: "strip_prefix p s = Some r \<longleftrightarrow> s = p @ r"
  by (auto dest: strip_prefix_append)

lemma HasPrefix_iff: "HasPrefix s p \<longleftrightarrow> (\<exists>r. s = p @ r)"
  by (auto simp: HasPrefix_def strip_prefix_Some [symmetric])

lemma TrimPrefix_append [simp]: "TrimPrefix (p @ r) p = r"
  by (simp add: TrimPrefix_def)

lemma Contains_iff: "Contains s p \<longleftrightarrow> (\<exists>a b. s = a @ p @ b)"
proof (induction s)
  case (Cons c s)
  have "(\<exists>a b. c # s = a @ p @ b) \<longleftrightarrow> (\<exists>r. c # s = p @ r) \<or> (\<exists>a b. s = a @ p @ b)"
    by (metis append_Cons append_Nil append_eq_Cons_conv)
  with Cons show ?case by (simp add: HasPrefix_iff)
qed auto

lemma Split1_ne: "Split1 s sep \<noteq> []"
  by (cases s) (auto split: list.splits)

lemma Split1_append:
  "sep \<notin> set a \<Longrightarrow> Split1 (a @ sep # b) sep = a # Split1 b sep"
  by (induction a) auto

lemma Split1_none: "sep \<notin> set a \<Longrightarrow> Split1 a sep = [a]"
  by (induction a) auto

lemma Split1_lines: "l \<in> set (Split1 s sep) \<Longrightarrow> sep \<notin> set l"
proof (induction s sep arbitrary: l rule: Split1.induct)
  case (2 c s sep)
  then show ?case by (auto split: if_splits list.splits)
qed simp

text \<open>Joining the pieces again gives the string back.\<close>

fun join :: "char \<Rightarrow> string list \<Rightarrow> string" where
  "join sep [] = []"
| "join sep [l] = l"
| "join sep (l # m # ls) = l @ sep # join sep (m # ls)"

lemma join_Split1 [simp]: "join sep (Split1 s sep) = s"
proof (induction s sep rule: Split1.induct)
  case (2 c s sep)
  obtain l ls where "Split1 s sep = l # ls" using Split1_ne by (cases "Split1 s sep") auto
  with 2 show ?case by (cases ls) auto
qed simp

section \<open>Quoting (\<open>%q\<close>)\<close>

text \<open>
  \<open>utf8.DecodeRuneInString\<close> on a string that is not empty: the code point and its width in bytes; an
  invalid encoding is \<open>RuneError\<close> with width 1.
\<close>

definition RuneError :: nat where
  "RuneError = 0xFFFD"

definition cont :: "nat \<Rightarrow> nat \<Rightarrow> nat list \<Rightarrow> bool" where
  "cont lo hi bs \<longleftrightarrow> (case bs of [] \<Rightarrow> False | b # bs \<Rightarrow> lo \<le> b \<and> b \<le> hi \<and> list_all (\<lambda>b. 0x80 \<le> b \<and> b \<le> 0xBF) bs)"

definition rune_value :: "nat \<Rightarrow> nat list \<Rightarrow> nat" where
  "rune_value lead bs = fold (\<lambda>b v. v * 64 + (b - 0x80)) bs lead"

definition decode_rune :: "nat list \<Rightarrow> nat \<times> nat" where
  "decode_rune bs =
     (let b = hd bs; r = tl bs;
          seq = (\<lambda>n lead lo hi. if length (take n r) = n \<and> cont lo hi (take n r)
                   then (rune_value lead (take n r), Suc n) else (RuneError, 1))
      in if b < 0x80 then (b, 1)
         else if b < 0xC2 then (RuneError, 1)
         else if b < 0xE0 then seq 1 (b - 0xC0) 0x80 0xBF
         else if b = 0xE0 then seq 2 0 0xA0 0xBF
         else if b = 0xED then seq 2 13 0x80 0x9F
         else if b < 0xF0 then seq 2 (b - 0xE0) 0x80 0xBF
         else if b = 0xF0 then seq 3 0 0x90 0xBF
         else if b < 0xF4 then seq 3 (b - 0xF0) 0x80 0xBF
         else if b = 0xF4 then seq 3 4 0x80 0x8F
         else (RuneError, 1))"

definition hex_digit :: "nat \<Rightarrow> char" where
  "hex_digit d = (if d < 10 then char_of (48 + d) else char_of (87 + d))"

fun hex :: "nat \<Rightarrow> nat \<Rightarrow> string" where
  "hex 0 n = []"
| "hex (Suc w) n = hex w (n div 16) @ [hex_digit (n mod 16)]"

abbreviation dquote :: char where "dquote \<equiv> CHR 0x22"
abbreviation backslash :: char where "backslash \<equiv> CHR 0x5C"
abbreviation newline :: char where "newline \<equiv> CHR 0x0A"

text \<open>
  \<open>strconv.appendEscapedRune\<close>. \<open>printable\<close> is \<open>strconv.IsPrint\<close> above ASCII, a table of Unicode; within
  ASCII it is the characters from space to tilde. \<open>bs\<close> are the bytes of the rune \<open>r\<close>.
\<close>

definition escaped_rune :: "(nat \<Rightarrow> bool) \<Rightarrow> nat \<Rightarrow> string \<Rightarrow> string" where
  "escaped_rune printable r bs =
     (if r = 0x22 \<or> r = 0x5C then backslash # bs
      else if (if r < 0x80 then 0x20 \<le> r \<and> r \<le> 0x7E else printable r) then bs
      else if r = 7 then [backslash, CHR ''a'']
      else if r = 8 then [backslash, CHR ''b'']
      else if r = 12 then [backslash, CHR ''f'']
      else if r = 10 then [backslash, CHR ''n'']
      else if r = 13 then [backslash, CHR ''r'']
      else if r = 9 then [backslash, CHR ''t'']
      else if r = 11 then [backslash, CHR ''v'']
      else if r < 0x20 \<or> r = 0x7F then backslash # CHR ''x'' # hex 2 r
      else if r < 0x10000 then backslash # CHR ''u'' # hex 4 r
      else backslash # CHR ''U'' # hex 8 r)"

fun quote_steps :: "nat \<Rightarrow> (nat \<Rightarrow> bool) \<Rightarrow> string \<Rightarrow> string" where
  "quote_steps 0 printable s = []"
| "quote_steps (Suc n) printable s =
     (if s = [] then []
      else let (r, w) = decode_rune (map of_char s)
           in (if w = 1 \<and> r = RuneError then backslash # CHR ''x'' # hex 2 (of_char (hd s))
               else escaped_rune printable r (take w s)) @ quote_steps n printable (drop w s))"

definition Quote :: "(nat \<Rightarrow> bool) \<Rightarrow> string \<Rightarrow> string" where
  "Quote printable s = dquote # quote_steps (length s) printable s @ [dquote]"

section \<open>\<open>Sprintf\<close> with string arguments\<close>

text \<open>
  The verbs \<open>%s\<close>, \<open>%v\<close> and \<open>%%\<close>, the notes that \<open>fmt\<close> leaves for a missing argument, another verb and
  a trailing percent sign, and the note on arguments left over. A directive with flags, a width, a
  precision, an argument index or a verb that formats a string otherwise is left to \<open>fancy\<close>, which
  renders the rest of the template.
\<close>

definition flag_char :: "char \<Rightarrow> bool" where
  "flag_char c \<longleftrightarrow> c \<in> set ''+-# 0123456789.*[qxXT'' \<or> 0x80 \<le> (of_char c :: nat)"

fun extra_args :: "string list \<Rightarrow> string" where
  "extra_args [] = []"
| "extra_args [a] = ''string='' @ a"
| "extra_args (a # b # as) = ''string='' @ a @ '', '' @ extra_args (b # as)"

fun Sprintf :: "(string \<Rightarrow> string list \<Rightarrow> string) \<Rightarrow> string \<Rightarrow> string list \<Rightarrow> string" where
  "Sprintf fancy [] args = (if args = [] then [] else ''%!(EXTRA '' @ extra_args args @ '')'')"
| "Sprintf fancy [c] args =
     (if c = CHR ''%'' then ''%!(NOVERB)'' else [c]) @ Sprintf fancy [] args"
| "Sprintf fancy (c # d # s) args =
     (if c \<noteq> CHR ''%'' then c # Sprintf fancy (d # s) args
      else if flag_char d then fancy (c # d # s) args
      else if d = CHR ''%'' then CHR ''%'' # Sprintf fancy s args
      else case args of
             [] \<Rightarrow> ''%!'' @ d # ''(MISSING)'' @ Sprintf fancy s []
           | a # as \<Rightarrow>
               (if d = CHR ''s'' \<or> d = CHR ''v'' then a else ''%!'' @ d # ''(string='' @ a @ '')'')
               @ Sprintf fancy s as)"

lemma Sprintf_plain: "CHR ''%'' \<notin> set a \<Longrightarrow> Sprintf fancy a [] = a"
proof (induction a)
  case (Cons c a)
  then show ?case by (cases a) auto
qed simp

lemma Sprintf_string:
  "CHR ''%'' \<notin> set a \<Longrightarrow> Sprintf fancy (a @ ''%s'' @ b) (x # xs) = a @ x @ Sprintf fancy b xs"
proof (induction a)
  case Nil
  then show ?case by (simp add: flag_char_def)
next
  case (Cons c a)
  then show ?case by (cases a) auto
qed

text \<open>A template without a slot shows its argument as a leftover.\<close>

lemma Sprintf_leftover:
  "CHR ''%'' \<notin> set a \<Longrightarrow> xs \<noteq> [] \<Longrightarrow> Sprintf fancy a xs = a @ ''%!(EXTRA '' @ extra_args xs @ '')''"
proof (induction a)
  case (Cons c a)
  then show ?case by (cases a) auto
qed simp

section \<open>Reading a quoted string back\<close>

text \<open>
  A reader of basic strings as TOML and YAML define them, for the escapes of quotes and backslashes:
  what the string denotes and what follows the closing quote.
\<close>

fun read_quoted :: "string \<Rightarrow> (string \<times> string) option" where
  "read_quoted [] = None"
| "read_quoted [c] = (if c = dquote then Some ([], []) else None)"
| "read_quoted (c # d # s) =
     (if c = dquote then Some ([], d # s)
      else if c = backslash then
        (if d = dquote \<or> d = backslash then map_option (map_prod (Cons d) id) (read_quoted s) else None)
      else map_option (map_prod (Cons c) id) (read_quoted (d # s)))"

definition visible :: "char \<Rightarrow> bool" where
  "visible c \<longleftrightarrow> 0x20 \<le> (of_char c :: nat) \<and> (of_char c :: nat) \<le> 0x7E"

lemma quote_steps_visible:
  "list_all visible s \<Longrightarrow> length s \<le> n \<Longrightarrow>
     quote_steps n printable s = concat (map (\<lambda>c. if c = dquote \<or> c = backslash then [backslash, c] else [c]) s)"
proof (induction s arbitrary: n)
  case Nil
  then show ?case by (cases n) auto
next
  case (Cons c s)
  then obtain m where n: "n = Suc m" by (cases n) auto
  have v: "0x20 \<le> (of_char c :: nat)" "(of_char c :: nat) \<le> 0x7E" using Cons.prems(1) by (auto simp: visible_def)
  have q: "(of_char c :: nat) = 0x22 \<longleftrightarrow> c = dquote" "(of_char c :: nat) = 0x5C \<longleftrightarrow> c = backslash"
    by (auto simp: of_char_eq_iff [symmetric, where ?'a = nat] simp del: of_char_eq_iff)
  have "decode_rune (map of_char (c # s)) = (of_char c, 1)"
    using v by (simp add: decode_rune_def Let_def)
  with v q Cons n show ?case
    by (simp add: escaped_rune_def RuneError_def)
qed

lemma read_quoted_body:
  "list_all visible s \<Longrightarrow>
     read_quoted (concat (map (\<lambda>c. if c = dquote \<or> c = backslash then [backslash, c] else [c]) s) @ dquote # r) =
       Some (s, r)"
proof (induction s)
  case Nil
  then show ?case by (cases r) auto
next
  case (Cons c s)
  let ?f = "concat (map (\<lambda>c. if c = dquote \<or> c = backslash then [backslash, c] else [c]) s) @ dquote # r"
  obtain d t where "?f = d # t" by (cases ?f) auto
  with Cons show ?case by auto
qed

lemma read_Quote:
  "list_all visible s \<Longrightarrow> read_quoted (tl (Quote printable s @ r)) = Some (s, r)"
  by (simp add: Quote_def quote_steps_visible read_quoted_body)

text \<open>Whatever the bytes, a quoted string is one line.\<close>

lemma hex_digit_visible: "d < 16 \<Longrightarrow> hex_digit d \<noteq> newline"
  by (auto simp: hex_digit_def dest!: arg_cong [where f = "of_char :: char \<Rightarrow> nat"])

lemma hex_one_line: "newline \<notin> set (hex w n)"
  by (induction w arbitrary: n) (auto simp: hex_digit_visible dest: sym)

lemma decode_rune_bytes:
  assumes "decode_rune bs = (r, w)" and "bs \<noteq> []"
  shows "w = 1 \<and> (r = hd bs \<or> r = RuneError) \<or> w \<noteq> 1 \<and> 1 \<le> w \<and> list_all (\<lambda>b. 0x80 \<le> b) (take w bs)"
proof -
  obtain b t where bs: "bs = b # t" using assms(2) by (cases bs) auto
  have c: "cont lo hi l \<Longrightarrow> 0x80 \<le> lo \<Longrightarrow> list_all (\<lambda>b. 0x80 \<le> b) l" for lo hi l
    by (auto simp: cont_def list_all_iff split: list.splits)
  show ?thesis
    using assms(1) unfolding bs decode_rune_def Let_def
    by (auto split: if_splits dest!: c simp: le_less_trans)
qed

lemma newline_code: "(of_char c :: nat) = 10 \<longleftrightarrow> c = newline"
  by (auto simp: of_char_eq_iff [symmetric, where ?'a = nat] simp del: of_char_eq_iff)

lemma quote_steps_one_line: "newline \<notin> set (quote_steps n printable s)"
proof (induction n printable s rule: quote_steps.induct)
  case (2 n printable s)
  show ?case
  proof (cases "s = []")
    case False
    obtain r w where d: "decode_rune (map of_char s) = (r, w)" by fastforce
    have here: "newline \<notin> set (escaped_rune printable r (take w s))"
      if "\<not> (w = 1 \<and> r = RuneError)"
    proof -
      have "r = 10 \<or> newline \<notin> set (take w s)"
      proof (cases "w = 1")
        case True
        with that decode_rune_bytes [OF d] False have "r = of_char (hd s)" by (simp add: hd_map)
        with True False show ?thesis by (cases s) (auto simp: newline_code)
      next
        case w: False
        with decode_rune_bytes [OF d] False have "list_all (\<lambda>c. 0x80 \<le> (of_char c :: nat)) (take w s)"
          by (auto simp: take_map list.pred_map comp_def)
        then show ?thesis by (auto simp: list_all_iff)
      qed
      then show ?thesis by (auto simp: escaped_rune_def hex_one_line)
    qed
    from 2 [OF False d [symmetric] refl] here d False show ?thesis
      by (auto simp: hex_one_line)
  qed simp
qed simp

lemma Quote_one_line: "newline \<notin> set (Quote printable s)"
  by (simp add: Quote_def quote_steps_one_line)

end
