(* ===== verification/Frps.thy ===== *)
theory Frps
  imports GoFmt Ports Kube
begin

text \<open>
  \<open>pkg/cloudprovider/frps\<close>: the configuration file of an exit (\<open>config.go\<close>) and the client of its
  admin API (\<open>admin\<close>). Text is rendered with \<open>GoFmt\<close>; a reader of the file's lines states what the
  daemon finds in it.
\<close>

section \<open>config.go\<close>

text \<open>The lines of the inline table that \<open>writeAllowPorts\<close> renders; \<open>IndexByte(p, '-') > 0\<close>.\<close>

definition port_line :: "string \<Rightarrow> string" where
  "port_line p =
     (case Cut p CHR ''-'' of
        Some (lo, hi) \<Rightarrow>
          if lo \<noteq> [] then ''  { start = '' @ TrimSpace lo @ '', end = '' @ TrimSpace hi @ '' },'' @ [newline]
          else ''  { single = '' @ TrimSpace p @ '' },'' @ [newline]
      | None \<Rightarrow> ''  { single = '' @ TrimSpace p @ '' },'' @ [newline])"

definition writeAllowPorts :: "string list \<Rightarrow> string" where
  "writeAllowPorts allow =
     (if allow = [] then [] else ''allowPorts = ['' @ newline # concat (map port_line allow) @ '']'' @ [newline])"

text \<open>\<open>key = %d\<close> and \<open>key = %q\<close> with the newline.\<close>

definition int_line :: "string \<Rightarrow> int \<Rightarrow> string" where
  "int_line key n = key @ '' = '' @ Itoa n @ [newline]"

definition quoted_line :: "(nat \<Rightarrow> bool) \<Rightarrow> string \<Rightarrow> string \<Rightarrow> string" where
  "quoted_line printable key s = key @ '' = '' @ Quote printable s @ [newline]"

text \<open>\<open>key = "s"\<close>, written as it stands.\<close>

definition in_quotes :: "string \<Rightarrow> string" where
  "in_quotes s = dquote # s @ [dquote]"

definition verbatim_line :: "string \<Rightarrow> string \<Rightarrow> string" where
  "verbatim_line key s = key @ '' = '' @ in_quotes s @ [newline]"

definition port_option_line :: "string \<Rightarrow> int option \<Rightarrow> string" where
  "port_option_line key p = (case p of None \<Rightarrow> [] | Some n \<Rightarrow> int_line key n)"

definition bind_port :: "FrpsConfig \<Rightarrow> int" where
  "bind_port cfg = (if BindPort cfg = 0 then 7000 else BindPort cfg)"

text \<open>The argument \<open>printable\<close> is the Unicode table behind \<open>%q\<close>; an error is its text.\<close>

definition RenderConfig :: "(nat \<Rightarrow> bool) \<Rightarrow> FrpsConfig \<Rightarrow> string \<Rightarrow> string + string" where
  "RenderConfig printable cfg authToken =
     (let top = quoted_line printable ''bindAddr'' ''0.0.0.0'' @
            int_line ''bindPort'' (bind_port cfg) @
            port_option_line ''vhostHTTPPort'' (VhostHTTPPort cfg) @
            port_option_line ''vhostHTTPSPort'' (VhostHTTPSPort cfg) @
            port_option_line ''kcpBindPort'' (KCPBindPort cfg) @
            port_option_line ''quicBindPort'' (QUICBindPort cfg) @
            writeAllowPorts (AllowPorts cfg);
          webServer = (if AdminPort cfg = 0 then []
            else newline # ''[webServer]'' @ newline # quoted_line printable ''addr'' ''0.0.0.0'' @
                 int_line ''port'' (AdminPort cfg));
          tls = (case TLS cfg of
              None \<Rightarrow> []
            | Some t \<Rightarrow> if Force t then newline # ''[transport.tls]'' @ newline # ''force = true'' @ [newline] else []);
          logs = newline # ''[log]'' @ newline # verbatim_line ''to'' ''console'' @
            verbatim_line ''level'' ''info''
      in if AuthMethod (Auth cfg) = ''token'' \<or> AuthMethod (Auth cfg) = [] then
           Inr (top @ webServer @ newline # ''[auth]'' @ newline # verbatim_line ''method'' ''token'' @
             quoted_line printable ''token'' authToken @ tls @ logs)
         else Inl (''unsupported auth method '' @ Quote printable (AuthMethod (Auth cfg))))"

section \<open>The admin client\<close>

text \<open>
  The answer to a request: an error of the transport, or a status code with the decoded body (or the
  decoder's error).
\<close>

definition admin_get :: "string \<Rightarrow> string + int \<times> (string + 'a) \<Rightarrow> string + 'a" where
  "admin_get path answer =
     (case answer of
        Inl err \<Rightarrow> Inl err
      | Inr (status, body) \<Rightarrow>
          if status \<noteq> 200 then Inl (''admin '' @ path @ '': HTTP '' @ Itoa status) else body)"

definition admin_GetServerInfo :: "string + int \<times> (string + ServerInfo) \<Rightarrow> string + ServerInfo option" where
  "admin_GetServerInfo answer = map_sum id Some (admin_get ''/api/serverinfo'' answer)"

record Proxy =
  pxName :: string
  pxType :: string
  pxRemotePort :: int

definition ListProxies :: "string + int \<times> (string + Proxy list) \<Rightarrow> string + Proxy list" where
  "ListProxies answer = admin_get ''/api/proxy/tcp'' answer"

section \<open>Reading the file\<close>

text \<open>
  The value that the daemon finds for a key of a section: the first line \<open>key = value\<close> after the
  header of the section (at the top: before any header).
\<close>

definition header :: "string \<Rightarrow> string option" where
  "header l = (if l \<noteq> [] \<and> hd l = CHR ''['' then Some (butlast (tl l)) else None)"

fun toml_lookup :: "string \<Rightarrow> string \<Rightarrow> string \<Rightarrow> string list \<Rightarrow> string option" where
  "toml_lookup sect key cur [] = None"
| "toml_lookup sect key cur (l # ls) =
     (case header l of
        Some s \<Rightarrow> toml_lookup sect key s ls
      | None \<Rightarrow>
          if cur = sect \<and> HasPrefix l (key @ '' = '') then Some (TrimPrefix l (key @ '' = ''))
          else toml_lookup sect key cur ls)"

definition toml_get :: "string \<Rightarrow> string \<Rightarrow> string \<Rightarrow> string option" where
  "toml_get sect key body = toml_lookup sect key [] (Split1 body newline)"

text \<open>The text is a list of lines, each ended by a newline.\<close>

definition unlines :: "string list \<Rightarrow> string" where
  "unlines ls = concat (map (\<lambda>l. l @ [newline]) ls)"

lemma unlines_simps [simp]:
  "unlines [] = []" "unlines (l # ls) = l @ newline # unlines ls" "unlines (xs @ ys) = unlines xs @ unlines ys"
  by (simp_all add: unlines_def)

lemma Split1_unlines:
  "list_all (\<lambda>l. newline \<notin> set l) ls \<Longrightarrow> Split1 (unlines ls) newline = ls @ [[]]"
  by (induction ls) (auto simp: Split1_append)

text \<open>A file in which no value contains a newline, as a list of lines.\<close>

definition port_entry :: "string \<Rightarrow> string" where
  "port_entry p = butlast (port_line p)"

definition option_lines :: "string \<Rightarrow> int option \<Rightarrow> string list" where
  "option_lines key p = (case p of None \<Rightarrow> [] | Some n \<Rightarrow> [key @ '' = '' @ Itoa n])"

definition config_lines :: "(nat \<Rightarrow> bool) \<Rightarrow> FrpsConfig \<Rightarrow> string \<Rightarrow> string list" where
  "config_lines printable cfg tok =
     [''bindAddr = '' @ Quote printable ''0.0.0.0'', ''bindPort = '' @ Itoa (bind_port cfg)] @
     option_lines ''vhostHTTPPort'' (VhostHTTPPort cfg) @ option_lines ''vhostHTTPSPort'' (VhostHTTPSPort cfg) @
     option_lines ''kcpBindPort'' (KCPBindPort cfg) @ option_lines ''quicBindPort'' (QUICBindPort cfg) @
     (if AllowPorts cfg = [] then [] else ''allowPorts = ['' # map port_entry (AllowPorts cfg) @ ['']'']) @
     (if AdminPort cfg = 0 then []
      else [[], ''[webServer]'', ''addr = '' @ Quote printable ''0.0.0.0'', ''port = '' @ Itoa (AdminPort cfg)]) @
     [[], ''[auth]'', ''method = '' @ in_quotes ''token'', ''token = '' @ Quote printable tok] @
     (case TLS cfg of None \<Rightarrow> [] | Some t \<Rightarrow> if Force t then [[], ''[transport.tls]'', ''force = true''] else []) @
     [[], ''[log]'', ''to = '' @ in_quotes ''console'', ''level = '' @ in_quotes ''info'']"

lemma port_line_entry: "port_line p = port_entry p @ [newline]"
  by (auto simp: port_entry_def port_line_def butlast_append split: option.splits)

lemma unlines_map_entry: "unlines (map port_entry ps) = concat (map port_line ps)"
  by (induction ps) (simp_all add: port_line_entry)

lemma unlines_option: "unlines (option_lines key p) = port_option_line key p"
  by (simp add: option_lines_def port_option_line_def int_line_def split: option.splits)

lemma RenderConfig_lines:
  assumes "AuthMethod (Auth cfg) = ''token'' \<or> AuthMethod (Auth cfg) = []"
  shows "RenderConfig printable cfg tok = Inr (unlines (config_lines printable cfg tok))"
  using assms
  by (simp add: RenderConfig_def config_lines_def Let_def unlines_option unlines_map_entry quoted_line_def
      verbatim_line_def int_line_def writeAllowPorts_def split: option.splits)

end
