(* ===== verification/DigitalOcean.thy ===== *)
theory DigitalOcean
  imports CloudContract Frps
begin

text \<open>
  \<open>pkg/cloudprovider/digitalocean\<close>: exits as droplets. The DigitalOcean API behind \<open>godo\<close>, the API
  server and the two token resolvers are the environment.
\<close>

section \<open>instancetype.go\<close>

definition SupportedRegions :: "string list" where
  "SupportedRegions = [''nyc1'', ''nyc3'', ''sfo2'', ''sfo3'', ''ams3'', ''fra1'', ''lon1'', ''sgp1'',
     ''tor1'', ''blr1'', ''syd1'']"

record sizeSpec =
  szSlug :: string
  szCPU :: int
  szMem :: int
  szBwMbps :: int
  szPriceHr :: rat

definition sizeCatalog :: "sizeSpec list" where
  "sizeCatalog =
     [\<lparr>szSlug = ''s-1vcpu-1gb'', szCPU = units 1, szMem = Gi 1, szBwMbps = units 1000, szPriceHr = 744 / 100000\<rparr>,
      \<lparr>szSlug = ''s-2vcpu-2gb'', szCPU = units 2, szMem = Gi 2, szBwMbps = units 2000, szPriceHr = 1786 / 100000\<rparr>,
      \<lparr>szSlug = ''s-2vcpu-4gb'', szCPU = units 2, szMem = Gi 4, szBwMbps = units 4000, szPriceHr = 2976 / 100000\<rparr>]"

definition requirement_in :: "string \<Rightarrow> string \<Rightarrow> Requirement" where
  "requirement_in key v = \<lparr>Key = key, Operator = OpIn, Values = [v], MinValues = None\<rparr>"

definition instanceTypeFor :: "sizeSpec \<Rightarrow> string list \<Rightarrow> InstanceType" where
  "instanceTypeFor s regions =
     \<lparr>itName = szSlug s,
      itRequirements = [requirement_in RequirementInstanceType (szSlug s)],
      itOfferings = map (\<lambda>r. \<lparr>ofRequirements = [requirement_in RequirementRegion r,
          requirement_in RequirementInstanceType (szSlug s)], Price = szPriceHr s, ofAvailable = True\<rparr>) regions,
      itCapacity = [(''cpu'', szCPU s), (''memory'', szMem s), (ResourceBandwidthMbps, szBwMbps s)],
      itOverhead = [(''cpu'', 100000000), (''memory'', Mi 128)]\<rparr>"

definition do_InstanceTypes :: "InstanceType list" where
  "do_InstanceTypes = map (\<lambda>s. instanceTypeFor s SupportedRegions) sizeCatalog"

section \<open>cloudinit.go\<close>

definition defaultBinaryURLTemplate :: string where
  "defaultBinaryURLTemplate =
     ''https://github.com/fatedier/frp/releases/download/%s/frp_%s_linux_amd64.tar.gz''"

definition binaryURL :: "(string \<Rightarrow> string list \<Rightarrow> string) \<Rightarrow> string \<Rightarrow> string \<Rightarrow> string" where
  "binaryURL fancy template version =
     (let tpl = (if \<not> HasPrefix template ''http://'' \<and> \<not> HasPrefix template ''https://''
                 then defaultBinaryURLTemplate else template);
          verNoV = TrimPrefix version ''v''
      in Sprintf fancy tpl [version, verNoV])"

definition frps_file_lines :: "string list" where
  "frps_file_lines = [''#cloud-config'', ''write_files:'', ''  - path: /etc/frp/frps.toml'',
     ''    permissions: '' @ CHR 0x27 # ''0600'' @ [CHR 0x27], ''    owner: root:root'', ''    content: |'']"

definition unit_file_lines :: "string list" where
  "unit_file_lines = [''  - path: /etc/systemd/system/frps.service'',
     ''    permissions: '' @ CHR 0x27 # ''0644'' @ [CHR 0x27], ''    owner: root:root'', ''    content: |'',
     ''      [Unit]'', ''      Description=frps'', ''      After=network.target'', ''      [Service]'',
     ''      Type=simple'', ''      ExecStart=/usr/local/bin/frps -c /etc/frp/frps.toml'',
     ''      Restart=on-failure'', ''      [Install]'', ''      WantedBy=multi-user.target'']"

definition runcmd_lines :: "string \<Rightarrow> string list" where
  "runcmd_lines quotedURL = [''runcmd:'', ''  - mkdir -p /opt/frp'',
     ''  - curl -fsSL '' @ quotedURL @ '' -o /tmp/frp.tar.gz'',
     ''  - tar -xzf /tmp/frp.tar.gz -C /opt/frp --strip-components=1'',
     ''  - install -m 0755 /opt/frp/frps /usr/local/bin/frps'',
     ''  - systemctl daemon-reload'', ''  - systemctl enable --now frps.service'']"

text \<open>\<open>Fprintf(&b, "      %s\n", line)\<close>, without the newline.\<close>

definition indent :: "string \<Rightarrow> string" where
  "indent line = ''      '' @ line"

definition RenderCloudInit ::
  "(nat \<Rightarrow> bool) \<Rightarrow> (string \<Rightarrow> string list \<Rightarrow> string) \<Rightarrow> FrpsConfig \<Rightarrow> string \<Rightarrow> string \<Rightarrow> string + string" where
  "RenderCloudInit printable fancy frpsCfg authToken binaryURLTemplate =
     (case RenderConfig printable frpsCfg authToken of
        Inl err \<Rightarrow> Inl err
      | Inr body \<Rightarrow>
          let url = binaryURL fancy binaryURLTemplate (Version frpsCfg)
          in Inr (unlines (frps_file_lines @ map indent (Split1 body newline) @
               unit_file_lines @ runcmd_lines (Quote printable url))))"

section \<open>The provider class, droplets and calls\<close>

record ImageSelectorTerm =
  imgSlug :: string
  imgAlias :: string

record DigitalOceanProviderClass = ObjectMeta +
  doAPITokenSecretRef :: SecretKeyRef
  doImageSelectorTerms :: "ImageSelectorTerm list"
  doVPCUUID :: string
  doSSHKeyIDs :: "string list"
  doMonitoring :: bool
  doDefaultImage :: string

text \<open>The part of \<open>godo.Droplet\<close> and of the create request that the code uses.\<close>

record Droplet =
  drID :: int
  drName :: string
  drSize :: "string option"
  drRegion :: "string option"
  drNetworksV4 :: "(string \<times> string) list option"

record DropletCreateRequest =
  rqName :: string
  rqRegion :: string
  rqSize :: string
  rqImage :: string
  rqUserData :: string
  rqTags :: "string list"
  rqVPCUUID :: string
  rqMonitoring :: bool
  rqSSHKeys :: "string list"

datatype do_event =
    DGetClass string
  | DAuthToken ExitClaim
  | DAPIToken DigitalOceanProviderClass
  | DListByName string
  | DListByTag string
  | DCreate DropletCreateRequest
  | DGet int
  | DDelete int

text \<open>
  An error of the droplet API comes with the status of the response, if there was one. The last fields
  are texts of errors and the tables of \<open>fmt\<close>.
\<close>

record do_env =
  onGetClass :: "do_event list \<Rightarrow> string \<Rightarrow> apierror + DigitalOceanProviderClass"
  onAuthToken :: "do_event list \<Rightarrow> ExitClaim \<Rightarrow> string + string"
  onAPIToken :: "do_event list \<Rightarrow> DigitalOceanProviderClass \<Rightarrow> string + string"
  onListByName :: "do_event list \<Rightarrow> string \<Rightarrow> string + Droplet list"
  onListByTag :: "do_event list \<Rightarrow> string \<Rightarrow> string + Droplet list"
  onCreateDroplet :: "do_event list \<Rightarrow> DropletCreateRequest \<Rightarrow> string + Droplet"
  onGetDroplet :: "do_event list \<Rightarrow> int \<Rightarrow> string \<times> int option + Droplet"
  onDeleteDroplet :: "do_event list \<Rightarrow> int \<Rightarrow> (string \<times> int option) option"
  do_apiText :: "apierror \<Rightarrow> string"
  do_atoiText :: "string \<Rightarrow> string"
  do_urlError :: "string \<Rightarrow> string option"
  do_printable :: "nat \<Rightarrow> bool"
  do_fancy :: "string \<Rightarrow> string list \<Rightarrow> string"

type_synonym 'a do_io = "(do_event, 'a) proc"

section \<open>droplet.go\<close>

definition ManagedTag :: string where
  "ManagedTag = ''frp-operator-managed''"

definition do_providerIDPrefix :: string where
  "do_providerIDPrefix = ''do://''"

definition alnum :: "char \<Rightarrow> bool" where
  "alnum c \<longleftrightarrow> (CHR ''a'' \<le> c \<and> c \<le> CHR ''z'') \<or> (CHR ''A'' \<le> c \<and> c \<le> CHR ''Z'') \<or>
     (CHR ''0'' \<le> c \<and> c \<le> CHR ''9'')"

definition sanitizeDropletName :: "string \<Rightarrow> string" where
  "sanitizeDropletName s =
     (let out = map (\<lambda>c. if alnum c \<or> c = CHR ''.'' \<or> c = CHR ''-'' then c else CHR ''-'') s
      in if out = [] then ''frp-operator-exit'' else out)"

definition dropletNameFor :: "ExitClaim \<Rightarrow> string" where
  "dropletNameFor claim = ''frp-operator-'' @ sanitizeDropletName (Name claim)"

definition ListByName :: "do_env \<Rightarrow> string \<Rightarrow> (string + Droplet list) do_io" where
  "ListByName E name = call (DListByName name) (\<lambda>h. onListByName E h name)"

definition ListByTag :: "do_env \<Rightarrow> string \<Rightarrow> (string + Droplet list) do_io" where
  "ListByTag E tag = call (DListByTag tag) (\<lambda>h. onListByTag E h tag)"

definition CreateDroplet :: "do_env \<Rightarrow> DropletCreateRequest \<Rightarrow> (string + Droplet) do_io" where
  "CreateDroplet E req = call (DCreate req) (\<lambda>h. onCreateDroplet E h req)"

definition GetDroplet :: "do_env \<Rightarrow> int \<Rightarrow> (string \<times> int option + Droplet) do_io" where
  "GetDroplet E i = call (DGet i) (\<lambda>h. onGetDroplet E h i)"

definition DeleteDroplet :: "do_env \<Rightarrow> int \<Rightarrow> (string \<times> int option) option do_io" where
  "DeleteDroplet E i = call (DDelete i) (\<lambda>h. onDeleteDroplet E h i)"

fun named_loop :: "string \<Rightarrow> Droplet list \<Rightarrow> Droplet option" where
  "named_loop name [] = None"
| "named_loop name (d # ds) = (if drName d = name then Some d else named_loop name ds)"

definition do_findByName :: "do_env \<Rightarrow> string \<Rightarrow> (cloud_error + Droplet option) do_io" where
  "do_findByName E name =
     do { r \<leftarrow> ListByName E name;
          ret (case r of
                 Inl err \<Rightarrow> Inl (CloudOther (''list by name: '' @ err))
               | Inr droplets \<Rightarrow> Inr (named_loop name droplets)) }"

definition do_listManaged :: "do_env \<Rightarrow> (cloud_error + Droplet list) do_io" where
  "do_listManaged E =
     do { r \<leftarrow> ListByTag E ManagedTag;
          ret (case r of Inl err \<Rightarrow> Inl (CloudOther (''list by tag: '' @ err)) | Inr out \<Rightarrow> Inr out) }"

definition parseProviderID :: "do_env \<Rightarrow> string \<Rightarrow> cloud_error + int" where
  "parseProviderID E providerID =
     (let s = TrimPrefix providerID do_providerIDPrefix
      in case Atoi s of
           None \<Rightarrow> Inl (CloudOther (''parse providerID '' @ Quote (do_printable E) providerID @ '': '' @ do_atoiText E s))
         | Some i \<Rightarrow> Inr i)"

definition providerIDFor :: "int \<Rightarrow> string" where
  "providerIDFor i = do_providerIDPrefix @ Itoa i"

definition dropletGet :: "do_env \<Rightarrow> string \<Rightarrow> (cloud_error + Droplet) do_io" where
  "dropletGet E providerID =
     (case parseProviderID E providerID of
        Inl err \<Rightarrow> ret (Inl err)
      | Inr i \<Rightarrow>
          do { r \<leftarrow> GetDroplet E i;
               ret (case r of
                      Inl (err, status) \<Rightarrow>
                        if status = Some 404 then Inl (ExitNotFoundError providerID)
                        else Inl (CloudOther (''get droplet: '' @ err))
                    | Inr d \<Rightarrow> Inr d) })"

definition dropletDelete :: "do_env \<Rightarrow> string \<Rightarrow> cloud_error option do_io" where
  "dropletDelete E providerID =
     (case parseProviderID E providerID of
        Inl err \<Rightarrow> ret (Some err)
      | Inr i \<Rightarrow>
          do { r \<leftarrow> DeleteDroplet E i;
               ret (case r of
                      None \<Rightarrow> None
                    | Some (err, status) \<Rightarrow>
                        if status = Some 404 then Some (ExitNotFoundError providerID)
                        else Some (CloudOther (''delete droplet: '' @ err))) })"

fun public_loop :: "(string \<times> string) list \<Rightarrow> string" where
  "public_loop [] = []"
| "public_loop ((ty, ip) # nets) = (if ty = ''public'' then ip else public_loop nets)"

definition publicIPv4 :: "Droplet \<Rightarrow> string" where
  "publicIPv4 d = (case drNetworksV4 d of None \<Rightarrow> [] | Some nets \<Rightarrow> public_loop nets)"


section \<open>cloudprovider.go\<close>

text \<open>
  The two resolvers are fields that may be nil; if they are set, their answers are the environment's.
\<close>

record do_provider =
  doKube :: bool
  doBaseURL :: string
  doAuthTokenResolver :: bool
  doAPITokenResolver :: bool
  dropletAPIFactory :: "string \<Rightarrow> cloud_error option"

definition defaultDropletAPI :: "do_env \<Rightarrow> string \<Rightarrow> string \<Rightarrow> cloud_error option" where
  "defaultDropletAPI E baseURL token =
     (if token = [] then Some (CloudOther ''digitalocean: empty API token'')
      else if baseURL = [] then None
      else let base = (if last baseURL \<noteq> CHR ''/'' then baseURL @ ''/'' else baseURL)
           in map_option (\<lambda>err. CloudOther (''parse BaseURL: '' @ err)) (do_urlError E base))"

definition do_New :: "do_env \<Rightarrow> bool \<Rightarrow> string \<Rightarrow> do_provider" where
  "do_New E kube baseURL =
     \<lparr>doKube = kube, doBaseURL = baseURL, doAuthTokenResolver = False, doAPITokenResolver = False,
      dropletAPIFactory = defaultDropletAPI E baseURL\<rparr>"

definition do_Name :: string where
  "do_Name = ''digital-ocean''"

definition do_resolveClass ::
  "do_env \<Rightarrow> do_provider \<Rightarrow> ExitClaim \<Rightarrow> (cloud_error + DigitalOceanProviderClass) do_io" where
  "do_resolveClass E c claim =
     (let ref = ProviderClassRef (cSpec claim) in
      if refKind ref \<noteq> ''DigitalOceanProviderClass'' then
        ret (Inl (CloudOther (''digitalocean: refusing kind '' @ Quote (do_printable E) (refKind ref))))
      else if \<not> doKube c then ret (Inl (CloudOther ''digitalocean: kube client not configured''))
      else
        do { got \<leftarrow> call (DGetClass (refName ref)) (\<lambda>h. onGetClass E h (refName ref));
             ret (case got of
                    Inl err \<Rightarrow> Inl (CloudOther (''get DigitalOceanProviderClass '' @
                                 Quote (do_printable E) (refName ref) @ '': '' @ do_apiText E err))
                  | Inr pc \<Rightarrow> Inr pc) })"

definition do_apiFor ::
  "do_env \<Rightarrow> do_provider \<Rightarrow> DigitalOceanProviderClass \<Rightarrow> cloud_error option do_io" where
  "do_apiFor E c pc =
     (if doAPITokenResolver c then
        do { r \<leftarrow> call (DAPIToken pc) (\<lambda>h. onAPIToken E h pc);
             ret (case r of
                    Inl err \<Rightarrow> Some (CloudOther (''resolve DO API token: '' @ err))
                  | Inr token \<Rightarrow> dropletAPIFactory c token) }
      else ret (dropletAPIFactory c []))"

fun size_loop :: "string \<Rightarrow> InstanceType list \<Rightarrow> InstanceType option" where
  "size_loop slug [] = None"
| "size_loop slug (it # its) = (if itName it = slug then Some it else size_loop slug its)"

definition instanceTypeBySize :: "string \<Rightarrow> InstanceType option" where
  "instanceTypeBySize slug = size_loop slug do_InstanceTypes"

fun firstRequirementValue :: "Requirement list \<Rightarrow> string \<Rightarrow> string" where
  "firstRequirementValue [] key = []"
| "firstRequirementValue (r # rs) key =
     (if Key r \<noteq> key then firstRequirementValue rs key
      else if Operator r \<noteq> OpIn then firstRequirementValue rs key
      else case Values r of [] \<Rightarrow> firstRequirementValue rs key | v # _ \<Rightarrow> v)"

fun image_loop :: "ImageSelectorTerm list \<Rightarrow> string option" where
  "image_loop [] = None"
| "image_loop (t # ts) = (if imgSlug t \<noteq> [] then Some (imgSlug t) else image_loop ts)"

definition resolveImage :: "do_env \<Rightarrow> DigitalOceanProviderClass \<Rightarrow> cloud_error + string" where
  "resolveImage E pc =
     (case image_loop (doImageSelectorTerms pc) of
        Some slug \<Rightarrow> Inr slug
      | None \<Rightarrow> Inl (CloudOther (''digitalocean: providerclass '' @ Quote (do_printable E) (Name pc) @
                    '' has no image selector with slug'')))"

definition resolveSelection :: "do_env \<Rightarrow> ExitClaim \<Rightarrow> cloud_error + string \<times> string" where
  "resolveSelection E claim =
     (let sz = firstRequirementValue (Requirements (cSpec claim)) RequirementInstanceType;
          region = firstRequirementValue (Requirements (cSpec claim)) RequirementRegion;
          missing = (\<lambda>key. Inl (CloudOther (''digitalocean: claim '' @ Quote (do_printable E) (Name claim) @
                       '' has no '' @ key @ '' requirement'')))
      in if sz = [] then missing RequirementInstanceType
         else if region = [] then missing RequirementRegion
         else Inr (sz, region))"

definition do_hydrate ::
  "do_env \<Rightarrow> ExitClaim \<Rightarrow> DigitalOceanProviderClass \<Rightarrow> Droplet \<Rightarrow> ExitClaim" where
  "do_hydrate E claim pc d =
     (let st = (cStatus claim)\<lparr>ProviderID := providerIDFor (drID d), ExitName := drName d,
                 PublicIP := publicIPv4 d\<rparr>;
          st = (case resolveImage E pc of Inl _ \<Rightarrow> st | Inr img \<Rightarrow> st\<lparr>ImageID := img\<rparr>);
          st = st\<lparr>FrpsVersion := Version (Frps (cSpec claim))\<rparr>;
          slug = (case drSize d of None \<Rightarrow> [] | Some s \<Rightarrow> s);
          slug = (if slug = [] then firstRequirementValue (Requirements (cSpec claim)) RequirementInstanceType
                  else slug);
          st = (case instanceTypeBySize slug of
                  Some it \<Rightarrow> st\<lparr>Capacity := itCapacity it, Allocatable := it_Allocatable it\<rparr>
                | None \<Rightarrow> st\<lparr>Capacity := [], Allocatable := []\<rparr>)
      in claim\<lparr>cStatus := st\<rparr>)"

definition create_request ::
  "string \<Rightarrow> string \<Rightarrow> string \<Rightarrow> string \<Rightarrow> string \<Rightarrow> DigitalOceanProviderClass \<Rightarrow> DropletCreateRequest" where
  "create_request name region sz imageSlug userData pc =
     \<lparr>rqName = name, rqRegion = region, rqSize = sz, rqImage = imageSlug, rqUserData = userData,
      rqTags = [ManagedTag], rqVPCUUID = doVPCUUID pc, rqMonitoring = doMonitoring pc,
      rqSSHKeys = doSSHKeyIDs pc\<rparr>"

text \<open>The part of \<open>Create\<close> after the lookup by name.\<close>

definition launch_droplet ::
  "do_env \<Rightarrow> do_provider \<Rightarrow> ExitClaim \<Rightarrow> DigitalOceanProviderClass \<Rightarrow> (cloud_error + ExitClaim) do_io" where
  "launch_droplet E c claim pc =
     do { tok \<leftarrow> (if doAuthTokenResolver c then call (DAuthToken claim) (\<lambda>h. onAuthToken E h claim)
                  else ret (Inr []));
          case tok of
            Inl err \<Rightarrow> ret (Inl (CloudOther (''resolve auth token: '' @ err)))
          | Inr authToken \<Rightarrow>
              (case RenderCloudInit (do_printable E) (do_fancy E) (Frps (cSpec claim)) authToken
                      (doDefaultImage pc) of
                 Inl err \<Rightarrow> ret (Inl (CloudOther (''render cloud-init: '' @ err)))
               | Inr userData \<Rightarrow>
                   (case resolveImage E pc of
                      Inl err \<Rightarrow> ret (Inl err)
                    | Inr imageSlug \<Rightarrow>
                        (case resolveSelection E claim of
                           Inl err \<Rightarrow> ret (Inl err)
                         | Inr (sz, region) \<Rightarrow>
                             do { r \<leftarrow> CreateDroplet E (create_request (dropletNameFor claim) region sz
                                          imageSlug userData pc);
                                  ret (case r of
                                         Inl err \<Rightarrow> Inl (CloudOther (''create droplet: '' @ err))
                                       | Inr d \<Rightarrow> Inr (do_hydrate E claim pc d)) }))) }"

definition do_Create :: "do_env \<Rightarrow> do_provider \<Rightarrow> ExitClaim \<Rightarrow> (cloud_error + ExitClaim) do_io" where
  "do_Create E c claim =
     do { pc \<leftarrow> do_resolveClass E c claim;
          case pc of
            Inl err \<Rightarrow> ret (Inl err)
          | Inr pc \<Rightarrow>
              do { api \<leftarrow> do_apiFor E c pc;
                   case api of
                     Some err \<Rightarrow> ret (Inl err)
                   | None \<Rightarrow>
                       do { existing \<leftarrow> do_findByName E (dropletNameFor claim);
                            case existing of
                              Inl err \<Rightarrow> ret (Inl err)
                            | Inr (Some d) \<Rightarrow> ret (Inr (do_hydrate E claim pc d))
                            | Inr None \<Rightarrow> launch_droplet E c claim pc } } }"

definition do_Delete :: "do_env \<Rightarrow> do_provider \<Rightarrow> ExitClaim \<Rightarrow> cloud_error option do_io" where
  "do_Delete E c claim =
     (if ProviderID (cStatus claim) = [] then ret (Some (ExitNotFoundError []))
      else
        do { pc \<leftarrow> do_resolveClass E c claim;
             case pc of
               Inl err \<Rightarrow> ret (Some err)
             | Inr pc \<Rightarrow>
                 do { api \<leftarrow> do_apiFor E c pc;
                      case api of
                        Some err \<Rightarrow> ret (Some err)
                      | None \<Rightarrow> dropletDelete E (ProviderID (cStatus claim)) } })"

text \<open>What \<open>Get\<close> and \<open>List\<close> report of a droplet: provider id, exit name and address.\<close>

definition droplet_status :: "Droplet \<Rightarrow> string \<times> string \<times> string" where
  "droplet_status d = (providerIDFor (drID d), drName d, publicIPv4 d)"

definition do_Get :: "do_env \<Rightarrow> do_provider \<Rightarrow> string \<Rightarrow> (cloud_error + string \<times> string \<times> string) do_io" where
  "do_Get E c providerID =
     (case dropletAPIFactory c [] of
        Some err \<Rightarrow> ret (Inl err)
      | None \<Rightarrow>
          do { d \<leftarrow> dropletGet E providerID;
               ret (map_sum (\<lambda>e. e) droplet_status d) })"

definition do_List :: "do_env \<Rightarrow> do_provider \<Rightarrow> (cloud_error + (string \<times> string \<times> string) list) do_io" where
  "do_List E c =
     (case dropletAPIFactory c [] of
        Some err \<Rightarrow> ret (Inl err)
      | None \<Rightarrow>
          do { ds \<leftarrow> do_listManaged E;
               ret (map_sum (\<lambda>e. e) (map droplet_status) ds) })"

definition do_GetInstanceTypes :: "do_provider \<Rightarrow> ExitPool \<Rightarrow> string + InstanceType list" where
  "do_GetInstanceTypes c pool = Inr do_InstanceTypes"

definition drift_of :: "ExitClaim \<Rightarrow> Droplet \<Rightarrow> string" where
  "drift_of claim d =
     (let sz = firstRequirementValue (Requirements (cSpec claim)) RequirementInstanceType;
          region = firstRequirementValue (Requirements (cSpec claim)) RequirementRegion;
          differs = (\<lambda>live wanted. wanted \<noteq> [] \<and> (case live of None \<Rightarrow> False | Some s \<Rightarrow> s \<noteq> wanted))
      in if differs (drSize d) sz then ''SizeMismatch''
         else if differs (drRegion d) region then ''RegionMismatch'' else [])"

definition do_IsDrifted :: "do_env \<Rightarrow> do_provider \<Rightarrow> ExitClaim \<Rightarrow> (cloud_error + string) do_io" where
  "do_IsDrifted E c claim =
     (if ProviderID (cStatus claim) = [] then ret (Inr [])
      else
        do { pc \<leftarrow> do_resolveClass E c claim;
             case pc of
               Inl err \<Rightarrow> ret (Inl err)
             | Inr pc \<Rightarrow>
                 do { api \<leftarrow> do_apiFor E c pc;
                      case api of
                        Some err \<Rightarrow> ret (Inl err)
                      | None \<Rightarrow>
                          do { d \<leftarrow> dropletGet E (ProviderID (cStatus claim));
                               ret (case d of
                                      Inl err \<Rightarrow> if IsExitNotFound err then Inr ''Vanished'' else Inl err
                                    | Inr d \<Rightarrow> Inr (drift_of claim d)) } } })"

end
