(* ===== verification/FrpsProps.thy ===== *)
theory FrpsProps
  imports Frps Samples
begin

text \<open>
  What the frps daemon reads in a rendered configuration: the ports, the token, and the port ranges
  from which the scheduler hands out ports.
\<close>

section \<open>The file is one line per setting\<close>

lemma set_trim_steps: "set (trim_steps n ps s) \<subseteq> set s"
proof (induction n arbitrary: s)
  case (Suc n)
  have "strip_any ps s = Some r \<Longrightarrow> set r \<subseteq> set s" for r
    by (induction ps) (auto split: option.splits dest!: strip_prefix_append)
  with Suc show ?case by (fastforce split: option.splits)
qed simp

lemma set_TrimSpace: "set (TrimSpace s) \<subseteq> set s"
  unfolding TrimSpace_def Let_def set_rev
  by (rule order_trans [OF set_trim_steps]) (simp add: set_trim_steps)

lemma digit_char_visible: "d < 10 \<Longrightarrow> visible (digit_char d)"
  by (simp add: visible_def digit_char_def)

lemma nat_string_visible: "c \<in> set (nat_string n) \<Longrightarrow> visible c"
proof (induction n rule: nat_string.induct)
  case (1 n)
  then show ?case
    by (subst (asm) (2) nat_string.simps) (auto simp: digit_char_visible split: if_splits)
qed

lemma Itoa_visible: "c \<in> set (Itoa n) \<Longrightarrow> visible c"
  by (auto simp: Itoa_def nat_string_visible visible_def [of "CHR ''-''"] split: if_splits)

lemma not_visible_newline: "\<not> visible newline"
  by (simp add: visible_def)

lemma Itoa_one_line [simp]: "newline \<notin> set (Itoa n)"
  using Itoa_visible not_visible_newline by blast

lemma port_entry_one_line: "newline \<notin> set p \<Longrightarrow> newline \<notin> set (port_entry p)"
  using set_TrimSpace [of p]
  by (auto simp: port_entry_def port_line_def butlast_append split: option.splits
      dest!: Cut_Some set_TrimSpace [THEN subsetD])

lemma config_one_line:
  assumes "\<forall>p \<in> set (AllowPorts cfg). newline \<notin> set p"
  shows "list_all (\<lambda>l. newline \<notin> set l) (config_lines printable cfg tok)"
  using assms
  by (auto simp: config_lines_def list_all_iff Quote_one_line port_entry_one_line option_lines_def in_quotes_def
      split: option.splits)

lemma header_port_entry [simp]: "header (port_entry p) = None"
  by (auto simp: port_entry_def port_line_def header_def butlast_append split: option.splits)

section \<open>Looking up a setting\<close>

fun section_after :: "string \<Rightarrow> string list \<Rightarrow> string" where
  "section_after cur [] = cur"
| "section_after cur (l # ls) = section_after (case header l of None \<Rightarrow> cur | Some s \<Rightarrow> s) ls"

lemma toml_lookup_append:
  "toml_lookup sect key cur (xs @ ys) =
     (case toml_lookup sect key cur xs of
        Some v \<Rightarrow> Some v
      | None \<Rightarrow> toml_lookup sect key (section_after cur xs) ys)"
  by (induction xs arbitrary: cur) (auto split: option.splits)

lemma section_after_append [simp]: "section_after cur (xs @ ys) = section_after (section_after cur xs) ys"
  by (induction xs arbitrary: cur) auto

lemma section_after_entries [simp]: "section_after cur (map port_entry ps) = cur"
  by (induction ps) auto

lemma entry_prefix: "key \<noteq> [] \<Longrightarrow> hd key \<noteq> CHR '' '' \<Longrightarrow> \<not> HasPrefix (port_entry p) (key @ '' = '')"
  by (cases key) (auto simp: port_entry_def port_line_def HasPrefix_def butlast_append split: option.splits)

lemma toml_lookup_entries [simp]:
  "key \<noteq> [] \<Longrightarrow> hd key \<noteq> CHR '' '' \<Longrightarrow> toml_lookup sect key cur (map port_entry ps) = None"
  by (induction ps) (auto simp: entry_prefix)

lemma section_after_option [simp]:
  "key \<noteq> [] \<Longrightarrow> hd key \<noteq> CHR ''['' \<Longrightarrow> section_after cur (option_lines key p) = cur"
  by (cases key) (auto simp: option_lines_def header_def split: option.splits)

lemma toml_lookup_other_section [simp]:
  "sect \<noteq> cur \<Longrightarrow> key' \<noteq> [] \<Longrightarrow> hd key' \<noteq> CHR ''['' \<Longrightarrow>
     toml_lookup sect key cur (option_lines key' p) = None"
  by (cases key') (auto simp: option_lines_def header_def split: option.splits)

lemmas toml_eval = toml_get_def toml_lookup_append header_def HasPrefix_def TrimPrefix_def

lemma lookup_bindPort: "toml_lookup [] ''bindPort'' [] (config_lines printable cfg tok @ [[]]) = Some (Itoa (bind_port cfg))"
  by (simp add: config_lines_def toml_eval)

lemma lookup_admin: "toml_lookup ''webServer'' ''port'' [] (config_lines printable cfg tok @ [[]]) =
    (if AdminPort cfg = 0 then None else Some (Itoa (AdminPort cfg)))"
  by (simp add: config_lines_def toml_eval in_quotes_def split: option.splits)

lemma lookup_token: "toml_lookup ''auth'' ''token'' [] (config_lines printable cfg tok @ [[]]) = Some (Quote printable tok)"
  by (simp add: config_lines_def toml_eval in_quotes_def split: option.splits)


lemma toml_get_config:
  assumes "RenderConfig printable cfg tok = Inr body" and "\<forall>p \<in> set (AllowPorts cfg). newline \<notin> set p"
  shows "toml_get sect key body = toml_lookup sect key [] (config_lines printable cfg tok @ [[]])"
proof -
  have "body = unlines (config_lines printable cfg tok)"
    using assms(1) RenderConfig_lines [of cfg printable tok]
    by (auto simp: RenderConfig_def Let_def split: if_splits)
  then show ?thesis
    by (simp add: toml_get_def Split1_unlines [OF config_one_line [OF assms(2)]])
qed



section \<open>The port ranges\<close>

text \<open>The line \<open>l\<close> of the file lets frps open port \<open>x\<close>.\<close>

definition line_admits :: "string \<Rightarrow> int \<Rightarrow> bool" where
  "line_admits l x \<longleftrightarrow>
     (\<exists>a b lo hi. l = ''  { start = '' @ a @ '', end = '' @ b @ '' },'' \<and> Atoi a = Some lo \<and> Atoi b = Some hi \<and>
        x \<in> int32 ` {lo..hi}) \<or>
     (\<exists>a n. l = ''  { single = '' @ a @ '' },'' \<and> Atoi a = Some n \<and> x = int32 n)"

lemma TrimSpace_Nil [simp]: "TrimSpace [] = []"
  by (simp add: TrimSpace_def)

lemma spec_ports_rendered:
  assumes "TrimSpace p = p" and "x \<in> spec_ports p"
  shows "line_admits (port_entry p) x"
proof (cases "Cut p CHR ''-''")
  case None
  with assms show ?thesis
    by (auto simp: spec_ports_def port_entry_def port_line_def butlast_append line_admits_def split: option.splits)
next
  case (Some ab)
  obtain a b where ab: "ab = (a, b)" by fastforce
  obtain lo hi where "Atoi (TrimSpace a) = Some lo" "Atoi (TrimSpace b) = Some hi" "x \<in> int32 ` {lo..hi}"
    using assms Some ab by (auto simp: spec_ports_def split: option.splits)
  moreover from this(1) have "a \<noteq> []" by auto
  moreover from this have "port_entry p = ''  { start = '' @ TrimSpace a @ '', end = '' @ TrimSpace b @ '' },''"
    using Some ab by (simp add: port_entry_def port_line_def butlast_append)
  ultimately show ?thesis unfolding line_admits_def by blast
qed




end
