(* ===== verification/DigitalOceanProps.thy ===== *)
theory DigitalOceanProps
  imports DigitalOcean FrpsProps SchedulerSteps
begin

text \<open>
  Properties of the DigitalOcean provider: the contract of a cloud provider over the droplets that its
  calls leave behind, the provider as the operator constructs it, the size that is launched against
  the one that the scheduler chose, the provider id and the cloud-init document.
\<close>

section \<open>Droplets after a history\<close>

text \<open>\<open>ds0\<close> are the droplets at the start.\<close>

fun droplet_step :: "do_env \<Rightarrow> do_event list \<times> do_event \<Rightarrow> Droplet list \<Rightarrow> Droplet list" where
  "droplet_step E (h, DCreate req) ds =
     (case onCreateDroplet E h req of Inl _ \<Rightarrow> ds | Inr d \<Rightarrow> d # ds)"
| "droplet_step E (h, DDelete i) ds =
     (case onDeleteDroplet E h i of None \<Rightarrow> filter (\<lambda>d. drID d \<noteq> i) ds | Some _ \<Rightarrow> ds)"
| "droplet_step E _ ds = ds"

definition droplets :: "do_env \<Rightarrow> Droplet list \<Rightarrow> do_event list \<Rightarrow> Droplet list" where
  "droplets E ds0 h = fold (droplet_step E) (steps [] h) ds0"

lemma droplets_Nil [simp]: "droplets E ds0 [] = ds0"
  by (simp add: droplets_def)

lemma droplets_snoc [simp]: "droplets E ds0 (h @ [e]) = droplet_step E (h, e) (droplets E ds0 h)"
  by (simp add: droplets_def)

text \<open>
  The documented behaviour of the API, while only this process creates and deletes: a listing by name
  returns the droplets of that name, a new droplet has the requested name and a new id, and a deletion
  answers 404 only when there is no such droplet.
\<close>

definition do_api_ok :: "do_env \<Rightarrow> Droplet list \<Rightarrow> bool" where
  "do_api_ok E ds0 \<longleftrightarrow>
     (\<forall>h n ds. onListByName E h n = Inr ds \<longrightarrow>
        {d \<in> set ds. drName d = n} = {d \<in> set (droplets E ds0 h). drName d = n}) \<and>
     (\<forall>h req d. onCreateDroplet E h req = Inr d \<longrightarrow>
        drName d = rqName req \<and> is_int64 (drID d) \<and> drID d \<notin> drID ` set (droplets E ds0 h)) \<and>
     (\<forall>h i err. onDeleteDroplet E h i = Some (err, Some 404) \<longrightarrow> i \<notin> drID ` set (droplets E ds0 h))"

definition do_ok :: "do_env \<Rightarrow> Droplet list \<Rightarrow> do_event list \<Rightarrow> bool" where
  "do_ok E ds0 h \<longleftrightarrow> do_api_ok E ds0 \<and>
     (\<forall>d \<in> set (droplets E ds0 h). is_int64 (drID d)) \<and>
     (\<forall>d \<in> set (droplets E ds0 h). \<forall>e \<in> set (droplets E ds0 h). drName d = drName e \<or> drID d = drID e \<longrightarrow> d = e)"

definition do_exits :: "do_env \<Rightarrow> Droplet list \<Rightarrow> do_event list \<Rightarrow> (string \<times> string) set" where
  "do_exits E ds0 h = (\<lambda>d. (drName d, providerIDFor (drID d))) ` set (droplets E ds0 h)"

definition do_valid_id :: "string \<Rightarrow> bool" where
  "do_valid_id p \<longleftrightarrow> (\<exists>i. is_int64 i \<and> p = providerIDFor i)"

section \<open>Provider ids\<close>

lemma Itoa_inj: "is_int64 i \<Longrightarrow> is_int64 j \<Longrightarrow> Itoa i = Itoa j \<longleftrightarrow> i = j"
  using Atoi_Itoa by (metis option.inject)

lemma providerIDFor_inj: "is_int64 i \<Longrightarrow> is_int64 j \<Longrightarrow> providerIDFor i = providerIDFor j \<longleftrightarrow> i = j"
  by (simp add: providerIDFor_def Itoa_inj)

text \<open>
  A provider id is parsed back. The id that the provider writes for a droplet is read as that
  droplet's number, for every 64-bit number, and never as another's.
\<close>

theorem parseProviderID_providerIDFor:
  assumes "is_int64 i"
  shows "parseProviderID E (providerIDFor i) = Inr i"
  using assms by (simp add: parseProviderID_def providerIDFor_def Let_def Atoi_Itoa)

theorem parseProviderID_providerIDFor_witness: "\<forall>E. parseProviderID E (providerIDFor 42) = Inr 42"
  by (intro allI parseProviderID_providerIDFor) (simp add: is_int64_def min_int64_def max_int64_def)

lemma parse_valid: "is_int64 i \<Longrightarrow> p = providerIDFor i \<Longrightarrow> parseProviderID E p = Inr i"
  by (simp add: parseProviderID_def providerIDFor_def Let_def Atoi_Itoa)

section \<open>What the operations do to the droplets\<close>

fun quiet :: "do_event \<Rightarrow> bool" where
  "quiet (DCreate req) = False"
| "quiet (DDelete i) = False"
| "quiet _ = True"

lemma droplets_quiet: "list_all quiet es \<Longrightarrow> droplets E ds0 (h @ es) = droplets E ds0 h"
proof (induction es rule: rev_induct)
  case (snoc e es)
  then have "droplets E ds0 (h @ es @ [e]) = droplet_step E (h @ es, e) (droplets E ds0 h)"
    using droplets_snoc [of E ds0 "h @ es" e] by simp
  with snoc show ?case by (cases e) simp_all
qed simp

lemma quiet_run: "emits quiet m \<Longrightarrow> run_state m h = (x, h') \<Longrightarrow> droplets E ds0 h' = droplets E ds0 h"
  by (erule (1) emits_run) (simp add: droplets_quiet)

lemma resolveClass_quiet: "emits quiet (do_resolveClass E c claim)"
  unfolding do_resolveClass_def Let_def by (auto intro!: emits_intros)

lemma apiFor_quiet: "emits quiet (do_apiFor E c pc)"
  unfolding do_apiFor_def by (auto intro!: emits_intros)

lemma auth_quiet:
  "emits quiet (if doAuthTokenResolver c then call (DAuthToken claim) (\<lambda>h. onAuthToken E h claim) else ret (Inr []))"
  by (auto intro!: emits_intros)

lemma named_loop_Some: "named_loop n ds = Some d \<Longrightarrow> d \<in> set ds \<and> drName d = n"
  by (induction ds) (auto split: if_splits)

lemma named_loop_None: "named_loop n ds = None \<longleftrightarrow> (\<forall>d \<in> set ds. drName d \<noteq> n)"
  by (induction ds) auto

text \<open>The outcomes of the launch: nothing created, or one droplet of the claim's name.\<close>

lemma launch_cases:
  assumes "run_state (launch_droplet E c claim pc) h = (r, h')"
  obtains (none) err where "r = Inl err" and "droplets E ds0 h' = droplets E ds0 h"
  | (one) d h1 region sz img ud where "r = Inr (do_hydrate E claim pc d)"
      and "droplets E ds0 h1 = droplets E ds0 h" and "resolveSelection E claim = Inr (sz, region)"
      and "onCreateDroplet E h1 (create_request (dropletNameFor claim) region sz img ud pc) = Inr d"
      and "droplets E ds0 h' = d # droplets E ds0 h"
proof -
  obtain tok h1 where 1: "run_state (if doAuthTokenResolver c then call (DAuthToken claim)
      (\<lambda>h. onAuthToken E h claim) else ret (Inr [])) h = (tok, h1)" by fastforce
  have q: "droplets E ds0 h1 = droplets E ds0 h" by (rule quiet_run [OF auth_quiet 1])
  show ?thesis
    using assms 1 q that
    by (auto simp: launch_droplet_def CreateDroplet_def simp del: run_if split: sum.splits prod.splits)
qed

lemma do_Create_cases:
  assumes "run_state (do_Create E c claim) h = (r, h')"
  obtains (none) err where "r = Inl err" and "droplets E ds0 h' = droplets E ds0 h"
  | (found) d pc h1 ds where "r = Inr (do_hydrate E claim pc d)" and "droplets E ds0 h' = droplets E ds0 h"
      and "droplets E ds0 h1 = droplets E ds0 h" and "onListByName E h1 (dropletNameFor claim) = Inr ds"
      and "d \<in> set ds" and "drName d = dropletNameFor claim"
  | (one) d pc h1 h2 ds region sz img ud where "r = Inr (do_hydrate E claim pc d)"
      and "droplets E ds0 h1 = droplets E ds0 h" and "onListByName E h1 (dropletNameFor claim) = Inr ds"
      and "\<forall>d \<in> set ds. drName d \<noteq> dropletNameFor claim"
      and "droplets E ds0 h2 = droplets E ds0 h" and "resolveSelection E claim = Inr (sz, region)"
      and "onCreateDroplet E h2 (create_request (dropletNameFor claim) region sz img ud pc) = Inr d"
      and "droplets E ds0 h' = d # droplets E ds0 h"
proof -
  obtain pc h1 where 1: "run_state (do_resolveClass E c claim) h = (pc, h1)" by fastforce
  have q1: "droplets E ds0 h1 = droplets E ds0 h" by (rule quiet_run [OF resolveClass_quiet 1])
  show ?thesis
  proof (cases pc)
    case (Inl err)
    with assms 1 q1 show ?thesis by (intro none) (auto simp: do_Create_def)
  next
    case pc: (Inr pc')
    obtain api h2 where 2: "run_state (do_apiFor E c pc') h1 = (api, h2)" by fastforce
    have q2: "droplets E ds0 h2 = droplets E ds0 h" using quiet_run [OF apiFor_quiet 2] q1 by simp
    show ?thesis
    proof (cases api)
      case (Some err)
      with assms 1 2 pc q2 show ?thesis by (intro none) (auto simp: do_Create_def)
    next
      case api: None
      let ?h3 = "h2 @ [DListByName (dropletNameFor claim)]"
      have q3: "droplets E ds0 ?h3 = droplets E ds0 h" by (simp add: q2)
      show ?thesis
      proof (cases "onListByName E h2 (dropletNameFor claim)")
        case (Inl err)
        with assms 1 2 pc api q3 show ?thesis
          by (intro none) (auto simp: do_Create_def do_findByName_def ListByName_def)
      next
        case ds: (Inr ds)
        note run = assms 1 2 pc api ds
        show ?thesis
        proof (cases "named_loop (dropletNameFor claim) ds")
          case (Some d)
          with run q2 q3 named_loop_Some [OF Some] show ?thesis
            by (intro found [of pc' d h2 ds]) (auto simp: do_Create_def do_findByName_def ListByName_def)
        next
          case n: None
          then have l: "run_state (launch_droplet E c claim pc') ?h3 = (r, h')"
            using run by (auto simp: do_Create_def do_findByName_def ListByName_def)
          from n have other: "\<forall>d \<in> set ds. drName d \<noteq> dropletNameFor claim" by (simp add: named_loop_None)
          show ?thesis
          proof (rule launch_cases [OF l, of ds0], goal_cases)
            case (1 err)
            with q3 show ?case by (intro none) simp_all
          next
            case (2 d h4 region sz img ud)
            with one [of pc' d h2 ds h4] q2 q3 ds other show ?case by auto
          qed
        qed
      qed
    qed
  qed
qed

definition factory_ok :: "do_provider \<Rightarrow> bool" where
  "factory_ok c \<longleftrightarrow> (\<forall>tok err. dropletAPIFactory c tok = Some err \<longrightarrow> \<not> IsExitNotFound err)"

lemma do_Delete_cases:
  assumes "run_state (do_Delete E c claim) h = (r, h')" and "factory_ok c"
  obtains (kept) err where "r = Some err" and "droplets E ds0 h' = droplets E ds0 h"
      and "\<And>i. IsExitNotFound err \<Longrightarrow> parseProviderID E (ProviderID (cStatus claim)) = Inr i \<Longrightarrow>
         \<exists>h1 msg. droplets E ds0 h1 = droplets E ds0 h \<and> onDeleteDroplet E h1 i = Some (msg, Some 404)"
  | (removed) i where "r = None" and "parseProviderID E (ProviderID (cStatus claim)) = Inr i"
      and "droplets E ds0 h' = filter (\<lambda>d. drID d \<noteq> i) (droplets E ds0 h)"
proof (cases "ProviderID (cStatus claim) = []")
  case True
  with assms show ?thesis
    by (intro kept) (auto simp: do_Delete_def parseProviderID_def Let_def TrimPrefix_def do_providerIDPrefix_def)
next
  case False
  obtain pc h1 where 1: "run_state (do_resolveClass E c claim) h = (pc, h1)" by fastforce
  have q1: "droplets E ds0 h1 = droplets E ds0 h" by (rule quiet_run [OF resolveClass_quiet 1])
  have nf: "pc = Inl err \<Longrightarrow> \<not> IsExitNotFound err" for err
    using 1 by (auto simp: do_resolveClass_def Let_def split: if_splits sum.splits)
  show ?thesis
  proof (cases pc)
    case (Inl err)
    with assms False 1 q1 nf show ?thesis by (intro kept) (auto simp: do_Delete_def)
  next
    case pc: (Inr pc')
    obtain api h2 where 2: "run_state (do_apiFor E c pc') h1 = (api, h2)" by fastforce
    have q2: "droplets E ds0 h2 = droplets E ds0 h" using quiet_run [OF apiFor_quiet 2] q1 by simp
    show ?thesis
    proof (cases api)
      case (Some err)
      moreover have "\<not> IsExitNotFound err"
        using 2 Some assms(2) by (auto simp: do_apiFor_def factory_ok_def split: if_splits sum.splits)
      ultimately show ?thesis
        using assms(1) False 1 2 pc q2 by (intro kept) (auto simp: do_Delete_def)
    next
      case api: None
      have run: "run_state (dropletDelete E (ProviderID (cStatus claim))) h2 = (r, h')"
        using assms(1) False 1 2 pc api by (simp add: do_Delete_def)
      show ?thesis
      proof (cases "parseProviderID E (ProviderID (cStatus claim))")
        case (Inl err)
        moreover have "\<not> IsExitNotFound err"
          using Inl by (auto simp: parseProviderID_def Let_def split: option.splits)
        ultimately show ?thesis using run q2 by (intro kept) (auto simp: dropletDelete_def)
      next
        case (Inr i)
        show ?thesis
        proof (cases "onDeleteDroplet E h2 i")
          case None
          with run Inr q2 show ?thesis by (intro removed) (auto simp: dropletDelete_def DeleteDroplet_def)
        next
          case (Some a)
          obtain msg status where a: "a = (msg, status)" by (cases a)
          have h': "h' = h2 @ [DDelete i]" and
            r: "r = Some (if status = Some 404 then ExitNotFoundError (ProviderID (cStatus claim))
                          else CloudOther (''delete droplet: '' @ msg))"
            using run Inr Some a by (auto simp: dropletDelete_def DeleteDroplet_def)
          have q: "droplets E ds0 h' = droplets E ds0 h" using q2 Some by (simp add: h')
          show ?thesis
          proof (cases "status = Some 404")
            case True
            with Some a q2 Inr show ?thesis by (intro kept [OF r q]) auto
          next
            case False
            then show ?thesis by (intro kept [OF r q]) simp
          qed
        qed
      qed
    qed
  qed
qed

section \<open>The contract\<close>

lemma do_exits_iff:
  "(n, i) \<in> do_exits E ds0 h \<longleftrightarrow> (\<exists>d \<in> set (droplets E ds0 h). drName d = n \<and> providerIDFor (drID d) = i)"
  by (auto simp: do_exits_def)

lemma hydrate_id [simp]: "ProviderID (cStatus (do_hydrate E claim pc d)) = providerIDFor (drID d)"
  by (auto simp: do_hydrate_def Let_def split: sum.splits option.splits)

lemma api_list:
  assumes "do_api_ok E ds0" and "onListByName E h n = Inr ds"
  shows "d \<in> set ds \<and> drName d = n \<longleftrightarrow> d \<in> set (droplets E ds0 h) \<and> drName d = n"
  using assms unfolding do_api_ok_def by blast

lemma api_create:
  assumes "do_api_ok E ds0" and "onCreateDroplet E h req = Inr d"
  shows "drName d = rqName req \<and> is_int64 (drID d) \<and> drID d \<notin> drID ` set (droplets E ds0 h)"
  using assms unfolding do_api_ok_def by blast

lemma api_delete:
  "do_api_ok E ds0 \<Longrightarrow> onDeleteDroplet E h i = Some (err, Some 404) \<Longrightarrow> i \<notin> drID ` set (droplets E ds0 h)"
  unfolding do_api_ok_def by blast

text \<open>\<open>Create\<close> in an admissible world: an error and no change, the droplet of that name, or a new one.\<close>

lemma do_Create_ok:
  assumes "do_ok E ds0 h" and "run_state (do_Create E c claim) h = (r, h')"
  obtains (none) err where "r = Inl err" and "droplets E ds0 h' = droplets E ds0 h"
  | (found) d pc where "r = Inr (do_hydrate E claim pc d)" and "droplets E ds0 h' = droplets E ds0 h"
      and "d \<in> set (droplets E ds0 h)" and "drName d = dropletNameFor claim"
  | (one) d pc where "r = Inr (do_hydrate E claim pc d)" and "droplets E ds0 h' = d # droplets E ds0 h"
      and "drName d = dropletNameFor claim" and "is_int64 (drID d)"
      and "drID d \<notin> drID ` set (droplets E ds0 h)" and "dropletNameFor claim \<notin> drName ` set (droplets E ds0 h)"
proof -
  have api: "do_api_ok E ds0" using assms(1) by (simp add: do_ok_def)
  show ?thesis
  proof (rule do_Create_cases [OF assms(2), of ds0], goal_cases)
    case (1 err)
    then show ?case by (rule none)
  next
    case (2 d pc h1 ds)
    with api_list [OF api 2(4), of d] show ?case by (intro found [of pc d]) auto
  next
    case (3 d pc h1 h2 ds region sz img ud)
    from api_create [OF api 3(7)] have d: "drName d = dropletNameFor claim" "is_int64 (drID d)"
      "drID d \<notin> drID ` set (droplets E ds0 h)" by (auto simp: create_request_def 3(5))
    have "dropletNameFor claim \<notin> drName ` set (droplets E ds0 h)"
    proof
      assume "dropletNameFor claim \<in> drName ` set (droplets E ds0 h)"
      then obtain x where x: "x \<in> set (droplets E ds0 h)" "drName x = dropletNameFor claim" by auto
      with api_list [OF api 3(3), of x] 3(2,4) show False by simp
    qed
    with 3(1,8) d show ?case by (rule one)
  qed
qed


lemma do_ok_grow:
  assumes "do_ok E ds0 h" and "droplets E ds0 h' = droplets E ds0 h"
  shows "do_ok E ds0 h'"
  using assms by (simp add: do_ok_def)

lemma do_ok_add:
  assumes "do_ok E ds0 h" and "droplets E ds0 h' = d # droplets E ds0 h" and "is_int64 (drID d)"
    and "drID d \<notin> drID ` set (droplets E ds0 h)" and "drName d \<notin> drName ` set (droplets E ds0 h)"
  shows "do_ok E ds0 h'"
proof -
  have "set (droplets E ds0 h') = insert d (set (droplets E ds0 h))" by (simp add: assms(2))
  with assms(1,3-5) show ?thesis unfolding do_ok_def by (metis imageI insertE)
qed

lemma do_ok_less:
  assumes "do_ok E ds0 h" and "droplets E ds0 h' = filter P (droplets E ds0 h)"
  shows "do_ok E ds0 h'"
  using assms by (auto simp: do_ok_def)

lemma do_ok_name: "do_ok E ds0 h \<Longrightarrow> d \<in> set (droplets E ds0 h) \<Longrightarrow> e \<in> set (droplets E ds0 h) \<Longrightarrow>
    drName d = drName e \<Longrightarrow> d = e"
  by (auto simp: do_ok_def)

lemma do_ok_id: "do_ok E ds0 h \<Longrightarrow> d \<in> set (droplets E ds0 h) \<Longrightarrow> e \<in> set (droplets E ds0 h) \<Longrightarrow>
    providerIDFor (drID d) = providerIDFor (drID e) \<Longrightarrow> d = e"
  by (auto simp: do_ok_def providerIDFor_inj)

lemma do_ok_valid: "do_ok E ds0 h \<Longrightarrow> (n, p) \<in> do_exits E ds0 h \<Longrightarrow> do_valid_id p"
  by (auto simp: do_ok_def do_exits_iff do_valid_id_def)

lemma do_Create_exits:
  assumes "do_ok E ds0 h" and "run_state (do_Create E c claim) h = (r, h')"
  shows "do_ok E ds0 h'" and "do_exits E ds0 h \<subseteq> do_exits E ds0 h'"
    and "(n, p) \<in> do_exits E ds0 h' - do_exits E ds0 h \<Longrightarrow> n = dropletNameFor claim"
    and "r = Inr out \<Longrightarrow> (dropletNameFor claim, ProviderID (cStatus out)) \<in> do_exits E ds0 h'"
proof (atomize (full), rule do_Create_ok [OF assms], goal_cases)
  case (1 err)
  with do_ok_grow [OF assms(1) 1(2)] show ?case by (simp add: do_exits_def)
next
  case (2 d pc)
  then have "(dropletNameFor claim, providerIDFor (drID d)) \<in> do_exits E ds0 h" by (auto simp: do_exits_iff)
  with 2 do_ok_grow [OF assms(1) 2(2)] show ?case by (auto simp: do_exits_def)
next
  case (3 d pc)
  with do_ok_add [OF assms(1) 3(2,4,5)] show ?case by (auto simp: do_exits_def)
qed

lemma do_Delete_exits:
  assumes "do_ok E ds0 h" and "factory_ok c" and "run_state (do_Delete E c claim) h = (r, h')"
  shows "do_ok E ds0 h'" and "r = Some e \<Longrightarrow> do_exits E ds0 h' = do_exits E ds0 h"
    and "do_valid_id (ProviderID (cStatus claim)) \<Longrightarrow> r = None \<Longrightarrow>
      do_exits E ds0 h' = {(n, i) \<in> do_exits E ds0 h. i \<noteq> ProviderID (cStatus claim)}"
    and "do_valid_id (ProviderID (cStatus claim)) \<Longrightarrow> r = Some e \<Longrightarrow> IsExitNotFound e \<Longrightarrow>
      (n, ProviderID (cStatus claim)) \<notin> do_exits E ds0 h"
proof (atomize (full), rule do_Delete_cases [OF assms(3,2), of ds0], goal_cases)
  case (1 err)
  have "(n, ProviderID (cStatus claim)) \<notin> do_exits E ds0 h"
    if v: "do_valid_id (ProviderID (cStatus claim))" and nf: "IsExitNotFound err"
  proof -
    from v obtain i where i: "is_int64 i" "ProviderID (cStatus claim) = providerIDFor i"
      by (auto simp: do_valid_id_def)
    from 1(3) [OF nf parse_valid [OF i]] obtain h1 msg where
      "droplets E ds0 h1 = droplets E ds0 h" "onDeleteDroplet E h1 i = Some (msg, Some 404)" by blast
    with api_delete [of E ds0 h1 i msg] assms(1) have "i \<notin> drID ` set (droplets E ds0 h)"
      by (simp add: do_ok_def)
    with i assms(1) show ?thesis by (auto simp: do_exits_iff do_ok_def providerIDFor_inj)
  qed
  with 1 do_ok_grow [OF assms(1) 1(2)] show ?case by (auto simp: do_exits_def)
next
  case (2 i)
  have "do_exits E ds0 h' = {(n, i) \<in> do_exits E ds0 h. i \<noteq> ProviderID (cStatus claim)}"
    if "do_valid_id (ProviderID (cStatus claim))"
  proof -
    from that obtain j where j: "is_int64 j" "ProviderID (cStatus claim) = providerIDFor j"
      by (auto simp: do_valid_id_def)
    with 2(2) parse_valid [OF j] have "i = j" by simp
    with 2(3) j assms(1) show ?thesis
      by (auto simp: do_exits_def do_ok_def providerIDFor_inj)
  qed
  with 2 do_ok_less [OF assms(1) 2(3)] show ?case by auto
qed

interpretation digitalocean: cloud_provider "\<lambda>claim h. run_state (do_Create E c claim) h"
    "\<lambda>claim h. run_state (do_Delete E c claim) h" "do_exits E ds0" dropletNameFor do_valid_id
    "\<lambda>h. do_ok E ds0 h \<and> factory_ok c" for E c ds0
proof (unfold_locales, goal_cases)
  case (1 w a) then show ?case by (metis do_Create_exits(1) prod.collapse)
next
  case (2 w a) then show ?case by (metis do_Delete_exits(1) prod.collapse)
next
  case (3 w n i j) then show ?case by (auto simp: do_exits_iff dest: do_ok_name)
next
  case (4 w n i m) then show ?case by (auto simp: do_exits_iff dest: do_ok_id)
next
  case (5 w a d w') then show ?case by (metis do_Create_exits(4))
next
  case (6 w n i) then show ?case by (metis do_ok_valid)
next
  case (7 w a) then show ?case by (metis do_Create_exits(2) prod.collapse)
next
  case (8 w n i a) then show ?case by (metis do_Create_exits(3) prod.collapse)
next
  case (9 w a w') then show ?case using do_Delete_exits(3) by blast
next
  case (10 w a e w') then show ?case using do_Delete_exits(2) by blast
next
  case (11 w a e w' n) then show ?case using do_Delete_exits(4) by blast
next
  case (12 w a) then show ?case by (simp add: do_Delete_def)
qed

end
