(* ===== verification/Batcher.thy ===== *)
theory Batcher
  imports Prelude
begin

text \<open>
  \<open>pkg/controllers/provisioning/batcher.go\<close>. \<open>Trigger\<close> and \<open>Drain\<close> are functions on the batcher;
  the channel of capacity one is the flag \<open>signalled\<close>. \<open>Wait\<close> blocks, so it is a step relation: one step for each
  case of its two \<open>select\<close> statements, next to the steps of the world, a \<open>Trigger\<close> by another
  goroutine and the passing of time. Time passes only while \<open>Wait\<close> has nothing to receive, which is the
  usual idealisation of a scheduler that is fast enough.
\<close>

section \<open>The batcher\<close>

record 'a Batcher =
  pending :: "'a list"
  signalled :: bool
  idleWindow :: int
  maxWindow :: int

definition DefaultBatchIdleDuration :: int where
  "DefaultBatchIdleDuration = 1 * Second"

definition DefaultBatchMaxDuration :: int where
  "DefaultBatchMaxDuration = 10 * Second"

definition NewBatcher :: "int \<Rightarrow> int \<Rightarrow> 'a Batcher" where
  "NewBatcher idleW maxW = \<lparr>pending = [], signalled = False, idleWindow = idleW, maxWindow = maxW\<rparr>"

definition Trigger :: "'a \<Rightarrow> 'a Batcher \<Rightarrow> 'a Batcher" where
  "Trigger t b = b\<lparr>pending := sput t (pending b), signalled := True\<rparr>"

text \<open>The order of the answer is the order in which the map is visited.\<close>

definition Drain :: "order \<Rightarrow> 'a Batcher \<Rightarrow> 'a list \<times> 'a Batcher" where
  "Drain ord b = (in_order ord (pending b), b\<lparr>pending := []\<rparr>)"

section \<open>Wait\<close>

text \<open>
  Where \<open>Wait\<close> stands: before the first trigger, collecting until the later of a moving and the earlier of a fixed
  moment, or returned with an answer.
\<close>

datatype wait_phase = Blocked | Collecting int int | Returned bool

text \<open>A state: the time, whether the context is cancelled, the phase and the batcher.\<close>

type_synonym 'a wait_state = "int \<times> bool \<times> wait_phase \<times> 'a Batcher"

text \<open>
  Some case of the \<open>select\<close> that \<open>Wait\<close> stands at can proceed. Once \<open>Wait\<close> has returned, its time is over.
\<close>

fun ready_now :: "'a wait_state \<Rightarrow> bool" where
  "ready_now (now, cancelled, Blocked, b) \<longleftrightarrow> cancelled \<or> signalled b"
| "ready_now (now, cancelled, Collecting deadline idleAt, b) \<longleftrightarrow>
     cancelled \<or> signalled b \<or> deadline \<le> now \<or> idleAt \<le> now"
| "ready_now (now, cancelled, Returned ok, b) \<longleftrightarrow> True"

text \<open>Time may pass up to \<open>later\<close>: no timer fires in between.\<close>

fun quiet_until :: "wait_phase \<Rightarrow> int \<Rightarrow> bool" where
  "quiet_until (Collecting deadline idleAt) later \<longleftrightarrow> later \<le> deadline \<and> later \<le> idleAt"
| "quiet_until ph later \<longleftrightarrow> True"

text \<open>The steps of \<open>Wait\<close>, of its timers and of its context.\<close>

inductive wait_own :: "'a wait_state \<Rightarrow> 'a wait_state \<Rightarrow> bool" where
  give_up: "wait_own (now, True, Blocked, b) (now, True, Returned False, b)"
| start: "signalled b \<Longrightarrow> wait_own (now, c, Blocked, b)
     (now, c, Collecting (now + maxWindow b) (now + idleWindow b), b\<lparr>signalled := False\<rparr>)"
| cut_short: "wait_own (now, True, Collecting deadline idleAt, b) (now, True, Returned True, b)"
| full: "deadline \<le> now \<Longrightarrow> wait_own (now, c, Collecting deadline idleAt, b) (now, c, Returned True, b)"
| idle: "idleAt \<le> now \<Longrightarrow> wait_own (now, c, Collecting deadline idleAt, b) (now, c, Returned True, b)"
| extend: "signalled b \<Longrightarrow> wait_own (now, c, Collecting deadline idleAt, b)
     (now, c, Collecting deadline (now + idleWindow b), b\<lparr>signalled := False\<rparr>)"
| cancel: "\<not> (\<exists>ok. ph = Returned ok) \<Longrightarrow> wait_own (now, c, ph, b) (now, True, ph, b)"
| tick: "\<not> ready_now (now, c, ph, b) \<Longrightarrow> now \<le> later \<Longrightarrow> quiet_until ph later \<Longrightarrow>
     wait_own (now, c, ph, b) (later, c, ph, b)"

text \<open>Another goroutine may call \<open>Trigger\<close> at any moment.\<close>

inductive wait_step :: "'a wait_state \<Rightarrow> 'a wait_state \<Rightarrow> bool" where
  own: "wait_own s s' \<Longrightarrow> wait_step s s'"
| trigger: "wait_step (now, c, ph, b) (now, c, ph, Trigger t b)"

abbreviation wait_runs :: "'a wait_state \<Rightarrow> 'a wait_state \<Rightarrow> bool" where
  "wait_runs \<equiv> wait_step\<^sup>*\<^sup>*"

inductive_cases wait_ownE: "wait_own s s'"
inductive_cases wait_stepE: "wait_step s s'"

section \<open>What a run keeps\<close>

text \<open>
  The batch was opened at the moment \<open>t0\<close> with the batcher \<open>b0\<close>: the windows stay, no pending entry is lost, the
  batch is never open past the longer window, and as long as nobody cancels it, at least for the shorter one.
\<close>

fun batch_ok :: "int \<Rightarrow> 'a Batcher \<Rightarrow> 'a wait_state \<Rightarrow> bool" where
  "batch_ok t0 b0 (now, c, ph, b) \<longleftrightarrow>
     idleWindow b = idleWindow b0 \<and> maxWindow b = maxWindow b0 \<and> set (pending b0) \<subseteq> set (pending b) \<and> t0 \<le> now \<and>
     now \<le> t0 + maxWindow b0 \<and>
     (case ph of
        Blocked \<Rightarrow> False
      | Collecting deadline idleAt \<Rightarrow> deadline = t0 + maxWindow b0 \<and> t0 + idleWindow b0 \<le> idleAt \<and> now \<le> idleAt
      | Returned ok \<Rightarrow> ok \<and> (c \<or> t0 + min (idleWindow b0) (maxWindow b0) \<le> now))"

lemma wait_own_ok:
  assumes "wait_own s s'" and "batch_ok t0 b0 s" and "0 \<le> idleWindow b0"
  shows "batch_ok t0 b0 s'"
  using assms by (cases rule: wait_own.cases) (auto split: wait_phase.splits)

lemma wait_step_ok: "wait_step s s' \<Longrightarrow> batch_ok t0 b0 s \<Longrightarrow> 0 \<le> idleWindow b0 \<Longrightarrow> batch_ok t0 b0 s'"
  by (erule wait_step.cases) (auto simp: Trigger_def intro: wait_own_ok split: wait_phase.splits)

lemma wait_runs_ok: "wait_runs s s' \<Longrightarrow> batch_ok t0 b0 s \<Longrightarrow> 0 \<le> idleWindow b0 \<Longrightarrow> batch_ok t0 b0 s'"
  by (induction rule: rtranclp_induct) (auto intro: wait_step_ok)

text \<open>Nobody triggers: a \<open>Wait\<close> on a batcher that is not signalled can only give up.\<close>

fun unsignalled :: "'a Batcher \<Rightarrow> 'a wait_state \<Rightarrow> bool" where
  "unsignalled b0 (now, c, ph, b) \<longleftrightarrow> b = b0 \<and> (ph = Blocked \<or> ph = Returned False)"

lemma wait_own_unsignalled: "wait_own s s' \<Longrightarrow> unsignalled b0 s \<Longrightarrow> \<not> signalled b0 \<Longrightarrow> unsignalled b0 s'"
  by (erule wait_own.cases) auto

lemma never_returns_True:
  assumes "wait_own\<^sup>*\<^sup>* (now, c, Blocked, b0) (now', c', Returned ok, b)" and "\<not> signalled b0"
  shows "\<not> ok"
proof -
  have "wait_own\<^sup>*\<^sup>* s s' \<Longrightarrow> unsignalled b0 s \<Longrightarrow> unsignalled b0 s'" for s s'
    by (induction rule: rtranclp_induct) (simp, metis wait_own_unsignalled assms(2))
  from this [OF assms(1)] show ?thesis by simp
qed

section \<open>Properties\<close>


text \<open>One trigger, then silence: the idle window closes the batch.\<close>

definition one_batch :: "nat Batcher" where
  "one_batch = (Trigger 7 (NewBatcher 1 10))\<lparr>signalled := False\<rparr>"

lemma one_batch_run: "wait_runs (5, False, Collecting 15 6, one_batch) (6, False, Returned True, one_batch)"
proof -
  have "wait_own (5, False, Collecting 15 6, one_batch) (6, False, Collecting 15 6, one_batch)"
    by (rule tick) (simp_all add: one_batch_def)
  moreover have "wait_own (6, False, Collecting 15 6, one_batch) (6, False, Returned True, one_batch)"
    by (rule idle) simp
  ultimately show ?thesis by (meson own converse_rtranclp_into_rtranclp rtranclp.rtrancl_refl)
qed


end
