(* ===== verification/Provisioner.thy ===== *)
theory Provisioner
  imports Kube Batcher Scheduler SchedulerSolve Synced
begin

text \<open>
  \<open>pkg/controllers/provisioning\<close>: \<open>provisioner.go\<close>, which turns the results of \<open>Solve\<close> into claims and
  tunnel statuses, and the two controllers that feed its batcher.
\<close>

section \<open>The triggers (pod\_controller.go, node\_controller.go)\<close>

definition pod_Reconcile ::
  "env \<Rightarrow> string \<Rightarrow> string \<Rightarrow> string Batcher \<Rightarrow> (Result \<times> goerror option \<times> string Batcher) io" where
  "pod_Reconcile E ns name b =
     do { got \<leftarrow> GetTunnel E ns name;
          ret (case got of
                 Inl err \<Rightarrow> (finished, IgnoreNotFound err, b)
               | Inr t \<Rightarrow>
                   (finished, None,
                    if AssignedExit (tStatus t) = [] \<or> Phase (tStatus t) = TunnelPhaseAllocating
                    then Trigger (UID t) b else b)) }"

definition node_Reconcile ::
  "env \<Rightarrow> string \<Rightarrow> string Batcher \<Rightarrow> (Result \<times> goerror option \<times> string Batcher) io" where
  "node_Reconcile E name b =
     do { got \<leftarrow> GetClaim E name;
          ret (case got of
                 Inl err \<Rightarrow> if err = NotFound then (finished, None, Trigger name b)
                            else (finished, Some (ApiErr err), b)
               | Inr c \<Rightarrow> (finished, None, Trigger (UID c) b)) }"

section \<open>Keys\<close>

definition splitKey :: "string \<Rightarrow> string \<times> string" where
  "splitKey key = (case Cut key CHR ''/'' of Some (ns, name) \<Rightarrow> (ns, name) | None \<Rightarrow> ([], key))"

section \<open>Promotion\<close>

fun exitClaimReady_loop :: "Condition list \<Rightarrow> bool" where
  "exitClaimReady_loop [] = False"
| "exitClaimReady_loop (c # conds) =
     (if Type c = ConditionTypeReady \<and> Status c = ConditionTrue then True else exitClaimReady_loop conds)"

definition exitClaimReady :: "ExitClaim \<Rightarrow> bool" where
  "exitClaimReady claim = exitClaimReady_loop (claim_conds claim)"

definition promoted :: "int \<Rightarrow> ExitClaim \<Rightarrow> Tunnel \<Rightarrow> Tunnel" where
  "promoted now claim t =
     (let t1 = t\<lparr>tStatus := (tStatus t)\<lparr>Phase := TunnelPhaseReady\<rparr>\<rparr>;
          t2 = (if PublicIP (cStatus claim) \<noteq> [] \<and> AssignedIP (tStatus t1) = []
                then t1\<lparr>tStatus := (tStatus t1)\<lparr>AssignedIP := PublicIP (cStatus claim)\<rparr>\<rparr> else t1)
      in setTunnelCondition now t2 ''Ready'' ConditionTrue ''Reconciled'' ''exit Ready'')"

fun promote_all :: "env \<Rightarrow> Tunnel list \<Rightarrow> goerror option io" where
  "promote_all E [] = ret None"
| "promote_all E (t # ts) =
     (if DeletionTimestamp t \<noteq> None then promote_all E ts
      else if Phase (tStatus t) \<noteq> TunnelPhaseProvisioning then promote_all E ts
      else if AssignedExit (tStatus t) = [] then promote_all E ts
      else
        do { got \<leftarrow> GetClaim E (AssignedExit (tStatus t));
             case got of
               Inl err \<Rightarrow> if err = NotFound then promote_all E ts else ret (Some (ApiErr err))
             | Inr claim \<Rightarrow>
                 if \<not> exitClaimReady claim then promote_all E ts
                 else
                   do { now \<leftarrow> Now E;
                        r \<leftarrow> PatchTunnelStatus E t (promoted now claim t);
                        case r of
                          Inl err \<Rightarrow> ret (Some (Wrap (''promote tunnel '' @ Namespace t @ ''/'' @ Name t @
                                       '' to Ready: '') (ApiErr err)))
                        | Inr _ \<Rightarrow> promote_all E ts } })"

definition promoteReadyTunnels :: "env \<Rightarrow> goerror option io" where
  "promoteReadyTunnels E =
     do { r \<leftarrow> ListTunnels E;
          case r of Inl err \<Rightarrow> ret (Some (ApiErr err)) | Inr ts \<Rightarrow> promote_all E ts }"

definition is_pending :: "Tunnel \<Rightarrow> bool" where
  "is_pending t \<longleftrightarrow> DeletionTimestamp t = None \<and>
     (AssignedExit (tStatus t) = [] \<or> Phase (tStatus t) = TunnelPhaseAllocating)"

definition listPendingTunnels :: "env \<Rightarrow> (goerror + Tunnel list) io" where
  "listPendingTunnels E =
     do { r \<leftarrow> ListTunnels E;
          ret (case r of Inl err \<Rightarrow> Inl (ApiErr err) | Inr ts \<Rightarrow> Inr (filter is_pending ts)) }"

section \<open>Persisting the results\<close>

definition claim_object :: "InflightClaim \<Rightarrow> ExitClaim" where
  "claim_object c =
     \<lparr>Name = icName c, GenerateName = [], Namespace = [], UID = [], Generation = 0, CreationTimestamp = 0,
      DeletionTimestamp = None,
      Labels = (case icPool c of None \<Rightarrow> [] | Some pool \<Rightarrow> [(LabelExitPool, Name pool)]),
      Annotations = [], Finalizers = [], cSpec = icSpec c,
      cStatus = \<lparr>ProviderID = [], PublicIP = [], ExitName = [], ImageID = [], FrpsVersion = [],
        Capacity = [], Allocatable = [], Conditions = []\<rparr>\<rparr>"

fun create_claims :: "env \<Rightarrow> InflightClaim list \<Rightarrow> string list \<Rightarrow> (goerror + string list) io" where
  "create_claims E [] rejected = ret (Inr rejected)"
| "create_claims E (c # cs) rejected =
     do { r \<leftarrow> CreateClaim E (claim_object c);
          case r of
            Inr _ \<Rightarrow> create_claims E cs rejected
          | Inl err \<Rightarrow>
              if err \<noteq> AlreadyExists then
                ret (Inl (Wrap (''create ExitClaim '' @ icName c @ '': '') (ApiErr err)))
              else
                do { got \<leftarrow> GetClaim E (icName c);
                     case got of
                       Inl err \<Rightarrow> ret (Inl (Wrap (''get existing ExitClaim '' @ icName c @ '': '') (ApiErr err)))
                     | Inr existing \<Rightarrow>
                         if DeletionTimestamp existing \<noteq> None then create_claims E cs (sput (icName c) rejected)
                         else create_claims E cs rejected } }"

definition bound_tunnel :: "int \<Rightarrow> Binding \<Rightarrow> Tunnel \<Rightarrow> Tunnel" where
  "bound_tunnel now b t =
     setTunnelCondition now
       (t\<lparr>tStatus := (tStatus t)\<lparr>AssignedExit := bExitClaimName b, AssignedPorts := bAssignedPorts b,
            Phase := TunnelPhaseProvisioning\<rparr>\<rparr>)
       ''Ready'' ConditionFalse ''Provisioning'' (''scheduler bound to '' @ bExitClaimName b)"

fun patch_bindings :: "env \<Rightarrow> string list \<Rightarrow> Binding list \<Rightarrow> goerror option io" where
  "patch_bindings E rejected [] = ret None"
| "patch_bindings E rejected (b # bs) =
     (if List.member rejected (bExitClaimName b) then patch_bindings E rejected bs
      else
        let (ns, name) = splitKey (bTunnelKey b) in
        do { got \<leftarrow> GetTunnel E ns name;
             case got of
               Inl err \<Rightarrow> if err = NotFound then patch_bindings E rejected bs
                          else ret (Some (Wrap (''get tunnel '' @ bTunnelKey b @ '': '') (ApiErr err)))
             | Inr t \<Rightarrow>
                 do { now \<leftarrow> Now E;
                      r \<leftarrow> PatchTunnelStatus E t (bound_tunnel now b t);
                      case r of
                        Inl err \<Rightarrow> ret (Some (Wrap (''patch tunnel '' @ bTunnelKey b @ '': '') (ApiErr err)))
                      | Inr _ \<Rightarrow> patch_bindings E rejected bs } })"

definition unschedulable :: "int \<Rightarrow> string \<Rightarrow> Tunnel \<Rightarrow> Tunnel" where
  "unschedulable now msg t =
     (let t1 = (if Phase (tStatus t) = [] \<or> Phase (tStatus t) = TunnelPhasePending
                then t\<lparr>tStatus := (tStatus t)\<lparr>Phase := TunnelPhaseAllocating\<rparr>\<rparr> else t)
      in setTunnelCondition now t1 ''Ready'' ConditionFalse ''Unschedulable'' msg)"

fun patch_errors :: "env \<Rightarrow> (sched_error \<Rightarrow> string) \<Rightarrow> (string \<times> sched_error) list \<Rightarrow> goerror option io" where
  "patch_errors E text [] = ret None"
| "patch_errors E text ((key, perr) # errs) =
     (let (ns, name) = splitKey key in
      do { got \<leftarrow> GetTunnel E ns name;
           case got of
             Inl err \<Rightarrow> if err = NotFound then patch_errors E text errs
                        else ret (Some (Wrap (''get tunnel '' @ key @ '': '') (ApiErr err)))
           | Inr t \<Rightarrow>
               do { now \<leftarrow> Now E;
                    r \<leftarrow> PatchTunnelStatus E t (unschedulable now (text perr) t);
                    case r of
                      Inl err \<Rightarrow> ret (Some (Wrap (''patch tunnel '' @ key @ '': '') (ApiErr err)))
                    | Inr _ \<Rightarrow> patch_errors E text errs } })"

text \<open>\<open>ord\<close> is the order in which the map of errors is visited, \<open>text\<close> is \<open>err.Error()\<close>.\<close>

definition persistResults :: "env \<Rightarrow> order \<Rightarrow> (sched_error \<Rightarrow> string) \<Rightarrow> Results \<Rightarrow> goerror option io" where
  "persistResults E ord text r =
     do { made \<leftarrow> create_claims E (NewClaims r) [];
          case made of
            Inl err \<Rightarrow> ret (Some err)
          | Inr rejected \<Rightarrow>
              do { e \<leftarrow> patch_bindings E rejected (rBindings r);
                   case e of
                     Some err \<Rightarrow> ret (Some err)
                   | None \<Rightarrow> patch_errors E text (in_order ord (TunnelErrors r)) } }"

section \<open>The reconciler\<close>

definition NewWithBatcher :: "int \<Rightarrow> int \<Rightarrow> string Batcher" where
  "NewWithBatcher idleW maxW =
     (let idleW = (if idleW \<le> 0 then DefaultBatchIdleDuration else idleW);
          maxW = (if maxW \<le> 0 then DefaultBatchMaxDuration else maxW)
      in NewBatcher idleW maxW)"

text \<open>
  \<open>Reconcile\<close> after the answer \<open>waited\<close> of \<open>Wait\<close>. \<open>solve h\<close> is \<open>Scheduler.Solve\<close> on the cluster as it
  is after the history \<open>h\<close>; an outer \<open>None\<close> means that it does not return. The batcher is threaded through.
\<close>

definition provisioner_Reconcile ::
  "env \<Rightarrow> (event list \<Rightarrow> bool) \<Rightarrow> (event list \<Rightarrow> Tunnel list \<Rightarrow> Results option) \<Rightarrow> order \<Rightarrow> order \<Rightarrow>
     (sched_error \<Rightarrow> string) \<Rightarrow> bool \<Rightarrow> string Batcher \<Rightarrow> (Result \<times> goerror option \<times> string Batcher) option io" where
  "provisioner_Reconcile E is_synced solve ord1 ord2 text waited b =
     (if \<not> waited then ret (Some (finished, None, b))
      else
        do { h \<leftarrow> State_Monad.get;
             if \<not> is_synced h then ret (Some (after (1 * Second), None, b))
             else
               let b = snd (Drain ord1 b) in
               do { e \<leftarrow> promoteReadyTunnels E;
                    case e of
                      Some err \<Rightarrow> ret (Some (finished, Some err, b))
                    | None \<Rightarrow>
                        do { listed \<leftarrow> listPendingTunnels E;
                             case listed of
                               Inl err \<Rightarrow> ret (Some (finished, Some err, b))
                             | Inr todo \<Rightarrow>
                                 if todo = [] then ret (Some (finished, None, b))
                                 else
                                   do { h \<leftarrow> State_Monad.get;
                                        case solve h todo of
                                          None \<Rightarrow> ret None
                                        | Some results \<Rightarrow>
                                            do { e \<leftarrow> persistResults E ord2 text results;
                                                 ret (Some (finished, e, b)) } } } } })"

end
