(* ===== verification/DigitalOceanRuns.thy ===== *)
theory DigitalOceanRuns
  imports DigitalOceanProps Provisioner Samples
begin

text \<open>
  What the operator gets out of the DigitalOcean provider: the consequences of its contract, the
  provider as the operator constructs it, the size and region that are launched against those that the
  scheduler chose, and the cloud-init document. The witnesses run against a small account.
\<close>

section \<open>A small account\<close>

definition new_droplet :: "do_event list \<Rightarrow> DropletCreateRequest \<Rightarrow> Droplet" where
  "new_droplet h req = \<lparr>drID = int (length h), drName = rqName req, drSize = Some (rqSize req),
     drRegion = Some (rqRegion req), drNetworksV4 = Some [(''public'', ''203.0.113.7'')]\<rparr>"

fun account_step :: "do_event list \<times> do_event \<Rightarrow> Droplet list \<Rightarrow> Droplet list" where
  "account_step (h, DCreate req) ds = (if length h < 1000 then new_droplet h req # ds else ds)"
| "account_step (h, DDelete i) ds = filter (\<lambda>d. drID d \<noteq> i) ds"
| "account_step _ ds = ds"

definition account :: "do_event list \<Rightarrow> Droplet list" where
  "account h = fold account_step (steps [] h) []"

definition sample_class :: DigitalOceanProviderClass where
  "sample_class = \<lparr>Name = ''default'', GenerateName = [], Namespace = [], UID = ''uc'', Generation = 1,
     CreationTimestamp = 1000, DeletionTimestamp = None, Labels = [], Annotations = [], Finalizers = [],
     doAPITokenSecretRef = \<lparr>secretName = ''do'', secretKey = ''token''\<rparr>,
     doImageSelectorTerms = [\<lparr>imgSlug = ''debian-12-x64'', imgAlias = []\<rparr>], doVPCUUID = [], doSSHKeyIDs = [],
     doMonitoring = False, doDefaultImage = []\<rparr>"

definition sample_do :: do_env where
  "sample_do = \<lparr>onGetClass = \<lambda>h n. Inr sample_class, onAuthToken = \<lambda>h c. Inr ''secret'',
     onAPIToken = \<lambda>h pc. Inr ''token'',
     onListByName = \<lambda>h n. Inr (filter (\<lambda>d. drName d = n) (account h)),
     onListByTag = \<lambda>h t. Inr (account h),
     onCreateDroplet = \<lambda>h req. if length h < 1000 then Inr (new_droplet h req) else Inl ''limit'',
     onGetDroplet = \<lambda>h i. case filter (\<lambda>d. drID d = i) (account h) of
        [] \<Rightarrow> Inl (''not found'', Some 404) | d # _ \<Rightarrow> Inr d,
     onDeleteDroplet = \<lambda>h i. if i \<in> drID ` set (account h) then None else Some (''not found'', Some 404),
     do_apiText = \<lambda>_. [], do_atoiText = \<lambda>_. [], do_urlError = \<lambda>_. None, do_printable = \<lambda>_. True,
     do_fancy = \<lambda>f xs. f\<rparr>"

definition sample_provider :: do_provider where
  "sample_provider = (do_New sample_do True [])\<lparr>doAPITokenResolver := True, doAuthTokenResolver := True\<rparr>"

definition do_claim :: ExitClaim where
  "do_claim = sample_claim
     \<lparr>cSpec := (cSpec sample_claim)
        \<lparr>ProviderClassRef := \<lparr>refGroup = ''g'', refKind = ''DigitalOceanProviderClass'', refName = ''default''\<rparr>,
         Requirements := [requirement_in RequirementInstanceType ''s-1vcpu-1gb'',
            requirement_in RequirementRegion ''fra1'']\<rparr>,
      cStatus := (cStatus sample_claim)\<lparr>ProviderID := []\<rparr>\<rparr>"

lemma sample_do_sel [simp]:
  "onGetClass sample_do h n = Inr sample_class" "onAuthToken sample_do h claim = Inr ''secret''"
  "onAPIToken sample_do h pc = Inr ''token''"
  "onListByName sample_do h n = Inr (filter (\<lambda>d. drName d = n) (account h))"
  "onCreateDroplet sample_do h req = (if length h < 1000 then Inr (new_droplet h req) else Inl ''limit'')"
  "onDeleteDroplet sample_do h i = (if i \<in> drID ` set (account h) then None else Some (''not found'', Some 404))"
  by (simp_all add: sample_do_def)

lemma account_Nil [simp]: "account [] = []"
  by (simp add: account_def)

lemma account_snoc [simp]: "account (h @ [e]) = account_step (h, e) (account h)"
  by (simp add: account_def)

lemma account_ids: "d \<in> set (account h) \<Longrightarrow> drID d < int (length h) \<and> is_int64 (drID d)"
proof (induction h arbitrary: d rule: rev_induct)
  case (snoc e h)
  then show ?case
    by (cases e) (fastforce simp: new_droplet_def is_int64_def min_int64_def max_int64_def split: if_splits)+
qed simp

lemma droplets_account: "droplets sample_do [] h = account h"
proof (induction h rule: rev_induct)
  case (snoc e h)
  have "filter (\<lambda>d. drID d \<noteq> i) (account h) = account h" if "i \<notin> drID ` set (account h)" for i
    using that by (auto intro: filter_True)
  with snoc show ?case by (cases e) auto
qed simp

lemma sample_do_ok: "do_ok sample_do [] []"
proof -
  have "int (length h) \<noteq> drID d" if "d \<in> set (account h)" for d h
    using account_ids [OF that] by simp
  then show ?thesis
    by (auto simp: do_ok_def do_api_ok_def droplets_account new_droplet_def is_int64_def
        min_int64_def max_int64_def split: if_splits)
qed

lemma factory_ok_default: "dropletAPIFactory c = defaultDropletAPI E url \<Longrightarrow> factory_ok c"
  by (auto simp: factory_ok_def defaultDropletAPI_def Let_def split: if_splits)

lemma sample_factory: "factory_ok sample_provider"
  by (rule factory_ok_default [of _ sample_do "[]"]) (simp add: sample_provider_def do_New_def)


section \<open>One droplet per claim\<close>

text \<open>
  Creating twice makes one droplet. When \<open>Create\<close> has returned for a claim, every later \<open>Create\<close> for
  a claim of that name, with whatever spec, returns the same provider id and leaves the exits as they are.
\<close>

theorem droplet_created_once:
  assumes "do_ok E ds0 h" and "factory_ok c" and "run_state (do_Create E c claim) h = (Inr out, h1)"
    and "Name claim' = Name claim" and "run_state (do_Create E c claim') h1 = (Inr out', h2)"
  shows "ProviderID (cStatus out') = ProviderID (cStatus out) \<and> do_exits E ds0 h2 = do_exits E ds0 h1"
  using digitalocean.create_again [of E ds0 h c claim out h1 claim' out' h2] assms
  by (simp add: dropletNameFor_def)

lemma RenderCloudInit_ok:
  assumes "AuthMethod (Auth cfg) = ''token'' \<or> AuthMethod (Auth cfg) = []"
  shows "\<exists>doc. RenderCloudInit p f cfg tok tpl = Inr doc"
  using RenderConfig_lines [OF assms] by (simp add: RenderCloudInit_def Let_def)

lemma do_claim_sel [simp]:
  "refKind (ProviderClassRef (cSpec do_claim)) = ''DigitalOceanProviderClass''"
  "refName (ProviderClassRef (cSpec do_claim)) = ''default''" "Name do_claim = ''x''"
  "ProviderID (cStatus do_claim) = []" "AuthMethod (Auth (Frps (cSpec do_claim))) = ''token''"
  "resolveSelection E do_claim = Inr (''s-1vcpu-1gb'', ''fra1'')"
  "resolveImage E sample_class = Inr ''debian-12-x64''"
  by (simp_all add: do_claim_def sample_claim_def sample_ref_def sample_frps_def resolveSelection_def requirement_in_def
      resolveImage_def sample_class_def RequirementInstanceType_def RequirementRegion_def)

lemma sample_provider_sel [simp]:
  "doKube sample_provider" "doAPITokenResolver sample_provider" "doAuthTokenResolver sample_provider"
  "dropletAPIFactory sample_provider ''token'' = None"
  by (simp_all add: sample_provider_def do_New_def defaultDropletAPI_def)

lemma sample_create:
  "\<exists>out h1. run_state (do_Create sample_do sample_provider do_claim) [] = (Inr out, h1) \<and> length h1 < 100 \<and>
     ProviderID (cStatus out) = providerIDFor 4 \<and>
     map drName (account h1) = [dropletNameFor do_claim]"
proof -
  obtain doc where "RenderCloudInit (do_printable sample_do) (do_fancy sample_do) (Frps (cSpec do_claim)) ''secret''
      (doDefaultImage sample_class) = Inr doc"
    using RenderCloudInit_ok [of "Frps (cSpec do_claim)"] do_claim_sel(5) by blast
  then show ?thesis
    by (simp add: do_Create_def do_resolveClass_def do_apiFor_def do_findByName_def ListByName_def
        launch_droplet_def CreateDroplet_def new_droplet_def create_request_def account_def)
qed


lemma account_quiet: "list_all quiet es \<Longrightarrow> account (h @ es) = account h"
  using droplets_quiet [of es sample_do "[]" h] by (simp add: droplets_account)

lemma sample_create_again:
  assumes "map drName (account h) = [dropletNameFor do_claim]"
  shows "\<exists>out h'. run_state (do_Create sample_do sample_provider do_claim) h = (Inr out, h')"
proof -
  obtain d where "account h = [d]" "drName d = dropletNameFor do_claim" using assms by (cases "account h") auto
  then show ?thesis
    by (simp add: do_Create_def do_resolveClass_def do_apiFor_def do_findByName_def ListByName_def account_quiet)
qed

theorem droplet_created_once_witness:
  "\<exists>out h1 out' h2. run_state (do_Create sample_do sample_provider do_claim) [] = (Inr out, h1) \<and>
     run_state (do_Create sample_do sample_provider do_claim) h1 = (Inr out', h2) \<and>
     ProviderID (cStatus out') = providerIDFor 4 \<and> do_exits sample_do [] h2 = do_exits sample_do [] h1"
proof -
  obtain out h1 where 1: "run_state (do_Create sample_do sample_provider do_claim) [] = (Inr out, h1)"
    "ProviderID (cStatus out) = providerIDFor 4" "map drName (account h1) = [dropletNameFor do_claim]"
    using sample_create by (elim exE conjE) (rule that)
  obtain out' h2 where 2: "run_state (do_Create sample_do sample_provider do_claim) h1 = (Inr out', h2)"
    using sample_create_again [OF 1(3)] by blast
  from droplet_created_once [OF sample_do_ok sample_factory 1(1) refl 2] 1 2 show ?thesis by auto
qed

section \<open>A provider id that was never recorded\<close>

text \<open>
  A lost provider id leaks the droplet. After \<open>Create\<close> has returned for a claim whose status never
  received the provider id, \<open>Delete\<close> of that claim makes no call and answers that the exit is not found,
  on which the lifecycle controller strips the finalizer; the droplet stays.
\<close>

theorem lost_id_leaks_droplet:
  assumes "do_ok E ds0 h" and "factory_ok c" and "run_state (do_Create E c claim) h = (Inr out, h1)"
    and "ProviderID (cStatus claim) = []"
  shows "run_state (do_Delete E c claim) h1 = (Some (ExitNotFoundError []), h1) \<and>
    IsExitNotFound (ExitNotFoundError []) \<and>
    (dropletNameFor claim, ProviderID (cStatus out)) \<in> do_exits E ds0 h1"
proof -
  have del: "run_state (do_Delete E c claim) h1 = (Some (ExitNotFoundError []), h1)"
    using assms(4) by (simp add: do_Delete_def)
  with digitalocean.lost_id_leaks [of E ds0 h c claim out h1] assms show ?thesis by simp
qed

theorem lost_id_leaks_droplet_witness:
  "\<exists>out h1. run_state (do_Create sample_do sample_provider do_claim) [] = (Inr out, h1) \<and>
     run_state (do_Delete sample_do sample_provider do_claim) h1 = (Some (ExitNotFoundError []), h1) \<and>
     (dropletNameFor do_claim, providerIDFor 4) \<in> do_exits sample_do [] h1"
proof -
  obtain out h1 where 1: "run_state (do_Create sample_do sample_provider do_claim) [] = (Inr out, h1)"
    "ProviderID (cStatus out) = providerIDFor 4"
    using sample_create by blast
  from lost_id_leaks_droplet [OF sample_do_ok sample_factory 1(1)] 1 show ?thesis by simp
qed

section \<open>The provider as the operator constructs it\<close>

lemma do_New_sel [simp]:
  "doAPITokenResolver (do_New E kube url) = False" "doAuthTokenResolver (do_New E kube url) = False"
  "dropletAPIFactory (do_New E kube url) [] = Some (CloudOther ''digitalocean: empty API token'')"
  by (simp_all add: do_New_def defaultDropletAPI_def)

lemma do_New_apiFor:
  "run_state (do_apiFor E (do_New E kube url) pc) h = (Some (CloudOther ''digitalocean: empty API token''), h)"
  by (simp add: do_apiFor_def)

text \<open>
  As constructed by \<open>New\<close> the provider cannot work. \<open>New\<close> leaves both token resolvers nil and the
  operator does not set them, so that the token of the API is empty and refused: \<open>Create\<close>, \<open>Get\<close> and
  \<open>List\<close> fail whatever the API would answer, without calling it, and \<open>Delete\<close> of a claim with a
  provider id fails with an error that is not \<open>ExitNotFound\<close>, so that its finalizer stays.
\<close>

lemma provider_without_resolvers_fails:
  "(\<exists>err h'. run_state (do_Create E (do_New E kube url) claim) h = (Inl err, h') \<and> droplets E ds0 h' = droplets E ds0 h) \<and>
   (\<exists>err h'. run_state (do_Delete E (do_New E kube url) claim) h = (Some err, h') \<and>
      droplets E ds0 h' = droplets E ds0 h \<and>
      (IsExitNotFound err \<longleftrightarrow> ProviderID (cStatus claim) = [])) \<and>
   run_state (do_Get E (do_New E kube url) pid) h = (Inl (CloudOther ''digitalocean: empty API token''), h) \<and>
   run_state (do_List E (do_New E kube url)) h = (Inl (CloudOther ''digitalocean: empty API token''), h)"
proof -
  let ?c = "do_New E kube url"
  obtain pc h1 where 1: "run_state (do_resolveClass E ?c claim) h = (pc, h1)" by fastforce
  have q1: "droplets E ds0 h1 = droplets E ds0 h" by (rule quiet_run [OF resolveClass_quiet 1])
  have nf: "pc = Inl err \<Longrightarrow> \<not> IsExitNotFound err" for err
    using 1 by (auto simp: do_resolveClass_def Let_def split: if_splits sum.splits)
  have "\<exists>err h'. run_state (do_Create E ?c claim) h = (Inl err, h') \<and> droplets E ds0 h' = droplets E ds0 h"
    using 1 q1 by (cases pc) (simp_all add: do_Create_def do_New_apiFor)
  moreover have "\<exists>err h'. run_state (do_Delete E ?c claim) h = (Some err, h') \<and>
      droplets E ds0 h' = droplets E ds0 h \<and> (IsExitNotFound err \<longleftrightarrow> ProviderID (cStatus claim) = [])"
    using 1 q1 nf by (cases pc) (auto simp: do_Delete_def do_New_apiFor)
  ultimately show ?thesis by (simp add: do_Get_def do_List_def)
qed


section \<open>What is launched\<close>

text \<open>The value that a list of requirements pins for a key, or else the given one.\<close>

definition listed_or :: "Requirement list \<Rightarrow> string \<Rightarrow> string \<Rightarrow> string" where
  "listed_or reqs key chosen =
     (let v = firstRequirementValue reqs key in if v = [] then chosen else v)"

lemma firstRequirementValue_append:
  "\<forall>r \<in> set as. [] \<notin> set (Values r) \<Longrightarrow>
     firstRequirementValue (as @ bs) key = listed_or as key (firstRequirementValue bs key)"
  by (induction as) (auto simp: listed_or_def Let_def split: list.splits)

lemma selected_from_catalog:
  assumes "SelectInstanceType do_GetInstanceTypes reg pool tr req = Inr (it, off)"
  shows "it \<in> set do_InstanceTypes \<and> off \<in> set (itOfferings it)"
proof -
  obtain cs where "sort_key (\<lambda>c. Price (snd c))
      (select_candidates (tmplRequirements (pool_tmpl pool)) tr req do_InstanceTypes) = (it, off) # cs"
    using assms by (auto simp: SelectInstanceType_def do_GetInstanceTypes_def Let_def
        split: option.splits sum.splits if_splits list.splits)
  from hd_sort_key_le [OF this] have "it \<in> set do_InstanceTypes"
    "cheapestCompatibleOffering it (tmplRequirements (pool_tmpl pool)) tr = Some off"
    by (auto simp: set_select_candidates)
  then show ?thesis unfolding cheapestCompatibleOffering_def using cheapest_loop_Some by blast
qed

lemma catalog_pins:
  assumes "it \<in> set do_InstanceTypes" and "off \<in> set (itOfferings it)"
  obtains r where "r \<in> set SupportedRegions"
    and "PinChosen it off = [requirement_in RequirementInstanceType (itName it), requirement_in RequirementRegion r]"
    and "ofRequirements off = [requirement_in RequirementRegion r, requirement_in RequirementInstanceType (itName it)]"
proof -
  from assms(1) obtain s where it: "it = instanceTypeFor s SupportedRegions" by (auto simp: do_InstanceTypes_def)
  with assms(2) obtain r where r: "r \<in> set SupportedRegions"
    and "ofRequirements off = [requirement_in RequirementRegion r, requirement_in RequirementInstanceType (itName it)]"
    by (auto simp: instanceTypeFor_def)
  moreover from this have
    "PinChosen it off = [requirement_in RequirementInstanceType (itName it), requirement_in RequirementRegion r]"
    by (simp add: PinChosen_def it instanceTypeFor_def requirement_in_def RequirementInstanceType_def RequirementRegion_def)
  ultimately show ?thesis using that by blast
qed

lemma catalog_names: "it \<in> set do_InstanceTypes \<Longrightarrow> itName it \<noteq> []"
  by (auto simp: do_InstanceTypes_def sizeCatalog_def instanceTypeFor_def)

text \<open>
  What is launched is what the template lists first, not what the scheduler chose. For a claim that
  the scheduler makes from a pool over the catalog of the provider, \<open>Create\<close> takes the size and the region
  that an \<open>In\<close> requirement of the template lists first, and the chosen (cheapest compatible) ones only
  for a key that the template leaves open: the pinned requirements come after the template's, and only
  the first one of a key is read.
\<close>

theorem launched_size_and_region:
  assumes "SelectInstanceType do_GetInstanceTypes reg pool tr req = Inr (it, off)"
    and "\<forall>r \<in> set (tmplRequirements (pool_tmpl pool)). [] \<notin> set (Values r)"
  shows "\<exists>r \<in> set SupportedRegions.
    ofRequirements off = [requirement_in RequirementRegion r, requirement_in RequirementInstanceType (itName it)] \<and>
    resolveSelection E (claim_object (pinned_claim pool t it off)) =
      Inr (listed_or (tmplRequirements (pool_tmpl pool)) RequirementInstanceType (itName it),
           listed_or (tmplRequirements (pool_tmpl pool)) RequirementRegion r)"
proof -
  have mem: "it \<in> set do_InstanceTypes" "off \<in> set (itOfferings it)"
    using selected_from_catalog [OF assms(1)] by simp_all
  from catalog_pins [OF mem] obtain r where r: "r \<in> set SupportedRegions"
    and pin: "PinChosen it off = [requirement_in RequirementInstanceType (itName it), requirement_in RequirementRegion r]"
    and off: "ofRequirements off = [requirement_in RequirementRegion r, requirement_in RequirementInstanceType (itName it)]" .
  have reqs: "Requirements (cSpec (claim_object (pinned_claim pool t it off))) =
      tmplRequirements (pool_tmpl pool) @ PinChosen it off"
    by (simp add: claim_object_def pinned_claim_def NewClaimFromPool_def Let_def)
  have "r \<noteq> []" "itName it \<noteq> []" using r catalog_names [OF mem(1)] by (auto simp: SupportedRegions_def)
  then have "resolveSelection E (claim_object (pinned_claim pool t it off)) =
      Inr (listed_or (tmplRequirements (pool_tmpl pool)) RequirementInstanceType (itName it),
           listed_or (tmplRequirements (pool_tmpl pool)) RequirementRegion r)"
    unfolding resolveSelection_def reqs pin firstRequirementValue_append [OF assms(2)]
    by (simp add: listed_or_def Let_def requirement_in_def RequirementInstanceType_def RequirementRegion_def)
  with r off show ?thesis by blast
qed

definition two_regions_pool :: ExitPool where
  "two_regions_pool = sample_pool\<lparr>pSpec := (pSpec sample_pool)\<lparr>Template := (Template (pSpec sample_pool))
     \<lparr>tmplSpec := (tmplSpec (Template (pSpec sample_pool)))
        \<lparr>tmplRequirements := [\<lparr>Key = RequirementRegion, Operator = OpIn, Values = [''nyc1'', ''fra1''],
           MinValues = None\<rparr>]\<rparr>\<rparr>\<rparr>\<rparr>"

definition fra1_offering :: Offering where
  "fra1_offering = \<lparr>ofRequirements = [requirement_in RequirementRegion ''fra1'',
     requirement_in RequirementInstanceType ''s-1vcpu-1gb''], Price = 744 / 100000, ofAvailable = True\<rparr>"


text \<open>A tunnel that asks for \<open>fra1\<close> gets a claim whose droplet is launched in \<open>nyc1\<close>.\<close>

theorem launched_size_and_region_witness:
  "SelectInstanceType do_GetInstanceTypes (Some [(''Fake'', sample_provider)]) two_regions_pool
     [requirement_in RequirementRegion ''fra1''] [(''cpu'', 2)] =
     Inr (instanceTypeFor (hd sizeCatalog) SupportedRegions, fra1_offering) \<and>
   resolveSelection sample_do (claim_object (pinned_claim two_regions_pool sample_tunnel
       (instanceTypeFor (hd sizeCatalog) SupportedRegions) fra1_offering)) = Inr (''s-1vcpu-1gb'', ''nyc1'')"
proof -
  let ?it = "instanceTypeFor (hd sizeCatalog) SupportedRegions"
  have sel: "SelectInstanceType do_GetInstanceTypes (Some [(''Fake'', sample_provider)]) two_regions_pool
     [requirement_in RequirementRegion ''fra1''] [(''cpu'', 2)] = Inr (?it, fra1_offering)"
    by code_simp
  have tmpl: "tmplRequirements (pool_tmpl two_regions_pool) =
      [\<lparr>Key = RequirementRegion, Operator = OpIn, Values = [''nyc1'', ''fra1''], MinValues = None\<rparr>]"
    by (simp add: two_regions_pool_def sample_pool_def)
  have "resolveSelection sample_do (claim_object (pinned_claim two_regions_pool sample_tunnel ?it fra1_offering)) =
      Inr (itName ?it, ''nyc1'')"
    using launched_size_and_region [OF sel, of sample_do sample_tunnel]
    by (auto simp: tmpl listed_or_def RequirementRegion_def RequirementInstanceType_def)
  with sel show ?thesis by (simp add: instanceTypeFor_def sizeCatalog_def)
qed

section \<open>The cloud-init document\<close>

text \<open>
  The content of the first file of a \<open>write_files\<close> list: a YAML block scalar, its lines indented by six
  blanks.
\<close>

definition block_lines :: "string list \<Rightarrow> string list" where
  "block_lines ls =
     map (drop 6) (takeWhile (\<lambda>l. HasPrefix l ''      '') (drop 1 (dropWhile (\<lambda>l. l \<noteq> ''    content: |'') ls)))"

definition embedded_config :: "string \<Rightarrow> string" where
  "embedded_config doc = join newline (block_lines (Split1 doc newline))"

lemma indented: "HasPrefix (indent l) ''      ''"
  unfolding HasPrefix_iff indent_def by blast

lemma block_lines_indented:
  "block_lines (frps_file_lines @ map indent ls @ unit_file_lines @ r) = ls"
proof -
  have start: "drop 1 (dropWhile (\<lambda>l. l \<noteq> ''    content: |'') (frps_file_lines @ xs)) = xs" for xs
    by (simp add: frps_file_lines_def)
  have stop: "takeWhile (\<lambda>l. HasPrefix l ''      '') (map indent ls @ unit_file_lines @ r) =
      map indent ls"
  proof (induction ls)
    case Nil
    show ?case by (simp add: unit_file_lines_def HasPrefix_def)
  next
    case (Cons l ls)
    with indented [of l] show ?case by simp
  qed
  have "map (drop 6 \<circ> indent) ls = ls" by (induction ls) (auto simp: indent_def)
  then show ?thesis unfolding block_lines_def start stop by simp
qed

text \<open>
  The cloud-init document carries the configuration unchanged. Reading the file \<open>/etc/frp/frps.toml\<close>
  back out of the document gives exactly what \<open>RenderConfig\<close> rendered, whatever lines it has, and a
  configuration that cannot be rendered is reported with the same error.
\<close>

theorem cloud_init_carries_config:
  "map_sum id embedded_config (RenderCloudInit printable fancy cfg tok template) = RenderConfig printable cfg tok"
proof (cases "RenderConfig printable cfg tok")
  case (Inl err)
  then show ?thesis by (simp add: RenderCloudInit_def)
next
  case (Inr body)
  let ?ls = "Split1 body newline"
  let ?doc = "frps_file_lines @ map indent ?ls @ unit_file_lines @
    runcmd_lines (Quote printable (binaryURL fancy template (Version cfg)))"
  have "list_all (\<lambda>l. newline \<notin> set l) ?doc"
    using Quote_one_line Split1_lines [of _ body newline]
    by (auto simp: list_all_iff indent_def frps_file_lines_def unit_file_lines_def runcmd_lines_def)
  then have "Split1 (unlines ?doc) newline = ?doc @ [[]]" by (rule Split1_unlines)
  then have "embedded_config (unlines ?doc) = body"
    using block_lines_indented [of ?ls] by (simp add: embedded_config_def)
  with Inr show ?thesis by (simp add: RenderCloudInit_def Let_def)
qed

end
