(* ===== verification/LocalDocker.thy ===== *)
theory LocalDocker
  imports CloudContract Frps
begin

text \<open>
  \<open>pkg/cloudprovider/localdocker\<close>: exits as local containers. The Docker daemon behind its SDK, the
  API server, the file system and the resolver of the frps token are the environment.
\<close>

section \<open>The provider class, containers and calls\<close>

record LocalDockerProviderClass = ObjectMeta +
  ldNetwork :: string
  ldConfigHostMountPath :: string
  ldImagePullPolicy :: string
  ldSkipHostPortPublishing :: bool
  ldDefaultImage :: string

text \<open>The class of an error of the daemon (\<open>errdefs.IsNotFound\<close>, \<open>errdefs.IsConflict\<close>), with its text.\<close>

datatype docker_error = DockerNotFound string | DockerConflict string | DockerOther string

fun docker_text :: "docker_error \<Rightarrow> string" where
  "docker_text (DockerNotFound s) = s"
| "docker_text (DockerConflict s) = s"
| "docker_text (DockerOther s) = s"

fun IsNotFound_docker :: "docker_error \<Rightarrow> bool" where
  "IsNotFound_docker (DockerNotFound s) = True"
| "IsNotFound_docker (DockerConflict s) = False"
| "IsNotFound_docker (DockerOther s) = False"

fun IsConflict_docker :: "docker_error \<Rightarrow> bool" where
  "IsConflict_docker (DockerNotFound s) = False"
| "IsConflict_docker (DockerConflict s) = True"
| "IsConflict_docker (DockerOther s) = False"

text \<open>What \<open>ContainerCreate\<close> is given; a port binding is the list of its host addresses and ports.\<close>

record ContainerSpec =
  csName :: string
  csImage :: string
  csExposedPorts :: "string list"
  csCmd :: "string list"
  csLabels :: "(string \<times> string) list"
  csPortBindings :: "(string \<times> (string \<times> string) list) list"
  csMountSource :: string
  csNetworks :: "string list"

text \<open>
  What a listing and an inspection return; the endpoints of the networks (nil or an address) are in the
  order in which the loop over the map happens to visit them.
\<close>

record ContainerItem =
  ciID :: string
  ciNames :: "string list"
  ciLabels :: "(string \<times> string) list"

record ContainerInfo =
  cnName :: string
  cnLabels :: "(string \<times> string) list"
  cnEndpoints :: "string option list option"
  cnImage :: string
  cnConfigImage :: string

datatype ld_event =
    LGetClass string
  | LAuthToken ExitClaim
  | LListByName string
  | LListByLabel string
  | LMkdirAll string
  | LWriteFile string string
  | LImagePull string
  | LCreate ContainerSpec
  | LStart string
  | LInspect string
  | LStop string int
  | LRemove string

record ld_env =
  ldGetClass :: "ld_event list \<Rightarrow> string \<Rightarrow> apierror + LocalDockerProviderClass"
  ldAuthToken :: "ld_event list \<Rightarrow> ExitClaim \<Rightarrow> string + string"
  ldListByName :: "ld_event list \<Rightarrow> string \<Rightarrow> string + ContainerItem list"
  ldListByLabel :: "ld_event list \<Rightarrow> string \<Rightarrow> string + ContainerItem list"
  ldMkdirAll :: "ld_event list \<Rightarrow> string \<Rightarrow> string option"
  ldWriteFile :: "ld_event list \<Rightarrow> string \<Rightarrow> string \<Rightarrow> string option"
  ldImagePull :: "ld_event list \<Rightarrow> string \<Rightarrow> string option"
  ldContainerCreate :: "ld_event list \<Rightarrow> ContainerSpec \<Rightarrow> docker_error + string"
  ldContainerStart :: "ld_event list \<Rightarrow> string \<Rightarrow> string option"
  ldContainerInspect :: "ld_event list \<Rightarrow> string \<Rightarrow> docker_error + ContainerInfo"
  ldContainerStop :: "ld_event list \<Rightarrow> string \<Rightarrow> docker_error option"
  ldContainerRemove :: "ld_event list \<Rightarrow> string \<Rightarrow> docker_error option"
  ld_apiText :: "apierror \<Rightarrow> string"
  ld_printable :: "nat \<Rightarrow> bool"
  ld_fancy :: "string \<Rightarrow> string list \<Rightarrow> string"

type_synonym 'a ld_io = "(ld_event, 'a) proc"

section \<open>docker.go: names and files\<close>

definition providerLabel :: string where
  "providerLabel = ''frp-operator.io/provider''"

definition exitNameLabel :: string where
  "exitNameLabel = ''frp-operator.io/exit''"

definition providerName :: string where
  "providerName = ''local-docker''"

definition hostBindIP :: string where
  "hostBindIP = ''127.0.0.1''"

definition ld_providerIDPrefix :: string where
  "ld_providerIDPrefix = ''localdocker://''"

definition isAlnum :: "char \<Rightarrow> bool" where
  "isAlnum c \<longleftrightarrow> (CHR ''a'' \<le> c \<and> c \<le> CHR ''z'') \<or> (CHR ''A'' \<le> c \<and> c \<le> CHR ''Z'') \<or>
     (CHR ''0'' \<le> c \<and> c \<le> CHR ''9'')"

definition sanitizeName :: "string \<Rightarrow> string" where
  "sanitizeName s =
     (let out = map (\<lambda>c. if isAlnum c \<or> c = CHR ''_'' \<or> c = CHR ''.'' \<or> c = CHR ''-'' then c else CHR ''_'') s
      in if out = [] then ''x''
         else if \<not> isAlnum (hd out) \<and> hd out \<noteq> CHR ''_'' then CHR ''x'' # out else out)"

definition containerName :: "ExitClaim \<Rightarrow> string" where
  "containerName claim = ''frp-operator-'' @ sanitizeName (Name claim)"

definition imageRef :: "(string \<Rightarrow> string list \<Rightarrow> string) \<Rightarrow> LocalDockerProviderClass \<Rightarrow> string \<Rightarrow> string" where
  "imageRef fancy pc version =
     (let tpl = (if ldDefaultImage pc = [] then ''fatedier/frps:%s'' else ldDefaultImage pc)
      in if Contains tpl ''%s'' then Sprintf fancy tpl [version] else tpl)"

text \<open>\<open>filepath.Clean\<close> and \<open>filepath.Join\<close> on Unix; the stack of elements is reversed.\<close>

fun clean_loop :: "bool \<Rightarrow> string list \<Rightarrow> string list \<Rightarrow> string list" where
  "clean_loop rooted stack [] = rev stack"
| "clean_loop rooted stack (e # es) =
     (if e = [] \<or> e = ''.'' then clean_loop rooted stack es
      else if e = ''..'' then
        (case stack of
           [] \<Rightarrow> clean_loop rooted (if rooted then [] else [e]) es
         | s # ss \<Rightarrow> clean_loop rooted (if s = ''..'' then e # stack else ss) es)
      else clean_loop rooted (e # stack) es)"

definition Clean :: "string \<Rightarrow> string" where
  "Clean p =
     (if p = [] then ''.''
      else let rooted = (hd p = CHR ''/'');
               out = join CHR ''/'' (clean_loop rooted [] (Split1 p CHR ''/''))
           in if rooted then CHR ''/'' # out else if out = [] then ''.'' else out)"

definition filepath_Join :: "string list \<Rightarrow> string" where
  "filepath_Join es =
     (case dropWhile (\<lambda>e. e = []) es of [] \<Rightarrow> [] | es' \<Rightarrow> Clean (join CHR ''/'' es'))"

definition writeConfig ::
  "ld_env \<Rightarrow> LocalDockerProviderClass \<Rightarrow> ExitClaim \<Rightarrow> string \<Rightarrow> (cloud_error + string) ld_io" where
  "writeConfig E pc claim body =
     (let root = (if ldConfigHostMountPath pc = [] then ''/tmp/frp-operator-shared'' else ldConfigHostMountPath pc);
          dir = filepath_Join [root, sanitizeName (Name claim)];
          path = filepath_Join [dir, ''frps.toml'']
      in do { m \<leftarrow> call (LMkdirAll dir) (\<lambda>h. ldMkdirAll E h dir);
              case m of
                Some err \<Rightarrow> ret (Inl (CloudOther (''mkdir config: '' @ err)))
              | None \<Rightarrow>
                  do { w \<leftarrow> call (LWriteFile path body) (\<lambda>h. ldWriteFile E h path body);
                       ret (case w of
                              Some err \<Rightarrow> Inl (CloudOther (''write frps.toml: '' @ err))
                            | None \<Rightarrow> Inr path) } })"

section \<open>docker.go: containers\<close>

definition ContainerCreate :: "ld_env \<Rightarrow> ContainerSpec \<Rightarrow> (docker_error + string) ld_io" where
  "ContainerCreate E cs = call (LCreate cs) (\<lambda>h. ldContainerCreate E h cs)"

definition ContainerRemove :: "ld_env \<Rightarrow> string \<Rightarrow> docker_error option ld_io" where
  "ContainerRemove E ref = call (LRemove ref) (\<lambda>h. ldContainerRemove E h ref)"

fun item_loop :: "string \<Rightarrow> ContainerItem list \<Rightarrow> string option" where
  "item_loop name [] = None"
| "item_loop name (it # its) =
     (if CHR ''/'' # name \<in> set (ciNames it) then Some (ciID it) else item_loop name its)"

definition ld_findByName :: "ld_env \<Rightarrow> string \<Rightarrow> (cloud_error + string option) ld_io" where
  "ld_findByName E name =
     do { r \<leftarrow> call (LListByName name) (\<lambda>h. ldListByName E h name);
          ret (case r of
                 Inl err \<Rightarrow> Inl (CloudOther (''list containers: '' @ err))
               | Inr its \<Rightarrow> Inr (item_loop name its)) }"

definition admin_port :: "FrpsConfig \<Rightarrow> int" where
  "admin_port cfg = (if AdminPort cfg = 0 then 7400 else AdminPort cfg)"

definition tcp :: "int \<Rightarrow> string" where
  "tcp p = Itoa p @ ''/tcp''"

definition container_spec ::
  "ExitClaim \<Rightarrow> LocalDockerProviderClass \<Rightarrow> string \<Rightarrow> string \<Rightarrow> ContainerSpec" where
  "container_spec claim pc imgRef cfgPath =
     (let bindPort = bind_port (Frps (cSpec claim));
          adminPort = admin_port (Frps (cSpec claim));
          bound = (\<lambda>p. [(hostBindIP, Itoa p)])
      in \<lparr>csName = containerName claim, csImage = imgRef,
          csExposedPorts = sput (tcp adminPort) [tcp bindPort],
          csCmd = [''-c'', ''/etc/frp/frps.toml''],
          csLabels = [(providerLabel, providerName), (exitNameLabel, Name claim)],
          csPortBindings = (if ldSkipHostPortPublishing pc then []
             else mput (tcp adminPort) (bound adminPort) [(tcp bindPort, bound bindPort)]),
          csMountSource = cfgPath,
          csNetworks = (if ldNetwork pc = [] then [] else [ldNetwork pc])\<rparr>)"

text \<open>The last part of \<open>ensureContainer\<close>: create, with one retry on a conflict, and start.\<close>

definition start_container :: "ld_env \<Rightarrow> ContainerSpec \<Rightarrow> (cloud_error + string) ld_io" where
  "start_container E cs =
     do { r \<leftarrow> ContainerCreate E cs;
          r \<leftarrow> (case r of
                 Inr cid \<Rightarrow> ret (Inr cid)
               | Inl err \<Rightarrow>
                   if IsConflict_docker err then
                     do { _ \<leftarrow> ContainerRemove E (csName cs);
                          ContainerCreate E cs }
                   else ret (Inl err));
          case r of
            Inl err \<Rightarrow> ret (Inl (CloudOther (''container create: '' @ docker_text err)))
          | Inr cid \<Rightarrow>
              do { s \<leftarrow> call (LStart cid) (\<lambda>h. ldContainerStart E h cid);
                   ret (case s of
                          Some err \<Rightarrow> Inl (CloudOther (''container start: '' @ err))
                        | None \<Rightarrow> Inr (ld_providerIDPrefix @ cid)) } }"

definition ensureContainer ::
  "ld_env \<Rightarrow> ExitClaim \<Rightarrow> LocalDockerProviderClass \<Rightarrow> string \<Rightarrow> (cloud_error + string) ld_io" where
  "ensureContainer E claim pc authToken =
     do { found \<leftarrow> ld_findByName E (containerName claim);
          case found of
            Inl err \<Rightarrow> ret (Inl err)
          | Inr (Some cid) \<Rightarrow> ret (Inr (ld_providerIDPrefix @ cid))
          | Inr None \<Rightarrow>
              (case RenderConfig (ld_printable E) (Frps (cSpec claim)) authToken of
                 Inl err \<Rightarrow> ret (Inl (CloudOther (''render frps config: '' @ err)))
               | Inr body \<Rightarrow>
                   do { cfg \<leftarrow> writeConfig E pc claim body;
                        case cfg of
                          Inl err \<Rightarrow> ret (Inl err)
                        | Inr cfgPath \<Rightarrow>
                            do { let imgRef = imageRef (ld_fancy E) pc (Version (Frps (cSpec claim)));
                                 p \<leftarrow> call (LImagePull imgRef) (\<lambda>h. ldImagePull E h imgRef);
                                 case p of
                                   Some err \<Rightarrow> ret (Inl (CloudOther (''image pull: '' @ err)))
                                 | None \<Rightarrow> start_container E (container_spec claim pc imgRef cfgPath) } }) }"

text \<open>The claim that \<open>inspect\<close> and \<open>listManaged\<close> build: the fields that they set.\<close>

record ClaimView =
  cvName :: string
  cvProviderID :: string
  cvExitName :: string
  cvPublicIP :: string
  cvImageID :: string
  cvFrpsVersion :: string

fun endpoint_loop :: "string option list \<Rightarrow> string option" where
  "endpoint_loop [] = None"
| "endpoint_loop (ep # eps) =
     (case ep of Some ip \<Rightarrow> if ip \<noteq> [] then Some ip else endpoint_loop eps | None \<Rightarrow> endpoint_loop eps)"

definition inspected :: "string \<Rightarrow> ContainerInfo \<Rightarrow> ClaimView" where
  "inspected providerID resp =
     \<lparr>cvName = (case mget (cnLabels resp) exitNameLabel of Some n \<Rightarrow> n | None \<Rightarrow> []),
      cvProviderID = providerID,
      cvExitName = TrimPrefix (cnName resp) ''/'',
      cvPublicIP = (case cnEndpoints resp of
          None \<Rightarrow> hostBindIP
        | Some eps \<Rightarrow> (case endpoint_loop eps of Some ip \<Rightarrow> ip | None \<Rightarrow> hostBindIP)),
      cvImageID = (if cnImage resp \<noteq> [] then cnImage resp else cnConfigImage resp),
      cvFrpsVersion = []\<rparr>"

definition ld_inspect :: "ld_env \<Rightarrow> string \<Rightarrow> (cloud_error + ClaimView) ld_io" where
  "ld_inspect E providerID =
     (let cid = TrimPrefix providerID ld_providerIDPrefix
      in do { r \<leftarrow> call (LInspect cid) (\<lambda>h. ldContainerInspect E h cid);
              ret (case r of
                     Inl err \<Rightarrow>
                       if IsNotFound_docker err then Inl (ExitNotFoundError providerID)
                       else Inl (CloudOther (''inspect: '' @ docker_text err))
                   | Inr resp \<Rightarrow> Inr (inspected providerID resp)) })"

definition ld_remove :: "ld_env \<Rightarrow> string \<Rightarrow> cloud_error option ld_io" where
  "ld_remove E providerID =
     (let cid = TrimPrefix providerID ld_providerIDPrefix
      in do { s \<leftarrow> call (LStop cid 5) (\<lambda>h. ldContainerStop E h cid);
              if (case s of Some err \<Rightarrow> IsNotFound_docker err | None \<Rightarrow> False)
              then ret (Some (ExitNotFoundError providerID))
              else
                do { r \<leftarrow> ContainerRemove E cid;
                     ret (case r of
                            None \<Rightarrow> None
                          | Some err \<Rightarrow>
                              if IsNotFound_docker err then Some (ExitNotFoundError providerID)
                              else Some (CloudOther (''remove: '' @ docker_text err))) } })"

definition listed :: "ContainerItem \<Rightarrow> ClaimView" where
  "listed it =
     \<lparr>cvName = (case mget (ciLabels it) exitNameLabel of Some n \<Rightarrow> n | None \<Rightarrow> []),
      cvProviderID = ld_providerIDPrefix @ ciID it, cvExitName = [], cvPublicIP = [], cvImageID = [],
      cvFrpsVersion = []\<rparr>"

definition ld_listManaged :: "ld_env \<Rightarrow> (cloud_error + ClaimView list) ld_io" where
  "ld_listManaged E =
     (let label = providerLabel @ ''='' @ providerName
      in do { r \<leftarrow> call (LListByLabel label) (\<lambda>h. ldListByLabel E h label);
              ret (case r of
                     Inl err \<Rightarrow> Inl (CloudOther (''list containers: '' @ err))
                   | Inr its \<Rightarrow> Inr (map listed its)) })"

section \<open>instancetype.go, cloudprovider.go\<close>

definition local_1 :: InstanceType where
  "local_1 =
     \<lparr>itName = ''local-1'', itRequirements = [],
      itOfferings = [\<lparr>ofRequirements = [], Price = 0, ofAvailable = True\<rparr>],
      itCapacity = [(''cpu'', units 8), (''memory'', Gi 16), (''frp.operator.io/bandwidthMbps'', units 10000)],
      itOverhead = []\<rparr>"

definition ld_InstanceTypes :: "InstanceType list" where
  "ld_InstanceTypes = [local_1]"

record ld_provider =
  ldKube :: bool
  ldAuthTokenResolver :: bool

text \<open>\<open>New\<close>: the answer of the SDK's initialisation is an argument.\<close>

definition ld_New :: "bool \<Rightarrow> string option \<Rightarrow> string + ld_provider" where
  "ld_New kube sdkError =
     (case sdkError of
        Some err \<Rightarrow> Inl (''docker client: '' @ err)
      | None \<Rightarrow> Inr \<lparr>ldKube = kube, ldAuthTokenResolver = False\<rparr>)"

definition ld_resolveClass ::
  "ld_env \<Rightarrow> ld_provider \<Rightarrow> ExitClaim \<Rightarrow> (cloud_error + LocalDockerProviderClass) ld_io" where
  "ld_resolveClass E c claim =
     (let ref = ProviderClassRef (cSpec claim) in
      if refKind ref \<noteq> ''LocalDockerProviderClass'' then
        ret (Inl (CloudOther (''localdocker: refusing kind '' @ Quote (ld_printable E) (refKind ref))))
      else if \<not> ldKube c then ret (Inl (CloudOther ''localdocker: kube client not configured''))
      else
        do { got \<leftarrow> call (LGetClass (refName ref)) (\<lambda>h. ldGetClass E h (refName ref));
             ret (case got of
                    Inl err \<Rightarrow> Inl (CloudOther (''get LocalDockerProviderClass '' @
                                 Quote (ld_printable E) (refName ref) @ '': '' @ ld_apiText E err))
                  | Inr pc \<Rightarrow> Inr pc) })"

definition ld_hydrate ::
  "ld_env \<Rightarrow> LocalDockerProviderClass \<Rightarrow> ExitClaim \<Rightarrow> string \<Rightarrow> cloud_error + ClaimView \<Rightarrow> ExitClaim" where
  "ld_hydrate E pc claim pid got =
     claim\<lparr>cStatus := (cStatus claim)
       \<lparr>ProviderID := pid, ExitName := containerName claim,
        ImageID := imageRef (ld_fancy E) pc (Version (Frps (cSpec claim))),
        FrpsVersion := Version (Frps (cSpec claim)),
        Capacity := itCapacity (ld_InstanceTypes ! 0), Allocatable := it_Allocatable (ld_InstanceTypes ! 0),
        PublicIP := (case got of Inr v \<Rightarrow> cvPublicIP v | Inl _ \<Rightarrow> hostBindIP)\<rparr>\<rparr>"

definition ld_Create :: "ld_env \<Rightarrow> ld_provider \<Rightarrow> ExitClaim \<Rightarrow> (cloud_error + ExitClaim) ld_io" where
  "ld_Create E c claim =
     do { pc \<leftarrow> ld_resolveClass E c claim;
          case pc of
            Inl err \<Rightarrow> ret (Inl err)
          | Inr pc \<Rightarrow>
              do { tok \<leftarrow> (if ldAuthTokenResolver c then call (LAuthToken claim) (\<lambda>h. ldAuthToken E h claim)
                          else ret (Inr []));
                   case tok of
                     Inl err \<Rightarrow> ret (Inl (CloudOther (''resolve auth token: '' @ err)))
                   | Inr token \<Rightarrow>
                       do { r \<leftarrow> ensureContainer E claim pc token;
                            case r of
                              Inl err \<Rightarrow> ret (Inl err)
                            | Inr pid \<Rightarrow>
                                do { got \<leftarrow> ld_inspect E pid;
                                     ret (Inr (ld_hydrate E pc claim pid got)) } } } }"

definition ld_Delete :: "ld_env \<Rightarrow> ExitClaim \<Rightarrow> cloud_error option ld_io" where
  "ld_Delete E claim =
     (if ProviderID (cStatus claim) = [] then ret (Some (ExitNotFoundError []))
      else ld_remove E (ProviderID (cStatus claim)))"

definition ld_Get :: "ld_env \<Rightarrow> string \<Rightarrow> (cloud_error + ClaimView) ld_io" where
  "ld_Get E providerID = ld_inspect E providerID"

definition ld_List :: "ld_env \<Rightarrow> (cloud_error + ClaimView list) ld_io" where
  "ld_List E = ld_listManaged E"

definition ld_GetInstanceTypes :: "ld_provider \<Rightarrow> ExitPool \<Rightarrow> string + InstanceType list" where
  "ld_GetInstanceTypes c pool = Inr ld_InstanceTypes"

definition ld_IsDrifted :: "ld_env \<Rightarrow> ExitClaim \<Rightarrow> (cloud_error + string) ld_io" where
  "ld_IsDrifted E claim =
     (if ProviderID (cStatus claim) = [] then ret (Inr [])
      else
        do { got \<leftarrow> ld_Get E (ProviderID (cStatus claim));
             ret (case got of
                    Inl err \<Rightarrow> if IsExitNotFound err then Inr ''Vanished'' else Inl err
                  | Inr v \<Rightarrow>
                      if cvFrpsVersion v \<noteq> [] \<and> cvFrpsVersion v \<noteq> Version (Frps (cSpec claim))
                      then Inr ''FrpsVersionMismatch'' else Inr []) })"

end
