(* ===== verification/LocalDockerProps.thy ===== *)
theory LocalDockerProps
  imports LocalDocker Samples
begin

text \<open>
  Properties of the local Docker provider: the contract of a cloud provider over the containers that its
  calls leave behind, and what \<open>Create\<close> makes of a container that exists already.
\<close>

section \<open>Containers after a history\<close>

text \<open>\<open>cs0\<close> are the containers at the start; a reference to a container is its id or its name.\<close>

record Container =
  ctID :: string
  ctName :: string
  ctRunning :: bool

definition refers :: "string \<Rightarrow> Container \<Rightarrow> bool" where
  "refers ref ct \<longleftrightarrow> ctID ct = ref \<or> ctName ct = ref"

fun container_step :: "ld_env \<Rightarrow> ld_event list \<times> ld_event \<Rightarrow> Container list \<Rightarrow> Container list" where
  "container_step E (h, LCreate cs) cts =
     (case ldContainerCreate E h cs of
        Inl _ \<Rightarrow> cts
      | Inr cid \<Rightarrow> \<lparr>ctID = cid, ctName = csName cs, ctRunning = False\<rparr> # cts)"
| "container_step E (h, LStart ref) cts =
     (case ldContainerStart E h ref of
        Some _ \<Rightarrow> cts
      | None \<Rightarrow> map (\<lambda>ct. if refers ref ct then ct\<lparr>ctRunning := True\<rparr> else ct) cts)"
| "container_step E (h, LStop ref t) cts =
     (case ldContainerStop E h ref of
        Some _ \<Rightarrow> cts
      | None \<Rightarrow> map (\<lambda>ct. if refers ref ct then ct\<lparr>ctRunning := False\<rparr> else ct) cts)"
| "container_step E (h, LRemove ref) cts =
     (case ldContainerRemove E h ref of Some _ \<Rightarrow> cts | None \<Rightarrow> filter (\<lambda>ct. \<not> refers ref ct) cts)"
| "container_step E _ cts = cts"

definition containers :: "ld_env \<Rightarrow> Container list \<Rightarrow> ld_event list \<Rightarrow> Container list" where
  "containers E cs0 h = fold (container_step E) (steps [] h) cs0"

lemma containers_Nil [simp]: "containers E cs0 [] = cs0"
  by (simp add: containers_def)

lemma containers_snoc [simp]: "containers E cs0 (h @ [e]) = container_step E (h, e) (containers E cs0 h)"
  by (simp add: containers_def)

text \<open>
  The documented behaviour of the daemon, while only this process changes its containers: ids are 64
  hexadecimal digits, a listing by name returns the containers of that name, \<open>ContainerCreate\<close> refuses
  a name in use as a conflict, and a container that exists is found.
\<close>

definition container_id :: "string \<Rightarrow> bool" where
  "container_id i \<longleftrightarrow> length i = 64 \<and> (\<forall>c \<in> set i. c \<in> set ''0123456789abcdef'')"

definition ld_api_ok :: "ld_env \<Rightarrow> Container list \<Rightarrow> bool" where
  "ld_api_ok E cs0 \<longleftrightarrow>
     (\<forall>h n its. ldListByName E h n = Inr its \<longrightarrow>
        ciID ` {it \<in> set its. CHR ''/'' # n \<in> set (ciNames it)} =
        ctID ` {ct \<in> set (containers E cs0 h). ctName ct = n}) \<and>
     (\<forall>h cs cid. ldContainerCreate E h cs = Inr cid \<longrightarrow>
        container_id cid \<and> cid \<notin> ctID ` set (containers E cs0 h) \<and> csName cs \<notin> ctName ` set (containers E cs0 h)) \<and>
     (\<forall>h cs msg. ldContainerCreate E h cs = Inl (DockerConflict msg) \<longrightarrow> csName cs \<in> ctName ` set (containers E cs0 h)) \<and>
     (\<forall>h ref msg. ldContainerStop E h ref = Some (DockerNotFound msg) \<longrightarrow> \<not> list_ex (refers ref) (containers E cs0 h)) \<and>
     (\<forall>h ref msg. ldContainerRemove E h ref = Some (DockerNotFound msg) \<longrightarrow> \<not> list_ex (refers ref) (containers E cs0 h))"

definition exit_of :: "Container \<Rightarrow> string \<times> string" where
  "exit_of ct = (ctName ct, ld_providerIDPrefix @ ctID ct)"

definition ld_exits :: "ld_env \<Rightarrow> Container list \<Rightarrow> ld_event list \<Rightarrow> (string \<times> string) set" where
  "ld_exits E cs0 h = exit_of ` set (containers E cs0 h)"

definition ld_valid_id :: "string \<Rightarrow> bool" where
  "ld_valid_id p \<longleftrightarrow> (\<exists>i. container_id i \<and> p = ld_providerIDPrefix @ i)"

text \<open>Names and ids determine each other, and no name looks like an id.\<close>

definition exits_ok :: "(string \<times> string) set \<Rightarrow> bool" where
  "exits_ok X \<longleftrightarrow>
     (\<forall>x \<in> X. ld_valid_id (snd x) \<and> \<not> container_id (fst x)) \<and>
     (\<forall>x \<in> X. \<forall>y \<in> X. fst x = fst y \<longleftrightarrow> snd x = snd y)"

definition ld_ok :: "ld_env \<Rightarrow> Container list \<Rightarrow> ld_event list \<Rightarrow> bool" where
  "ld_ok E cs0 h \<longleftrightarrow> ld_api_ok E cs0 \<and> exits_ok (ld_exits E cs0 h)"

lemma exits_flag:
  "exit_of ` set (map (\<lambda>ct. if refers ref ct then ct\<lparr>ctRunning := b\<rparr> else ct) cts) = exit_of ` set cts"
  by (induction cts) (simp_all add: exit_of_def)

lemma exits_filter:
  "exit_of ` set (filter (\<lambda>ct. \<not> refers ref ct) cts) =
     {(n, p) \<in> exit_of ` set cts. n \<noteq> ref \<and> p \<noteq> ld_providerIDPrefix @ ref}"
  by (auto simp: exit_of_def refers_def)

lemma refers_exits:
  "list_ex (refers ref) cts \<longleftrightarrow> (\<exists>(n, p) \<in> exit_of ` set cts. n = ref \<or> p = ld_providerIDPrefix @ ref)"
  by (auto simp: exit_of_def refers_def list_ex_iff)

section \<open>Calls that leave the containers alone\<close>

fun unobtrusive :: "ld_event \<Rightarrow> bool" where
  "unobtrusive (LCreate cs) = False"
| "unobtrusive (LStart i) = False"
| "unobtrusive (LStop i t) = False"
| "unobtrusive (LRemove i) = False"
| "unobtrusive _ = True"

lemma containers_unobtrusive: "list_all unobtrusive es \<Longrightarrow> containers E cs0 (h @ es) = containers E cs0 h"
proof (induction es rule: rev_induct)
  case (snoc e es)
  then have "containers E cs0 (h @ es @ [e]) = container_step E (h @ es, e) (containers E cs0 h)"
    using containers_snoc [of E cs0 "h @ es" e] by simp
  with snoc show ?case by (cases e) simp_all
qed simp

lemma unobtrusive_run:
  "emits unobtrusive m \<Longrightarrow> run_state m h = (x, h') \<Longrightarrow> containers E cs0 h' = containers E cs0 h"
  by (erule (1) emits_run) (simp add: containers_unobtrusive)

lemma ld_resolveClass_unobtrusive: "emits unobtrusive (ld_resolveClass E c claim)"
  unfolding ld_resolveClass_def Let_def by (auto intro!: emits_intros)

lemma ld_auth_unobtrusive:
  "emits unobtrusive (if ldAuthTokenResolver c then call (LAuthToken claim) (\<lambda>h. ldAuthToken E h claim) else ret (Inr []))"
  by (auto intro!: emits_intros)

lemma ld_inspect_unobtrusive: "emits unobtrusive (ld_inspect E pid)"
  unfolding ld_inspect_def Let_def by (auto intro!: emits_intros)

lemma writeConfig_unobtrusive: "emits unobtrusive (writeConfig E pc claim body)"
  unfolding writeConfig_def Let_def by (auto intro!: emits_intros)

section \<open>Create\<close>

lemma item_loop_Some: "item_loop n its = Some i \<Longrightarrow> i \<in> ciID ` {it \<in> set its. CHR ''/'' # n \<in> set (ciNames it)}"
  by (induction its) (auto split: if_splits)

lemma item_loop_None: "item_loop n its = None \<longleftrightarrow> {it \<in> set its. CHR ''/'' # n \<in> set (ciNames it)} = {}"
  by (induction its) auto

lemma containerName_not_id: "\<not> container_id (containerName claim)"
  by (auto simp: container_id_def containerName_def)

lemma container_id_ne: "container_id i \<Longrightarrow> i \<noteq> containerName claim"
  using containerName_not_id by blast

text \<open>
  Starting a container for a name that is free: an error, perhaps with a container that was created and
  not started, or the new container running.
\<close>

lemma start_container_cases:
  assumes "ld_ok E cs0 h" and "csName cs \<notin> fst ` ld_exits E cs0 h"
    and "run_state (start_container E cs) h = (r, h')"
  obtains (none) err where "r = Inl err" and "ld_exits E cs0 h' = ld_exits E cs0 h"
  | (one) cid where "container_id cid" and "ld_providerIDPrefix @ cid \<notin> snd ` ld_exits E cs0 h"
      and "ld_exits E cs0 h' = insert (csName cs, ld_providerIDPrefix @ cid) (ld_exits E cs0 h)"
      and "(\<exists>err. r = Inl err) \<or> r = Inr (ld_providerIDPrefix @ cid)"
proof -
  have names: "fst ` ld_exits E cs0 h = ctName ` set (containers E cs0 h)"
    by (auto simp: ld_exits_def exit_of_def image_iff)
  have ids: "ld_providerIDPrefix @ i \<in> snd ` ld_exits E cs0 h \<longleftrightarrow> i \<in> ctID ` set (containers E cs0 h)" for i
    by (auto simp: ld_exits_def exit_of_def image_iff)
  show ?thesis
  proof (cases "ldContainerCreate E h cs")
    case (Inl err)
    moreover have "\<not> IsConflict_docker err"
      using Inl assms(1,2) unfolding ld_ok_def ld_api_ok_def names by (cases err) auto
    ultimately show ?thesis using assms(3)
      by (intro none) (auto simp: start_container_def ContainerCreate_def ld_exits_def)
  next
    case (Inr cid)
    then have cid: "container_id cid" "cid \<notin> ctID ` set (containers E cs0 h)"
      using assms(1) unfolding ld_ok_def ld_api_ok_def by blast+
    let ?new = "\<lparr>ctID = cid, ctName = csName cs, ctRunning = False\<rparr>"
    let ?h1 = "h @ [LCreate cs]"
    have c1: "containers E cs0 ?h1 = ?new # containers E cs0 h" using Inr by simp
    have run: "h' = ?h1 @ [LStart cid]"
      "r = (case ldContainerStart E ?h1 cid of Some err \<Rightarrow> Inl (CloudOther (''container start: '' @ err))
            | None \<Rightarrow> Inr (ld_providerIDPrefix @ cid))"
      using assms(3) Inr by (auto simp: start_container_def ContainerCreate_def)
    have "ld_exits E cs0 h' = exit_of ` set (?new # containers E cs0 h)"
      unfolding ld_exits_def run(1) containers_snoc [of E cs0 ?h1] c1
      by (simp add: exits_flag del: set_map list.map set_simps split: option.split)
    then have "ld_exits E cs0 h' = insert (csName cs, ld_providerIDPrefix @ cid) (ld_exits E cs0 h)"
      by (simp add: ld_exits_def exit_of_def)
    with run(2) cid ids show ?thesis by (intro one [of cid]) (auto split: option.splits)
  qed
qed


lemma list_by_name:
  assumes "ld_ok E cs0 h" and "ldListByName E h n = Inr its"
  shows "(\<lambda>i. (n, ld_providerIDPrefix @ i)) ` (ciID ` {it \<in> set its. CHR ''/'' # n \<in> set (ciNames it)}) =
    {x \<in> ld_exits E cs0 h. fst x = n}"
proof -
  have "\<forall>h n its. ldListByName E h n = Inr its \<longrightarrow>
      ciID ` {it \<in> set its. CHR ''/'' # n \<in> set (ciNames it)} = ctID ` {ct \<in> set (containers E cs0 h). ctName ct = n}"
    using assms(1) unfolding ld_ok_def ld_api_ok_def by (elim conjE)
  with assms(2) have "ciID ` {it \<in> set its. CHR ''/'' # n \<in> set (ciNames it)} =
      ctID ` {ct \<in> set (containers E cs0 h). ctName ct = n}" by (elim allE impE)
  moreover have "(\<lambda>i. (n, ld_providerIDPrefix @ i)) ` (ctID ` {ct \<in> set (containers E cs0 h). ctName ct = n}) =
      {x \<in> ld_exits E cs0 h. fst x = n}"
    by (auto simp: ld_exits_def exit_of_def)
  ultimately show ?thesis by simp
qed

lemma run_ensureContainer:
  assumes "run_state (writeConfig E pc claim (projr (RenderConfig (ld_printable E) (Frps (cSpec claim)) tok)))
      (h @ [LListByName (containerName claim)]) = (cfg, h2)"
    and "imageRef (ld_fancy E) pc (Version (Frps (cSpec claim))) = img"
  shows "run_state (ensureContainer E claim pc tok) h =
    (case ldListByName E h (containerName claim) of
       Inl err \<Rightarrow> (Inl (CloudOther (''list containers: '' @ err)), h @ [LListByName (containerName claim)])
     | Inr its \<Rightarrow>
    (case item_loop (containerName claim) its of
       Some cid \<Rightarrow> (Inr (ld_providerIDPrefix @ cid), h @ [LListByName (containerName claim)])
     | None \<Rightarrow>
    (case RenderConfig (ld_printable E) (Frps (cSpec claim)) tok of
       Inl err \<Rightarrow> (Inl (CloudOther (''render frps config: '' @ err)), h @ [LListByName (containerName claim)])
     | Inr body \<Rightarrow>
    (case cfg of
       Inl err \<Rightarrow> (Inl err, h2)
     | Inr path \<Rightarrow>
    (case ldImagePull E h2 img of
       Some err \<Rightarrow> (Inl (CloudOther (''image pull: '' @ err)), h2 @ [LImagePull img])
     | None \<Rightarrow> run_state (start_container E (container_spec claim pc img path)) (h2 @ [LImagePull img]))))))"
  using assms
  by (cases "RenderConfig (ld_printable E) (Frps (cSpec claim)) tok")
    (simp_all add: ensureContainer_def ld_findByName_def Let_def split: sum.split option.split)

text \<open>\<open>ensureContainer\<close>: the containers stay as they are, or there is one more, under the claim's name.\<close>

lemma ensureContainer_cases:
  assumes "ld_ok E cs0 h" and "run_state (ensureContainer E claim pc tok) h = (r, h')"
  obtains (none) err where "r = Inl err" and "ld_exits E cs0 h' = ld_exits E cs0 h"
  | (found) p where "r = Inr p" and "(containerName claim, p) \<in> ld_exits E cs0 h"
      and "containers E cs0 h' = containers E cs0 h"
  | (one) cid where "container_id cid" and "ld_providerIDPrefix @ cid \<notin> snd ` ld_exits E cs0 h"
      and "containerName claim \<notin> fst ` ld_exits E cs0 h"
      and "ld_exits E cs0 h' = insert (containerName claim, ld_providerIDPrefix @ cid) (ld_exits E cs0 h)"
      and "(\<exists>err. r = Inl err) \<or> r = Inr (ld_providerIDPrefix @ cid)"
proof -
  let ?n = "containerName claim"
  let ?h1 = "h @ [LListByName ?n]"
  define img where "img = imageRef (ld_fancy E) pc (Version (Frps (cSpec claim)))"
  obtain cfg h2 where w: "run_state (writeConfig E pc claim
      (projr (RenderConfig (ld_printable E) (Frps (cSpec claim)) tok))) ?h1 = (cfg, h2)" by fastforce
  note run = assms(2) [unfolded run_ensureContainer [OF w img_def [symmetric]]]
  have c1: "containers E cs0 ?h1 = containers E cs0 h" by simp
  have c2: "containers E cs0 h2 = containers E cs0 h"
    using unobtrusive_run [OF writeConfig_unobtrusive w] c1 by simp
  have e1: "ld_exits E cs0 ?h1 = ld_exits E cs0 h" "ld_exits E cs0 h2 = ld_exits E cs0 h"
    "ld_exits E cs0 (h2 @ [LImagePull img]) = ld_exits E cs0 h" by (simp_all add: ld_exits_def c2)
  show ?thesis
  proof (cases "ldListByName E h ?n")
    case (Inl err)
    with run have r: "r = Inl (CloudOther (''list containers: '' @ err))" "h' = ?h1" by simp_all
    show ?thesis by (rule none [OF r(1)]) (simp add: r(2) e1)
  next
    case its: (Inr its)
    note run = run [unfolded its sum.case]
    note listed = list_by_name [OF assms(1) its]
    show ?thesis
    proof (cases "item_loop ?n its")
      case (Some i)
      with run have r: "r = Inr (ld_providerIDPrefix @ i)" "h' = ?h1" by simp_all
      have "(?n, ld_providerIDPrefix @ i) \<in> {x \<in> ld_exits E cs0 h. fst x = ?n}"
        unfolding listed [symmetric] by (rule imageI [OF item_loop_Some [OF Some]])
      then show ?thesis by (intro found [OF r(1)]) (simp_all add: r(2))
    next
      case free: None
      note run = run [unfolded free option.case]
      have "{x \<in> ld_exits E cs0 h. fst x = ?n} = {}"
        unfolding listed [symmetric] using free [unfolded item_loop_None] by simp
      then have name: "?n \<notin> fst ` ld_exits E cs0 h" by auto
      show ?thesis
      proof (cases "RenderConfig (ld_printable E) (Frps (cSpec claim)) tok")
        case (Inl err)
        with run have r: "r = Inl (CloudOther (''render frps config: '' @ err))" "h' = ?h1" by simp_all
        show ?thesis by (rule none [OF r(1)]) (simp add: r(2) e1)
      next
        case (Inr body)
        note run = run [unfolded Inr sum.case]
        show ?thesis
        proof (cases cfg)
          case (Inl err)
          with run have r: "r = Inl err" "h' = h2" by simp_all
          show ?thesis by (rule none [OF r(1)]) (simp add: r(2) e1)
        next
          case cfg: (Inr path)
          note run = run [unfolded cfg sum.case]
          let ?cs = "container_spec claim pc img path"
          show ?thesis
          proof (cases "ldImagePull E h2 img")
            case (Some err)
            with run have r: "r = Inl (CloudOther (''image pull: '' @ err))" "h' = h2 @ [LImagePull img]" by simp_all
            show ?thesis by (rule none [OF r(1)]) (simp only: r(2) e1)
          next
            case None
            have cs: "csName ?cs = ?n" by (simp add: container_spec_def Let_def)
            have ok3: "ld_ok E cs0 (h2 @ [LImagePull img])" using assms(1) by (simp only: ld_ok_def e1)
            have r3: "run_state (start_container E ?cs) (h2 @ [LImagePull img]) = (r, h')"
              using run None by simp
            show ?thesis
            proof (rule start_container_cases [OF ok3 _ r3], unfold e1 cs, goal_cases)
              case 1
              show ?case by (rule name)
            next
              case (2 err)
              then show ?case by (rule none)
            next
              case (3 cid)
              show ?case by (rule one [OF 3(1,2) name 3(3,4)])
            qed
          qed
        qed
      qed
    qed
  qed
qed

lemma ld_Create_cases:
  assumes "ld_ok E cs0 h" and "run_state (ld_Create E c claim) h = (r, h')"
  obtains (none) err where "r = Inl err" and "ld_exits E cs0 h' = ld_exits E cs0 h"
  | (found) out where "r = Inr out" and "(containerName claim, ProviderID (cStatus out)) \<in> ld_exits E cs0 h"
      and "containers E cs0 h' = containers E cs0 h"
  | (one) cid where "container_id cid" and "ld_providerIDPrefix @ cid \<notin> snd ` ld_exits E cs0 h"
      and "containerName claim \<notin> fst ` ld_exits E cs0 h"
      and "ld_exits E cs0 h' = insert (containerName claim, ld_providerIDPrefix @ cid) (ld_exits E cs0 h)"
      and "(\<exists>err. r = Inl err) \<or> (\<exists>out. r = Inr out \<and> ProviderID (cStatus out) = ld_providerIDPrefix @ cid)"
proof -
  obtain pc h1 where 1: "run_state (ld_resolveClass E c claim) h = (pc, h1)" by fastforce
  have c1: "containers E cs0 h1 = containers E cs0 h" by (rule unobtrusive_run [OF ld_resolveClass_unobtrusive 1])
  show ?thesis
  proof (cases pc)
    case (Inl err)
    with assms(2) 1 c1 show ?thesis by (intro none) (auto simp: ld_Create_def ld_exits_def)
  next
    case pc: (Inr pc')
    obtain tok h2 where 2: "run_state (if ldAuthTokenResolver c then call (LAuthToken claim)
        (\<lambda>h. ldAuthToken E h claim) else ret (Inr [])) h1 = (tok, h2)" by fastforce
    have c2: "containers E cs0 h2 = containers E cs0 h" using unobtrusive_run [OF ld_auth_unobtrusive 2] c1 by simp
    have e2: "ld_exits E cs0 h2 = ld_exits E cs0 h" by (simp add: ld_exits_def c2)
    show ?thesis
    proof (cases tok)
      case (Inl err)
      with assms(2) 1 2 pc e2 show ?thesis
        by (intro none) (auto simp: ld_Create_def simp del: run_if)
    next
      case tok: (Inr token)
      obtain p h3 where 3: "run_state (ensureContainer E claim pc' token) h2 = (p, h3)" by fastforce
      have ok2: "ld_ok E cs0 h2" using assms(1) by (simp add: ld_ok_def e2)
      obtain got h4 where 4: "run_state (ld_inspect E (projr p)) h3 = (got, h4)" by fastforce
      have c4: "containers E cs0 h4 = containers E cs0 h3" by (rule unobtrusive_run [OF ld_inspect_unobtrusive 4])
      have res: "(r, h') = (case p of Inl err \<Rightarrow> (Inl err, h3) | Inr pid \<Rightarrow> (Inr (ld_hydrate E pc' claim pid got), h4))"
        using assms(2) 1 2 3 4 pc tok by (cases p) (auto simp: ld_Create_def simp del: run_if)
      have e': "ld_exits E cs0 h' = ld_exits E cs0 h3" "containers E cs0 h' = containers E cs0 h3"
        using res c4 by (auto simp: ld_exits_def split: sum.splits)
      have pid: "ProviderID (cStatus (ld_hydrate E pc' claim q got)) = q" for q
        by (simp add: ld_hydrate_def)
      show ?thesis
      proof (rule ensureContainer_cases [OF ok2 3], unfold e2, goal_cases)
        case (1 err)
        with res e' show ?case by (intro none) auto
      next
        case (2 q)
        with res e' c2 pid show ?case by (intro found) auto
      next
        case (3 cid)
        from 3(5) res pid have
          "(\<exists>err. r = Inl err) \<or> (\<exists>out. r = Inr out \<and> ProviderID (cStatus out) = ld_providerIDPrefix @ cid)" by auto
        with 3(1-4) e' show ?case by (intro one [of cid]) simp_all
      qed
    qed
  qed
qed


section \<open>Delete and the contract\<close>

definition others :: "string \<Rightarrow> (string \<times> string) set \<Rightarrow> (string \<times> string) set" where
  "others ref X = {(n, p) \<in> X. n \<noteq> ref \<and> p \<noteq> ld_providerIDPrefix @ ref}"

lemma exits_stop: "ld_exits E cs0 (h @ [LStop ref t]) = ld_exits E cs0 h"
  unfolding ld_exits_def containers_snoc container_step.simps
  by (simp add: exits_flag del: set_map split: option.split)

lemma exits_remove:
  "ld_exits E cs0 (h @ [LRemove ref]) =
     (if ldContainerRemove E h ref = None then others ref (ld_exits E cs0 h) else ld_exits E cs0 h)"
  unfolding ld_exits_def containers_snoc container_step.simps others_def
  by (simp add: exits_filter del: set_filter split: option.split)

lemma others_id: "\<not> list_ex (refers ref) (containers E cs0 h) \<Longrightarrow> others ref (ld_exits E cs0 h) = ld_exits E cs0 h"
  unfolding refers_exits others_def ld_exits_def by blast

lemma api_stop:
  "ld_api_ok E cs0 \<Longrightarrow> ldContainerStop E h ref = Some (DockerNotFound msg) \<Longrightarrow>
     \<not> list_ex (refers ref) (containers E cs0 h)"
  unfolding ld_api_ok_def by blast

lemma api_remove:
  "ld_api_ok E cs0 \<Longrightarrow> ldContainerRemove E h ref = Some (DockerNotFound msg) \<Longrightarrow>
     \<not> list_ex (refers ref) (containers E cs0 h)"
  unfolding ld_api_ok_def by blast

lemma ld_Delete_cases:
  assumes "ld_ok E cs0 h" and "run_state (ld_Delete E claim) h = (r, h')"
  obtains (kept) err where "r = Some err" and "ld_exits E cs0 h' = ld_exits E cs0 h"
      and "IsExitNotFound err \<Longrightarrow> ProviderID (cStatus claim) \<noteq> [] \<Longrightarrow>
        others (TrimPrefix (ProviderID (cStatus claim)) ld_providerIDPrefix) (ld_exits E cs0 h) = ld_exits E cs0 h"
  | (removed) "r = None" and
      "ld_exits E cs0 h' = others (TrimPrefix (ProviderID (cStatus claim)) ld_providerIDPrefix) (ld_exits E cs0 h)"
proof (cases "ProviderID (cStatus claim) = []")
  case True
  with assms(2) show ?thesis by (intro kept) (auto simp: ld_Delete_def)
next
  case False
  define ref where "ref = TrimPrefix (ProviderID (cStatus claim)) ld_providerIDPrefix"
  let ?h1 = "h @ [LStop ref 5]"
  have api: "ld_api_ok E cs0" using assms(1) by (simp add: ld_ok_def)
  have run: "run_state (ld_remove E (ProviderID (cStatus claim))) h = (r, h')"
    using assms(2) False by (simp add: ld_Delete_def)
  show ?thesis
  proof (cases "\<exists>msg. ldContainerStop E h ref = Some (DockerNotFound msg)")
    case True
    then obtain msg where m: "ldContainerStop E h ref = Some (DockerNotFound msg)" by blast
    with run have "r = Some (ExitNotFoundError (ProviderID (cStatus claim)))" "h' = ?h1"
      by (simp_all add: ld_remove_def ref_def [symmetric] Let_def)
    with others_id [OF api_stop [OF api m]] show ?thesis
      unfolding ref_def [symmetric] by (intro kept) (simp_all add: exits_stop ref_def [symmetric])
  next
    case found: False
    then have nf: "\<not> (case ldContainerStop E h ref of Some err \<Rightarrow> IsNotFound_docker err | None \<Rightarrow> False)"
      by (auto split: option.splits elim: IsNotFound_docker.elims)
    have h': "h' = ?h1 @ [LRemove ref]" and r: "r = (case ldContainerRemove E ?h1 ref of
        None \<Rightarrow> None
      | Some err \<Rightarrow> if IsNotFound_docker err then Some (ExitNotFoundError (ProviderID (cStatus claim)))
          else Some (CloudOther (''remove: '' @ docker_text err)))"
      using run nf by (auto simp: ld_remove_def ref_def [symmetric] Let_def ContainerRemove_def)
    show ?thesis
    proof (cases "ldContainerRemove E ?h1 ref")
      case None
      then have "ld_exits E cs0 h' = others ref (ld_exits E cs0 h)"
        unfolding h' exits_remove exits_stop by simp
      with None r show ?thesis by (intro removed) (simp_all add: ref_def)
    next
      case (Some err)
      then have e: "ld_exits E cs0 h' = ld_exits E cs0 h"
        unfolding h' exits_remove exits_stop by simp
      show ?thesis
      proof (cases err)
        case (DockerNotFound msg)
        with Some have "others ref (ld_exits E cs0 ?h1) = ld_exits E cs0 ?h1" by (intro others_id api_remove [OF api]) simp
        with Some DockerNotFound r e show ?thesis
          unfolding exits_stop ref_def by (intro kept) simp_all
      next
        case (DockerConflict msg)
        with Some r have "r = Some (CloudOther (''remove: '' @ msg))" by simp
        then show ?thesis by (rule kept) (simp_all add: e)
      next
        case (DockerOther msg)
        with Some r have "r = Some (CloudOther (''remove: '' @ msg))" by simp
        then show ?thesis by (rule kept) (simp_all add: e)
      qed
    qed
  qed
qed

lemma exits_ok_others: "exits_ok X \<Longrightarrow> exits_ok (others ref X)"
  unfolding exits_ok_def others_def by blast

lemma others_valid:
  assumes "exits_ok X" and "container_id ref"
  shows "others ref X = {(n, p) \<in> X. p \<noteq> ld_providerIDPrefix @ ref}"
  using assms unfolding exits_ok_def others_def by fastforce

lemma exits_ok_insert:
  assumes "exits_ok X" and "container_id i" and "\<not> container_id n" and "n \<notin> fst ` X" and "ld_providerIDPrefix @ i \<notin> snd ` X"
  shows "exits_ok (insert (n, ld_providerIDPrefix @ i) X)"
proof -
  define p where "p = ld_providerIDPrefix @ i"
  have "ld_valid_id p" using assms(2) by (auto simp: p_def ld_valid_id_def)
  moreover have "\<forall>x \<in> X. n \<noteq> fst x \<and> p \<noteq> snd x" using assms(4,5) by (auto simp: p_def)
  ultimately show ?thesis
    using assms(1,3) unfolding exits_ok_def p_def [symmetric] by fastforce
qed


lemma ld_Create_exits:
  assumes "ld_ok E cs0 h" and "run_state (ld_Create E c claim) h = (r, h')"
  shows "ld_ok E cs0 h'" and "ld_exits E cs0 h \<subseteq> ld_exits E cs0 h'"
    and "(n, p) \<in> ld_exits E cs0 h' - ld_exits E cs0 h \<Longrightarrow> n = containerName claim"
    and "r = Inr out \<Longrightarrow> (containerName claim, ProviderID (cStatus out)) \<in> ld_exits E cs0 h'"
proof (atomize (full), rule ld_Create_cases [OF assms], goal_cases)
  case (1 err)
  with assms(1) show ?case by (simp add: ld_ok_def)
next
  case (2 a)
  then have "ld_exits E cs0 h' = ld_exits E cs0 h" by (simp add: ld_exits_def)
  with 2 assms(1) show ?case by (auto simp: ld_ok_def)
next
  case (3 cid)
  have "exits_ok (ld_exits E cs0 h')"
    unfolding 3(4) using assms(1) 3(1-3) containerName_not_id by (intro exits_ok_insert) (simp_all add: ld_ok_def)
  with assms(1) have "ld_ok E cs0 h'" by (simp add: ld_ok_def)
  moreover have "r = Inr out \<Longrightarrow> ProviderID (cStatus out) = ld_providerIDPrefix @ cid" using 3(5) by auto
  ultimately show ?case using 3(4) by auto
qed

lemma ld_Delete_exits:
  assumes "ld_ok E cs0 h" and "run_state (ld_Delete E claim) h = (r, h')"
  shows "ld_ok E cs0 h'" and "r = Some e \<Longrightarrow> ld_exits E cs0 h' = ld_exits E cs0 h"
    and "ld_valid_id (ProviderID (cStatus claim)) \<Longrightarrow> r = None \<Longrightarrow>
      ld_exits E cs0 h' = {(n, i) \<in> ld_exits E cs0 h. i \<noteq> ProviderID (cStatus claim)}"
    and "ld_valid_id (ProviderID (cStatus claim)) \<Longrightarrow> r = Some e \<Longrightarrow> IsExitNotFound e \<Longrightarrow>
      (n, ProviderID (cStatus claim)) \<notin> ld_exits E cs0 h"
proof -
  have X: "exits_ok (ld_exits E cs0 h)" using assms(1) by (simp add: ld_ok_def)
  have v: "others (TrimPrefix (ProviderID (cStatus claim)) ld_providerIDPrefix) (ld_exits E cs0 h) =
      {(n, i) \<in> ld_exits E cs0 h. i \<noteq> ProviderID (cStatus claim)}" "ProviderID (cStatus claim) \<noteq> []"
    if "ld_valid_id (ProviderID (cStatus claim))"
  proof -
    from that obtain i where i: "container_id i" "ProviderID (cStatus claim) = ld_providerIDPrefix @ i"
      by (auto simp: ld_valid_id_def)
    show "others (TrimPrefix (ProviderID (cStatus claim)) ld_providerIDPrefix) (ld_exits E cs0 h) =
        {(n, i) \<in> ld_exits E cs0 h. i \<noteq> ProviderID (cStatus claim)}"
      unfolding i(2) TrimPrefix_append by (rule others_valid [OF X i(1)])
    show "ProviderID (cStatus claim) \<noteq> []" by (simp add: i(2) ld_providerIDPrefix_def)
  qed
  show "ld_ok E cs0 h'" "r = Some e \<Longrightarrow> ld_exits E cs0 h' = ld_exits E cs0 h"
    "ld_valid_id (ProviderID (cStatus claim)) \<Longrightarrow> r = None \<Longrightarrow>
      ld_exits E cs0 h' = {(n, i) \<in> ld_exits E cs0 h. i \<noteq> ProviderID (cStatus claim)}"
    "ld_valid_id (ProviderID (cStatus claim)) \<Longrightarrow> r = Some e \<Longrightarrow> IsExitNotFound e \<Longrightarrow>
      (n, ProviderID (cStatus claim)) \<notin> ld_exits E cs0 h"
  proof (atomize (full), rule ld_Delete_cases [OF assms], goal_cases)
    case (1 err)
    have "(n, ProviderID (cStatus claim)) \<notin> ld_exits E cs0 h"
      if "ld_valid_id (ProviderID (cStatus claim))" "IsExitNotFound err"
      using 1(3) [OF that(2) v(2) [OF that(1)]] unfolding v(1) [OF that(1)] by blast
    with 1 assms(1) show ?case by (simp add: ld_ok_def)
  next
    case 2
    with assms(1) v exits_ok_others [OF X] show ?case by (simp add: ld_ok_def)
  qed
qed

interpretation localdocker: cloud_provider "\<lambda>claim h. run_state (ld_Create E c claim) h"
    "\<lambda>claim h. run_state (ld_Delete E claim) h" "ld_exits E cs0" containerName ld_valid_id "ld_ok E cs0"
    for E c cs0
proof (unfold_locales, goal_cases)
  case (1 w a) then show ?case by (metis ld_Create_exits(1) prod.collapse)
next
  case (2 w a) then show ?case by (metis ld_Delete_exits(1) prod.collapse)
next
  case (3 w n i j) then show ?case unfolding ld_ok_def exits_ok_def by fastforce
next
  case (4 w n i m) then show ?case unfolding ld_ok_def exits_ok_def by fastforce
next
  case (5 w a d w') then show ?case using ld_Create_exits(4) by blast
next
  case (6 w n i) then show ?case unfolding ld_ok_def exits_ok_def by fastforce
next
  case (7 w a) then show ?case by (metis ld_Create_exits(2) prod.collapse)
next
  case (8 w n i a) then show ?case by (metis ld_Create_exits(3) prod.collapse)
next
  case (9 w a w') then show ?case using ld_Delete_exits(3) by blast
next
  case (10 w a e w') then show ?case using ld_Delete_exits(2) by blast
next
  case (11 w a e w' n) then show ?case using ld_Delete_exits(4) by blast
next
  case (12 w a) then show ?case by (simp add: ld_Delete_def)
qed

end
