(* ===== verification/FakeProvider.thy ===== *)
theory FakeProvider
  imports CloudContract
begin

text \<open>
  \<open>pkg/cloudprovider/fake\<close>: the provider in memory that the tests of the controllers use. The identifiers
  of \<open>uuid.NewString\<close> are an argument: \<open>uuid n\<close> is the one that the \<open>n\<close>th call returns.
\<close>

section \<open>instancetype.go\<close>

definition fake_DefaultInstanceTypes :: "InstanceType list" where
  "fake_DefaultInstanceTypes =
     [\<lparr>itName = ''fake-small'',
       itRequirements = [\<lparr>Key = ''frp.operator.io/region'', Operator = OpIn, Values = [''fake-region-1''],
         MinValues = None\<rparr>],
       itOfferings = [\<lparr>ofRequirements = [], Price = 0, ofAvailable = True\<rparr>],
       itCapacity = [(''cpu'', units 1), (''memory'', Gi 1), (''frp.operator.io/bandwidthMbps'', units 1000)],
       itOverhead = [(''cpu'', 100000000), (''memory'', Mi 128)]\<rparr>]"

section \<open>cloudprovider.go\<close>

record Fake =
  fkExits :: "(string, ExitClaim) gomap"
  fkDrift :: "(string, string) gomap"
  fkInstances :: "InstanceType list"
  fkCreateFailure :: "cloud_error option"
  fkDeleteFailure :: "cloud_error option"
  fkUuids :: nat

definition fake_New :: Fake where
  "fake_New = \<lparr>fkExits = [], fkDrift = [], fkInstances = fake_DefaultInstanceTypes,
     fkCreateFailure = None, fkDeleteFailure = None, fkUuids = 0\<rparr>"

definition cloneAndHydrate :: "ExitClaim \<Rightarrow> string \<Rightarrow> ExitClaim" where
  "cloneAndHydrate claim providerID =
     (let capacity = [(''cpu'', units 1), (''memory'', Gi 1), (''frp.operator.io/bandwidthMbps'', units 1000)]
      in claim\<lparr>cStatus := (cStatus claim)\<lparr>
           ProviderID := providerID,
           ExitName := ''fake-exit-'' @ Name claim,
           PublicIP := ''203.0.113.1'',
           ImageID := ''fake-image:'' @ Version (Frps (cSpec claim)),
           FrpsVersion := Version (Frps (cSpec claim)),
           Capacity := capacity,
           Allocatable := capacity\<rparr>\<rparr>)"

fun fake_find :: "string \<Rightarrow> (string \<times> ExitClaim) list \<Rightarrow> string option" where
  "fake_find name [] = None"
| "fake_find name ((pid, existing) # es) = (if Name existing = name then Some pid else fake_find name es)"

definition fake_Create ::
  "(nat \<Rightarrow> string) \<Rightarrow> order \<Rightarrow> ExitClaim \<Rightarrow> Fake \<Rightarrow> (cloud_error + ExitClaim) \<times> Fake" where
  "fake_Create uuid ord claim c =
     (case fkCreateFailure c of
        Some err \<Rightarrow> (Inl err, c)
      | None \<Rightarrow>
          (case fake_find (Name claim) (in_order ord (fkExits c)) of
             Some pid \<Rightarrow> (Inr (cloneAndHydrate claim pid), c)
           | None \<Rightarrow>
               let pid = ''fake://'' @ uuid (fkUuids c);
                   hydrated = cloneAndHydrate claim pid
               in (Inr hydrated, c\<lparr>fkExits := mput pid hydrated (fkExits c), fkUuids := fkUuids c + 1\<rparr>)))"

definition fake_Delete :: "ExitClaim \<Rightarrow> Fake \<Rightarrow> cloud_error option \<times> Fake" where
  "fake_Delete claim c =
     (case fkDeleteFailure c of
        Some err \<Rightarrow> (Some err, c)
      | None \<Rightarrow>
          if \<not> mhas (fkExits c) (ProviderID (cStatus claim)) then
            (Some (ExitNotFoundError (ProviderID (cStatus claim))), c)
          else (None, c\<lparr>fkExits := mdel (ProviderID (cStatus claim)) (fkExits c)\<rparr>))"

definition fake_Get :: "string \<Rightarrow> Fake \<Rightarrow> cloud_error + ExitClaim" where
  "fake_Get providerID c =
     (case mget (fkExits c) providerID of
        None \<Rightarrow> Inl (ExitNotFoundError providerID)
      | Some got \<Rightarrow> Inr got)"

definition fake_List :: "order \<Rightarrow> Fake \<Rightarrow> ExitClaim list" where
  "fake_List ord c = map snd (in_order ord (fkExits c))"

definition fake_GetInstanceTypes :: "Fake \<Rightarrow> InstanceType list" where
  "fake_GetInstanceTypes c = fkInstances c"

definition fake_IsDrifted :: "ExitClaim \<Rightarrow> Fake \<Rightarrow> string" where
  "fake_IsDrifted claim c = mget_str (fkDrift c) (ProviderID (cStatus claim))"

definition MarkDrifted :: "string \<Rightarrow> string \<Rightarrow> Fake \<Rightarrow> Fake" where
  "MarkDrifted providerID reason c = c\<lparr>fkDrift := mput providerID reason (fkDrift c)\<rparr>"

definition fake_Reset :: "Fake \<Rightarrow> Fake" where
  "fake_Reset c = c\<lparr>fkExits := [], fkDrift := []\<rparr>"

definition ErrorOnCreate :: "string \<Rightarrow> Fake \<Rightarrow> Fake" where
  "ErrorOnCreate text c = c\<lparr>fkCreateFailure := Some (CloudOther text)\<rparr>"

section \<open>The contract\<close>

text \<open>
  The worlds reached: every id is one that \<open>uuid\<close> has given, every exit is stored under its own id, and
  no two exits stand for claims of one name.
\<close>

definition fake_ok :: "(nat \<Rightarrow> string) \<Rightarrow> Fake \<Rightarrow> bool" where
  "fake_ok uuid c \<longleftrightarrow> inj uuid \<and> wf_map (fkExits c) \<and> fkDeleteFailure c = None \<and>
     (\<forall>i e. mget (fkExits c) i = Some e \<longrightarrow> (\<exists>n < fkUuids c. i = ''fake://'' @ uuid n)) \<and>
     (\<forall>i d j e. mget (fkExits c) i = Some d \<longrightarrow> mget (fkExits c) j = Some e \<longrightarrow> Name d = Name e \<longrightarrow> i = j)"

definition fake_exits :: "Fake \<Rightarrow> (string \<times> string) set" where
  "fake_exits c = {(n, i). \<exists>e. mget (fkExits c) i = Some e \<and> Name e = n}"

lemma fake_exits_iff: "(n, i) \<in> fake_exits c \<longleftrightarrow> (\<exists>e. mget (fkExits c) i = Some e \<and> Name e = n)"
  by (simp add: fake_exits_def)

lemma fake_find_Some: "fake_find name es = Some i \<Longrightarrow> \<exists>e. (i, e) \<in> set es \<and> Name e = name"
  by (induction name es rule: fake_find.induct) (auto split: if_splits)

lemma fake_find_None: "fake_find name es = None \<longleftrightarrow> (\<forall>(i, e) \<in> set es. Name e \<noteq> name)"
  by (induction name es rule: fake_find.induct) auto

lemma hydrated_simps [simp]:
  "Name (cloneAndHydrate c i) = Name c" "ProviderID (cStatus (cloneAndHydrate c i)) = i"
  by (simp_all add: cloneAndHydrate_def Let_def)

text \<open>What \<open>Create\<close> does, in one of three ways.\<close>

lemma fake_Create_cases:
  assumes "is_order ord" and "fake_ok uuid c"
  obtains (failed) err where "fake_Create uuid ord claim c = (Inl err, c)"
  | (found) i where "fake_Create uuid ord claim c = (Inr (cloneAndHydrate claim i), c)"
      "(Name claim, i) \<in> fake_exits c"
  | (fresh) i where "fake_Create uuid ord claim c =
        (Inr (cloneAndHydrate claim i),
         c\<lparr>fkExits := mput i (cloneAndHydrate claim i) (fkExits c), fkUuids := fkUuids c + 1\<rparr>)"
      "i = ''fake://'' @ uuid (fkUuids c)" "mget (fkExits c) i = None" "\<forall>j. (Name claim, j) \<notin> fake_exits c"
proof (cases "fkCreateFailure c")
  case (Some err)
  then show ?thesis by (intro failed) (simp add: fake_Create_def)
next
  case None
  have wf: "(j, e) \<in> set (fkExits c) \<longleftrightarrow> mget (fkExits c) j = Some e" for j e
    using assms(2) by (simp add: fake_ok_def wf_map_mget)
  show ?thesis
  proof (cases "fake_find (Name claim) (in_order ord (fkExits c))")
    case (Some i)
    with None assms(1) fake_find_Some [OF Some] show ?thesis
      by (intro found [of i]) (auto simp: fake_Create_def fake_exits_iff wf)
  next
    case n: None
    let ?i = "''fake://'' @ uuid (fkUuids c)"
    have "mget (fkExits c) ?i = None"
    proof (rule ccontr)
      assume "mget (fkExits c) ?i \<noteq> None"
      then obtain n where "n < fkUuids c" "uuid (fkUuids c) = uuid n"
        using assms(2) unfolding fake_ok_def by (metis not_None_eq same_append_eq)
      moreover have "inj uuid" using assms(2) by (simp add: fake_ok_def)
      ultimately show False by (auto dest: injD)
    qed
    moreover have "\<forall>j. (Name claim, j) \<notin> fake_exits c"
      using n assms(1) by (fastforce simp: fake_find_None fake_exits_iff wf)
    ultimately show ?thesis
      using None n by (intro fresh [of ?i]) (auto simp: fake_Create_def Let_def)
  qed
qed

lemma fake_Delete_cases:
  assumes "fake_ok uuid c"
  obtains (gone) "fake_Delete claim c = (Some (ExitNotFoundError (ProviderID (cStatus claim))), c)"
      "mget (fkExits c) (ProviderID (cStatus claim)) = None"
  | (removed) "fake_Delete claim c = (None, c\<lparr>fkExits := mdel (ProviderID (cStatus claim)) (fkExits c)\<rparr>)"
  using assms that by (cases "mget (fkExits c) (ProviderID (cStatus claim))")
    (auto simp: fake_Delete_def fake_ok_def mhas_def)

interpretation fake: cloud_provider "fake_Create uuid ord" fake_Delete fake_exits Name "\<lambda>_. True"
    "\<lambda>c. is_order ord \<and> fake_ok uuid c" for uuid ord
proof (unfold_locales, goal_cases)
  case (1 w c)
  show ?case
  proof (rule fake_Create_cases [OF conjunct1 [OF 1] conjunct2 [OF 1], of c], goal_cases)
    case (3 i)
    have "\<exists>n < fkUuids w + 1. j = ''fake://'' @ uuid n" if "j = i \<or> mget (fkExits w) j \<noteq> None" for j
      using that 1 3(2) unfolding fake_ok_def by (metis less_add_one less_SucI Suc_eq_plus1 option.exhaust)
    note ids = this
    have "snd (fake_Create uuid ord c w) =
        w\<lparr>fkExits := mput i (cloneAndHydrate c i) (fkExits w), fkUuids := fkUuids w + 1\<rparr>"
      using 3(1) by simp
    moreover have "Name e = Name c \<Longrightarrow> mget (fkExits w) j \<noteq> Some e" for e j
      using 3(4) by (auto simp: fake_exits_iff)
    ultimately show ?case
      using 1 ids unfolding fake_ok_def
      by (simp add: wf_map_mput) (metis option.distinct(1))
  qed (use 1 in auto)
next
  case (2 w c)
  then show ?case by (cases rule: fake_Delete_cases [OF conjunct2 [OF 2], of c]) (auto simp: fake_ok_def)
next
  case (3 w n i j)
  then show ?case by (auto simp: fake_ok_def fake_exits_iff)
next
  case (4 w n i m)
  then show ?case by (auto simp: fake_exits_iff)
next
  case (5 w c d w')
  then show ?case
    by (cases rule: fake_Create_cases [OF conjunct1 [OF 5(1)] conjunct2 [OF 5(1)], of c]) (auto simp: fake_exits_iff)
next
  case (6 w n i)
  then show ?case by simp
next
  case (7 w c)
  then show ?case
    by (cases rule: fake_Create_cases [OF conjunct1 [OF 7] conjunct2 [OF 7], of c]) (auto simp: fake_exits_iff)
next
  case (8 w n i c)
  then show ?case
    by (cases rule: fake_Create_cases [OF conjunct1 [OF 8(1)] conjunct2 [OF 8(1)], of c]) (auto simp: fake_exits_iff split: if_splits)
next
  case (9 w c w')
  then show ?case
    by (cases rule: fake_Delete_cases [OF conjunct2 [OF 9(1)], of c]) (auto simp: fake_exits_iff split: if_splits)
next
  case (10 w c e w')
  then show ?case by (cases rule: fake_Delete_cases [OF conjunct2 [OF 10(1)], of c]) auto
next
  case (11 w c e w' n)
  then show ?case by (cases rule: fake_Delete_cases [OF conjunct2 [OF 11(1)], of c]) (auto simp: fake_exits_iff)
next
  case (12 w c)
  have "mget (fkExits w) [] = None"
  proof (rule ccontr)
    assume "mget (fkExits w) [] \<noteq> None"
    with 12(1) show False by (auto simp: fake_ok_def)
  qed
  with 12 show ?case by (auto simp: fake_Delete_def fake_ok_def mhas_def)
qed

lemma fake_New_ok: "inj uuid \<Longrightarrow> fake_ok uuid fake_New"
  by (simp add: fake_ok_def fake_New_def)

end
