(* ===== verification/LifecycleCloud.thy ===== *)
theory LifecycleCloud
  imports LifecycleRuns DigitalOceanRuns LocalDockerProps FakeProvider
begin

text \<open>
  The lifecycle controller and a cloud provider together: a system of the claims that the API server
  stores and the exits that the provider holds. Users submit and delete claims, other controllers
  write to them, exits vanish at the provider, and the controller reconciles, with any of its calls
  failing. The invariant says which claim answers for each exit; it holds for every provider that
  keeps the contract of \<open>CloudContract\<close>.
\<close>

section \<open>The system\<close>

record 'w cloud =
  clCreate :: "ExitClaim \<Rightarrow> 'w \<Rightarrow> (cloud_error + ExitClaim) \<times> 'w"
  clDelete :: "ExitClaim \<Rightarrow> 'w \<Rightarrow> cloud_error option \<times> 'w"
  clExits :: "'w \<Rightarrow> (string \<times> string) set"
  clName :: "ExitClaim \<Rightarrow> string"
  clOk :: "'w \<Rightarrow> bool"

record 'w system =
  sClaims :: "string \<Rightarrow> ExitClaim option"
  sCloud :: 'w

text \<open>The API server drops an object that is deleted and has no finalizer left.\<close>

definition store :: "string \<Rightarrow> ExitClaim \<Rightarrow> 'w system \<Rightarrow> 'w system" where
  "store n c s = s\<lparr>sClaims := (sClaims s)(n := if is_deleted c \<and> Finalizers c = [] then None else Some c)\<rparr>"

definition mark_deleted :: "string \<Rightarrow> int \<Rightarrow> 'w system \<Rightarrow> 'w system" where
  "mark_deleted n now s =
     (case sClaims s n of
        None \<Rightarrow> s
      | Some c \<Rightarrow> store n (c\<lparr>DeletionTimestamp := Some now\<rparr>) s)"

text \<open>What one call of the controller does to the system; a write that was refused does nothing.\<close>

fun effect :: "'w cloud \<Rightarrow> env \<Rightarrow> event list \<times> event \<Rightarrow> 'w system \<Rightarrow> 'w system" where
  "effect K E (h, EPatchClaim orig c) s =
     (case onPatchClaim E h orig c of Inl _ \<Rightarrow> s | Inr d \<Rightarrow> store (Name c) c s)"
| "effect K E (h, EPatchClaimStatus orig c) s =
     (case onPatchClaimStatus E h orig c of Inl _ \<Rightarrow> s | Inr d \<Rightarrow> store (Name c) c s)"
| "effect K E (h, EDeleteClaim c) s =
     (case onDeleteClaim E h c of Some _ \<Rightarrow> s | None \<Rightarrow> mark_deleted (Name c) (clock E h) s)"
| "effect K E (h, ECloudCreate cp c) s = s\<lparr>sCloud := snd (clCreate K c (sCloud s))\<rparr>"
| "effect K E (h, ECloudDelete cp c) s = s\<lparr>sCloud := snd (clDelete K c (sCloud s))\<rparr>"
| "effect K E _ s = s"

definition system_after :: "'w cloud \<Rightarrow> env \<Rightarrow> 'w system \<Rightarrow> event list \<Rightarrow> 'w system" where
  "system_after K E s h = fold (effect K E) (steps [] h) s"

lemma system_after_Nil [simp]: "system_after K E s [] = s"
  by (simp add: system_after_def)

lemma system_after_snoc [simp]: "system_after K E s (h @ [e]) = effect K E (h, e) (system_after K E s h)"
  by (simp add: system_after_def)

lemma system_after_append:
  "system_after K E s (h @ es) = fold (effect K E) (steps h es) (system_after K E s h)"
  by (simp add: system_after_def)

text \<open>Calls that do not touch the system.\<close>

definition idle :: "event \<Rightarrow> bool" where
  "idle e \<longleftrightarrow>
     (case e of
        EPatchClaim orig c \<Rightarrow> False
      | EPatchClaimStatus orig c \<Rightarrow> False
      | EDeleteClaim c \<Rightarrow> False
      | ECloudCreate cp c \<Rightarrow> False
      | ECloudDelete cp c \<Rightarrow> False
      | _ \<Rightarrow> True)"

lemma idle_effect: "idle e \<Longrightarrow> effect K E (h, e) s = s"
  by (cases e) (simp_all add: idle_def)

lemma system_after_idle: "list_all idle es \<Longrightarrow> system_after K E s (h @ es) = system_after K E s h"
proof (induction es rule: rev_induct)
  case (snoc e es)
  then show ?case using system_after_snoc [of K E s "h @ es" e] by (simp add: idle_effect)
qed simp

text \<open>
  The answers that a reconcile sees while nobody else writes: a read returns what is stored or fails, a
  write is stored as it was sent or fails, the provider answers from its state. Everything else
  (tunnels, the clock, the admin API) is arbitrary. \<open>isTrue\<close> is the test for a true condition.
\<close>

definition serves ::
  "'w cloud \<Rightarrow> (Condition list \<Rightarrow> string \<Rightarrow> bool) \<Rightarrow> 'w system \<Rightarrow> env \<Rightarrow> bool" where
  "serves K isTrue s E \<longleftrightarrow>
     meta_ok E \<and> finalizers_ok E \<and> IsStatusConditionTrue E = isTrue \<and>
     (\<forall>h n c. onGetClaim E h n = Inr c \<longrightarrow> sClaims (system_after K E s h) n = Some c) \<and>
     (\<forall>h orig c d. onPatchClaim E h orig c = Inr d \<longrightarrow> d = c) \<and>
     (\<forall>h orig c d. onPatchClaimStatus E h orig c = Inr d \<longrightarrow> d = c) \<and>
     (\<forall>h cp c. onCloudCreate E h cp c = fst (clCreate K c (sCloud (system_after K E s h)))) \<and>
     (\<forall>h cp c. onCloudDelete E h cp c = fst (clDelete K c (sCloud (system_after K E s h))))"

definition is_launched :: "(Condition list \<Rightarrow> string \<Rightarrow> bool) \<Rightarrow> ExitClaim \<Rightarrow> bool" where
  "is_launched isTrue c \<longleftrightarrow> isTrue (claim_conds c) ConditionTypeLaunched"

text \<open>
  What another writer leaves alone: name, spec, finalizers, deletion, the provider id and the condition
  \<open>Launched\<close>.
\<close>

definition same_claim :: "(Condition list \<Rightarrow> string \<Rightarrow> bool) \<Rightarrow> ExitClaim \<Rightarrow> ExitClaim \<Rightarrow> bool" where
  "same_claim isTrue c d \<longleftrightarrow>
     Name d = Name c \<and> cSpec d = cSpec c \<and> Finalizers d = Finalizers c \<and> is_deleted d = is_deleted c \<and>
     ProviderID (cStatus d) = ProviderID (cStatus c) \<and> is_launched isTrue d = is_launched isTrue c"

text \<open>
  The reachable systems. A claim may be deleted at any time, except while its exit exists and its
  provider id is not recorded yet.
\<close>

inductive reached ::
  "'w cloud \<Rightarrow> (Condition list \<Rightarrow> string \<Rightarrow> bool) \<Rightarrow> Controller \<Rightarrow> 'w \<Rightarrow> 'w system \<Rightarrow> bool"
  for K isTrue R w0 where
  start: "reached K isTrue R w0 \<lparr>sClaims = \<lambda>_. None, sCloud = w0\<rparr>"
| submitted: "reached K isTrue R w0 s \<Longrightarrow> sClaims s (Name c) = None \<Longrightarrow>
    ProviderID (cStatus c) = [] \<Longrightarrow> \<not> is_launched isTrue c \<Longrightarrow>
    reached K isTrue R w0 (s\<lparr>sClaims := (sClaims s)(Name c \<mapsto> c)\<rparr>)"
| deletion_requested: "reached K isTrue R w0 s \<Longrightarrow> sClaims s n = Some c \<Longrightarrow>
    ProviderID (cStatus c) = [] \<longrightarrow> (\<forall>i. (clName K c, i) \<notin> clExits K (sCloud s)) \<Longrightarrow>
    reached K isTrue R w0 (mark_deleted n now s)"
| written: "reached K isTrue R w0 s \<Longrightarrow> sClaims s n = Some c \<Longrightarrow> same_claim isTrue c d \<Longrightarrow>
    reached K isTrue R w0 (store n d s)"
| vanished: "reached K isTrue R w0 s \<Longrightarrow> clOk K w \<Longrightarrow> clExits K w \<subseteq> clExits K (sCloud s) \<Longrightarrow>
    reached K isTrue R w0 (s\<lparr>sCloud := w\<rparr>)"
| reconciled: "reached K isTrue R w0 s \<Longrightarrow> serves K isTrue s E \<Longrightarrow>
    reached K isTrue R w0 (system_after K E s (snd (run_state (lifecycle_Reconcile E R n) [])))"

section \<open>The invariant\<close>

text \<open>
  A claim answers for an exit: it carries the finalizer, its kind has a provider, and it has recorded the
  id, or it is neither deleted nor launched, so that the next launch finds the exit again.
\<close>

definition answers_for ::
  "(Condition list \<Rightarrow> string \<Rightarrow> bool) \<Rightarrow> Controller \<Rightarrow> ExitClaim \<Rightarrow> string \<Rightarrow> bool" where
  "answers_for isTrue R c i \<longleftrightarrow>
     TerminationFinalizer \<in> set (Finalizers c) \<and>
     (\<exists>cp. For (CloudProvider R) (refKind (ProviderClassRef (cSpec c))) = Inr cp) \<and>
     (ProviderID (cStatus c) = i \<or>
      ProviderID (cStatus c) = [] \<and> \<not> is_deleted c \<and> \<not> is_launched isTrue c)"

definition no_orphans ::
  "'w cloud \<Rightarrow> (Condition list \<Rightarrow> string \<Rightarrow> bool) \<Rightarrow> Controller \<Rightarrow> 'w system \<Rightarrow> bool" where
  "no_orphans K isTrue R s \<longleftrightarrow>
     (\<forall>m i. (m, i) \<in> clExits K (sCloud s) \<longrightarrow>
        (\<exists>n c. sClaims s n = Some c \<and> clName K c = m \<and> answers_for isTrue R c i))"

definition system_ok ::
  "'w cloud \<Rightarrow> (string \<Rightarrow> bool) \<Rightarrow> (Condition list \<Rightarrow> string \<Rightarrow> bool) \<Rightarrow> Controller \<Rightarrow> 'w system \<Rightarrow> bool" where
  "system_ok K valid isTrue R s \<longleftrightarrow>
     clOk K (sCloud s) \<and> no_orphans K isTrue R s \<and>
     (\<forall>n c. sClaims s n = Some c \<longrightarrow> Name c = n \<and>
        (ProviderID (cStatus c) = [] \<or> valid (ProviderID (cStatus c)) \<and> is_launched isTrue c))"


text \<open>What is kept when a claim \<open>c\<close> of the store is replaced by \<open>d\<close>.\<close>

definition grows :: "(Condition list \<Rightarrow> string \<Rightarrow> bool) \<Rightarrow> ExitClaim \<Rightarrow> ExitClaim \<Rightarrow> bool" where
  "grows isTrue c d \<longleftrightarrow>
     Name d = Name c \<and> cSpec d = cSpec c \<and> set (Finalizers c) \<subseteq> set (Finalizers d) \<and>
     ProviderID (cStatus d) = ProviderID (cStatus c) \<and> is_launched isTrue d = is_launched isTrue c \<and>
     (is_deleted d \<longrightarrow> is_deleted c \<or> is_launched isTrue c \<or> ProviderID (cStatus c) \<noteq> [])"

lemma same_grows: "same_claim isTrue c d \<Longrightarrow> grows isTrue c d"
  by (simp add: same_claim_def grows_def)

lemma store_sel [simp]:
  "sCloud (store n c s) = sCloud s"
  "sClaims (store n c s) = (sClaims s)(n := if is_deleted c \<and> Finalizers c = [] then None else Some c)"
  by (simp_all add: store_def)

lemma no_orphansD:
  assumes "no_orphans K isTrue R s" and "(m, i) \<in> clExits K (sCloud s)"
  obtains n c where "sClaims s n = Some c" "clName K c = m" "answers_for isTrue R c i"
  using assms unfolding no_orphans_def by blast

lemma answers_finalizer: "answers_for isTrue R c i \<Longrightarrow> Finalizers c \<noteq> []"
  by (auto simp: answers_for_def)

lemma answers_grows:
  "answers_for isTrue R c i \<Longrightarrow> grows isTrue c d \<Longrightarrow> answers_for isTrue R d i"
  by (auto simp: answers_for_def grows_def)

text \<open>A claim for which \<open>Create\<close> is called, and an answer of \<open>Delete\<close> on which the finalizer goes.\<close>

definition launching :: "(Condition list \<Rightarrow> string \<Rightarrow> bool) \<Rightarrow> Controller \<Rightarrow> ExitClaim \<Rightarrow> bool" where
  "launching isTrue R c \<longleftrightarrow>
     TerminationFinalizer \<in> set (Finalizers c) \<and> \<not> is_deleted c \<and> \<not> is_launched isTrue c \<and>
     (\<exists>cp. For (CloudProvider R) (refKind (ProviderClassRef (cSpec c))) = Inr cp)"

definition gone :: "cloud_error option \<Rightarrow> bool" where
  "gone r \<longleftrightarrow> (case r of None \<Rightarrow> True | Some e \<Rightarrow> IsExitNotFound e)"

section \<open>The phases after the launch\<close>

text \<open>What such a phase does to the claim \<open>c\<close> that was read.\<close>

definition stays :: "(Condition list \<Rightarrow> string \<Rightarrow> bool) \<Rightarrow> ExitClaim \<Rightarrow> event \<Rightarrow> bool" where
  "stays isTrue c e \<longleftrightarrow>
     (case e of
        EPatchClaim orig d \<Rightarrow> same_claim isTrue c d
      | EPatchClaimStatus orig d \<Rightarrow> same_claim isTrue c d
      | EDeleteClaim d \<Rightarrow> Name d = Name c \<and> is_launched isTrue c
      | ECloudCreate cp d \<Rightarrow> False
      | ECloudDelete cp d \<Rightarrow> False
      | _ \<Rightarrow> True)"

definition phase_stays ::
  "(Condition list \<Rightarrow> string \<Rightarrow> bool) \<Rightarrow> ExitClaim \<Rightarrow> (ExitClaim \<Rightarrow> outcome io) \<Rightarrow> bool" where
  "phase_stays isTrue c phase \<longleftrightarrow>
     (\<forall>d h. same_claim isTrue c d \<longrightarrow>
        (\<exists>d' res err es. run_state (phase d) h = ((d', res, err), h @ es) \<and> same_claim isTrue c d' \<and>
           list_all (stays isTrue c) es))"

lemma phase_staysD:
  assumes "phase_stays isTrue c phase" and "same_claim isTrue c d"
  obtains d' res err es where "run_state (phase d) h = ((d', res, err), h @ es)" "same_claim isTrue c d'"
    "list_all (stays isTrue c) es"
  using assms unfolding phase_stays_def by blast

lemma run_phases_stay:
  assumes "\<And>phase. phase \<in> set ps \<Longrightarrow> phase_stays isTrue c phase" and "same_claim isTrue c d"
  shows "\<exists>r es. run_state (run_phases ps d) h = (r, h @ es) \<and> list_all (stays isTrue c) es"
  using assms
proof (induction ps arbitrary: d h)
  case (Cons p ps)
  have "phase_stays isTrue c p" using Cons.prems(1) by simp
  then obtain d' res err es where p: "run_state (p d) h = ((d', res, err), h @ es)" "same_claim isTrue c d'"
    "list_all (stays isTrue c) es"
    using Cons.prems(2) by (rule phase_staysD)
  obtain r es' where "run_state (run_phases ps d') (h @ es) = (r, (h @ es) @ es')" "list_all (stays isTrue c) es'"
    using Cons.IH [of d' "h @ es"] Cons.prems p(2) by auto
  with p show ?case by auto
qed simp

lemma servesD:
  assumes "serves K isTrue s E"
  shows "meta_ok E" "finalizers_ok E" "IsStatusConditionTrue E = isTrue"
    "onGetClaim E h n = Inr c \<Longrightarrow> sClaims (system_after K E s h) n = Some c"
    "onPatchClaim E h orig c = Inr d \<Longrightarrow> d = c" "onPatchClaimStatus E h orig c = Inr d \<Longrightarrow> d = c"
    "onCloudCreate E h cp c = fst (clCreate K c (sCloud (system_after K E s h)))"
    "onCloudDelete E h cp c = fst (clDelete K c (sCloud (system_after K E s h)))"
  using assms unfolding serves_def by auto

text \<open>The changes that the phases make to a claim.\<close>

lemma same_claim_refl [simp]: "same_claim isTrue c c"
  by (simp add: same_claim_def)

lemma launched_cond: "serves K isTrue s E \<Longrightarrow> isCondTrue E c ConditionTypeLaunched = is_launched isTrue c"
  by (simp add: servesD(3) isCondTrue_def is_launched_def)

lemma same_with_cond:
  assumes "serves K isTrue s E" and "t \<noteq> ConditionTypeLaunched"
  shows "same_claim isTrue c (with_cond E now d (condition_of t st r m n)) = same_claim isTrue c d"
proof -
  have "is_launched isTrue (with_cond E now d (condition_of t st r m n)) = is_launched isTrue d"
    using isCondTrue_with_cond [OF servesD(1) [OF assms(1)], of now d "condition_of t st r m n" ConditionTypeLaunched] assms(2)
    by (simp add: launched_cond [OF assms(1)])
  then show ?thesis by (simp add: same_claim_def with_cond_def is_deleted_def)
qed

lemma same_frame [simp]:
  "same_claim isTrue c (d\<lparr>Annotations := a\<rparr>) = same_claim isTrue c d"
  "same_claim isTrue c (d\<lparr>cStatus := (cStatus d)\<lparr>FrpsVersion := v\<rparr>\<rparr>) = same_claim isTrue c d"
  by (simp_all add: same_claim_def is_launched_def is_deleted_def)

lemmas phase_run = handler_simps handler_calls stays_def

lemma registration_stays:
  assumes "serves K isTrue s E" shows "phase_stays isTrue c (registration_Reconcile E R)"
  unfolding phase_stays_def registration_Reconcile_def
  by (auto simp: phase_run same_with_cond [OF assms] split: sum.splits option.splits dest!: servesD(5,6) [OF assms])

lemma initialization_stays:
  assumes "serves K isTrue s E" shows "phase_stays isTrue c (initialization_Reconcile E R)"
  unfolding phase_stays_def initialization_Reconcile_def
  by (auto simp: phase_run same_with_cond [OF assms] split: sum.splits option.splits dest!: servesD(5,6) [OF assms])

lemma recordSuccess_stays:
  assumes "serves K isTrue s E" shows "phase_stays isTrue c (recordSuccess E l)"
  unfolding phase_stays_def recordSuccess_def
  by (auto simp: phase_run same_with_cond [OF assms] split: sum.splits option.splits dest!: servesD(5,6) [OF assms])

lemma recordFailure_stays:
  assumes "serves K isTrue s E" shows "phase_stays isTrue c (\<lambda>d. recordFailure E l d err)"
  unfolding phase_stays_def recordFailure_def
  by (auto simp: phase_run same_with_cond [OF assms] split: sum.splits option.splits dest!: servesD(5,6) [OF assms])

lemma probe_stays:
  assumes "serves K isTrue s E" shows "phase_stays isTrue c (probe E l)"
  unfolding phase_stays_def
proof (intro allI impI)
  fix d h assume d: "same_claim isTrue c d"
  let ?h = "h @ [EServerInfo (admin_url d)]"
  have quiet: "stays isTrue c (EServerInfo u)" for u by (simp add: stays_def)
  show "\<exists>d' res err es. run_state (probe E l d) h = ((d', res, err), h @ es) \<and> same_claim isTrue c d' \<and>
      list_all (stays isTrue c) es"
  proof (cases "PublicIP (cStatus d) = []")
    case True
    with d show ?thesis by (simp add: probe_def)
  next
    case False
    obtain rest where run: "run_state (probe E l d) h = run_state (rest d) ?h" "phase_stays isTrue c rest"
    proof (cases "onServerInfo E h (admin_url d)")
      case (Inl err)
      with False that [of "\<lambda>d. recordFailure E l d err"] recordFailure_stays [OF assms] show ?thesis
        by (simp add: probe_def GetServerInfo_def)
    next
      case (Inr x)
      with False that [of "recordSuccess E l"] recordSuccess_stays [OF assms] show ?thesis
        by (simp add: probe_def GetServerInfo_def)
    qed
    obtain d' res err es where "run_state (rest d) ?h = ((d', res, err), ?h @ es)" "same_claim isTrue c d'"
      "list_all (stays isTrue c) es"
      using run(2) d by (rule phase_staysD)
    with run(1) quiet show ?thesis by simp
  qed
qed

lemma liveness_stays:
  assumes "serves K isTrue s E" shows "phase_stays isTrue c (liveness_Reconcile E R)"
  unfolding phase_stays_def
proof (intro allI impI)
  fix d h assume d: "same_claim isTrue c d"
  show "\<exists>d' res err es. run_state (liveness_Reconcile E R d) h = ((d', res, err), h @ es) \<and>
      same_claim isTrue c d' \<and> list_all (stays isTrue c) es"
  proof (cases "is_launched isTrue d \<and> isCondTrue E d ConditionTypeReady")
    case True
    then have "run_state (liveness_Reconcile E R d) h = run_state (probe E (liveness R) d) h"
      by (simp add: liveness_Reconcile_def launched_cond [OF assms])
    then show ?thesis using phase_staysD [OF probe_stays [OF assms, where l = "liveness R"] d, of h] by metis
  next
    case False
    have same: "Name d = Name c" "is_launched isTrue d = is_launched isTrue c"
      "\<And>n t st r m x. Name (with_cond E n d (condition_of t st r m x)) = Name c"
      using d by (simp_all add: same_claim_def with_cond_def)
    show ?thesis
      using False d
      by (auto simp: liveness_Reconcile_def phase_run same_with_cond [OF assms] launched_cond [OF assms] same
          split: sum.splits option.splits dest!: servesD(6) [OF assms])
  qed
qed

section \<open>Under the contract of a provider\<close>

text \<open>A provider behind the contract whose exits are named after the name of the claim.\<close>

locale claimed_cloud =
  cloud_provider "clCreate K" "clDelete K" "clExits K" "clName K" valid "clOk K"
    for K :: "'w cloud" and valid :: "string \<Rightarrow> bool" +
  assumes by_name: "Name c = Name d \<Longrightarrow> clName K c = clName K d"
begin

lemma store_ok:
  assumes "system_ok K valid isTrue R s" and "sClaims s n = Some c" and "grows isTrue c d"
  shows "system_ok K valid isTrue R (store n d s)"
proof -
  have "clName K d = clName K c" using assms(3) by (intro by_name) (simp add: grows_def)
  then have "no_orphans K isTrue R (store n d s)"
    unfolding no_orphans_def
  proof (intro allI impI, goal_cases)
    case (1 m i)
    then have "(m, i) \<in> clExits K (sCloud s)" by simp
    with assms(1) obtain n' c' where c': "sClaims s n' = Some c'" "clName K c' = m" "answers_for isTrue R c' i"
      unfolding system_ok_def by (blast elim: no_orphansD)
    show ?case
    proof (cases "n' = n")
      case True
      with c' assms(2,3) 1(1) answers_grows [of isTrue R c i d] show ?thesis
        by (intro exI [of _ n] exI [of _ d]) (auto dest: answers_finalizer)
    next
      case False
      with c' show ?thesis by (intro exI [of _ n'] exI [of _ c']) simp
    qed
  qed
  with assms show ?thesis by (auto simp: system_ok_def grows_def)
qed

text \<open>A claim that answers for no exit may go, or lose its finalizer.\<close>

lemma release_ok:
  assumes "system_ok K valid isTrue R s" and "sClaims s n = Some c"
    and "Name d = Name c" and "cStatus d = cStatus c"
    and "\<forall>i. (clName K c, i) \<in> clExits K (sCloud s) \<longrightarrow> \<not> answers_for isTrue R c i"
  shows "system_ok K valid isTrue R (store n d s)"
proof -
  have "no_orphans K isTrue R (store n d s)"
    unfolding no_orphans_def
  proof (intro allI impI, goal_cases)
    case (1 m i)
    then have "(m, i) \<in> clExits K (sCloud s)" by simp
    with assms(1) obtain n' c' where c': "sClaims s n' = Some c'" "clName K c' = m" "answers_for isTrue R c' i"
      unfolding system_ok_def by (blast elim: no_orphansD)
    with assms(2,5) 1 have "n' \<noteq> n" by auto
    with c' show ?case by (intro exI [of _ n'] exI [of _ c']) simp
  qed
  with assms show ?thesis by (auto simp: system_ok_def is_launched_def)
qed

lemma fewer_exits_ok:
  assumes "system_ok K valid isTrue R s" and "clOk K w" and "clExits K w \<subseteq> clExits K (sCloud s)"
  shows "system_ok K valid isTrue R (s\<lparr>sCloud := w\<rparr>)"
  using assms unfolding system_ok_def no_orphans_def by auto

text \<open>After a delete that succeeded or found nothing, the claim's exit is gone.\<close>

lemma delete_ok:
  assumes "system_ok K valid isTrue R s" and "sClaims s n = Some c"
    and "clDelete K c (sCloud s) = (r, w)"
  shows "system_ok K valid isTrue R (s\<lparr>sCloud := w\<rparr>) \<and>
    (gone r \<longrightarrow> (\<forall>m. (m, ProviderID (cStatus c)) \<notin> clExits K w))"
proof -
  let ?p = "ProviderID (cStatus c)"
  have okc: "clOk K (sCloud s)" and p: "?p = [] \<or> valid ?p"
    using assms(1,2) by (auto simp: system_ok_def)
  have okw: "clOk K w" using delete_keeps_ok [OF okc, of c] assms(3) by simp
  show ?thesis
  proof (cases r)
    case None
    have v: "valid ?p" using p unlaunched [OF okc, of c] assms(3) None by auto
    from deleted [OF okc v] assms(3) None have "clExits K w = {(n, i) \<in> clExits K (sCloud s). i \<noteq> ?p}" by simp
    with None fewer_exits_ok [OF assms(1) okw] show ?thesis by auto
  next
    case (Some e)
    have same: "clExits K w = clExits K (sCloud s)" using not_deleted [OF okc] assms(3) Some by simp
    have "(m, ?p) \<notin> clExits K (sCloud s)" if "IsExitNotFound e" for m
    proof (cases "valid ?p")
      case True
      then show ?thesis using not_found [OF okc True] assms(3) Some that by simp
    next
      case False
      then show ?thesis using valid [OF okc] by blast
    qed
    with Some same fewer_exits_ok [OF assms(1) okw] show ?thesis by (auto simp: gone_def)
  qed
qed

text \<open>A claim that is asked for an exit answers for whatever \<open>Create\<close> leaves.\<close>

lemma create_ok:
  assumes "system_ok K valid isTrue R s" and "sClaims s n = Some c" and "launching isTrue R c"
    and "clCreate K c (sCloud s) = (r, w)"
  shows "system_ok K valid isTrue R (s\<lparr>sCloud := w\<rparr>)"
proof -
  have okc: "clOk K (sCloud s)" and p: "ProviderID (cStatus c) = []"
    using assms(1-3) by (auto simp: system_ok_def launching_def)
  have okw: "clOk K w" using create_keeps_ok [OF okc, of c] assms(4) by simp
  have "no_orphans K isTrue R (s\<lparr>sCloud := w\<rparr>)"
    unfolding no_orphans_def
  proof (intro allI impI, goal_cases)
    case (1 m i)
    show ?case
    proof (cases "(m, i) \<in> clExits K (sCloud s)")
      case True
      with assms(1) show ?thesis by (simp add: system_ok_def no_orphans_def)
    next
      case False
      then have "m = clName K c" using create_adds [OF okc, of m i c] 1 assms(4) by simp
      with assms(2,3) p show ?thesis
        by (intro exI [of _ n] exI [of _ c]) (simp add: answers_for_def launching_def)
    qed
  qed
  with assms(1) okw show ?thesis by (simp add: system_ok_def)
qed

lemma record_ok:
  assumes "system_ok K valid isTrue R s" and "sClaims s n = Some c" and "launching isTrue R c"
    and "clCreate K c (sCloud s) = (Inr e, w)"
    and "Name d = Name c" "cSpec d = cSpec c" "Finalizers d = Finalizers c" "\<not> is_deleted d"
    and "is_launched isTrue d" and "ProviderID (cStatus d) = ProviderID (cStatus e)"
  shows "system_ok K valid isTrue R (store n d (s\<lparr>sCloud := w\<rparr>))"
proof -
  have ok1: "system_ok K valid isTrue R (s\<lparr>sCloud := w\<rparr>)" by (rule create_ok [OF assms(1-4)])
  then have okw: "clOk K w" by (simp add: system_ok_def)
  have "clOk K (sCloud s)" using assms(1) by (simp add: system_ok_def)
  then have made: "(clName K c, ProviderID (cStatus e)) \<in> clExits K w" using created assms(4) by simp
  have name: "clName K d = clName K c" by (rule by_name) (rule assms(5))
  have "no_orphans K isTrue R (store n d (s\<lparr>sCloud := w\<rparr>))"
    unfolding no_orphans_def
  proof (intro allI impI, goal_cases)
    case (1 m i)
    then have x: "(m, i) \<in> clExits K w" by simp
    with ok1 obtain n' c' where c': "sClaims s n' = Some c'" "clName K c' = m" "answers_for isTrue R c' i"
      unfolding system_ok_def by (auto elim: no_orphansD)
    show ?case
    proof (cases "m = clName K c")
      case True
      then have "i = ProviderID (cStatus e)" using one_per_name [OF okw] made x by blast
      with True name assms show ?thesis
        by (intro exI [of _ n] exI [of _ d]) (simp add: answers_for_def launching_def)
    next
      case False
      with c' assms(2) have "n' \<noteq> n" by auto
      with c' show ?thesis by (intro exI [of _ n'] exI [of _ c']) simp
    qed
  qed
  with ok1 assms valid [OF okw made] show ?thesis
    by (auto simp: system_ok_def)
qed

text \<open>The phases after the launch, from a state where the claim is stored.\<close>

lemma stays_ok:
  assumes "system_ok K valid isTrue R (system_after K E s h)" and "sClaims (system_after K E s h) (Name c) = Some c"
    and "\<not> is_deleted c" and "Finalizers c \<noteq> []" and "list_all (stays isTrue c) es"
  shows "system_ok K valid isTrue R (system_after K E s (h @ es)) \<and>
    (\<exists>d. sClaims (system_after K E s (h @ es)) (Name c) = Some d \<and> grows isTrue c d \<and> Finalizers d = Finalizers c)"
  using assms(5)
proof (induction es rule: rev_induct)
  case Nil
  show ?case using assms(1,2) by (auto simp: grows_def)
next
  case (snoc e es)
  let ?s = "system_after K E s (h @ es)"
  from snoc obtain d where ok: "system_ok K valid isTrue R ?s" and d: "sClaims ?s (Name c) = Some d"
    "grows isTrue c d" "Finalizers d = Finalizers c" by auto
  have e: "stays isTrue c e" using snoc.prems by simp
  have put: "system_ok K valid isTrue R (store (Name c) x ?s) \<and>
      (\<exists>d. sClaims (store (Name c) x ?s) (Name c) = Some d \<and> grows isTrue c d \<and> Finalizers d = Finalizers c)"
    if "grows isTrue d x" "grows isTrue c x" "Finalizers x = Finalizers c" for x
    using store_ok [OF ok d(1) that(1)] that assms(4) by simp
  have patch: ?case if "system_after K E s (h @ es @ [e]) = store (Name c) x ?s" "same_claim isTrue c x" for x
  proof -
    have "grows isTrue d x"
      using that(2) d assms(3) by (auto simp: same_claim_def grows_def)
    from put [OF this same_grows] that show ?thesis by (simp add: same_claim_def)
  qed
  have idle: ?case if "system_after K E s (h @ es @ [e]) = ?s"
    using that ok d by auto
  have wrote: ?case
    if "system_after K E s (h @ es @ [e]) = (case r of Inl _ \<Rightarrow> ?s | Inr d \<Rightarrow> store (Name x) x ?s)"
      "same_claim isTrue c x" for r :: "apierror + ExitClaim" and x
  proof (cases r)
    case (Inl err)
    with that show ?thesis by (intro idle) simp
  next
    case (Inr d)
    with that show ?thesis by (intro patch [OF _ that(2)]) (simp add: same_claim_def)
  qed
  have after: "system_after K E s (h @ es @ [e]) = effect K E (h @ es, e) ?s"
    using system_after_snoc [of K E s "h @ es" e] by simp
  show ?case
  proof (cases e)
    case (EPatchClaim orig x)
    with e after show ?thesis by (intro wrote [where r = "onPatchClaim E (h @ es) orig x" and x = x]) (simp_all add: stays_def)
  next
    case (EPatchClaimStatus orig x)
    with e after show ?thesis by (intro wrote [where r = "onPatchClaimStatus E (h @ es) orig x" and x = x]) (simp_all add: stays_def)
  next
    case (EDeleteClaim x)
    with e have x: "Name x = Name c" "is_launched isTrue c" by (simp_all add: stays_def)
    let ?d = "d\<lparr>DeletionTimestamp := Some (clock E (h @ es))\<rparr>"
    have "grows isTrue d ?d" "grows isTrue c ?d" "Finalizers ?d = Finalizers c"
      using d x(2) by (auto simp: grows_def is_launched_def)
    note marked = put [OF this]
    show ?thesis
    proof (cases "onDeleteClaim E (h @ es) x")
      case None
      then have "system_after K E s (h @ es @ [e]) = store (Name c) ?d ?s"
        using EDeleteClaim after x(1) d(1) by (simp add: mark_deleted_def)
      with marked show ?thesis by simp
    next
      case (Some err)
      with EDeleteClaim after show ?thesis by (intro idle) simp
    qed
  qed (rule idle; use e after in \<open>simp add: stays_def\<close>)+
qed

lemma launching_ok:
  assumes "serves K isTrue s E" and "system_ok K valid isTrue R (system_after K E s h)"
    and "sClaims (system_after K E s h) (Name c) = Some c"
    and "TerminationFinalizer \<in> set (Finalizers c)" and "\<not> is_deleted c" and "\<not> is_launched isTrue c"
  shows "\<exists>x res err h'. run_state (launch_Reconcile E R c) h = ((x, res, err), h') \<and>
    (err \<noteq> None \<or> \<not> IsZero res) \<and> system_ok K valid isTrue R (system_after K E s h')"
proof -
  note cond = launched_cond [OF assms(1)]
  have fail: "same_claim isTrue c (with_cond E now c (condition_of ConditionTypeLaunched ConditionFalse r m n))" for now r m n
    using isCondTrue_with_cond [OF servesD(1) [OF assms(1)], of now c "condition_of ConditionTypeLaunched ConditionFalse r m n" ConditionTypeLaunched]
      assms(6) by (simp add: cond same_claim_def with_cond_def is_deleted_def)
  show ?thesis
  proof (cases "For (CloudProvider R) (refKind (ProviderClassRef (cSpec c)))")
    case (Inl err)
    let ?d = "with_cond E (clock E h) c (condition_of ConditionTypeLaunched ConditionFalse ReasonProviderError
      (errorText E (RegErr err)) (clock E h))"
    have "Name ?d = Name c" by (simp add: with_cond_def)
    moreover from store_ok [OF assms(2,3) same_grows [OF fail]]
    have "system_ok K valid isTrue R (store (Name c) ?d (system_after K E s h))" .
    ultimately show ?thesis
      using Inl assms(2,6)
      by (auto simp: launch_Reconcile_def phase_run cond system_after_append result_defs Second_def split: sum.splits)
  next
    case (Inr cp)
    have l: "launching isTrue R c" using assms(4-6) Inr by (simp add: launching_def)
    let ?w = "sCloud (system_after K E s h)"
    obtain r w where create: "clCreate K c ?w = (r, w)" by fastforce
    let ?s = "(system_after K E s h)\<lparr>sCloud := w\<rparr>"
    let ?h = "h @ [ECloudCreate cp c]"
    have answer: "onCloudCreate E h cp c = r" using servesD(7) [OF assms(1)] create by simp
    have ok1: "system_ok K valid isTrue R ?s" by (rule create_ok [OF assms(2,3) l create])
    show ?thesis
    proof (cases r)
      case (Inl err)
      let ?d = "with_cond E (clock E ?h) c (condition_of ConditionTypeLaunched ConditionFalse ReasonProviderError
        (errorText E (CloudErr err)) (clock E ?h))"
      have "Name ?d = Name c" by (simp add: with_cond_def)
      moreover have "system_ok K valid isTrue R (store (Name c) ?d ?s)"
        by (rule store_ok [OF ok1 _ same_grows [OF fail]]) (simp add: assms(3))
      ultimately show ?thesis
        using Inl Inr answer create assms(6) ok1
        by (auto simp: launch_Reconcile_def phase_run cond system_after_append result_defs Second_def split: sum.splits)
    next
      case made: (Inr e)
      let ?c = "c\<lparr>cStatus := (cStatus e)\<lparr>Conditions := claim_conds c\<rparr>\<rparr>"
      let ?d = "with_cond E (clock E ?h) ?c (condition_of ConditionTypeLaunched ConditionTrue ReasonProvisioned
        ''exit launched'' (clock E ?h))"
      have launched: "is_launched isTrue ?d"
        using isCondTrue_with_cond [OF servesD(1) [OF assms(1)], of "clock E ?h" ?c
            "condition_of ConditionTypeLaunched ConditionTrue ReasonProvisioned ''exit launched'' (clock E ?h)" ConditionTypeLaunched]
        by (simp add: cond)
      have name: "Name ?d = Name c" by (simp add: with_cond_def)
      have "system_ok K valid isTrue R (store (Name c) ?d ?s)"
        by (rule record_ok [OF assms(2,3) l create [unfolded made] _ _ _ _ launched])
          (use assms(5) in \<open>simp_all add: with_cond_def is_deleted_def\<close>)
      with name ok1 show ?thesis
        using made Inr answer create assms(6)
        by (auto simp: launch_Reconcile_def phase_run cond system_after_append result_defs Second_def split: sum.splits)
    qed
  qed
qed

lemma finalize_rest_ok:
  assumes "serves K isTrue s E" and "system_ok K valid isTrue R (system_after K E s h)"
    and "sClaims (system_after K E s h) (Name c) = Some c" and "is_deleted c"
  shows "system_ok K valid isTrue R (system_after K E s (snd (run_state (finalize_rest E R c) h)))"
proof -
  have strip: "system_ok K valid isTrue R (system_after K E s (snd (run_state (strip_finalizer E c) h')))"
    if "system_ok K valid isTrue R (system_after K E s h')" "sClaims (system_after K E s h') (Name c) = Some c"
      "(\<forall>m. (m, ProviderID (cStatus c)) \<notin> clExits K (sCloud (system_after K E s h'))) \<or>
       (\<forall>cp. For (CloudProvider R) (refKind (ProviderClassRef (cSpec c))) \<noteq> Inr cp)" for h'
  proof -
    have "\<forall>i. (clName K c, i) \<in> clExits K (sCloud (system_after K E s h')) \<longrightarrow> \<not> answers_for isTrue R c i"
      using that(3) assms(4) by (auto simp: answers_for_def)
    from release_ok [OF that(1,2) _ _ this] that(1) show ?thesis
      by (simp add: strip_finalizer_def PatchClaim_def split: sum.split)
  qed
  show ?thesis
  proof (cases "For (CloudProvider R) (refKind (ProviderClassRef (cSpec c)))")
    case (Inl err)
    with strip [OF assms(2,3)] show ?thesis by (simp add: finalize_rest_def)
  next
    case (Inr cp)
    let ?s = "system_after K E s h"
    obtain r w where delete: "clDelete K c (sCloud ?s) = (r, w)" by fastforce
    have after: "system_after K E s (h @ [ECloudDelete cp c]) = ?s\<lparr>sCloud := w\<rparr>" by (simp add: delete)
    note del = delete_ok [OF assms(2,3) delete]
    have r: "onCloudDelete E h cp c = r" using servesD(8) [OF assms(1)] delete by simp
    show ?thesis
    proof (cases "gone r")
      case True
      then have "snd (run_state (finalize_rest E R c) h) = snd (run_state (strip_finalizer E c) (h @ [ECloudDelete cp c]))"
        using Inr r by (simp add: finalize_rest_def CloudDelete_def gone_def split: option.splits)
      moreover have "system_ok K valid isTrue R
          (system_after K E s (snd (run_state (strip_finalizer E c) (h @ [ECloudDelete cp c]))))"
        by (rule strip) (use after del True assms(3) in simp_all)
      ultimately show ?thesis by simp
    next
      case False
      then have "snd (run_state (finalize_rest E R c) h) = h @ [ECloudDelete cp c]"
        using Inr r by (simp add: finalize_rest_def CloudDelete_def gone_def split: option.splits)
      with after del show ?thesis by simp
    qed
  qed
qed

lemma finalize_ok:
  assumes "serves K isTrue s E" and "system_ok K valid isTrue R (system_after K E s h)"
    and "sClaims (system_after K E s h) (Name c) = Some c" and "is_deleted c"
  shows "system_ok K valid isTrue R (system_after K E s (snd (run_state (finalize E R c) h)))"
proof -
  let ?h1 = "if HasCluster R then h @ [EMarkExit (Name c)] else h"
  have same: "system_after K E s (?h1 @ es) = system_after K E s h" if "list_all idle es" for es
    using system_after_idle [of "EMarkExit (Name c) # es" K E s h] system_after_idle [OF that, of K E s h] that
    by (simp add: idle_def)
  have rest: "system_ok K valid isTrue R (system_after K E s (snd (run_state (finalize_rest E R c) (?h1 @ es))))"
    if "list_all idle es" for es
    by (rule finalize_rest_ok [OF assms(1)]) (simp_all only: same [OF that] assms)
  have ok: "system_ok K valid isTrue R (system_after K E s (?h1 @ es))" if "list_all idle es" for es
    by (simp only: same [OF that] assms)
  have release: "emits idle (do { e \<leftarrow> release_all E ts None; ret (after d, map_option ApiErr e) })" for ts d
    by (intro emits_intros emits_release_all) (simp add: idle_def)
  show ?thesis
  proof (cases "onListTunnels E ?h1")
    case (Inl err)
    then show ?thesis using ok [of "[EListTunnels]"] by (simp add: finalize_run [OF refl] idle_def)
  next
    case (Inr ts)
    consider (free) "bound_to (Name c) ts = []"
      | (wait) "bound_to (Name c) ts \<noteq> []" "time_sub (clock E (?h1 @ [EListTunnels])) (deleted_at c) < grace_period c"
      | (late) "bound_to (Name c) ts \<noteq> []" "\<not> time_sub (clock E (?h1 @ [EListTunnels])) (deleted_at c) < grace_period c"
      by blast
    then show ?thesis
    proof cases
      case free
      with Inr rest [of "[EListTunnels]"] show ?thesis by (simp add: finalize_run [OF refl] idle_def)
    next
      case late
      with Inr rest [of "[EListTunnels, ENow]"] show ?thesis by (simp add: finalize_run [OF refl] idle_def)
    next
      case wait
      obtain es where "snd (run_state (do { e \<leftarrow> release_all E (bound_to (Name c) ts) None;
          ret (after (5 * Second), map_option ApiErr e) }) (?h1 @ [EListTunnels, ENow])) =
          (?h1 @ [EListTunnels, ENow]) @ es" "list_all idle es"
        using release unfolding emits_def by blast
      with wait Inr ok [of "[EListTunnels, ENow] @ es"] show ?thesis
        by (simp add: finalize_run [OF refl] idle_def)
    qed
  qed
qed

lemma reconcile_ok:
  assumes "serves K isTrue s E" and "system_ok K valid isTrue R s"
  shows "system_ok K valid isTrue R (system_after K E s (snd (run_state (lifecycle_Reconcile E R n) [])))"
proof (cases "onGetClaim E [] n")
  case (Inl err)
  with assms(2) show ?thesis by (simp add: lifecycle_Reconcile_def GetClaim_def system_after_def)
next
  case (Inr c)
  let ?h = "[EGetClaim n]"
  have s: "system_after K E s ?h = s" by (simp add: system_after_def)
  have "sClaims s n = Some c" using servesD(4) [OF assms(1) Inr] by simp
  then have c: "sClaims (system_after K E s ?h) (Name c) = Some c" and ok: "system_ok K valid isTrue R (system_after K E s ?h)"
    using assms(2) by (auto simp: s system_ok_def)
  have fin: "ContainsFinalizer E (Finalizers c) TerminationFinalizer \<longleftrightarrow> TerminationFinalizer \<in> set (Finalizers c)"
    using servesD(2) [OF assms(1)] by (simp add: finalizers_ok_def)
  consider (deleted) "is_deleted c" | (unguarded) "\<not> is_deleted c" "TerminationFinalizer \<notin> set (Finalizers c)"
    | (phases) "\<not> is_deleted c" "TerminationFinalizer \<in> set (Finalizers c)" by blast
  then show ?thesis
  proof cases
    case deleted
    with Inr finalize_ok [OF assms(1) ok c] show ?thesis by (simp add: lifecycle_Reconcile_def GetClaim_def)
  next
    case unguarded
    let ?d = "c\<lparr>Finalizers := AddFinalizer E (Finalizers c) TerminationFinalizer\<rparr>"
    have "grows isTrue c ?d"
      using servesD(2) [OF assms(1)] unguarded(1)
      by (auto simp: grows_def is_launched_def is_deleted_def finalizers_ok_def)
    from store_ok [OF ok c this] ok show ?thesis
      using Inr unguarded fin
      by (simp add: lifecycle_Reconcile_def GetClaim_def PatchClaim_def system_after_def split: sum.split
          del: run_phases.simps)
  next
    case phases
    let ?ps = "[registration_Reconcile E R, initialization_Reconcile E R, liveness_Reconcile E R]"
    have run: "snd (run_state (lifecycle_Reconcile E R n) []) =
        snd (run_state (run_phases (launch_Reconcile E R # ?ps) c) ?h)"
      using Inr phases fin by (simp add: lifecycle_Reconcile_def GetClaim_def del: run_phases.simps)
    show ?thesis
    proof (cases "is_launched isTrue c")
      case True
      then have "snd (run_state (run_phases (launch_Reconcile E R # ?ps) c) ?h) = snd (run_state (run_phases ?ps c) ?h)"
        by (simp add: launch_Reconcile_def launched_cond [OF assms(1)] result_defs)
      moreover have "\<exists>r es. run_state (run_phases ?ps c) ?h = (r, ?h @ es) \<and> list_all (stays isTrue c) es"
        by (rule run_phases_stay)
          (auto intro: registration_stays [OF assms(1)] initialization_stays [OF assms(1)] liveness_stays [OF assms(1)])
      moreover have "Finalizers c \<noteq> []" using phases(2) by auto
      ultimately show ?thesis using stays_ok [OF ok c phases(1)] run by (auto simp del: run_phases.simps)
    next
      case False
      obtain x res err h' where l: "run_state (launch_Reconcile E R c) ?h = ((x, res, err), h')"
        "err \<noteq> None \<or> \<not> IsZero res" "system_ok K valid isTrue R (system_after K E s h')"
        using launching_ok [OF assms(1) ok c phases(2,1) False] by blast
      then have "snd (run_state (run_phases (launch_Reconcile E R # ?ps) c) ?h) = h'" by auto
      with l(3) run show ?thesis by (simp del: run_phases.simps)
    qed
  qed
qed

lemma reached_ok:
  assumes "reached K isTrue R w0 s" and "clOk K w0" and "clExits K w0 = {}"
  shows "system_ok K valid isTrue R s"
  using assms(1)
proof induction
  case start
  show ?case using assms(2,3) by (simp add: system_ok_def no_orphans_def)
next
  case (submitted s c)
  then have "(\<exists>n d. sClaims (s\<lparr>sClaims := (sClaims s)(Name c \<mapsto> c)\<rparr>) n = Some d \<and> P n d)"
    if "\<exists>n d. sClaims s n = Some d \<and> P n d" for P
    using that by (metis fun_upd_other option.distinct(1) select_convs(1) surjective update_convs(1))
  with submitted show ?case by (auto simp: system_ok_def no_orphans_def)
next
  case (deletion_requested s n c now)
  note n = deletion_requested(2)
  let ?d = "c\<lparr>DeletionTimestamp := Some now\<rparr>"
  have "system_ok K valid isTrue R (store n ?d s)"
  proof (cases "ProviderID (cStatus c) = []")
    case True
    with deletion_requested show ?thesis by (intro release_ok [OF _ n]) auto
  next
    case False
    then show ?thesis
      using deletion_requested(4) by (intro store_ok [OF _ n]) (simp_all add: grows_def is_launched_def)
  qed
  with n show ?case by (simp add: mark_deleted_def)
next
  case (written s n c d)
  then show ?case by (intro store_ok [OF _ _ same_grows])
next
  case (vanished s w)
  then show ?case by (intro fewer_exits_ok)
next
  case (reconciled s E n)
  then show ?case by (intro reconcile_ok)
qed

end

end
