(* ===== verification/LifecycleCloudProps.thy ===== *)
theory LifecycleCloudProps
  imports LifecycleCloud
begin

text \<open>
  The system of claims and exits over the three providers: no exit is ever left without a claim that
  answers for it. The witness runs the controller against the small DigitalOcean account.
\<close>

section \<open>The three providers\<close>

definition fake_cloud ::
  "(nat \<Rightarrow> string) \<Rightarrow> (nat \<Rightarrow> nat list) \<Rightarrow> Fake cloud" where
  "fake_cloud uuid ord = \<lparr>clCreate = fake_Create uuid ord, clDelete = fake_Delete, clExits = fake_exits,
     clName = Name, clOk = (\<lambda>w. is_order ord \<and> fake_ok uuid w)\<rparr>"

definition do_cloud :: "do_env \<Rightarrow> do_provider \<Rightarrow> Droplet list \<Rightarrow> do_event list cloud" where
  "do_cloud E p ds0 = \<lparr>clCreate = (\<lambda>c h. run_state (do_Create E p c) h),
     clDelete = (\<lambda>c h. run_state (do_Delete E p c) h), clExits = do_exits E ds0, clName = dropletNameFor,
     clOk = (\<lambda>h. do_ok E ds0 h \<and> factory_ok p)\<rparr>"

definition ld_cloud :: "ld_env \<Rightarrow> ld_provider \<Rightarrow> Container list \<Rightarrow> ld_event list cloud" where
  "ld_cloud E p cs0 = \<lparr>clCreate = (\<lambda>c h. run_state (ld_Create E p c) h),
     clDelete = (\<lambda>c h. run_state (ld_Delete E c) h), clExits = ld_exits E cs0, clName = containerName,
     clOk = ld_ok E cs0\<rparr>"

interpretation fake_system: claimed_cloud "fake_cloud uuid ord" "\<lambda>_. True" for uuid ord
  unfolding claimed_cloud_def claimed_cloud_axioms_def
  using fake.cloud_provider_axioms [of uuid ord] by (simp add: fake_cloud_def)

interpretation do_system: claimed_cloud "do_cloud E p ds0" do_valid_id for E p ds0
  unfolding claimed_cloud_def claimed_cloud_axioms_def
  using digitalocean.cloud_provider_axioms [of E p ds0] by (simp add: do_cloud_def dropletNameFor_def)

interpretation ld_system: claimed_cloud "ld_cloud E p cs0" ld_valid_id for E p cs0
  unfolding claimed_cloud_def claimed_cloud_axioms_def
  using localdocker.cloud_provider_axioms [of E p cs0] by (simp add: ld_cloud_def containerName_def)

section \<open>No exit is orphaned\<close>

text \<open>
  C16: No droplet is orphaned. Start with no claims and no droplets, and let claims be submitted, written
  by other controllers and deleted, droplets vanish, and the lifecycle controller reconcile any claim
  any number of times, with any of its reads, writes and calls to the provider failing. If no claim is
  deleted while its droplet exists and its provider id is not recorded, then every droplet has a claim
  of its name, under the termination finalizer and of a kind with a provider, that has recorded its id
  or is live and will be launched again. In particular a claim that is gone has left no droplet.
\<close>

theorem no_orphan_droplets:
  assumes "do_ok E [] []" and "factory_ok p" and "reached (do_cloud E p []) isTrue R [] s"
    and "(m, i) \<in> do_exits E [] (sCloud s)"
  shows "\<exists>n c. sClaims s n = Some c \<and> dropletNameFor c = m \<and> answers_for isTrue R c i"
proof -
  have "system_ok (do_cloud E p []) do_valid_id isTrue R s"
    using assms(3) by (rule do_system.reached_ok) (use assms(1,2) in \<open>simp_all add: do_cloud_def do_exits_def\<close>)
  with assms(4) show ?thesis by (simp add: system_ok_def no_orphans_def do_cloud_def)
qed

text \<open>The same for containers and for the fake provider.\<close>

theorem no_orphan_containers:
  assumes "ld_ok E [] []" and "reached (ld_cloud E p []) isTrue R [] s"
    and "(m, i) \<in> ld_exits E [] (sCloud s)"
  shows "\<exists>n c. sClaims s n = Some c \<and> containerName c = m \<and> answers_for isTrue R c i"
proof -
  have "system_ok (ld_cloud E p []) ld_valid_id isTrue R s"
    using assms(2) by (rule ld_system.reached_ok) (use assms(1) in \<open>simp_all add: ld_cloud_def ld_exits_def\<close>)
  with assms(3) show ?thesis by (simp add: system_ok_def no_orphans_def ld_cloud_def)
qed

theorem no_orphan_fakes:
  assumes "is_order ord" and "inj uuid" and "reached (fake_cloud uuid ord) isTrue R fake_New s"
    and "(m, i) \<in> fake_exits (sCloud s)"
  shows "\<exists>n c. sClaims s n = Some c \<and> Name c = m \<and> answers_for isTrue R c i"
proof -
  have "system_ok (fake_cloud uuid ord) (\<lambda>_. True) isTrue R s"
    using assms(3) by (rule fake_system.reached_ok)
      (use assms(1,2) fake_New_ok in \<open>simp_all add: fake_cloud_def fake_exits_def fake_New_def\<close>)
  with assms(4) show ?thesis by (simp add: system_ok_def no_orphans_def fake_cloud_def)
qed

section \<open>A run\<close>

text \<open>An environment that answers from the system, on top of the answers of \<open>base\<close>.\<close>

definition served :: "'w cloud \<Rightarrow> 'w system \<Rightarrow> env \<Rightarrow> env" where
  "served K s base = base
     \<lparr>onGetClaim := (\<lambda>h n. case sClaims (system_after K base s h) n of None \<Rightarrow> Inl NotFound | Some c \<Rightarrow> Inr c),
      onCloudCreate := (\<lambda>h cp c. fst (clCreate K c (sCloud (system_after K base s h)))),
      onCloudDelete := (\<lambda>h cp c. fst (clDelete K c (sCloud (system_after K base s h))))\<rparr>"

lemma effect_served: "effect K (served K s base) = effect K base"
  by (intro ext, rename_tac he x, case_tac "(K, base, he, x)" rule: effect.cases) (simp_all add: served_def split: sum.splits option.splits)

lemma system_after_served: "system_after K (served K s base) x h = system_after K base x h"
  by (simp add: system_after_def effect_served)

lemma served_serves: "serves K (IsStatusConditionTrue (world c d ts info)) s (served K s (world c d ts info))"
  using world_meta_ok [of c d ts info] world_finalizers_ok [of c d ts info]
  unfolding serves_def system_after_served
  by (auto simp: served_def meta_ok_def finalizers_ok_def split: option.splits) (auto simp: world_def)


definition do_submitted :: ExitClaim where
  "do_submitted = do_claim\<lparr>Finalizers := [TerminationFinalizer]\<rparr>"

definition do_controller :: Controller where
  "do_controller = New [(''DigitalOceanProviderClass'', ''do'')]"

definition sample_cloud :: "do_event list cloud" where
  "sample_cloud = do_cloud sample_do sample_provider []"

definition sample_system :: "do_event list system" where
  "sample_system = \<lparr>sClaims = [''x'' \<mapsto> do_submitted], sCloud = []\<rparr>"

definition sample_env :: env where
  "sample_env = served sample_cloud sample_system (world do_submitted do_submitted [] (Inr None))"

definition std_true :: "Condition list \<Rightarrow> string \<Rightarrow> bool" where
  "std_true cs t = (case findCondition cs t of None \<Rightarrow> False | Some c \<Rightarrow> Status c = ConditionTrue)"

lemma std_true_world: "IsStatusConditionTrue (world a b ts i) = std_true"
  by (intro ext) (simp add: world_def std_true_def)

lemma submitted_sel [simp]:
  "Name do_submitted = ''x''" "ProviderID (cStatus do_submitted) = []"
  "cSpec do_submitted = cSpec do_claim" "is_deleted do_submitted = False"
  "Finalizers do_submitted = [TerminationFinalizer]"
  "claim_conds do_submitted = [cond ConditionTypeReady ConditionTrue 2000]"
  by (simp_all add: do_submitted_def do_claim_def sample_claim_def is_deleted_def)

lemma submitted_not_launched [simp]: "\<not> std_true [cond ConditionTypeReady ConditionTrue 2000] ConditionTypeLaunched"
  by (simp add: std_true_def cond_def ConditionTypeReady_def ConditionTypeLaunched_def)

lemma submitted_create:
  "\<exists>out h1. run_state (do_Create sample_do sample_provider do_submitted) [] = (Inr out, h1) \<and>
     do_exits sample_do [] h1 = {(dropletNameFor do_submitted, providerIDFor 4)}"
proof -
  obtain doc where "RenderCloudInit (do_printable sample_do) (do_fancy sample_do) (Frps (cSpec do_claim)) ''secret''
      (doDefaultImage sample_class) = Inr doc"
    using RenderCloudInit_ok [of "Frps (cSpec do_claim)"] do_claim_sel(5) by blast
  moreover have "resolveSelection E do_submitted = Inr (''s-1vcpu-1gb'', ''fra1'')" for E
    using do_claim_sel(6) [of E] by (simp add: resolveSelection_def)
  ultimately show ?thesis
    by (simp add: do_Create_def do_resolveClass_def do_apiFor_def do_findByName_def ListByName_def
        launch_droplet_def CreateDroplet_def new_droplet_def create_request_def account_def do_exits_def droplets_account)
qed

lemma sample_env_sel [simp]:
  "onGetClaim sample_env [] ''x'' = Inr do_submitted"
  "onPatchClaimStatus sample_env h orig c = Inr c"
  "onCloudCreate sample_env [EGetClaim ''x''] cp c = fst (run_state (do_Create sample_do sample_provider c) [])"
  "ContainsFinalizer sample_env fs f = List.member fs f"
  "IsStatusConditionTrue sample_env = std_true"
  using std_true_world
  by (simp_all add: sample_env_def served_def world_def sample_system_def sample_cloud_def do_cloud_def system_after_def)

lemma sample_reached:
  "\<exists>s. reached sample_cloud std_true do_controller [] s \<and>
     do_exits sample_do [] (sCloud s) = {(dropletNameFor do_submitted, providerIDFor 4)}"
proof -
  let ?h = "snd (run_state (lifecycle_Reconcile sample_env do_controller ''x'') [])"
  have "reached sample_cloud std_true do_controller [] (\<lparr>sClaims = \<lambda>_. None, sCloud = []\<rparr>
      \<lparr>sClaims := (sClaims \<lparr>sClaims = \<lambda>_. None, sCloud = [] :: do_event list\<rparr>)(Name do_submitted \<mapsto> do_submitted)\<rparr>)"
    by (rule reached.submitted [OF reached.start]) (simp_all add: is_launched_def)
  then have r: "reached sample_cloud std_true do_controller [] sample_system"
    by (simp add: sample_system_def)
  have serves: "serves sample_cloud std_true sample_system sample_env"
    using served_serves unfolding sample_env_def std_true_world .
  obtain out h1 where create: "run_state (do_Create sample_do sample_provider do_submitted) [] = (Inr out, h1)"
    "do_exits sample_do [] h1 = {(dropletNameFor do_submitted, providerIDFor 4)}"
    using submitted_create by blast
  have "\<exists>d. ?h = [EGetClaim ''x'', ECloudCreate ''do'' do_submitted, ENow, EPatchClaimStatus do_submitted d]"
    using create(1)
    by (simp add: lifecycle_Reconcile_def launch_Reconcile_def isCondTrue_def handler_simps handler_calls
        do_controller_def New_def NewWithTTL_def For_def result_defs)
  then obtain d where h: "?h = [EGetClaim ''x'', ECloudCreate ''do'' do_submitted, ENow, EPatchClaimStatus do_submitted d]"
    by blast
  have "sCloud (system_after sample_cloud sample_env sample_system ?h) = h1"
    unfolding h using create(1) by (simp add: system_after_def sample_cloud_def do_cloud_def sample_system_def)
  with create(2) reached.reconciled [OF r serves] show ?thesis by metis
qed

theorem no_orphan_droplets_witness:
  "\<exists>s n c. reached sample_cloud std_true do_controller [] s \<and>
     do_exits sample_do [] (sCloud s) \<noteq> {} \<and> sClaims s n = Some c \<and>
     answers_for std_true do_controller c (providerIDFor 4)"
proof -
  obtain s where s: "reached sample_cloud std_true do_controller [] s"
    "do_exits sample_do [] (sCloud s) = {(dropletNameFor do_submitted, providerIDFor 4)}"
    using sample_reached by blast
  then have "\<exists>n c. sClaims s n = Some c \<and> dropletNameFor c = dropletNameFor do_submitted \<and>
      answers_for std_true do_controller c (providerIDFor 4)"
    by (intro no_orphan_droplets [OF sample_do_ok sample_factory]) (simp_all add: sample_cloud_def)
  with s show ?thesis by blast
qed

end
