(* ===== verification/Disruption.thy ===== *)
theory Disruption
  imports Kube State Scheduler
begin

text \<open>
  \<open>pkg/controllers/disruption\<close> and its \<open>methods\<close>: which exits may be taken away, how many per pool
  (budgets), and what replaces them. A \<open>Candidate\<close> is built by \<open>GetCandidates\<close> only, which sets its
  claim, state and pool; the \<open>nil\<close> tests that the methods make on these pointers are therefore always
  false and are left out. Costs are exact rationals instead of \<open>float64\<close>.
\<close>

section \<open>Types (types.go)\<close>

record Candidate =
  cdClaim :: ExitClaim
  cdState :: StateExit
  cdPool :: ExitPool
  cdCost :: rat
  LastBindingChange :: int

record Command =
  cmdCandidates :: "Candidate list"
  cmdReplacements :: "ExitClaim list"
  cmdReason :: DisruptionReason
  cmdMethod :: string

type_synonym BudgetMap = "(string, (DisruptionReason, int) gomap) gomap"

definition Allowed :: "BudgetMap \<Rightarrow> string \<Rightarrow> DisruptionReason \<Rightarrow> int" where
  "Allowed b poolName reason =
     (case mget b poolName of
        None \<Rightarrow> 0
      | Some pm \<Rightarrow> (case mget pm reason of None \<Rightarrow> 0 | Some n \<Rightarrow> n))"

definition SetBudget :: "string \<Rightarrow> DisruptionReason \<Rightarrow> int \<Rightarrow> BudgetMap \<Rightarrow> BudgetMap" where
  "SetBudget poolName reason n b =
     (let pm = (case mget b poolName of None \<Rightarrow> [] | Some pm \<Rightarrow> pm)
      in mput poolName (mput reason n pm) b)"

section \<open>Budgets (budgets.go)\<close>

definition DefaultBudgetPercent :: int where
  "DefaultBudgetPercent = 10"

text \<open>\<open>cron.ParseStandard\<close> is \<open>parse\<close>; its schedule is the function \<open>Next\<close>.\<close>

type_synonym cron = "string \<Rightarrow> (int \<Rightarrow> int) option"

definition cronActive :: "cron \<Rightarrow> string \<Rightarrow> int \<Rightarrow> int \<Rightarrow> bool" where
  "cronActive parse spec duration now =
     (if duration \<le> 0 then False
      else case parse spec of
        None \<Rightarrow> False
      | Some next \<Rightarrow> \<not> next (now - duration) > now)"

definition budgetActive :: "cron \<Rightarrow> DisruptionBudget \<Rightarrow> DisruptionReason \<Rightarrow> int \<Rightarrow> bool" where
  "budgetActive parse b reason now =
     (if Reasons b \<noteq> [] \<and> \<not> List.member (Reasons b) reason then False
      else if Schedule b = [] then True
      else cronActive parse (Schedule b)
             (case BudgetDuration b of None \<Rightarrow> 0 | Some d \<Rightarrow> d) now)"

definition resolveBudgetCount :: "string \<Rightarrow> int \<Rightarrow> int" where
  "resolveBudgetCount nodes poolSize =
     (let nodes = TrimSpace nodes in
      case CutSuffix1 nodes CHR ''%'' of
        Some rest \<Rightarrow>
          (case Atoi rest of
             None \<Rightarrow> 0
           | Some pct \<Rightarrow> if pct < 0 then 0 else go_div (int64 (poolSize * pct)) 100)
      | None \<Rightarrow>
          (case Atoi nodes of
             None \<Rightarrow> 0
           | Some n \<Rightarrow> if n < 0 then 0 else n))"

definition in_pool :: "string \<Rightarrow> StateExit \<Rightarrow> bool" where
  "in_pool name se =
     (case SnapshotForRead se of
        None \<Rightarrow> False
      | Some (claim, _) \<Rightarrow> mget_str (Labels claim) LabelExitPool = name)"

definition countExitsInPool :: "StateExit list \<Rightarrow> string \<Rightarrow> int" where
  "countExitsInPool ses name = int (length (filter (in_pool name) ses))"

definition countDisruptingInPool :: "StateExit list \<Rightarrow> string \<Rightarrow> int" where
  "countDisruptingInPool ses name = int (length (filter (\<lambda>se. in_pool name se \<and> MarkedForDeletion se) ses))"

fun min_budget_loop ::
  "cron \<Rightarrow> DisruptionReason \<Rightarrow> int \<Rightarrow> int \<Rightarrow> DisruptionBudget list \<Rightarrow> int \<times> bool \<Rightarrow> int \<times> bool" where
  "min_budget_loop parse reason now nodes [] acc = acc"
| "min_budget_loop parse reason now nodes (b # bs) (minBudget, matched) =
     (if \<not> budgetActive parse b reason now then min_budget_loop parse reason now nodes bs (minBudget, matched)
      else min_budget_loop parse reason now nodes bs (min minBudget (resolveBudgetCount (Nodes b) nodes), True))"

text \<open>The exits are listed twice, in whatever order; only their number matters.\<close>

definition GetAllowedDisruptionsByReason ::
  "cron \<Rightarrow> Cluster \<Rightarrow> ExitPool \<Rightarrow> DisruptionReason \<Rightarrow> int \<Rightarrow> int" where
  "GetAllowedDisruptionsByReason parse c pool reason now =
     (let nodesInPool = countExitsInPool (map snd (exits c)) (Name pool);
          (minBudget, matched) =
            min_budget_loop parse reason now nodesInPool (Budgets (PoolDisruption (pSpec pool)))
              (max_int32, False);
          minBudget = (if \<not> matched then max (go_div (nodesInPool * DefaultBudgetPercent) 100) 1
                       else minBudget);
          disrupting = countDisruptingInPool (map snd (exits c)) (Name pool)
      in max (minBudget - disrupting) 0)"

section \<open>Candidates (candidates.go)\<close>

text \<open>\<open>clk\<close> is the reading of the clock for a claim, by name.\<close>

definition computeCost :: "(string \<Rightarrow> int) \<Rightarrow> ExitClaim \<Rightarrow> rat" where
  "computeCost clk claim =
     (let created = CreationTimestamp claim in
      if time_is_zero created then 0
      else of_int (time_sub (clk (Name claim)) created) / of_int Second)"

definition lastBindingChange :: "ExitClaim \<Rightarrow> int" where
  "lastBindingChange claim =
     (case findCondition (claim_conds claim) ConditionTypeEmpty of
        Some c \<Rightarrow> LastTransitionTime c
      | None \<Rightarrow> CreationTimestamp claim)"

definition candidate_of ::
  "(string \<Rightarrow> int) \<Rightarrow> (string \<Rightarrow> ExitPool option) \<Rightarrow> StateExit \<Rightarrow> Candidate option" where
  "candidate_of clk poolByName se =
     (case SnapshotForRead se of
        None \<Rightarrow> None
      | Some (claim, _) \<Rightarrow>
          if \<not> readyTrue (claim_conds claim) then None
          else if DeletionTimestamp claim \<noteq> None then None
          else if mhas (Annotations claim) AnnotationDoNotDisrupt then None
          else if MarkedForDeletion se then None
          else case poolByName (mget_str (Labels claim) LabelExitPool) of
            None \<Rightarrow> None
          | Some pool \<Rightarrow>
              Some \<lparr>cdClaim = claim, cdState = se, cdPool = pool, cdCost = computeCost clk claim,
                    LastBindingChange = lastBindingChange claim\<rparr>)"

definition GetCandidates ::
  "order \<Rightarrow> (string \<Rightarrow> int) \<Rightarrow> (string \<Rightarrow> ExitPool option) \<Rightarrow> Cluster \<Rightarrow> Candidate list" where
  "GetCandidates ord clk poolByName c =
     sort_key cdCost (List.map_filter (candidate_of clk poolByName) (Exits ord c))"

section \<open>Validation (validation.go)\<close>

datatype validation_error =
    EmptyCommand
  | NoLongerInCache string
  | HasNoClaim string
  | AlreadyBeingDeleted string
  | GainedDoNotDisrupt string
  | AlreadyMarked string
  | NoLongerEmpty string

definition validate_candidate :: "Cluster \<Rightarrow> DisruptionReason \<Rightarrow> Candidate \<Rightarrow> validation_error option" where
  "validate_candidate c reason cand =
     (case ExitForName c (Name (cdClaim cand)) of
        None \<Rightarrow> Some (NoLongerInCache (Name (cdClaim cand)))
      | Some se \<Rightarrow>
          (case SnapshotForRead se of
             None \<Rightarrow> Some (HasNoClaim (Name (cdClaim cand)))
           | Some (liveClaim, _) \<Rightarrow>
               if DeletionTimestamp liveClaim \<noteq> None then Some (AlreadyBeingDeleted (Name liveClaim))
               else if mhas (Annotations liveClaim) AnnotationDoNotDisrupt then
                 Some (GainedDoNotDisrupt (Name liveClaim))
               else if MarkedForDeletion se then Some (AlreadyMarked (Name liveClaim))
               else if reason = DisruptionReasonEmpty \<and> \<not> se_IsEmpty se then
                 Some (NoLongerEmpty (Name liveClaim))
               else None))"

fun validate_all :: "Cluster \<Rightarrow> DisruptionReason \<Rightarrow> Candidate list \<Rightarrow> validation_error option" where
  "validate_all c reason [] = None"
| "validate_all c reason (cand # cands) =
     (case validate_candidate c reason cand of
        Some e \<Rightarrow> Some e
      | None \<Rightarrow> validate_all c reason cands)"

definition Validate :: "Cluster \<Rightarrow> Command \<Rightarrow> validation_error option" where
  "Validate c cmd =
     (if cmdCandidates cmd = [] then Some EmptyCommand
      else validate_all c (cmdReason cmd) (cmdCandidates cmd))"

section \<open>Replacements (replacement.go)\<close>

definition empty_status :: ExitClaimStatus where
  "empty_status = \<lparr>ProviderID = [], PublicIP = [], ExitName = [], ImageID = [], FrpsVersion = [],
     Capacity = [], Allocatable = [], Conditions = []\<rparr>"

definition claim_from_template ::
  "string \<Rightarrow> (string, string) gomap \<Rightarrow> (string, string) gomap \<Rightarrow> ExitClaimSpec \<Rightarrow> ExitClaim" where
  "claim_from_template generateName labels annotations spec =
     \<lparr>Name = [], GenerateName = generateName, Namespace = [], UID = [], Generation = 0,
      CreationTimestamp = 0, DeletionTimestamp = None, Labels = labels, Annotations = annotations,
      Finalizers = [], cSpec = spec, cStatus = empty_status\<rparr>"

text \<open>\<open>maps.Copy(dst, src)\<close>.\<close>

fun maps_Copy :: "('k, 'v) gomap \<Rightarrow> ('k, 'v) gomap \<Rightarrow> ('k, 'v) gomap" where
  "maps_Copy [] dst = dst"
| "maps_Copy ((k, v) # src) dst = maps_Copy src (mput k v dst)"

definition replacementForCandidate :: "Candidate \<Rightarrow> ExitClaim" where
  "replacementForCandidate c =
     (let pool = cdPool c;
          tmpl = Template (pSpec pool);
          labels = maps_Copy (tmplLabels tmpl) [(LabelExitPool, Name pool)];
          annotations = maps_Copy (tmplAnnotations tmpl) [];
          h = mget_str (Annotations pool) AnnotationPoolHash;
          annotations = (if h \<noteq> [] then mput AnnotationPoolHash h annotations else annotations)
      in claim_from_template (Name pool @ ''-'') labels annotations
           \<lparr>ProviderClassRef = tmplProviderClassRef (tmplSpec tmpl),
            Requirements = tmplRequirements (tmplSpec tmpl), Frps = tmplFrps (tmplSpec tmpl),
            Requests = [], ExpireAfter = tmplExpireAfter (tmplSpec tmpl),
            TerminationGracePeriod = tmplTerminationGracePeriod (tmplSpec tmpl)\<rparr>)"

section \<open>The budgeted methods: Emptiness, Drift, Expiration\<close>

fun bucket :: "Candidate list \<Rightarrow> (string, Candidate list) gomap \<Rightarrow> (string, Candidate list) gomap" where
  "bucket [] perPool = perPool"
| "bucket (c # cs) perPool =
     bucket cs (mput (Name (cdPool c))
       ((case mget perPool (Name (cdPool c)) of None \<Rightarrow> [] | Some ds \<Rightarrow> ds) @ [c]) perPool)"

definition cap :: "int \<Rightarrow> 'a list \<Rightarrow> 'a list" where
  "cap allowed cs = (if int (length cs) > allowed then take (nat allowed) cs else cs)"

fun per_pool_loop ::
  "(Candidate list \<Rightarrow> Command) \<Rightarrow> DisruptionReason \<Rightarrow> BudgetMap \<Rightarrow> (string \<times> Candidate list) list \<Rightarrow>
     Command list" where
  "per_pool_loop mk reason budgets [] = []"
| "per_pool_loop mk reason budgets ((poolName, cs) # rest) =
     (let allowed = Allowed budgets poolName reason in
      if allowed \<le> 0 then per_pool_loop mk reason budgets rest
      else mk (cap allowed cs) # per_pool_loop mk reason budgets rest)"

definition computePerPoolWithReplacements ::
  "order \<Rightarrow> string \<Rightarrow> DisruptionReason \<Rightarrow> BudgetMap \<Rightarrow> Candidate list \<Rightarrow> Command list" where
  "computePerPoolWithReplacements ord meth reason budgets candidates =
     per_pool_loop
       (\<lambda>cs. \<lparr>cmdCandidates = cs, cmdReplacements = map replacementForCandidate cs,
              cmdReason = reason, cmdMethod = meth\<rparr>)
       reason budgets (in_order ord (bucket candidates []))"

definition DefaultConsolidateAfter :: int where
  "DefaultConsolidateAfter = 5 * Minute"

definition Emptiness_ShouldDisrupt :: "int \<Rightarrow> Candidate \<Rightarrow> bool" where
  "Emptiness_ShouldDisrupt now c =
     (if \<not> se_IsEmpty (cdState c) then False
      else if MarkedForDeletion (cdState c) then False
      else
        let consolidateAfter = ConsolidateAfter (PoolDisruption (pSpec (cdPool c)));
            consolidateAfter = (if consolidateAfter = 0 then DefaultConsolidateAfter else consolidateAfter)
        in \<not> time_is_zero (LastBindingChange c) \<and> time_sub now (LastBindingChange c) \<ge> consolidateAfter)"

definition Emptiness_ComputeCommands :: "order \<Rightarrow> BudgetMap \<Rightarrow> Candidate list \<Rightarrow> Command list" where
  "Emptiness_ComputeCommands ord budgets candidates =
     per_pool_loop
       (\<lambda>cs. \<lparr>cmdCandidates = cs, cmdReplacements = [], cmdReason = DisruptionReasonEmpty,
              cmdMethod = ''Emptiness''\<rparr>)
       DisruptionReasonEmpty budgets (in_order ord (bucket candidates []))"

definition hashesDiffer :: "(string, string) gomap \<Rightarrow> (string, string) gomap \<Rightarrow> string \<Rightarrow> bool" where
  "hashesDiffer claimAnn poolAnn key =
     (let a = mget_str claimAnn key; b = mget_str poolAnn key
      in if a = [] \<or> b = [] then False else a \<noteq> b)"

definition Drift_ShouldDisrupt :: "Candidate \<Rightarrow> bool" where
  "Drift_ShouldDisrupt c =
     (if MarkedForDeletion (cdState c) then False
      else if hashesDiffer (Annotations (cdClaim c)) (Annotations (cdPool c)) AnnotationPoolHash then True
      else if hashesDiffer (Annotations (cdClaim c)) (Annotations (cdPool c)) AnnotationProviderClassHash
      then True
      else False)"

definition Drift_ComputeCommands :: "order \<Rightarrow> BudgetMap \<Rightarrow> Candidate list \<Rightarrow> Command list" where
  "Drift_ComputeCommands ord budgets candidates =
     computePerPoolWithReplacements ord ''Drift'' DisruptionReasonDrifted budgets candidates"

definition Expiration_ShouldDisrupt :: "int \<Rightarrow> Candidate \<Rightarrow> bool" where
  "Expiration_ShouldDisrupt now c =
     (if MarkedForDeletion (cdState c) then False
      else
        let expireAfter = ExpireAfter (cSpec (cdClaim c)) in
        if expireAfter \<le> 0 then False
        else
          let created = CreationTimestamp (cdClaim c) in
          if time_is_zero created then False
          else time_sub now created \<ge> expireAfter)"

definition Expiration_ComputeCommands :: "order \<Rightarrow> BudgetMap \<Rightarrow> Candidate list \<Rightarrow> Command list" where
  "Expiration_ComputeCommands ord budgets candidates =
     computePerPoolWithReplacements ord ''Expiration'' DisruptionReasonExpired budgets candidates"

end
