(* ===== verification/Consolidation.thy ===== *)
theory Consolidation
  imports Disruption
begin

text \<open>
  \<open>disruption/methods\<close>: the repacking simulator and the two consolidation methods that use it. The
  simulator places the tunnels of the candidates with the scheduler's own \<open>CanAdd\<close> and \<open>Add\<close>. An
  outer \<open>option\<close> is \<open>None\<close> where port assignment does not return.
\<close>

section \<open>The simulator (consolidation_sim.go)\<close>

datatype sim_error = ListTunnelsFailed apierror | CannotRepack string string | CatalogFailed string

text \<open>Go maps used as sets of names: membership is all that is asked.\<close>

definition candidate_names :: "Candidate list \<Rightarrow> string list" where
  "candidate_names candidates = map (\<lambda>c. Name (cdClaim c)) candidates"

definition repack_pool :: "string list \<Rightarrow> StateExit list \<Rightarrow> ExistingExit list" where
  "repack_pool names ses =
     List.map_filter
       (\<lambda>se. case SnapshotForRead se of
               None \<Rightarrow> None
             | Some (claim, _) \<Rightarrow>
                 if List.member names (Name claim) then None
                 else if MarkedForDeletion se then None
                 else Some \<lparr>exState = Some se, NewlyBound = [], NewlyUsedPorts = []\<rparr>)
       ses"

definition moveable_tunnels :: "string list \<Rightarrow> Tunnel list \<Rightarrow> Tunnel list" where
  "moveable_tunnels names ts =
     filter (\<lambda>t. DeletionTimestamp t = None \<and> List.member names (AssignedExit (tStatus t))) ts"

fun repack_loop :: "Tunnel list \<Rightarrow> ExistingExit list \<Rightarrow> (sim_error option \<times> ExistingExit list) option" where
  "repack_loop [] pool = Some (None, pool)"
| "repack_loop (t # ts) pool =
     (case first_fit ex_CanAdd ex_Add pool t of
        None \<Rightarrow> None
      | Some (pool', None) \<Rightarrow> Some (Some (CannotRepack (Namespace t) (Name t)), pool')
      | Some (pool', Some _) \<Rightarrow> repack_loop ts pool')"

definition CanRepack ::
  "order \<Rightarrow> Cluster \<Rightarrow> (apierror + Tunnel list) \<Rightarrow> Candidate list \<Rightarrow> sim_error option option" where
  "CanRepack ord c listed candidates =
     (let names = candidate_names candidates in
      if names = [] then Some None
      else
        let pool = repack_pool names (Exits ord c) in
        case listed of
          Inl err \<Rightarrow> Some (Some (ListTunnelsFailed err))
        | Inr ts \<Rightarrow>
            let moveable = moveable_tunnels names ts in
            if moveable = [] then Some None
            else map_option fst (repack_loop moveable pool))"

section \<open>Replacing two exits by a cheaper one\<close>

record RepackPlan =
  Replacement :: ExitClaim
  CandidateCost :: rat
  ReplacementCost :: rat

fun pinnedRequirementValue :: "Requirement list \<Rightarrow> string \<Rightarrow> string" where
  "pinnedRequirementValue [] key = []"
| "pinnedRequirementValue (r # reqs) key =
     (if Key r \<noteq> key \<or> Operator r \<noteq> OpIn then pinnedRequirementValue reqs key
      else if Values r = [] then pinnedRequirementValue reqs key
      else hd (Values r))"

fun offering_price :: "string \<Rightarrow> Offering list \<Rightarrow> rat option" where
  "offering_price wantRegion [] = None"
| "offering_price wantRegion (off # offs) =
     (if \<not> ofAvailable off then offering_price wantRegion offs
      else if wantRegion = [] then Some (Price off)
      else if pinnedRequirementValue (ofRequirements off) RequirementRegion = wantRegion then Some (Price off)
      else offering_price wantRegion offs)"

fun catalog_price :: "string \<Rightarrow> string \<Rightarrow> InstanceType list \<Rightarrow> rat option" where
  "catalog_price wantSize wantRegion [] = None"
| "catalog_price wantSize wantRegion (it # its) =
     (if itName it \<noteq> wantSize then catalog_price wantSize wantRegion its
      else case offering_price wantRegion (itOfferings it) of
        None \<Rightarrow> catalog_price wantSize wantRegion its
      | Some p \<Rightarrow> Some p)"

definition lookupClaimPrice :: "InstanceType list \<Rightarrow> ExitClaim \<Rightarrow> rat option" where
  "lookupClaimPrice catalog claim =
     (let wantSize = pinnedRequirementValue (Requirements (cSpec claim)) RequirementInstanceType;
          wantRegion = pinnedRequirementValue (Requirements (cSpec claim)) RequirementRegion
      in if wantSize = [] then None else catalog_price wantSize wantRegion catalog)"

fun total_price :: "InstanceType list \<Rightarrow> Candidate list \<Rightarrow> rat \<Rightarrow> rat option" where
  "total_price catalog [] acc = Some acc"
| "total_price catalog (c # cs) acc =
     (case lookupClaimPrice catalog (cdClaim c) of
        None \<Rightarrow> None
      | Some p \<Rightarrow> total_price catalog cs (acc + p))"

definition tunnelRequestLists :: "Tunnel list \<Rightarrow> ResourceList list" where
  "tunnelRequestLists tunnels = map tunnel_requests tunnels"

text \<open>Requirements are told apart by key and operator; \<open>OpOther\<close> carries the operator's string.\<close>

fun combine_reqs ::
  "Requirement list \<Rightarrow> (string \<times> NodeSelectorOperator) list \<times> Requirement list \<Rightarrow>
     (string \<times> NodeSelectorOperator) list \<times> Requirement list" where
  "combine_reqs [] acc = acc"
| "combine_reqs (r # rs) (seen, out) =
     (if List.member seen (Key r, Operator r) then combine_reqs rs (seen, out)
      else combine_reqs rs ((Key r, Operator r) # seen, out @ [r]))"

definition combineRequirements :: "Tunnel list \<Rightarrow> Requirement list" where
  "combineRequirements tunnels = snd (combine_reqs (concat (map tunnel_reqs tunnels)) ([], []))"

definition buildReplacementClaim ::
  "ExitPool \<Rightarrow> InstanceType \<Rightarrow> Offering \<Rightarrow> ResourceList \<Rightarrow> ExitClaim" where
  "buildReplacementClaim pool it off requested =
     (let tmpl = pool_tmpl pool;
          reqs = tmplRequirements tmpl @ PinChosen it off
      in claim_from_template [] [] []
           \<lparr>ProviderClassRef = tmplProviderClassRef tmpl, Requirements = reqs, Frps = tmplFrps tmpl,
            Requests = requested, ExpireAfter = tmplExpireAfter tmpl,
            TerminationGracePeriod = tmplTerminationGracePeriod tmpl\<rparr>)"

fun pack_loop :: "ExitClaim \<Rightarrow> Tunnel list \<Rightarrow> int list \<Rightarrow> bool option" where
  "pack_loop claim [] used = Some True"
| "pack_loop claim (t # ts) used =
     (case ResolveAutoAssign (AllowPorts (Frps (cSpec claim))) (ReservedPorts (Frps (cSpec claim)))
             used (tunnel_ports t) of
        None \<Rightarrow> None
      | Some None \<Rightarrow> Some False
      | Some (Some assigned) \<Rightarrow> pack_loop claim ts (sput_all assigned used))"

definition canPackOntoNewClaim :: "ExitClaim \<Rightarrow> Tunnel list \<Rightarrow> bool option" where
  "canPackOntoNewClaim claim tunnels = pack_loop claim tunnels []"

text \<open>
  \<open>registry\<close> is \<open>None\<close> when the simulator has none; a provider is what its \<open>GetInstanceTypes\<close> answers
  for the pool. The result is an error, no plan, or a plan.
\<close>

definition CanRepackWithReplacement ::
  "(ExitPool \<Rightarrow> string + InstanceType list) Registry option \<Rightarrow> (apierror + Tunnel list) \<Rightarrow> ExitPool \<Rightarrow>
     Candidate list \<Rightarrow> (sim_error + RepackPlan option) option" where
  "CanRepackWithReplacement registry listed pool candidates =
     (case registry of
        None \<Rightarrow> Some (Inr None)
      | Some reg \<Rightarrow>
          if length candidates < 2 then Some (Inr None)
          else
            let names = candidate_names candidates in
            case For reg (refKind (tmplProviderClassRef (pool_tmpl pool))) of
              Inl err \<Rightarrow> Some (Inr None)
            | Inr cp \<Rightarrow>
                (case cp pool of
                   Inl err \<Rightarrow> Some (Inl (CatalogFailed err))
                 | Inr catalog \<Rightarrow>
                     if catalog = [] then Some (Inr None)
                     else
                       (case total_price catalog candidates 0 of
                          None \<Rightarrow> Some (Inr None)
                        | Some candidateCost \<Rightarrow>
                            (case listed of
                               Inl err \<Rightarrow> Some (Inl (ListTunnelsFailed err))
                             | Inr ts \<Rightarrow>
                                 let moveable = moveable_tunnels names ts;
                                     totalRequested = Sum (tunnelRequestLists moveable);
                                     combined = combineRequirements moveable
                                 in (case SelectInstanceType (\<lambda>cp. cp) (Some reg) pool combined totalRequested of
                                       Inl err \<Rightarrow> Some (Inr None)
                                     | Inr (it, off) \<Rightarrow>
                                         if Price off \<ge> candidateCost then Some (Inr None)
                                         else
                                           let replacement = buildReplacementClaim pool it off totalRequested
                                           in (case canPackOntoNewClaim replacement moveable of
                                                 None \<Rightarrow> None
                                               | Some False \<Rightarrow> Some (Inr None)
                                               | Some True \<Rightarrow>
                                                   Some (Inr (Some \<lparr>Replacement = replacement,
                                                     CandidateCost = candidateCost,
                                                     ReplacementCost = Price off\<rparr>))))))))"

section \<open>The two methods\<close>

definition consolidatable :: "Candidate \<Rightarrow> bool" where
  "consolidatable c =
     (if MarkedForDeletion (cdState c) then False
      else if ConsolidationPolicy (PoolDisruption (pSpec (cdPool c))) \<noteq> ConsolidationWhenEmptyOrUnderutilized
      then False
      else \<not> se_IsEmpty (cdState c))"

text \<open>
  What a method needs from outside while it computes: the order in which the exits are listed, and the
  API server's answer to a \<open>List\<close>, both by the names of the candidates that are simulated.
\<close>

record sim =
  simOrder :: "string list \<Rightarrow> order"
  simCluster :: Cluster
  simTunnels :: "string list \<Rightarrow> apierror + Tunnel list"
  simTunnels2 :: "string list \<Rightarrow> apierror + Tunnel list"
  simRegistry :: "(ExitPool \<Rightarrow> string + InstanceType list) Registry option"

definition sim_CanRepack :: "sim \<Rightarrow> Candidate list \<Rightarrow> sim_error option option" where
  "sim_CanRepack S cands =
     (let names = candidate_names cands
      in CanRepack (simOrder S names) (simCluster S) (simTunnels S names) cands)"

definition single_command :: "Candidate \<Rightarrow> Command" where
  "single_command c = \<lparr>cmdCandidates = [c], cmdReplacements = [],
     cmdReason = DisruptionReasonUnderutilized, cmdMethod = ''SingleNodeConsolidation''\<rparr>"

fun single_loop :: "sim \<Rightarrow> Candidate list \<Rightarrow> BudgetMap \<Rightarrow> Command list option" where
  "single_loop S [] budgets = Some []"
| "single_loop S (c # cs) budgets =
     (let pool = Name (cdPool c); allowed = Allowed budgets pool DisruptionReasonUnderutilized in
      if allowed \<le> 0 then single_loop S cs budgets
      else
        case sim_CanRepack S [c] of
          None \<Rightarrow> None
        | Some (Some err) \<Rightarrow> single_loop S cs budgets
        | Some None \<Rightarrow>
            (case single_loop S cs (SetBudget pool DisruptionReasonUnderutilized (allowed - 1) budgets) of
               None \<Rightarrow> None
             | Some cmds \<Rightarrow> Some (single_command c # cmds)))"

definition Single_ComputeCommands :: "sim \<Rightarrow> BudgetMap \<Rightarrow> Candidate list \<Rightarrow> Command list option" where
  "Single_ComputeCommands S budgets candidates = single_loop S candidates budgets"

definition pair_command :: "Candidate list \<Rightarrow> ExitClaim list \<Rightarrow> Command" where
  "pair_command pair replacements = \<lparr>cmdCandidates = pair, cmdReplacements = replacements,
     cmdReason = DisruptionReasonUnderutilized, cmdMethod = ''MultiNodeConsolidation''\<rparr>"

definition tryPair :: "sim \<Rightarrow> ExitPool \<Rightarrow> Candidate list \<Rightarrow> Command option option" where
  "tryPair S pool pair =
     (case sim_CanRepack S pair of
        None \<Rightarrow> None
      | Some None \<Rightarrow> Some (Some (pair_command pair []))
      | Some (Some err) \<Rightarrow>
          (case CanRepackWithReplacement (simRegistry S) (simTunnels2 S (candidate_names pair)) pool pair of
             None \<Rightarrow> None
           | Some (Inl err) \<Rightarrow> Some None
           | Some (Inr None) \<Rightarrow> Some None
           | Some (Inr (Some plan)) \<Rightarrow> Some (Some (pair_command pair [Replacement plan]))))"

text \<open>The \<open>while\<close> loop over one pool's candidates; the budget of the pool is the part of the map it reads.\<close>

fun pair_loop :: "sim \<Rightarrow> ExitPool \<Rightarrow> string \<Rightarrow> Candidate list \<Rightarrow> BudgetMap \<Rightarrow> (Command list \<times> BudgetMap) option" where
  "pair_loop S pool poolName (c # d # cs) budgets =
     (let allowed = Allowed budgets poolName DisruptionReasonUnderutilized in
      if allowed < 2 then Some ([], budgets)
      else
        case tryPair S pool [c, d] of
          None \<Rightarrow> None
        | Some None \<Rightarrow> pair_loop S pool poolName (d # cs) budgets
        | Some (Some cmd) \<Rightarrow>
            (case pair_loop S pool poolName cs
                    (SetBudget poolName DisruptionReasonUnderutilized (allowed - 2) budgets) of
               None \<Rightarrow> None
             | Some (cmds, budgets') \<Rightarrow> Some (cmd # cmds, budgets')))"
| "pair_loop S pool poolName cs budgets = Some ([], budgets)"

text \<open>\<open>pools[poolName]\<close> is the pool of the last candidate of the bucket.\<close>

fun multi_loop :: "sim \<Rightarrow> (string \<times> Candidate list) list \<Rightarrow> BudgetMap \<Rightarrow> Command list option" where
  "multi_loop S [] budgets = Some []"
| "multi_loop S ((poolName, cs) # rest) budgets =
     (if length cs < 2 then multi_loop S rest budgets
      else case pair_loop S (cdPool (last cs)) poolName cs budgets of
        None \<Rightarrow> None
      | Some (cmds, budgets') \<Rightarrow>
          (case multi_loop S rest budgets' of None \<Rightarrow> None | Some cmds' \<Rightarrow> Some (cmds @ cmds')))"

definition Multi_ComputeCommands :: "order \<Rightarrow> sim \<Rightarrow> BudgetMap \<Rightarrow> Candidate list \<Rightarrow> Command list option" where
  "Multi_ComputeCommands ord S budgets candidates =
     multi_loop S (in_order ord (bucket candidates [])) budgets"

end
