(* ===== verification/DisruptionQueue.thy ===== *)
theory DisruptionQueue
  imports Consolidation
begin

text \<open>
  \<open>disruption/queue.go\<close> and \<open>controller.go\<close>: the execution of a command (cordon the candidates,
  create the replacements, wait until they are ready, mark and delete the candidates) and the pass that
  asks the methods in turn. The cluster cache is \<open>cl h\<close> after the history \<open>h\<close>; waiting takes \<open>fuel\<close>
  rounds, and \<open>None\<close> means that they were not enough.
\<close>

section \<open>The queue\<close>

definition DefaultReplacementReadyTimeout :: int where
  "DefaultReplacementReadyTimeout = 5 * Minute"

definition DefaultReplacementPollInterval :: int where
  "DefaultReplacementPollInterval = 5 * Second"

text \<open>\<open>HasProvisioner\<close> is \<open>Provisioner != nil\<close>.\<close>

record Queue =
  ReplacementReadyTimeout :: int
  ReplacementPollInterval :: int
  HasProvisioner :: bool

definition NewQueue :: "bool \<Rightarrow> Queue" where
  "NewQueue p = \<lparr>ReplacementReadyTimeout = DefaultReplacementReadyTimeout,
     ReplacementPollInterval = DefaultReplacementPollInterval, HasProvisioner = p\<rparr>"

text \<open>
  \<open>cordon\<close>: up to two rounds of reading the claim and patching \<open>Disrupted\<close>; the second only after a
  conflict.
\<close>

fun cordon_rounds :: "env \<Rightarrow> string \<Rightarrow> DisruptionReason \<Rightarrow> nat \<Rightarrow> goerror option io" where
  "cordon_rounds E claimName reason 0 =
     ret (Some (Msg (''cordon claim '' @ claimName @ '': conflict after retry'')))"
| "cordon_rounds E claimName reason (Suc n) =
     do { got \<leftarrow> GetClaim E claimName;
          case got of
            Inl err \<Rightarrow> ret (if err = NotFound then None else Some (ApiErr err))
          | Inr live \<Rightarrow>
              if DeletionTimestamp live \<noteq> None then ret None
              else if disruptedTrue (claim_conds live) then ret None
              else
                do { now \<leftarrow> Now E;
                     r \<leftarrow> PatchClaimStatus E live (live\<lparr>cStatus := (cStatus live)\<lparr>Conditions :=
                            upsertCondition (claim_conds live)
                              \<lparr>Type = ConditionTypeDisrupted, Status = ConditionTrue, Reason = reason,
                               Message = ''disruption: '' @ reason, LastTransitionTime = now,
                               ObservedGeneration = 0\<rparr>\<rparr>\<rparr>);
                     case r of
                       Inr _ \<Rightarrow> ret None
                     | Inl err \<Rightarrow> if err \<noteq> Conflict then ret (Some (ApiErr err))
                                  else cordon_rounds E claimName reason n } }"

definition cordon :: "env \<Rightarrow> string \<Rightarrow> DisruptionReason \<Rightarrow> goerror option io" where
  "cordon E claimName reason = cordon_rounds E claimName reason 2"

fun cordon_all :: "env \<Rightarrow> DisruptionReason \<Rightarrow> Candidate list \<Rightarrow> goerror option io" where
  "cordon_all E reason [] = ret None"
| "cordon_all E reason (cand # cands) =
     do { r \<leftarrow> cordon E (Name (cdClaim cand)) reason;
          case r of
            Some err \<Rightarrow> ret (Some (Wrap (''cordon claim '' @ Name (cdClaim cand) @ '': '') err))
          | None \<Rightarrow> cordon_all E reason cands }"

text \<open>
  \<open>provisionerAdapter.CreateReplacements\<close> (\<open>pkg/operator/operator.go\<close>). \<open>Create\<close> fills in the object it
  is given, so the claims come back as the server named them.
\<close>

fun CreateReplacements :: "env \<Rightarrow> ExitClaim list \<Rightarrow> (goerror + ExitClaim list) io" where
  "CreateReplacements E [] = ret (Inr [])"
| "CreateReplacements E (c # claims) =
     do { r \<leftarrow> CreateClaim E c;
          case r of
            Inl err \<Rightarrow>
              if err \<noteq> AlreadyExists then ret (Inl (ApiErr err))
              else do { rest \<leftarrow> CreateReplacements E claims;
                        ret (case rest of Inl e \<Rightarrow> Inl e | Inr cs \<Rightarrow> Inr (c # cs)) }
          | Inr created \<Rightarrow>
              do { rest \<leftarrow> CreateReplacements E claims;
                   ret (case rest of Inl e \<Rightarrow> Inl e | Inr cs \<Rightarrow> Inr (created # cs)) } }"

text \<open>One look at all replacements: an error, or whether all (named) ones are ready.\<close>

fun check_ready :: "env \<Rightarrow> ExitClaim list \<Rightarrow> (apierror + bool) io" where
  "check_ready E [] = ret (Inr True)"
| "check_ready E (r # rs) =
     (if Name r = [] then check_ready E rs
      else do { got \<leftarrow> GetClaim E (Name r);
                case got of
                  Inl err \<Rightarrow> ret (if err = NotFound then Inr False else Inl err)
                | Inr live \<Rightarrow>
                    if \<not> readyTrue (claim_conds live) then ret (Inr False)
                    else check_ready E rs })"

text \<open>\<open>cancelled h\<close>: the context is done when the wait after the history \<open>h\<close> ends.\<close>

fun wait_loop ::
  "env \<Rightarrow> (event list \<Rightarrow> bool) \<Rightarrow> Queue \<Rightarrow> ExitClaim list \<Rightarrow> int \<Rightarrow> nat \<Rightarrow> goerror option option io" where
  "wait_loop E cancelled q rs deadline 0 = ret None"
| "wait_loop E cancelled q rs deadline (Suc fuel) =
     do { allReady \<leftarrow> check_ready E rs;
          case allReady of
            Inl err \<Rightarrow> ret (Some (Some (ApiErr err)))
          | Inr True \<Rightarrow> ret (Some None)
          | Inr False \<Rightarrow>
              do { now \<leftarrow> Now E;
                   if \<not> now < deadline then
                     ret (Some (Some (Msg ''replacements did not become Ready'')))
                   else
                     do { _ \<leftarrow> Sleep (ReplacementPollInterval q);
                          h \<leftarrow> State_Monad.get;
                          if cancelled h then ret (Some (Some (Msg ''context done'')))
                          else wait_loop E cancelled q rs deadline fuel } } }"

definition waitForReplacementsReady ::
  "env \<Rightarrow> (event list \<Rightarrow> bool) \<Rightarrow> Queue \<Rightarrow> nat \<Rightarrow> ExitClaim list \<Rightarrow> goerror option option io" where
  "waitForReplacementsReady E cancelled q fuel replacements =
     (if replacements = [] then ret (Some None)
      else do { now \<leftarrow> Now E;
                wait_loop E cancelled q replacements (now + ReplacementReadyTimeout q) fuel })"

text \<open>Mark every candidate in the cache and delete its claim.\<close>

fun delete_all :: "env \<Rightarrow> Candidate list \<Rightarrow> goerror option io" where
  "delete_all E [] = ret None"
| "delete_all E (cand # cands) =
     (let name = Name (cdClaim cand) in
      do { _ \<leftarrow> MarkExit name;
           got \<leftarrow> GetClaim E name;
           case got of
             Inl err \<Rightarrow> if err = NotFound then delete_all E cands
                        else ret (Some (Wrap (''get claim '' @ name @ '': '') (ApiErr err)))
           | Inr live \<Rightarrow>
               if DeletionTimestamp live \<noteq> None then delete_all E cands
               else do { r \<leftarrow> DeleteClaim E live;
                         case r of
                           Some err \<Rightarrow>
                             if err \<noteq> NotFound then
                               ret (Some (Wrap (''delete claim '' @ name @ '': '') (ApiErr err)))
                             else delete_all E cands
                         | None \<Rightarrow> delete_all E cands } })"

definition launch_replacements ::
  "env \<Rightarrow> (event list \<Rightarrow> bool) \<Rightarrow> Queue \<Rightarrow> nat \<Rightarrow> ExitClaim list \<Rightarrow> goerror option option io" where
  "launch_replacements E cancelled q fuel replacements =
     (if replacements = [] then ret (Some None)
      else if \<not> HasProvisioner q then
        ret (Some (Some (Msg ''command requires replacements but no ProvisionerTrigger wired'')))
      else do { created \<leftarrow> CreateReplacements E replacements;
                case created of
                  Inl err \<Rightarrow> ret (Some (Some (Wrap ''create replacements: '' err)))
                | Inr claims \<Rightarrow>
                    do { r \<leftarrow> waitForReplacementsReady E cancelled q fuel claims;
                         ret (map_option (map_option (Wrap ''wait for replacements: '')) r) } })"

definition Enqueue ::
  "env \<Rightarrow> (event list \<Rightarrow> bool) \<Rightarrow> Queue \<Rightarrow> nat \<Rightarrow> Command \<Rightarrow> goerror option option io" where
  "Enqueue E cancelled q fuel cmd =
     do { r \<leftarrow> cordon_all E (cmdReason cmd) (cmdCandidates cmd);
          case r of
            Some err \<Rightarrow> ret (Some (Some err))
          | None \<Rightarrow>
              do { r \<leftarrow> launch_replacements E cancelled q fuel (cmdReplacements cmd);
                   case r of
                     None \<Rightarrow> ret None
                   | Some (Some err) \<Rightarrow> ret (Some (Some err))
                   | Some None \<Rightarrow> do { r \<leftarrow> delete_all E (cmdCandidates cmd); ret (Some r) } } }"

section \<open>The controller\<close>

text \<open>\<open>Method\<close>: the answer of \<open>ComputeCommands\<close> is \<open>None\<close> where port assignment does not return.\<close>

record Method =
  mName :: string
  mReason :: DisruptionReason
  Forceful :: bool
  ShouldDisrupt :: "Candidate \<Rightarrow> bool"
  ComputeCommands :: "BudgetMap \<Rightarrow> Candidate list \<Rightarrow> Command list option"

definition NewEmptiness :: "order \<Rightarrow> int \<Rightarrow> Method" where
  "NewEmptiness ord now = \<lparr>mName = ''Emptiness'', mReason = DisruptionReasonEmpty, Forceful = False,
     ShouldDisrupt = Emptiness_ShouldDisrupt now,
     ComputeCommands = (\<lambda>b cs. Some (Emptiness_ComputeCommands ord b cs))\<rparr>"

definition NewDrift :: "order \<Rightarrow> Method" where
  "NewDrift ord = \<lparr>mName = ''Drift'', mReason = DisruptionReasonDrifted, Forceful = False,
     ShouldDisrupt = Drift_ShouldDisrupt,
     ComputeCommands = (\<lambda>b cs. Some (Drift_ComputeCommands ord b cs))\<rparr>"

definition NewExpiration :: "order \<Rightarrow> int \<Rightarrow> Method" where
  "NewExpiration ord now = \<lparr>mName = ''Expiration'', mReason = DisruptionReasonExpired, Forceful = True,
     ShouldDisrupt = Expiration_ShouldDisrupt now,
     ComputeCommands = (\<lambda>b cs. Some (Expiration_ComputeCommands ord b cs))\<rparr>"

definition NewMultiNodeConsolidation :: "order \<Rightarrow> sim \<Rightarrow> Method" where
  "NewMultiNodeConsolidation ord S = \<lparr>mName = ''MultiNodeConsolidation'',
     mReason = DisruptionReasonUnderutilized, Forceful = False, ShouldDisrupt = consolidatable,
     ComputeCommands = Multi_ComputeCommands ord S\<rparr>"

definition NewSingleNodeConsolidation :: "sim \<Rightarrow> Method" where
  "NewSingleNodeConsolidation S = \<lparr>mName = ''SingleNodeConsolidation'',
     mReason = DisruptionReasonUnderutilized, Forceful = False, ShouldDisrupt = consolidatable,
     ComputeCommands = Single_ComputeCommands S\<rparr>"

definition DefaultMethods :: "order \<Rightarrow> int \<Rightarrow> sim \<Rightarrow> Method list" where
  "DefaultMethods ord now S =
     [NewEmptiness ord now, NewDrift ord, NewExpiration ord now, NewMultiNodeConsolidation ord S,
      NewSingleNodeConsolidation S]"

fun compute_budgets_loop ::
  "cron \<Rightarrow> Cluster \<Rightarrow> int \<Rightarrow> Method \<Rightarrow> Candidate list \<Rightarrow> string list \<Rightarrow> BudgetMap \<Rightarrow> BudgetMap" where
  "compute_budgets_loop parse c now m [] seen budgets = budgets"
| "compute_budgets_loop parse c now m (cand # cands) seen budgets =
     (let pool = cdPool cand in
      if List.member seen (Name pool) then compute_budgets_loop parse c now m cands seen budgets
      else compute_budgets_loop parse c now m cands (Name pool # seen)
             (SetBudget (Name pool) (mReason m)
                (if Forceful m then max_int32
                 else GetAllowedDisruptionsByReason parse c pool (mReason m) now) budgets))"

definition computeBudgets :: "cron \<Rightarrow> Cluster \<Rightarrow> int \<Rightarrow> Candidate list \<Rightarrow> Method \<Rightarrow> BudgetMap" where
  "computeBudgets parse c now candidates m = compute_budgets_loop parse c now m candidates [] []"

fun pool_lookup_loop :: "StatePool list \<Rightarrow> (string, ExitPool) gomap \<Rightarrow> (string, ExitPool) gomap" where
  "pool_lookup_loop [] m = m"
| "pool_lookup_loop (sp # sps) m =
     (case Snapshot sp of
        None \<Rightarrow> pool_lookup_loop sps m
      | Some snap \<Rightarrow> pool_lookup_loop sps (mput (Name snap) snap m))"

definition poolLookup :: "order \<Rightarrow> Cluster \<Rightarrow> string \<Rightarrow> ExitPool option" where
  "poolLookup ord c = mget (pool_lookup_loop (Pools ord c) [])"

text \<open>
  The loop over one method's commands. \<open>Inr any\<close> is whether a command was executed, \<open>Inl\<close> the error
  that ends the pass.
\<close>

fun exec_commands ::
  "env \<Rightarrow> (event list \<Rightarrow> bool) \<Rightarrow> (event list \<Rightarrow> Cluster) \<Rightarrow> Queue \<Rightarrow> nat \<Rightarrow> Command list \<Rightarrow> bool \<Rightarrow>
     (goerror + bool) option io" where
  "exec_commands E cancelled cl q fuel [] anyExecuted = ret (Some (Inr anyExecuted))"
| "exec_commands E cancelled cl q fuel (cmd # cmds) anyExecuted =
     do { h \<leftarrow> State_Monad.get;
          case Validate (cl h) cmd of
            Some err \<Rightarrow> exec_commands E cancelled cl q fuel cmds anyExecuted
          | None \<Rightarrow>
              do { r \<leftarrow> Enqueue E cancelled q fuel cmd;
                   case r of
                     None \<Rightarrow> ret None
                   | Some (Some err) \<Rightarrow> ret (Some (Inl err))
                   | Some None \<Rightarrow> exec_commands E cancelled cl q fuel cmds True } }"

fun run_methods ::
  "env \<Rightarrow> (event list \<Rightarrow> bool) \<Rightarrow> (event list \<Rightarrow> Cluster) \<Rightarrow> cron \<Rightarrow> Queue \<Rightarrow> nat \<Rightarrow> int \<Rightarrow> int \<Rightarrow>
     Candidate list \<Rightarrow> Method list \<Rightarrow> Result option io" where
  "run_methods E cancelled cl parse q fuel poll now candidates [] = ret (Some (after poll))"
| "run_methods E cancelled cl parse q fuel poll now candidates (m # ms) =
     (let eligible = filter (ShouldDisrupt m) candidates in
      if eligible = [] then run_methods E cancelled cl parse q fuel poll now candidates ms
      else
        do { h \<leftarrow> State_Monad.get;
             case ComputeCommands m (computeBudgets parse (cl h) now eligible m) eligible of
               None \<Rightarrow> ret None
             | Some [] \<Rightarrow> run_methods E cancelled cl parse q fuel poll now candidates ms
             | Some cmds \<Rightarrow>
                 do { r \<leftarrow> exec_commands E cancelled cl q fuel cmds False;
                      case r of
                        None \<Rightarrow> ret None
                      | Some (Inl err) \<Rightarrow> ret (Some (after (30 * Second)))
                      | Some (Inr True) \<Rightarrow> ret (Some (after poll))
                      | Some (Inr False) \<Rightarrow> run_methods E cancelled cl parse q fuel poll now candidates ms } })"

definition DefaultPollInterval :: int where
  "DefaultPollInterval = 10 * Second"

definition pollInterval :: "int \<Rightarrow> int" where
  "pollInterval p = (if p > 0 then p else DefaultPollInterval)"

definition disruption_Reconcile ::
  "env \<Rightarrow> (event list \<Rightarrow> bool) \<Rightarrow> (event list \<Rightarrow> Cluster) \<Rightarrow> cron \<Rightarrow> Queue \<Rightarrow> nat \<Rightarrow> int \<Rightarrow> order \<Rightarrow> order \<Rightarrow>
     (string \<Rightarrow> int) \<Rightarrow> int \<Rightarrow> bool \<Rightarrow> Method list \<Rightarrow> Result option io" where
  "disruption_Reconcile E cancelled cl parse q fuel interval ord1 ord2 clk now is_synced methods =
     (if \<not> is_synced then ret (Some (after Second))
      else
        do { h \<leftarrow> State_Monad.get;
             let candidates = GetCandidates ord1 clk (poolLookup ord2 (cl h)) (cl h);
                 poll = pollInterval interval
             in if candidates = [] then ret (Some (after poll))
                else run_methods E cancelled cl parse q fuel poll now candidates methods })"

end
