(* ===== verification/DisruptionBudgets.thy ===== *)
theory DisruptionBudgets
  imports DisruptionQueue "HOL-Library.Multiset"
begin

text \<open>
  Budgets. \<open>disruption_method\<close> is the contract of a \<open>Method\<close>: its commands take only candidates it
  was given, each at most once, at most as many of a pool as the budget map allows, under its own
  reason. All five methods are instances. With what \<open>computeBudgets\<close> puts into the map, a method
  that is not forceful takes at most \<open>GetAllowedDisruptionsByReason\<close> exits of a pool.
\<close>

section \<open>Accounting\<close>

definition taken :: "Command list \<Rightarrow> Candidate list" where
  "taken cmds = concat (map cmdCandidates cmds)"

definition of_pool :: "string \<Rightarrow> Candidate list \<Rightarrow> nat" where
  "of_pool p cs = length (filter (\<lambda>c. Name (cdPool c) = p) cs)"

lemma taken_simps [simp]:
  "taken [] = []" "taken (cmd # cmds) = cmdCandidates cmd @ taken cmds" "taken (as @ bs) = taken as @ taken bs"
  by (simp_all add: taken_def)

lemma of_pool_simps [simp]:
  "of_pool p [] = 0" "of_pool p (c # cs) = (if Name (cdPool c) = p then 1 else 0) + of_pool p cs"
  "of_pool p (as @ bs) = of_pool p as + of_pool p bs"
  by (simp_all add: of_pool_def)

lemma of_pool_size: "of_pool p cs = size (filter_mset (\<lambda>c. Name (cdPool c) = p) (mset cs))"
  by (simp add: of_pool_def flip: mset_filter)

lemma of_pool_mono: "mset as \<subseteq># mset bs \<Longrightarrow> of_pool p as \<le> of_pool p bs"
  by (simp add: of_pool_size size_mset_mono multiset_filter_mono)

lemma of_pool_all: "(\<And>c. c \<in> set cs \<Longrightarrow> Name (cdPool c) = q) \<Longrightarrow> of_pool p cs = (if p = q then length cs else 0)"
  by (induction cs) auto

lemma Allowed_SetBudget [simp]:
  "Allowed (SetBudget p r n b) q s = (if q = p \<and> s = r then n else Allowed b q s)"
  by (auto simp: Allowed_def SetBudget_def Let_def split: option.splits)

lemma mset_in_order [simp]:
  assumes "is_order ord"
  shows "mset (in_order ord xs) = mset xs"
proof -
  have "mset (ord (length xs)) = mset [0..<length xs]"
    using assms by (intro set_eq_iff_mset_eq_distinct [THEN iffD1]) (auto simp: is_order_def)
  then have "mset (map ((!) xs) (ord (length xs))) = mset (map ((!) xs) [0..<length xs])"
    by (metis mset_map)
  then show ?thesis by (simp add: in_order_def map_nth)
qed

lemma mset_concat_in_order:
  assumes "is_order ord"
  shows "mset (concat (map snd (in_order ord xs))) = mset (concat (map snd xs))"
proof -
  have "mset (map (\<lambda>x. mset (snd x)) (in_order ord xs)) = mset (map (\<lambda>x. mset (snd x)) xs)"
    using assms by simp
  from arg_cong [OF this, of sum_mset] show ?thesis
    by (simp add: mset_concat sum_mset_sum_list comp_def del: mset_map mset_in_order)
qed

section \<open>Buckets\<close>

definition buckets_ok :: "(string, Candidate list) gomap \<Rightarrow> bool" where
  "buckets_ok m \<longleftrightarrow> distinct (map fst m) \<and> (\<forall>(p, cs) \<in> set m. \<forall>c \<in> set cs. Name (cdPool c) = p)"

lemma buckets_okD: "buckets_ok m \<Longrightarrow> (p, cs) \<in> set m \<Longrightarrow> c \<in> set cs \<Longrightarrow> Name (cdPool c) = p"
  by (auto simp: buckets_ok_def)

lemma buckets_ok_in_order: "is_order ord \<Longrightarrow> buckets_ok m \<Longrightarrow> buckets_ok (in_order ord m)"
  by (simp add: buckets_ok_def distinct_map_in_order)

lemma buckets_ok_update:
  assumes "buckets_ok m" and "Name (cdPool c) = p"
  shows "buckets_ok (mput p ((case mget m p of None \<Rightarrow> [] | Some ds \<Rightarrow> ds) @ [c]) m)"
proof -
  have d: "distinct (map fst m)" using assms(1) by (simp add: buckets_ok_def)
  then have d': "distinct (map fst (mput p ((case mget m p of None \<Rightarrow> [] | Some ds \<Rightarrow> ds) @ [c]) m))"
    by (rule distinct_update)
  have "\<forall>(q, cs) \<in> set (mput p ((case mget m p of None \<Rightarrow> [] | Some ds \<Rightarrow> ds) @ [c]) m).
      \<forall>x \<in> set cs. Name (cdPool x) = q"
  proof (clarify)
    fix q cs x
    assume "(q, cs) \<in> set (mput p ((case mget m p of None \<Rightarrow> [] | Some ds \<Rightarrow> ds) @ [c]) m)" and x: "x \<in> set cs"
    from map_of_is_SomeI [OF d' this(1)]
    have "if q = p then cs = (case mget m p of None \<Rightarrow> [] | Some ds \<Rightarrow> ds) @ [c] else mget m q = Some cs"
      by (simp split: if_splits)
    with x assms d show "Name (cdPool x) = q"
      by (auto split: if_splits option.splits dest!: map_of_SomeD intro: buckets_okD)
  qed
  with d' show ?thesis by (simp add: buckets_ok_def)
qed

lemma mset_bucket_update:
  "mset (concat (map snd (mput p ((case mget m p of None \<Rightarrow> [] | Some ds \<Rightarrow> ds) @ [c]) m))) =
     add_mset c (mset (concat (map snd m)))"
  by (induction m) auto

lemma bucket_ok:
  "buckets_ok m \<Longrightarrow> buckets_ok (bucket cs m) \<and> mset (concat (map snd (bucket cs m))) = mset (concat (map snd m)) + mset cs"
proof (induction cs arbitrary: m)
  case (Cons c cs)
  from Cons.IH [OF buckets_ok_update [OF Cons.prems refl, of c]] show ?case
    by (simp add: mset_bucket_update del: mset_concat)
qed simp

lemma bucket_start:
  assumes "is_order ord"
  shows "buckets_ok (in_order ord (bucket cs []))"
    and "mset (concat (map snd (in_order ord (bucket cs [])))) = mset cs"
proof -
  have "buckets_ok []" by (simp add: buckets_ok_def)
  from bucket_ok [OF this, of cs] assms show "buckets_ok (in_order ord (bucket cs []))"
    and "mset (concat (map snd (in_order ord (bucket cs [])))) = mset cs"
    by (simp_all add: buckets_ok_in_order mset_concat_in_order del: mset_concat)
qed

section \<open>The loops of the methods\<close>

lemma cap_take: "mset (cap n cs) \<subseteq># mset cs" "0 < n \<Longrightarrow> int (length (cap n cs)) \<le> n"
proof -
  have "mset (take k cs) \<subseteq># mset cs" for k
    by (metis append_take_drop_id mset_append mset_subset_eq_add_left)
  then show "mset (cap n cs) \<subseteq># mset cs" by (simp add: cap_def)
qed (auto simp: cap_def)

lemma per_pool_taken:
  assumes "\<And>cs. cmdCandidates (mk cs) = cs"
  shows "mset (taken (per_pool_loop mk reason b xs)) \<subseteq># mset (concat (map snd xs))"
proof (induction xs)
  case (Cons x xs)
  obtain p cs where x: "x = (p, cs)" by fastforce
  show ?case
    using Cons subset_mset.add_mono [OF cap_take(1) [of "Allowed b p reason" cs] Cons]
    by (auto simp: x Let_def assms intro: subset_mset.order_trans)
qed simp

lemma per_pool_other:
  assumes "\<And>cs. cmdCandidates (mk cs) = cs" and "buckets_ok xs" and "p \<notin> fst ` set xs"
  shows "of_pool p (taken (per_pool_loop mk reason b xs)) = 0"
proof -
  have "c \<in> set (taken (per_pool_loop mk reason b xs)) \<Longrightarrow> Name (cdPool c) \<noteq> p" for c
    using mset_subset_eqD [OF per_pool_taken [OF assms(1)], of c reason b xs] assms(2,3) buckets_okD [OF assms(2)]
    by (auto simp del: mset_concat simp: rev_image_eqI)
  then show ?thesis by (auto simp: of_pool_def filter_empty_conv)
qed

lemma per_pool_within:
  assumes "\<And>cs. cmdCandidates (mk cs) = cs" and "buckets_ok xs"
  shows "int (of_pool p (taken (per_pool_loop mk reason b xs))) \<le> max 0 (Allowed b p reason)"
  using assms(2)
proof (induction xs)
  case (Cons x xs)
  obtain q cs where x: "x = (q, cs)" by fastforce
  have ok: "buckets_ok xs" using Cons.prems by (auto simp: buckets_ok_def)
  have q: "q \<notin> fst ` set xs" "\<And>c. c \<in> set (cap n cs) \<Longrightarrow> Name (cdPool c) = q" for n
    using Cons.prems x by (auto simp: buckets_ok_def cap_def split: if_splits dest: in_set_takeD)
  show ?case
    using Cons.IH [OF ok] per_pool_other [OF assms(1) ok q(1)] cap_take(2) [of "Allowed b q reason" cs]
    by (auto simp: x Let_def assms(1) of_pool_all [OF q(2)])
qed simp

lemma per_pool_reason:
  "(\<And>cs. cmdReason (mk cs) = r) \<Longrightarrow> cmd \<in> set (per_pool_loop mk reason b xs) \<Longrightarrow> cmdReason cmd = r"
  by (induction xs) (auto simp: Let_def split: if_splits)

lemma single_loop_ok:
  "single_loop S cs b = Some cmds \<Longrightarrow> mset (taken cmds) \<subseteq># mset cs \<and>
     int (of_pool p (taken cmds)) \<le> max 0 (Allowed b p DisruptionReasonUnderutilized) \<and>
     (\<forall>cmd \<in> set cmds. cmdReason cmd = DisruptionReasonUnderutilized)"
proof (induction cs arbitrary: b cmds)
  case Nil
  then show ?case by simp
next
  case (Cons c cs)
  let ?q = "Name (cdPool c)" and ?r = DisruptionReasonUnderutilized
  from Cons.prems consider (skip) "single_loop S cs b = Some cmds"
    | (go) rest where "0 < Allowed b ?q ?r" "cmds = single_command c # rest"
        "single_loop S cs (SetBudget ?q ?r (Allowed b ?q ?r - 1) b) = Some rest"
    by (auto simp: Let_def split: if_splits option.splits)
  then show ?case
  proof cases
    case skip
    from Cons.IH [OF this] show ?thesis
      by (auto intro: subset_mset.order_trans)
  next
    case go
    from Cons.IH [OF go(3)] go(1) show ?thesis
      by (auto simp: go(2) single_command_def)
  qed
qed

lemma tryPair_command:
  "tryPair S pool pair = Some (Some cmd) \<Longrightarrow>
     cmdCandidates cmd = pair \<and> cmdReason cmd = DisruptionReasonUnderutilized"
  by (auto simp: tryPair_def pair_command_def split: option.splits sum.splits)

lemma pair_loop_cases:
  assumes "pair_loop S pool q (c # d # cs) b = Some (cmds, b')"
  obtains (stop) "cmds = []" "b' = b"
    | (skip) "pair_loop S pool q (d # cs) b = Some (cmds, b')"
    | (go) cmd rest where "2 \<le> Allowed b q DisruptionReasonUnderutilized"
        "tryPair S pool [c, d] = Some (Some cmd)" "cmds = cmd # rest"
        "pair_loop S pool q cs (SetBudget q DisruptionReasonUnderutilized
           (Allowed b q DisruptionReasonUnderutilized - 2) b) = Some (rest, b')"
proof (cases "Allowed b q DisruptionReasonUnderutilized < 2")
  case True
  with assms stop show ?thesis by (simp add: Let_def)
next
  case False
  note A = assms [unfolded pair_loop.simps Let_def if_not_P [OF False]]
  show ?thesis
  proof (cases "tryPair S pool [c, d]")
    case (Some r)
    then show ?thesis
    proof (cases r)
      case None
      with A Some skip show ?thesis by simp
    next
      case (Some cmd)
      with A \<open>tryPair S pool [c, d] = Some r\<close> obtain rest where
        "cmds = cmd # rest" "pair_loop S pool q cs (SetBudget q DisruptionReasonUnderutilized
           (Allowed b q DisruptionReasonUnderutilized - 2) b) = Some (rest, b')"
        by (auto split: option.splits)
      with False Some \<open>tryPair S pool [c, d] = Some r\<close> go show ?thesis by simp
    qed
  qed (use A in simp)
qed

lemma pair_loop_ok:
  "pair_loop S pool q cs b = Some (cmds, b') \<Longrightarrow> (\<And>c. c \<in> set cs \<Longrightarrow> Name (cdPool c) = q) \<Longrightarrow>
     mset (taken cmds) \<subseteq># mset cs \<and>
     int (length (taken cmds)) \<le> max 0 (Allowed b q DisruptionReasonUnderutilized) \<and>
     (\<forall>p. p \<noteq> q \<longrightarrow> Allowed b' p DisruptionReasonUnderutilized = Allowed b p DisruptionReasonUnderutilized) \<and>
     (\<forall>cmd \<in> set cmds. cmdReason cmd = DisruptionReasonUnderutilized)"
proof (induction cs arbitrary: b cmds rule: induct_list012)
  case (3 c d cs)
  let ?r = DisruptionReasonUnderutilized
  from 3(3) show ?case
  proof (cases rule: pair_loop_cases)
    case stop
    then show ?thesis by simp
  next
    case skip
    have "\<And>x. x \<in> set (d # cs) \<Longrightarrow> Name (cdPool x) = q" using 3(4) by simp
    note I = 3(2) [OF skip this]
    have "mset (d # cs) \<subseteq># mset (c # d # cs)" by simp
    with I have "mset (taken cmds) \<subseteq># mset (c # d # cs)"
      using subset_mset.order_trans by blast
    with I show ?thesis by blast
  next
    case go
    have "\<And>x. x \<in> set cs \<Longrightarrow> Name (cdPool x) = q" using 3(4) by simp
    note I = 3(1) [OF go(4) this]
    note T = tryPair_command [OF go(2)]
    have "mset (taken cmds) \<subseteq># mset (c # d # cs)"
      using I T by (simp add: go(3))
    moreover have "int (length (taken cmds)) \<le> max 0 (Allowed b q ?r)"
      using I T go(1) by (simp add: go(3))
    moreover have "\<forall>p. p \<noteq> q \<longrightarrow> Allowed b' p ?r = Allowed b p ?r"
      using I by simp
    moreover have "\<forall>cmd \<in> set cmds. cmdReason cmd = ?r"
      using I T by (simp add: go(3))
    ultimately show ?thesis by blast
  qed
qed auto

lemma multi_loop_ok:
  "multi_loop S xs b = Some cmds \<Longrightarrow> buckets_ok xs \<Longrightarrow>
     mset (taken cmds) \<subseteq># mset (concat (map snd xs)) \<and>
     int (of_pool p (taken cmds)) \<le> max 0 (Allowed b p DisruptionReasonUnderutilized) \<and>
     (\<forall>cmd \<in> set cmds. cmdReason cmd = DisruptionReasonUnderutilized)"
proof (induction xs arbitrary: b cmds)
  case Nil
  then show ?case by simp
next
  case (Cons x xs)
  obtain q cs where x: "x = (q, cs)" by fastforce
  have ok: "buckets_ok xs" and nq: "q \<notin> fst ` set xs" and q: "\<And>c. c \<in> set cs \<Longrightarrow> Name (cdPool c) = q"
    using Cons.prems(2) x by (auto simp: buckets_ok_def)
  from Cons.prems(1) consider (skip) "multi_loop S xs b = Some cmds"
    | (go) as b' rest where "pair_loop S (cdPool (last cs)) q cs b = Some (as, b')"
        "multi_loop S xs b' = Some rest" "cmds = as @ rest"
    by (auto simp: x split: if_splits option.splits)
  then show ?case
  proof cases
    case skip
    note I = Cons.IH [OF this ok]
    then have "mset (taken cmds) \<subseteq># mset (concat (map snd (x # xs)))"
      by (simp add: x subset_mset.add_increasing del: mset_concat)
    with I show ?thesis by blast
  next
    case go
    note P = pair_loop_ok [OF go(1) q, THEN conjunct1]
    note P' = pair_loop_ok [OF go(1) q, THEN conjunct2]
    note R = Cons.IH [OF go(2) ok, THEN conjunct1]
    note R' = Cons.IH [OF go(2) ok, THEN conjunct2]
    have mem: "c \<in> set (taken as) \<Longrightarrow> Name (cdPool c) = q" for c
      using set_mset_mono [OF P] q by (simp add: subset_iff)
    have "Name (cdPool c) \<noteq> q" if "c \<in> set (taken rest)" for c
    proof -
      have "c \<in> set (concat (map snd xs))"
        using set_mset_mono [OF R] that by (simp only: set_mset_mset subset_iff)
      then obtain p' cs' where "(p', cs') \<in> set xs" "c \<in> set cs'" by auto
      with buckets_okD [OF ok] nq show ?thesis by (metis fst_conv image_eqI)
    qed
    then have none: "of_pool q (taken rest) = 0" by (simp add: of_pool_def filter_empty_conv)
    have sub: "mset (taken cmds) \<subseteq># mset (concat (map snd (x # xs)))"
      using subset_mset.add_mono [OF P R]
      by (simp only: go(3) x taken_simps mset_append list.map snd_conv concat.simps)
    have "int (of_pool p (taken cmds)) \<le> max 0 (Allowed b p DisruptionReasonUnderutilized)"
    proof (cases "p = q")
      case True
      then show ?thesis using P' none by (simp add: go(3) of_pool_all [OF mem])
    next
      case False
      have "int (of_pool p (taken rest)) \<le> max 0 (Allowed b' p DisruptionReasonUnderutilized)"
        using R' by blast
      moreover have "Allowed b' p DisruptionReasonUnderutilized = Allowed b p DisruptionReasonUnderutilized"
        using P' False by blast
      ultimately show ?thesis using False by (simp add: go(3) of_pool_all [OF mem])
    qed
    moreover have "\<forall>cmd \<in> set cmds. cmdReason cmd = DisruptionReasonUnderutilized"
      using P' R' by (simp add: go(3) ball_Un)
    ultimately show ?thesis using sub by blast
  qed
qed

section \<open>The contract\<close>

locale disruption_method =
  fixes mk :: "order \<Rightarrow> Method"
  assumes sub: "is_order ord \<Longrightarrow> ComputeCommands (mk ord) b cs = Some cmds \<Longrightarrow> mset (taken cmds) \<subseteq># mset cs"
    and within: "is_order ord \<Longrightarrow> ComputeCommands (mk ord) b cs = Some cmds \<Longrightarrow>
      int (of_pool p (taken cmds)) \<le> max 0 (Allowed b p (mReason (mk ord)))"
    and own_reason: "is_order ord \<Longrightarrow> ComputeCommands (mk ord) b cs = Some cmds \<Longrightarrow> cmd \<in> set cmds \<Longrightarrow>
      cmdReason cmd = mReason (mk ord)"
begin

lemma mem: "is_order ord \<Longrightarrow> ComputeCommands (mk ord) b cs = Some cmds \<Longrightarrow> c \<in> set (taken cmds) \<Longrightarrow> c \<in> set cs"
  using set_mset_mono [OF sub [of ord b cs cmds]] by auto

lemma nothing_unbudgeted:
  "is_order ord \<Longrightarrow> ComputeCommands (mk ord) b cs = Some cmds \<Longrightarrow> cmd \<in> set cmds \<Longrightarrow>
     c \<in> set (cmdCandidates cmd) \<Longrightarrow> 0 < Allowed b (Name (cdPool c)) (mReason (mk ord))"
proof -
  assume a: "is_order ord" "ComputeCommands (mk ord) b cs = Some cmds" "cmd \<in> set cmds" "c \<in> set (cmdCandidates cmd)"
  then have "c \<in> set (filter (\<lambda>d. Name (cdPool d) = Name (cdPool c)) (taken cmds))" by (auto simp: taken_def)
  then have "0 < of_pool (Name (cdPool c)) (taken cmds)"
    unfolding of_pool_def by (metis length_pos_if_in_set)
  with within [OF a(1,2), of "Name (cdPool c)"] show ?thesis by simp
qed

end

lemmas method_defs = NewEmptiness_def NewDrift_def NewExpiration_def NewMultiNodeConsolidation_def
  NewSingleNodeConsolidation_def

interpretation emptiness: disruption_method "\<lambda>ord. NewEmptiness ord now" for now
proof
  fix ord b cs cmds p cmd
  assume a: "is_order ord" "ComputeCommands (NewEmptiness ord now) b cs = Some cmds"
  note B = bucket_start [OF a(1), of cs]
  note c = a(2) [unfolded NewEmptiness_def Method.select_convs option.inject Emptiness_ComputeCommands_def, symmetric]
  show "mset (taken cmds) \<subseteq># mset cs"
    unfolding c using per_pool_taken B(2) by (metis (no_types, lifting) Command.select_convs(1))
  show "int (of_pool p (taken cmds)) \<le> max 0 (Allowed b p (mReason (NewEmptiness ord now)))"
    unfolding c NewEmptiness_def Method.select_convs by (rule per_pool_within [OF _ B(1)]) simp
  assume "cmd \<in> set cmds"
  then show "cmdReason cmd = mReason (NewEmptiness ord now)"
    unfolding c by (auto simp: NewEmptiness_def elim!: per_pool_reason [rotated])
qed

lemma replacements_ok:
  assumes "is_order ord"
  shows "mset (taken (computePerPoolWithReplacements ord meth r b cs)) \<subseteq># mset cs"
    and "int (of_pool p (taken (computePerPoolWithReplacements ord meth r b cs))) \<le> max 0 (Allowed b p r)"
    and "cmd \<in> set (computePerPoolWithReplacements ord meth r b cs) \<Longrightarrow> cmdReason cmd = r"
proof -
  note B = bucket_start [OF assms, of cs]
  note c = computePerPoolWithReplacements_def
  show "mset (taken (computePerPoolWithReplacements ord meth r b cs)) \<subseteq># mset cs"
    unfolding c using per_pool_taken B(2) by (metis (no_types, lifting) Command.select_convs(1))
  show "int (of_pool p (taken (computePerPoolWithReplacements ord meth r b cs))) \<le> max 0 (Allowed b p r)"
    unfolding c by (rule per_pool_within [OF _ B(1)]) simp
  show "cmd \<in> set (computePerPoolWithReplacements ord meth r b cs) \<Longrightarrow> cmdReason cmd = r"
    unfolding c by (erule per_pool_reason [rotated]) simp
qed

interpretation drift: disruption_method NewDrift
  by unfold_locales (auto simp: NewDrift_def Drift_ComputeCommands_def replacements_ok)

interpretation expiration: disruption_method "\<lambda>ord. NewExpiration ord now" for now
  by unfold_locales (auto simp: NewExpiration_def Expiration_ComputeCommands_def replacements_ok)

interpretation single: disruption_method "\<lambda>ord. NewSingleNodeConsolidation S" for S
  by unfold_locales
    (auto simp: NewSingleNodeConsolidation_def Single_ComputeCommands_def dest: single_loop_ok)

interpretation multi: disruption_method "\<lambda>ord. NewMultiNodeConsolidation ord S" for S
proof
  fix ord b cs cmds p cmd
  assume a: "is_order ord" "ComputeCommands (NewMultiNodeConsolidation ord S) b cs = Some cmds"
  note B = bucket_start [OF a(1), of cs]
  from a(2) have "multi_loop S (in_order ord (bucket cs [])) b = Some cmds"
    by (simp add: NewMultiNodeConsolidation_def Multi_ComputeCommands_def)
  note M = multi_loop_ok [OF this B(1), of p, unfolded B(2)]
  from M show "mset (taken cmds) \<subseteq># mset cs" by blast
  from M show "int (of_pool p (taken cmds)) \<le> max 0 (Allowed b p (mReason (NewMultiNodeConsolidation ord S)))"
    by (simp add: NewMultiNodeConsolidation_def)
  from M show "cmd \<in> set cmds \<Longrightarrow> cmdReason cmd = mReason (NewMultiNodeConsolidation ord S)"
    by (simp add: NewMultiNodeConsolidation_def)
qed

section \<open>What computeBudgets allows\<close>

definition budget :: "cron \<Rightarrow> Cluster \<Rightarrow> int \<Rightarrow> Method \<Rightarrow> ExitPool \<Rightarrow> int" where
  "budget parse c now m pool =
     (if Forceful m then max_int32 else GetAllowedDisruptionsByReason parse c pool (mReason m) now)"

lemma compute_budgets_loop_Allowed:
  assumes "\<And>d. d \<in> set cs \<Longrightarrow> Name (cdPool d) = p \<Longrightarrow> cdPool d = pool"
  shows "Allowed (compute_budgets_loop parse c now m cs seen b) p (mReason m) =
     (if p \<notin> set seen \<and> (\<exists>d \<in> set cs. Name (cdPool d) = p) then budget parse c now m pool
      else Allowed b p (mReason m))"
  using assms
proof (induction cs arbitrary: seen b)
  case (Cons d cs)
  have I: "Allowed (compute_budgets_loop parse c now m cs seen' b') p (mReason m) =
      (if p \<notin> set seen' \<and> (\<exists>d \<in> set cs. Name (cdPool d) = p) then budget parse c now m pool
       else Allowed b' p (mReason m))" for seen' b'
    using Cons by simp
  have "Name (cdPool d) = p \<Longrightarrow> cdPool d = pool" using Cons.prems by simp
  then show ?case by (auto simp: I Let_def budget_def)
qed simp

lemma budget_nonneg: "0 \<le> budget parse c now m pool"
  by (simp add: budget_def GetAllowedDisruptionsByReason_def Let_def max_int32_def split: prod.split)

lemma Allowed_computeBudgets:
  assumes "\<And>d. d \<in> set cs \<Longrightarrow> Name (cdPool d) = p \<Longrightarrow> cdPool d = pool"
  shows "Allowed (computeBudgets parse c now cs m) p (mReason m) \<le> budget parse c now m pool"
  unfolding computeBudgets_def using compute_budgets_loop_Allowed [OF assms] budget_nonneg
  by (simp add: Allowed_def)

context disruption_method
begin

lemma within_budget:
  assumes "is_order ord" and "ComputeCommands (mk ord) (computeBudgets parse c now cs (mk ord)) cs = Some cmds"
    and "\<And>d. d \<in> set cs \<Longrightarrow> Name (cdPool d) = p \<Longrightarrow> cdPool d = pool"
  shows "int (of_pool p (taken cmds)) \<le> budget parse c now (mk ord) pool"
proof -
  have "max 0 (Allowed (computeBudgets parse c now cs (mk ord)) p (mReason (mk ord))) \<le> budget parse c now (mk ord) pool"
    using Allowed_computeBudgets [OF assms(3)] budget_nonneg by simp
  from order_trans [OF within [OF assms(1,2), of p] this] show ?thesis .
qed

end

text \<open>The five methods of \<open>DefaultMethods\<close>, at once.\<close>

lemma DefaultMethods_cases:
  assumes "m \<in> set (DefaultMethods ord now S)"
  obtains mk where "m = mk ord" and "disruption_method mk"
  using assms emptiness.disruption_method_axioms drift.disruption_method_axioms
    expiration.disruption_method_axioms single.disruption_method_axioms multi.disruption_method_axioms
  unfolding DefaultMethods_def by (auto simp del: not_None_eq)

section \<open>Candidates\<close>

lemma pool_lookup_loop_names:
  "(\<And>k pool. mget m k = Some pool \<Longrightarrow> Name pool = k) \<Longrightarrow>
     mget (pool_lookup_loop sps m) k = Some pool \<Longrightarrow> Name pool = k"
proof (induction sps arbitrary: m)
  case (Cons sp sps)
  show ?case
  proof (cases "Snapshot sp")
    case (Some snap)
    with Cons.prems show ?thesis by (auto intro!: Cons.IH [of "mput (Name snap) snap m"] split: if_splits)
  qed (use Cons in auto)
qed simp

lemma poolLookup_Name: "poolLookup ord c k = Some pool \<Longrightarrow> Name pool = k"
  unfolding poolLookup_def by (rule pool_lookup_loop_names) simp_all

text \<open>What a candidate is: its own exit of the cache, ready, not protected, not going away, with its pool.\<close>

definition candidate_ok :: "(string \<Rightarrow> ExitPool option) \<Rightarrow> Candidate \<Rightarrow> bool" where
  "candidate_ok lookup cand \<longleftrightarrow>
     seClaim (cdState cand) = Some (cdClaim cand) \<and> readyTrue (claim_conds (cdClaim cand)) \<and>
     DeletionTimestamp (cdClaim cand) = None \<and> \<not> mhas (Annotations (cdClaim cand)) AnnotationDoNotDisrupt \<and>
     \<not> MarkedForDeletion (cdState cand) \<and>
     lookup (mget_str (Labels (cdClaim cand)) LabelExitPool) = Some (cdPool cand)"

lemma candidate_of_ok: "candidate_of clk lookup se = Some cand \<Longrightarrow> cdState cand = se \<and> candidate_ok lookup cand"
  by (auto simp: candidate_of_def candidate_ok_def SnapshotForRead_def split: option.splits if_splits)

lemma set_map_filter: "set (List.map_filter f xs) = {y. \<exists>x \<in> set xs. f x = Some y}"
  by (induction xs) (auto simp: List.map_filter_def)

lemma candidates_ok:
  assumes "cand \<in> set (GetCandidates ord clk lookup c)"
  shows "cdState cand \<in> set (Exits ord c)" and "candidate_ok lookup cand"
  using assms candidate_of_ok by (fastforce simp: GetCandidates_def set_map_filter)+

lemma candidate_pool:
  assumes "cand \<in> set (GetCandidates ord1 clk (poolLookup ord2 c) c)"
  shows "poolLookup ord2 c (Name (cdPool cand)) = Some (cdPool cand)"
  using candidates_ok(2) [OF assms] poolLookup_Name unfolding candidate_ok_def by metis

end
