(* ===== verification/DisruptionPass.thy ===== *)
theory DisruptionPass
  imports DisruptionBudgets SchedulerInv
begin

text \<open>
  What a disruption pass does to the exits: the order of the steps of \<open>Enqueue\<close>, which exits a pass
  removes and how many of each pool, and that the wait for the replacements ends.
\<close>

section \<open>Which events remove an exit\<close>

definition removal :: "event \<Rightarrow> bool" where
  "removal e \<longleftrightarrow> (case e of EMarkExit n \<Rightarrow> True | EDeleteClaim c \<Rightarrow> True | _ \<Rightarrow> False)"

abbreviation keeps_exits :: "'a io \<Rightarrow> bool" where
  "keeps_exits \<equiv> emits (\<lambda>e. \<not> removal e)"

lemma cordon_rounds_keeps: "keeps_exits (cordon_rounds E n reason k)"
  by (induction k) (auto intro!: emits_intros simp: removal_def call_defs)

lemma cordon_all_keeps: "keeps_exits (cordon_all E reason cands)"
  by (induction cands) (auto intro!: emits_intros cordon_rounds_keeps simp: cordon_def)

lemma CreateReplacements_keeps: "keeps_exits (CreateReplacements E claims)"
  by (induction claims) (auto intro!: emits_intros simp: removal_def call_defs)

lemma check_ready_keeps: "keeps_exits (check_ready E rs)"
  by (induction rs) (auto intro!: emits_intros simp: removal_def call_defs)

lemma wait_loop_keeps: "keeps_exits (wait_loop E cancelled q rs deadline fuel)"
  by (induction fuel) (auto intro!: emits_intros check_ready_keeps [unfolded removal_def] simp: removal_def call_defs split: bool.split)

lemma replacements_keep: "keeps_exits (launch_replacements E cancelled q fuel rs)"
  unfolding launch_replacements_def waitForReplacementsReady_def
  by (auto intro!: emits_intros CreateReplacements_keeps [unfolded removal_def]
      wait_loop_keeps [unfolded removal_def] simp: removal_def Now_def)

section \<open>Enqueue\<close>

text \<open>
  The claim \<open>n\<close> was found cordoned, gone or going, or the status patch that cordons it was accepted,
  among the events \<open>es\<close> after the history \<open>h\<close>.
\<close>

definition cordoned :: "env \<Rightarrow> event list \<Rightarrow> event list \<Rightarrow> string \<Rightarrow> bool" where
  "cordoned E h es n \<longleftrightarrow>
     (\<exists>pre. (pre, EGetClaim n) \<in> set (steps h es) \<and>
        (onGetClaim E pre n = Inl NotFound \<or>
         (\<exists>live. onGetClaim E pre n = Inr live \<and>
            (DeletionTimestamp live \<noteq> None \<or> disruptedTrue (claim_conds live) \<or>
             (\<exists>pre' new c. (pre', EPatchClaimStatus live new) \<in> set (steps h es) \<and>
                onPatchClaimStatus E pre' live new = Inr c \<and> disruptedTrue (claim_conds new))))))"

definition seen_ready :: "env \<Rightarrow> event list \<Rightarrow> event list \<Rightarrow> string \<Rightarrow> bool" where
  "seen_ready E h es n \<longleftrightarrow>
     (\<exists>pre live. (pre, EGetClaim n) \<in> set (steps h es) \<and> onGetClaim E pre n = Inr live \<and>
        readyTrue (claim_conds live))"

lemma cordoned_more: "cordoned E h as n \<Longrightarrow> cordoned E h (as @ bs) n"
  unfolding cordoned_def by (simp, blast)

lemma cordoned_later: "cordoned E (h @ as) bs n \<Longrightarrow> cordoned E h (as @ bs) n"
  unfolding cordoned_def by (simp, blast)

lemma seen_ready_more: "seen_ready E h as n \<Longrightarrow> seen_ready E h (as @ bs) n"
  unfolding seen_ready_def by auto

lemma seen_ready_later: "seen_ready E (h @ as) bs n \<Longrightarrow> seen_ready E h (as @ bs) n"
  unfolding seen_ready_def by auto

lemma disrupted_upsert:
  "Type c = ConditionTypeDisrupted \<Longrightarrow> Status c = ConditionTrue \<Longrightarrow> disruptedTrue (upsertCondition cs c)"
  by (induction cs) (auto simp: disruptedTrue_iff)

lemma cordon_rounds_ok:
  "run_state (cordon_rounds E n reason k) h = (None, h') \<Longrightarrow> \<exists>es. h' = h @ es \<and> cordoned E h es n"
proof (induction k arbitrary: h)
  case 0
  then show ?case by simp
next
  case (Suc k)
  show ?case
  proof (cases "onGetClaim E h n")
    case (Inl err)
    with Suc.prems have "err = NotFound" "h' = h @ [EGetClaim n]"
      by (auto simp: GetClaim_def split: if_splits)
    with Inl show ?thesis by (intro exI [of _ "[EGetClaim n]"]) (simp add: cordoned_def)
  next
    case (Inr live)
    show ?thesis
    proof (cases "DeletionTimestamp live \<noteq> None \<or> disruptedTrue (claim_conds live)")
      case True
      with Inr Suc.prems have "h' = h @ [EGetClaim n]"
        by (auto simp: GetClaim_def split: if_splits)
      with True Inr show ?thesis by (intro exI [of _ "[EGetClaim n]"]) (simp add: cordoned_def)
    next
      case False
      let ?h2 = "h @ [EGetClaim n, ENow]"
      obtain new where new: "new = live\<lparr>cStatus := (cStatus live)\<lparr>Conditions :=
          upsertCondition (claim_conds live) \<lparr>Type = ConditionTypeDisrupted, Status = ConditionTrue, Reason = reason,
            Message = ''disruption: '' @ reason, LastTransitionTime = clock E (h @ [EGetClaim n]),
            ObservedGeneration = 0\<rparr>\<rparr>\<rparr>" by blast
      then have dis: "disruptedTrue (claim_conds new)" by (simp add: disrupted_upsert)
      show ?thesis
      proof (cases "onPatchClaimStatus E ?h2 live new")
        case (Inr c)
        with \<open>onGetClaim E h n = Inr live\<close> False Suc.prems new
        have "h' = h @ [EGetClaim n, ENow, EPatchClaimStatus live new]"
          by (simp add: GetClaim_def Now_def PatchClaimStatus_def)
        with \<open>onGetClaim E h n = Inr live\<close> Inr dis show ?thesis
          by (intro exI [of _ "[EGetClaim n, ENow, EPatchClaimStatus live new]"]) (auto simp: cordoned_def)
      next
        case (Inl err)
        with \<open>onGetClaim E h n = Inr live\<close> False Suc.prems new
        have "run_state (cordon_rounds E n reason k) (h @ [EGetClaim n, ENow, EPatchClaimStatus live new]) = (None, h')"
          by (auto simp: GetClaim_def Now_def PatchClaimStatus_def split: if_splits)
        from Suc.IH [OF this] obtain es where
          "h' = (h @ [EGetClaim n, ENow, EPatchClaimStatus live new]) @ es"
          "cordoned E (h @ [EGetClaim n, ENow, EPatchClaimStatus live new]) es n" by blast
        with cordoned_later show ?thesis by (metis append_assoc)
      qed
    qed
  qed
qed

lemma cordon_all_ok:
  "run_state (cordon_all E reason cands) h = (None, h') \<Longrightarrow>
     \<exists>es. h' = h @ es \<and> (\<forall>c \<in> set cands. cordoned E h es (Name (cdClaim c)))"
proof (induction cands arbitrary: h)
  case Nil
  then show ?case by simp
next
  case (Cons c cands)
  then obtain h1 where "run_state (cordon E (Name (cdClaim c)) reason) h = (None, h1)"
    and rest: "run_state (cordon_all E reason cands) h1 = (None, h')"
    by (auto split: prod.splits option.splits)
  then obtain es where es: "h1 = h @ es" "cordoned E h es (Name (cdClaim c))"
    using cordon_rounds_ok unfolding cordon_def by blast
  from Cons.IH [OF rest] obtain fs where "h' = h1 @ fs"
    "\<forall>d \<in> set cands. cordoned E h1 fs (Name (cdClaim d))" by blast
  with es show ?case
    by (intro exI [of _ "es @ fs"]) (simp add: cordoned_more cordoned_later)
qed

lemma check_ready_ok:
  "run_state (check_ready E rs) h = (Inr True, h') \<Longrightarrow>
     \<exists>es. h' = h @ es \<and> (\<forall>r \<in> set rs. Name r \<noteq> [] \<longrightarrow> seen_ready E h es (Name r))"
proof (induction rs arbitrary: h)
  case Nil
  then show ?case by simp
next
  case (Cons r rs)
  show ?case
  proof (cases "Name r = []")
    case True
    with Cons show ?thesis by simp
  next
    case False
    obtain live where live: "onGetClaim E h (Name r) = Inr live" "readyTrue (claim_conds live)"
    proof (cases "onGetClaim E h (Name r)")
      case (Inr live)
      with False Cons.prems that show ?thesis by (simp add: GetClaim_def split: if_splits)
    qed (use False Cons.prems in \<open>simp add: GetClaim_def split: if_splits\<close>)
    with False Cons.prems have rest: "run_state (check_ready E rs) (h @ [EGetClaim (Name r)]) = (Inr True, h')"
      by (simp add: GetClaim_def)
    let ?e = "EGetClaim (Name r)"
    from Cons.IH [OF rest] obtain es where es: "h' = (h @ [?e]) @ es"
      "\<forall>r \<in> set rs. Name r \<noteq> [] \<longrightarrow> seen_ready E (h @ [?e]) es (Name r)" by blast
    have "seen_ready E h ([?e] @ es) (Name x)" if "x \<in> set rs" "Name x \<noteq> []" for x
      using es(2) that seen_ready_later by blast
    moreover have "seen_ready E h ([?e] @ es) (Name r)"
      using live by (auto simp: seen_ready_def)
    ultimately show ?thesis
      using es(1) by (intro exI [of _ "[?e] @ es"]) (simp del: append_Cons append_Nil)
  qed
qed

lemma wait_loop_ok:
  "run_state (wait_loop E cancelled q rs deadline fuel) h = (Some None, h') \<Longrightarrow>
     \<exists>es. h' = h @ es \<and> (\<forall>r \<in> set rs. Name r \<noteq> [] \<longrightarrow> seen_ready E h es (Name r))"
proof (induction fuel arbitrary: h)
  case (Suc fuel)
  obtain res h1 where check: "run_state (check_ready E rs) h = (res, h1)" by fastforce
  then obtain es where es: "h1 = h @ es" using emits_run [OF check_ready_keeps] by metis
  let ?h3 = "h1 @ [ENow, ESleep (ReplacementPollInterval q)]"
  from Suc.prems check consider (now) "res = Inr True" "h' = h1"
    | (later) "run_state (wait_loop E cancelled q rs deadline fuel) ?h3 = (Some None, h')"
    by (cases res) (auto simp: Now_def Sleep_def split: bool.splits if_splits)
  then show ?case
  proof cases
    case now
    with check check_ready_ok show ?thesis by blast
  next
    case later
    from Suc.IH [OF this] obtain fs where "h' = ?h3 @ fs"
      "\<forall>r \<in> set rs. Name r \<noteq> [] \<longrightarrow> seen_ready E ?h3 fs (Name r)" by blast
    with es seen_ready_later [of E h "es @ [ENow, ESleep (ReplacementPollInterval q)]" fs]
    show ?thesis by (intro exI [of _ "(es @ [ENow, ESleep (ReplacementPollInterval q)]) @ fs"]) simp
  qed
qed simp

lemma launch_ok:
  assumes "run_state (launch_replacements E cancelled q fuel rs) h = (Some None, h')"
  shows "\<exists>es. h' = h @ es \<and> (rs \<noteq> [] \<longrightarrow> (\<exists>claims. fst (run_state (CreateReplacements E rs) h) = Inr claims \<and>
     (\<forall>r \<in> set claims. Name r \<noteq> [] \<longrightarrow> seen_ready E h es (Name r))))"
proof (cases "rs = []")
  case True
  with assms show ?thesis by (auto simp: launch_replacements_def)
next
  case False
  obtain res h1 where create: "run_state (CreateReplacements E rs) h = (res, h1)" by fastforce
  then obtain es where es: "h1 = h @ es" using emits_run [OF CreateReplacements_keeps] by metis
  from assms False create obtain claims where claims: "res = Inr claims"
    "run_state (waitForReplacementsReady E cancelled q fuel claims) h1 = (Some None, h')"
    by (auto simp: launch_replacements_def split: if_splits sum.splits prod.splits)
  then obtain fs where "h' = h1 @ fs" "\<forall>r \<in> set claims. Name r \<noteq> [] \<longrightarrow> seen_ready E h1 fs (Name r)"
  proof (cases "claims = []")
    case True
    with claims that [of "[]"] show ?thesis by (simp add: waitForReplacementsReady_def)
  next
    case False
    with claims(2) have "run_state (wait_loop E cancelled q claims (clock E h1 + ReplacementReadyTimeout q) fuel)
      (h1 @ [ENow]) = (Some None, h')" by (simp add: waitForReplacementsReady_def Now_def)
    from wait_loop_ok [OF this] obtain gs where "h' = (h1 @ [ENow]) @ gs"
      "\<forall>r \<in> set claims. Name r \<noteq> [] \<longrightarrow> seen_ready E (h1 @ [ENow]) gs (Name r)" by blast
    with that [of "[ENow] @ gs"] seen_ready_later [of E h1 "[ENow]" gs] show ?thesis by simp
  qed
  with es claims create seen_ready_later [of E h es fs] show ?thesis
    by (intro exI [of _ "es @ fs"]) simp
qed

lemma keeps_no_removal: "keeps_exits m \<Longrightarrow> run_state m h = (x, h @ es) \<Longrightarrow> list_all (\<lambda>e. \<not> removal e) es"
  by (erule emits_run, assumption) simp

lemma Enqueue_split:
  assumes "run_state (Enqueue E cancelled q fuel cmd) h = (res, h')"
  obtains (stopped) es where "h' = h @ es" and "list_all (\<lambda>e. \<not> removal e) es"
  | (removed) es fs r where "run_state (cordon_all E (cmdReason cmd) (cmdCandidates cmd)) h = (None, h @ es)"
      and "run_state (launch_replacements E cancelled q fuel (cmdReplacements cmd)) (h @ es) = (Some None, h @ es @ fs)"
      and "run_state (delete_all E (cmdCandidates cmd)) (h @ es @ fs) = (r, h')"
proof -
  obtain r1 h1 where c: "run_state (cordon_all E (cmdReason cmd) (cmdCandidates cmd)) h = (r1, h1)" by fastforce
  then obtain es where es: "h1 = h @ es" "list_all (\<lambda>e. \<not> removal e) es"
    using emits_run [OF cordon_all_keeps] by metis
  show thesis
  proof (cases r1)
    case (Some err)
    have "h' = h1" using assms c Some by (simp add: Enqueue_def)
    with es stopped show thesis by simp
  next
    case None
    obtain r2 h2 where l: "run_state (launch_replacements E cancelled q fuel (cmdReplacements cmd)) h1 = (r2, h2)"
      by fastforce
    then obtain fs where fs: "h2 = h1 @ fs" "list_all (\<lambda>e. \<not> removal e) fs"
      using emits_run [OF replacements_keep] by metis
    obtain r3 h3 where d: "run_state (delete_all E (cmdCandidates cmd)) h2 = (r3, h3)" by fastforce
    show thesis
    proof (cases "r2 = Some None")
      case True
      with assms c l d None have "h' = h3" by (simp add: Enqueue_def)
      with removed c l d es fs None True show thesis by simp
    next
      case False
      with assms c l None have "h' = h2" by (auto simp: Enqueue_def split: option.splits)
      with stopped [of "es @ fs"] es fs show thesis by simp
    qed
  qed
qed

section \<open>The wait ends\<close>

text \<open>The clock does not go back, and a sleep takes at least its time.\<close>

definition clock_runs :: "env \<Rightarrow> bool" where
  "clock_runs E \<longleftrightarrow> (\<forall>h es. clock E h \<le> clock E (h @ es)) \<and> (\<forall>h d es. clock E h + d \<le> clock E (h @ ESleep d # es))"

lemma wait_loop_returns:
  assumes "clock_runs E" and "deadline - clock E h \<le> int n * ReplacementPollInterval q" and "n < fuel"
  shows "fst (run_state (wait_loop E cancelled q rs deadline fuel) h) \<noteq> None"
  using assms(2,3)
proof (induction n arbitrary: h fuel)
  case 0
  then obtain f where f: "fuel = Suc f" by (cases fuel) auto
  obtain res h1 where check: "run_state (check_ready E rs) h = (res, h1)" by fastforce
  then obtain es where "h1 = h @ es" using emits_run [OF check_ready_keeps] by metis
  then have "clock E h \<le> clock E h1" using assms(1) by (simp add: clock_runs_def)
  with 0 have "\<not> clock E h1 < deadline" by simp
  with check show ?case by (auto simp: f Now_def split: sum.splits bool.splits)
next
  case (Suc n)
  then obtain f where f: "fuel = Suc f" "n < f" by (cases fuel) auto
  obtain res h1 where check: "run_state (check_ready E rs) h = (res, h1)" by fastforce
  then obtain es where es: "h1 = h @ es" using emits_run [OF check_ready_keeps] by metis
  let ?h3 = "h1 @ [ENow, ESleep (ReplacementPollInterval q)]"
  have "clock E h \<le> clock E (h1 @ [ENow])" using assms(1) es by (simp add: clock_runs_def)
  also have "\<dots> + ReplacementPollInterval q \<le> clock E ((h1 @ [ENow]) @ ESleep (ReplacementPollInterval q) # [])"
    using assms(1) unfolding clock_runs_def by blast
  finally have "deadline - clock E ?h3 \<le> int n * ReplacementPollInterval q"
    using Suc.prems(1) by (simp add: algebra_simps)
  from Suc.IH [OF this f(2)] check show ?case
    by (auto simp: f(1) Now_def Sleep_def split: sum.splits bool.splits)
qed

lemma launch_returns:
  assumes "clock_runs E" and "ReplacementReadyTimeout q \<le> int n * ReplacementPollInterval q" and "n < fuel"
  shows "fst (run_state (launch_replacements E cancelled q fuel rs) h) \<noteq> None"
proof -
  have w: "fst (run_state (waitForReplacementsReady E cancelled q fuel claims) h) \<noteq> None" for claims h
  proof (cases "claims = []")
    case False
    have "clock E h \<le> clock E (h @ [ENow])" using assms(1) by (simp add: clock_runs_def)
    then have "clock E h + ReplacementReadyTimeout q - clock E (h @ [ENow]) \<le> int n * ReplacementPollInterval q"
      using assms(2) by simp
    from wait_loop_returns [OF assms(1) this assms(3)] False show ?thesis
      by (simp add: waitForReplacementsReady_def Now_def)
  qed (simp add: waitForReplacementsReady_def)
  then show ?thesis
    by (auto simp: launch_replacements_def split: sum.splits prod.splits) (metis fst_conv)
qed

section \<open>How many exits a pass marks\<close>

definition marks :: "event list \<Rightarrow> string list" where
  "marks es = List.map_filter (\<lambda>e. case e of EMarkExit n \<Rightarrow> Some n | _ \<Rightarrow> None) es"

lemma marks_simps [simp]:
  "marks [] = []" "marks (EMarkExit n # es) = n # marks es" "marks (as @ bs) = marks as @ marks bs"
  by (simp_all add: marks_def List.map_filter_def)

lemma marks_none: "list_all (\<lambda>e. \<not> removal e) es \<Longrightarrow> marks es = []"
  by (induction es) (auto simp: marks_def List.map_filter_def removal_def split: event.splits)

lemma marks_mem: "n \<in> set (marks es) \<longleftrightarrow> EMarkExit n \<in> set es"
  by (induction es) (auto simp: marks_def List.map_filter_def split: event.splits)

lemma marks_skip [simp]: "marks (EGetClaim n # es) = marks es" "marks (EDeleteClaim c # es) = marks es"
  by (simp_all add: marks_def List.map_filter_def)

definition names :: "Candidate list \<Rightarrow> string multiset" where
  "names cs = mset (map (\<lambda>c. Name (cdClaim c)) cs)"

lemma names_simps [simp]:
  "names [] = {#}" "names (c # cs) = add_mset (Name (cdClaim c)) (names cs)" "names (as @ bs) = names as + names bs"
  by (simp_all add: names_def)

lemma delete_all_Cons:
  assumes "run_state (delete_all E (c # cands)) h = (r, h')"
    and "n = Name (cdClaim c)" and "h2 = h @ [EMarkExit n, EGetClaim n]"
  obtains ds where "ds = [] \<or> (\<exists>live. onGetClaim E (h @ [EMarkExit n]) n = Inr live \<and>
      DeletionTimestamp live = None \<and> ds = [EDeleteClaim live])"
    and "h' = h2 @ ds \<or> run_state (delete_all E cands) (h2 @ ds) = (r, h')"
proof (cases "onGetClaim E (h @ [EMarkExit n]) n")
  case (Inl err)
  with assms that [of "[]"] show thesis
    by (auto simp: MarkExit_def GetClaim_def Let_def split: if_splits)
next
  case (Inr live)
  show thesis
  proof (cases "DeletionTimestamp live = None")
    case True
    with Inr assms that [of "[EDeleteClaim live]"] show thesis
      by (cases "onDeleteClaim E h2 live")
        (auto simp: MarkExit_def GetClaim_def DeleteClaim_def Let_def split: if_splits)
  next
    case False
    with Inr assms that [of "[]"] show thesis
      by (auto simp: MarkExit_def GetClaim_def Let_def split: if_splits)
  qed
qed

lemma delete_all_marks:
  "run_state (delete_all E cands) h = (r, h') \<Longrightarrow> \<exists>es. h' = h @ es \<and> mset (marks es) \<subseteq># names cands"
proof (induction cands arbitrary: h)
  case Nil
  then show ?case by simp
next
  case (Cons c cands)
  let ?n = "Name (cdClaim c)"
  from delete_all_Cons [OF Cons.prems refl refl] obtain ds where ds: "marks ds = []"
    "h' = (h @ [EMarkExit ?n, EGetClaim ?n]) @ ds \<or>
       run_state (delete_all E cands) ((h @ [EMarkExit ?n, EGetClaim ?n]) @ ds) = (r, h')"
    by (metis marks_simps(1) marks_skip(2))
  then obtain es where "h' = ((h @ [EMarkExit ?n, EGetClaim ?n]) @ ds) @ es" "mset (marks es) \<subseteq># names cands"
    using Cons.IH by (metis append_Nil2 empty_le marks_simps(1) mset.simps(1))
  with ds(1) show ?case
    by (intro exI [of _ "[EMarkExit ?n, EGetClaim ?n] @ ds @ es"]) simp
qed

text \<open>Every removal is a mark of a candidate, or the deletion of the claim that was read right after its mark.\<close>

definition removes_one_of :: "env \<Rightarrow> Candidate list \<Rightarrow> event list \<Rightarrow> event \<Rightarrow> bool" where
  "removes_one_of E cands pre e \<longleftrightarrow>
     (\<exists>c \<in> set cands. e = EMarkExit (Name (cdClaim c)) \<or>
        (\<exists>before live. e = EDeleteClaim live \<and> DeletionTimestamp live = None \<and>
           pre = before @ [EMarkExit (Name (cdClaim c)), EGetClaim (Name (cdClaim c))] \<and>
           onGetClaim E (before @ [EMarkExit (Name (cdClaim c))]) (Name (cdClaim c)) = Inr live))"

lemma delete_all_removes:
  "run_state (delete_all E cands) h = (r, h @ es) \<Longrightarrow> (pre, e) \<in> set (steps h es) \<Longrightarrow> removal e \<Longrightarrow>
     removes_one_of E cands pre e"
proof (induction cands arbitrary: h es)
  case Nil
  then show ?case by simp
next
  case (Cons c cands)
  let ?n = "Name (cdClaim c)" and ?h2 = "h @ [EMarkExit (Name (cdClaim c)), EGetClaim (Name (cdClaim c))]"
  from delete_all_Cons [OF Cons.prems(1) refl refl] obtain ds where ds: "ds = [] \<or>
      (\<exists>live. onGetClaim E (h @ [EMarkExit ?n]) ?n = Inr live \<and> DeletionTimestamp live = None \<and> ds = [EDeleteClaim live])"
    and rest: "h @ es = ?h2 @ ds \<or> run_state (delete_all E cands) (?h2 @ ds) = (r, h @ es)" by blast
  then obtain fs where es: "es = [EMarkExit ?n, EGetClaim ?n] @ ds @ fs"
    and fs: "fs = [] \<or> run_state (delete_all E cands) (?h2 @ ds) = (r, (?h2 @ ds) @ fs)"
    using delete_all_marks [of E cands "?h2 @ ds" r "h @ es"] by auto
  from Cons.prems(2) es consider (first) "(pre, e) \<in> set (steps h ([EMarkExit ?n, EGetClaim ?n] @ ds))"
    | (later) "(pre, e) \<in> set (steps (?h2 @ ds) fs)" by auto
  then show ?case
  proof cases
    case first
    with ds Cons.prems(3) show ?thesis by (auto simp: removes_one_of_def removal_def)
  next
    case later
    with fs Cons.IH [OF _ later Cons.prems(3)] have "removes_one_of E cands pre e" by auto
    then show ?thesis unfolding removes_one_of_def by auto
  qed
qed

lemma Enqueue_marks:
  "run_state (Enqueue E cancelled q fuel cmd) h = (r, h') \<Longrightarrow>
     \<exists>es. h' = h @ es \<and> mset (marks es) \<subseteq># names (cmdCandidates cmd)"
proof (erule Enqueue_split)
  fix es assume "h' = h @ es" "list_all (\<lambda>e. \<not> removal e) es"
  then show ?thesis using marks_none by auto
next
  fix es fs r
  assume a: "run_state (cordon_all E (cmdReason cmd) (cmdCandidates cmd)) h = (None, h @ es)"
    "run_state (launch_replacements E cancelled q fuel (cmdReplacements cmd)) (h @ es) = (Some None, h @ es @ fs)"
    "run_state (delete_all E (cmdCandidates cmd)) (h @ es @ fs) = (r, h')"
  from delete_all_marks [OF a(3)] obtain gs where "h' = (h @ es @ fs) @ gs"
    "mset (marks gs) \<subseteq># names (cmdCandidates cmd)" by blast
  moreover have "marks es = []" by (rule marks_none [OF keeps_no_removal [OF cordon_all_keeps a(1)]])
  moreover have "marks fs = []"
    by (rule marks_none [OF keeps_no_removal [OF replacements_keep, of E cancelled q fuel "cmdReplacements cmd" "h @ es"]])
      (use a(2) in simp)
  ultimately show "\<exists>es. h' = h @ es \<and> mset (marks es) \<subseteq># names (cmdCandidates cmd)"
    by (intro exI [of _ "es @ fs @ gs"]) simp
qed

lemma exec_marks:
  "run_state (exec_commands E cancelled cl q fuel cmds any) h = (r, h') \<Longrightarrow>
     \<exists>es. h' = h @ es \<and> mset (marks es) \<subseteq># names (taken cmds) \<and> (r = Some (Inr False) \<longrightarrow> es = [])"
proof (induction cmds arbitrary: h any)
  case Nil
  then show ?case by simp
next
  case (Cons cmd cmds)
  show ?case
  proof (cases "Validate (cl h) cmd")
    case (Some err)
    with Cons.prems have "run_state (exec_commands E cancelled cl q fuel cmds any) h = (r, h')" by simp
    from Cons.IH [OF this] show ?thesis
      using mset_subset_eq_add_right subset_mset.order_trans by (simp, blast)
  next
    case None
    obtain res h1 where en: "run_state (Enqueue E cancelled q fuel cmd) h = (res, h1)" by fastforce
    from Enqueue_marks [OF this] obtain es where es: "h1 = h @ es" "mset (marks es) \<subseteq># names (cmdCandidates cmd)"
      by blast
    show ?thesis
    proof (cases "res = Some None")
      case True
      with Cons.prems None en have go: "run_state (exec_commands E cancelled cl q fuel cmds True) h1 = (r, h')" by simp
      from Cons.IH [OF this] obtain fs where fs: "h' = h1 @ fs" "mset (marks fs) \<subseteq># names (taken cmds)" by blast
      have "r \<noteq> Some (Inr False)"
      proof -
        have "fst (run_state (exec_commands E cancelled cl q fuel cmds True) h) \<noteq> Some (Inr False)" for h
          by (induction cmds arbitrary: h) (auto split: option.splits prod.splits)
        with go show ?thesis by (metis fst_conv)
      qed
      with es fs show ?thesis
        by (intro exI [of _ "es @ fs"]) (simp add: subset_mset.add_mono)
    next
      case False
      with Cons.prems None en have "h' = h1" "r \<noteq> Some (Inr False)"
        by (auto split: option.splits)
      with es show ?thesis
        using mset_subset_eq_add_left subset_mset.order_trans by (simp, blast)
    qed
  qed
qed

section \<open>One pass\<close>

lemma run_methods_Cons:
  assumes "run_state (run_methods E cancelled cl parse q fuel poll now cands (m # ms)) h = (r, h')"
    and "el = filter (ShouldDisrupt m) cands"
  obtains (skip) "run_state (run_methods E cancelled cl parse q fuel poll now cands ms) h = (r, h')"
  | (stuck) "h' = h"
  | (exec) cmds res where "ComputeCommands m (computeBudgets parse (cl h) now el m) el = Some cmds"
      and "run_state (exec_commands E cancelled cl q fuel cmds False) h = (res, h')"
proof (cases "el = []")
  case True
  with assms skip show thesis by (simp add: Let_def)
next
  case False
  show thesis
  proof (cases "ComputeCommands m (computeBudgets parse (cl h) now el m) el")
    case None
    with False assms stuck show thesis by (simp add: Let_def)
  next
    case (Some cmds)
    note Some' = this
    show thesis
    proof (cases cmds)
      case Nil
      with Some False assms skip show thesis by (simp add: Let_def)
    next
      case (Cons cmd cmds')
      obtain res h1 where ex: "run_state (exec_commands E cancelled cl q fuel cmds False) h = (res, h1)" by fastforce
      show thesis
      proof (cases "res = Some (Inr False)")
        case True
        with exec_marks [OF ex] have "h1 = h" by simp
        with True Some Cons False assms ex skip show thesis by (simp add: Let_def)
      next
        case False
        with Some Cons \<open>el \<noteq> []\<close> assms ex have "h' = h1"
          by (auto simp: Let_def split: option.splits sum.splits bool.splits)
        with ex Some' exec show thesis by blast
      qed
    qed
  qed
qed

lemma run_methods_marks:
  "run_state (run_methods E cancelled cl parse q fuel poll now cands ms) h = (r, h') \<Longrightarrow>
     \<exists>es. h' = h @ es \<and> (marks es = [] \<or> (\<exists>m \<in> set ms. \<exists>cmds. mset (marks es) \<subseteq># names (taken cmds) \<and>
       ComputeCommands m (computeBudgets parse (cl h) now (filter (ShouldDisrupt m) cands) m)
         (filter (ShouldDisrupt m) cands) = Some cmds))"
proof (induction ms)
  case Nil
  then show ?case by simp
next
  case (Cons m ms)
  from Cons.prems refl show ?case
  proof (cases rule: run_methods_Cons)
    case skip
    from Cons.IH [OF this] obtain es where "h' = h @ es" and es: "marks es = [] \<or>
      (\<exists>m \<in> set ms. \<exists>cmds. mset (marks es) \<subseteq># names (taken cmds) \<and>
         ComputeCommands m (computeBudgets parse (cl h) now (filter (ShouldDisrupt m) cands) m)
           (filter (ShouldDisrupt m) cands) = Some cmds)" by blast
    then show ?thesis by (intro exI [of _ es]) auto
  next
    case stuck
    then show ?thesis by simp
  next
    case (exec cmds res)
    from exec_marks [OF exec(2)] obtain es where "h' = h @ es" "mset (marks es) \<subseteq># names (taken cmds)" by blast
    with exec(1) show ?thesis by (intro exI [of _ es]) auto
  qed
qed

text \<open>The cache, when a command was validated, allowed the removal of the claim's exit.\<close>

definition removable :: "Cluster \<Rightarrow> string \<Rightarrow> bool" where
  "removable c n \<longleftrightarrow> (\<exists>se claim. ExitForName c n = Some se \<and> seClaim se = Some claim \<and>
     DeletionTimestamp claim = None \<and> \<not> mhas (Annotations claim) AnnotationDoNotDisrupt \<and> \<not> MarkedForDeletion se)"

lemma validate_all_None:
  "validate_all c reason cands = None \<longleftrightarrow> (\<forall>cand \<in> set cands. validate_candidate c reason cand = None)"
  by (induction cands) (auto split: option.split)

lemma validate_candidate_removable: "validate_candidate c reason cand = None \<Longrightarrow> removable c (Name (cdClaim cand))"
  by (auto simp: validate_candidate_def removable_def SnapshotForRead_def Let_def split: option.splits if_splits)

lemma Validate_removable:
  "Validate c cmd = None \<Longrightarrow> cand \<in> set (cmdCandidates cmd) \<Longrightarrow> removable c (Name (cdClaim cand))"
  by (auto simp: Validate_def validate_all_None validate_candidate_removable split: if_splits)

lemma Enqueue_removes:
  assumes "run_state (Enqueue E cancelled q fuel cmd) h = (r, h @ es)"
    and "(pre, e) \<in> set (steps h es)" and "removal e"
  shows "removes_one_of E (cmdCandidates cmd) pre e \<and> (\<exists>ds. pre = h @ ds)"
proof -
  have pre: "\<exists>ds. pre = h @ ds" by (rule steps_prefix [OF assms(2)])
  from assms(1) show ?thesis
  proof (rule Enqueue_split)
    fix fs assume "h @ es = h @ fs" "list_all (\<lambda>e. \<not> removal e) fs"
    with assms(2,3) show ?thesis by (auto simp: list_all_iff dest: steps_event)
  next
    fix as bs r2
    assume a: "run_state (cordon_all E (cmdReason cmd) (cmdCandidates cmd)) h = (None, h @ as)"
      "run_state (launch_replacements E cancelled q fuel (cmdReplacements cmd)) (h @ as) = (Some None, h @ as @ bs)"
      "run_state (delete_all E (cmdCandidates cmd)) (h @ as @ bs) = (r2, h @ es)"
    then obtain fs where fs: "es = (as @ bs) @ fs" using delete_all_marks by fastforce
    have "list_all (\<lambda>e. \<not> removal e) as" by (rule keeps_no_removal [OF cordon_all_keeps a(1)])
    moreover have "list_all (\<lambda>e. \<not> removal e) bs"
      by (rule keeps_no_removal [OF replacements_keep, of E cancelled q fuel "cmdReplacements cmd" "h @ as"])
        (use a(2) in simp)
    ultimately have "(pre, e) \<notin> set (steps h (as @ bs))"
      using assms(3) by (auto simp: list_all_iff dest!: steps_event)
    with assms(2) fs have "(pre, e) \<in> set (steps (h @ as @ bs) fs)" by simp
    from delete_all_removes [OF _ this assms(3)] a(3) fs pre show ?thesis by simp
  qed
qed

lemma exec_removes:
  "run_state (exec_commands E cancelled cl q fuel cmds any) h = (r, h @ es) \<Longrightarrow>
     (pre, EMarkExit n) \<in> set (steps h es) \<Longrightarrow> \<exists>ds fs. pre = (h @ ds) @ fs \<and> removable (cl (h @ ds)) n"
proof (induction cmds arbitrary: h any es)
  case Nil
  then show ?case by simp
next
  case (Cons cmd cmds)
  show ?case
  proof (cases "Validate (cl h) cmd")
    case (Some err)
    with Cons show ?thesis by simp
  next
    case None
    obtain res h1 where en: "run_state (Enqueue E cancelled q fuel cmd) h = (res, h1)" by fastforce
    obtain as where as: "h1 = h @ as" using Enqueue_marks [OF en] by blast
    obtain bs where bs: "es = as @ bs" "bs = [] \<or> run_state (exec_commands E cancelled cl q fuel cmds True) h1 = (r, h1 @ bs)"
    proof (cases "res = Some None")
      case True
      with Cons.prems None en have go: "run_state (exec_commands E cancelled cl q fuel cmds True) h1 = (r, h @ es)" by simp
      from exec_marks [OF this] as that go show thesis by auto
    next
      case False
      with Cons.prems None en as that [of "[]"] show thesis by (auto split: option.splits)
    qed
    from Cons.prems(2) bs(1) as consider (first) "(pre, EMarkExit n) \<in> set (steps h as)"
      | (later) "(pre, EMarkExit n) \<in> set (steps h1 bs)" by auto
    then show ?thesis
    proof cases
      case first
      from Enqueue_removes [OF en [unfolded as] first] obtain cand ds where "cand \<in> set (cmdCandidates cmd)"
        "n = Name (cdClaim cand)" "pre = h @ ds" by (auto simp: removal_def removes_one_of_def)
      with Validate_removable [OF None] show ?thesis
        by (intro exI [of _ "[]"] exI [of _ ds]) simp
    next
      case later
      have "run_state (exec_commands E cancelled cl q fuel cmds True) h1 = (r, h1 @ bs)"
        using bs(2) later by auto
      from Cons.IH [OF this later] obtain ds fs where "pre = (h1 @ ds) @ fs" "removable (cl (h1 @ ds)) n" by blast
      with as show ?thesis by (intro exI [of _ "as @ ds"] exI [of _ fs]) simp
    qed
  qed
qed

lemma run_methods_removes:
  "run_state (run_methods E cancelled cl parse q fuel poll now cands ms) h = (r, h @ es) \<Longrightarrow>
     (pre, EMarkExit n) \<in> set (steps h es) \<Longrightarrow> \<exists>ds fs. pre = (h @ ds) @ fs \<and> removable (cl (h @ ds)) n"
proof (induction ms)
  case Nil
  then show ?case by simp
next
  case (Cons m ms)
  from Cons.prems(1) refl show ?case
  proof (cases rule: run_methods_Cons)
    case skip
    with Cons show ?thesis by blast
  next
    case stuck
    with Cons.prems(2) show ?thesis by simp
  next
    case (exec cmds res)
    from exec_removes [OF exec(2) Cons.prems(2)] show ?thesis .
  qed
qed

end
