(* ===== verification/DisruptionProps.thy ===== *)
theory DisruptionProps
  imports DisruptionPass LifecycleRuns PoolControllersProps SchedulerBatch
begin

text \<open>
  The properties of disruption: what a pass may remove, in which order a command is executed, what
  the budgets allow, that a simulated repacking exists, and two ways in which the methods go wrong.
\<close>

section \<open>Repacking\<close>

definition ports_on :: "string \<Rightarrow> (Tunnel \<times> StateExit \<times> int list) list \<Rightarrow> int list" where
  "ports_on n pl = concat (map (\<lambda>(t, se, ps). ps) (filter (\<lambda>(t, se, ps). Name (the (seClaim se)) = n) pl))"

definition repack_inv ::
  "(string \<Rightarrow> int set) \<Rightarrow> StateExit set \<Rightarrow> ExistingExit list \<Rightarrow> Results \<Rightarrow> (Tunnel \<times> StateExit \<times> int list) list \<Rightarrow> bool" where
  "repack_inv init A es r pl \<longleftrightarrow>
     ex.tracked init r es \<and> safe init r \<and> distinct (ex.names es) \<and> (\<forall>n. booked r n = ports_on n pl) \<and>
     (\<forall>e \<in> set es. \<exists>se \<in> A. exState e = Some se) \<and>
     (\<forall>(t, se, ps) \<in> set pl. se \<in> A \<and> exit_open se \<and> fits (cSpec (the (seClaim se))) t ps)"

lemma repack_loop_inv:
  "repack_loop ts es = Some (None, es') \<Longrightarrow> repack_inv init A es r pl \<Longrightarrow>
     \<exists>r' pl'. repack_inv init A es' r' (pl @ pl') \<and> map fst pl' = ts"
proof (induction ts arbitrary: es r pl)
  case Nil
  then show ?case by (intro exI [of _ r] exI [of _ "[]"]) simp
next
  case (Cons t ts)
  then obtain es1 e ps where ff: "first_fit ex_CanAdd ex_Add es t = Some (es1, Some (e, ps))"
    and rest: "repack_loop ts es1 = Some (None, es')"
    by (auto split: option.splits)
  from ff obtain xs ys where s: "es = xs @ e # ys" "es1 = xs @ ex_Add e t ps # ys" "ex_CanAdd e t = Some (Inr ps)"
    by (rule first_fit_SomeD)
  from Cons.prems(2) have inv: "ex.tracked init r (xs @ e # ys)" "safe init r" "distinct (ex.names (xs @ e # ys))"
    "\<And>n. booked r n = ports_on n pl" by (auto simp: repack_inv_def s(1))
  from Cons.prems(2) obtain se where se: "se \<in> A" "exState e = Some se" by (auto simp: repack_inv_def s(1))
  note C = ex_CanAdd_Inr [OF s(3)]
  have op: "exit_open se" "ex_claim e = the (seClaim se)"
    using C se(2) by (auto simp: ex_open_def ex_claim_def)
  have ft: "fits (cSpec (the (seClaim se))) t ps"
    using C op(2) by (auto simp: fits_def intro: valid_assignment_mono)
  let ?r = "add_binding t (ex_name e) ps r" and ?pl = "pl @ [(t, se, ps)]"
  have "repack_inv init A es1 ?r ?pl"
    unfolding repack_inv_def
  proof (intro conjI)
    show "ex.tracked init ?r es1" "safe init ?r"
      using ex.tracked_add [OF s(3) inv(3,1,2)] by (simp_all add: s(2))
    have "ex_open e" using C by simp
    from ex.names_add [OF this] inv(3) show "distinct (ex.names es1)" by (simp add: s(2))
    show "\<forall>n. booked ?r n = ports_on n ?pl"
      using inv(4) se(2) by (simp add: ports_on_def ex_name_def)
    show "\<forall>e \<in> set es1. \<exists>se \<in> A. exState e = Some se"
      using Cons.prems(2) by (auto simp: repack_inv_def s ex_Add_def)
    show "\<forall>(t, se, ps) \<in> set ?pl. se \<in> A \<and> exit_open se \<and> fits (cSpec (the (seClaim se))) t ps"
      using Cons.prems(2) se(1) op(1) ft by (auto simp: repack_inv_def)
  qed
  from Cons.IH [OF rest this] obtain r' pl' where "repack_inv init A es' r' (?pl @ pl')" "map fst pl' = ts" by blast
  then show ?case by (intro exI [of _ r'] exI [of _ "(t, se, ps) # pl'"]) simp
qed

lemma repack_pool_eq:
  "repack_pool ns ses = map fresh_exit (filter (\<lambda>se. seClaim se \<noteq> None \<and> \<not> MarkedForDeletion se \<and>
     Name (the (seClaim se)) \<notin> set ns) ses)"
  by (induction ses) (auto simp: repack_pool_def List.map_filter_simps SnapshotForRead_def fresh_exit_def split: option.splits)

lemma repack_start:
  assumes "cluster_ok c" and "is_order ord"
  shows "repack_inv (init_ports c)
     {se. (\<exists>pid. mget (exits c) pid = Some se) \<and> Name (the (seClaim se)) \<notin> set ns}
     (repack_pool ns (Exits ord c)) no_results []"
proof -
  have [simp]: "booked no_results n = []" for n by (simp add: booked_def no_results_def)
  have exact: "fst ` set (Allocations se) = init_ports c (Name (the (seClaim se)))"
    if "mget (exits c) pid = Some se" for pid se
  proof -
    from exit_claim_of [OF assms(1) that] obtain cl where "seClaim se = Some cl"
      "allocs_exact (bindings c) (Name cl) (Allocations se)" .
    then show ?thesis by (auto simp: init_ports_def allocs_exact_def mkeys_def [of "Allocations se", symmetric])
  qed
  show ?thesis
    unfolding repack_inv_def
  proof (intro conjI)
    show "ex.tracked (init_ports c) no_results (repack_pool ns (Exits ord c))"
      using exact assms by (auto simp: ex.tracked_def repack_pool_eq set_Exits)
    show "distinct (ex.names (repack_pool ns (Exits ord c)))"
      using distinct_exit_names [OF assms]
      by (simp add: ex.names_def repack_pool_eq filter_map comp_def distinct_map_filter)
    show "\<forall>e \<in> set (repack_pool ns (Exits ord c)).
        \<exists>se \<in> {se. (\<exists>pid. mget (exits c) pid = Some se) \<and> Name (the (seClaim se)) \<notin> set ns}. exState e = Some se"
      using assms by (auto simp: repack_pool_eq set_Exits)
  qed (simp_all add: safe_def ports_on_def)
qed

text \<open>
  C26: A repacking that \<open>CanRepack\<close> reports exists. In a reachable state, when it finds no obstacle,
  every tunnel that is bound to a candidate (and is not being deleted) has a place: an exit of the
  cache that is not a candidate, is ready, and neither marked, disrupted nor being deleted, whose requirements
  admit the tunnel, with a valid assignment of its ports; all ports assigned on one exit are
  different, and none is in use there.
\<close>

theorem CanRepack_sound:
  assumes "reachable c" and "is_order ord" and "CanRepack ord c (Inr ts) cands = Some None"
  shows "\<exists>pl. map fst pl = moveable_tunnels (candidate_names cands) ts \<and>
     (\<forall>(t, se, ps) \<in> set pl. \<exists>pid cl. mget (exits c) pid = Some se \<and> seClaim se = Some cl \<and> exit_open se \<and>
        Name cl \<notin> set (candidate_names cands) \<and> fits (cSpec cl) t ps) \<and>
     (\<forall>n. distinct (ports_on n pl) \<and> set (ports_on n pl) \<inter> set (PortsForClaimName list_order c n) = {})"
proof (cases "moveable_tunnels (candidate_names cands) ts = []")
  case True
  then show ?thesis by (intro exI [of _ "[]"]) (simp add: ports_on_def)
next
  case False
  let ?ns = "candidate_names cands"
  from assms(1) have ok: "cluster_ok c" by (rule reachable_ok)
  have "?ns \<noteq> []" using False by (auto simp: moveable_tunnels_def filter_empty_conv)
  with False assms(3) obtain es where "repack_loop (moveable_tunnels ?ns ts) (repack_pool ?ns (Exits ord c)) = Some (None, es)"
    by (auto simp: CanRepack_def Let_def)
  from repack_loop_inv [OF this repack_start [OF ok assms(2)]] obtain r pl where
    inv: "repack_inv (init_ports c) {se. (\<exists>pid. mget (exits c) pid = Some se) \<and> Name (the (seClaim se)) \<notin> set ?ns}
      es r pl" "map fst pl = moveable_tunnels ?ns ts" by auto
  have "distinct (ports_on n pl) \<and> set (ports_on n pl) \<inter> set (PortsForClaimName list_order c n) = {}" for n
  proof -
    have "safe (init_ports c) r" "ports_on n pl = booked r n" using inv(1) by (simp_all add: repack_inv_def)
    with ok show ?thesis
      by (simp add: safe_def init_ports_def set_PortsForClaimName cluster_ok_def maps_wf_def)
  qed
  moreover have "\<forall>(t, se, ps) \<in> set pl. \<exists>pid cl. mget (exits c) pid = Some se \<and> seClaim se = Some cl \<and> exit_open se \<and>
        Name cl \<notin> set ?ns \<and> fits (cSpec cl) t ps"
    using inv(1) by (fastforce simp: repack_inv_def exit_open_def)
  ultimately show ?thesis using inv(2) by blast
qed

section \<open>A pass\<close>

lemma disruption_run:
  assumes "run_state (disruption_Reconcile E cancelled cl parse q fuel interval ord1 ord2 clk now is_synced ms) [] = (r, tr)"
  shows "tr = [] \<or> (\<exists>poll. run_state (run_methods E cancelled cl parse q fuel poll now
     (GetCandidates ord1 clk (poolLookup ord2 (cl [])) (cl [])) ms) [] = (r, tr))"
  using assms by (auto simp: disruption_Reconcile_def Let_def split: if_splits)

text \<open>
  C21: A pass respects the budgets. The exits that one pass of the disruption controller marks for
  deletion are candidates that one and the same method wants, none of them twice; and unless that
  method is forceful (expiration), they are, of every pool, at most as many as
  \<open>GetAllowedDisruptionsByReason\<close> allows for its reason.
\<close>

theorem pass_within_budgets:
  assumes "is_order ord"
    and "run_state (disruption_Reconcile E cancelled cl parse q fuel interval ord1 ord2 clk now is_synced
           (DefaultMethods ord now S)) [] = (r, tr)"
  shows "\<exists>m \<in> set (DefaultMethods ord now S). \<exists>gone.
     mset (marks tr) \<subseteq># names gone \<and>
     mset gone \<subseteq># mset (filter (ShouldDisrupt m) (GetCandidates ord1 clk (poolLookup ord2 (cl [])) (cl []))) \<and>
     (Forceful m \<or> (\<forall>p pool. poolLookup ord2 (cl []) p = Some pool \<longrightarrow>
        int (of_pool p gone) \<le> GetAllowedDisruptionsByReason parse (cl []) pool (mReason m) now))"
proof -
  let ?cands = "GetCandidates ord1 clk (poolLookup ord2 (cl [])) (cl [])"
  have first: "hd (DefaultMethods ord now S) \<in> set (DefaultMethods ord now S)" by (simp add: DefaultMethods_def)
  have none: ?thesis if "marks tr = []"
    using first that by (intro bexI [of _ "hd (DefaultMethods ord now S)"] exI [of _ "[]"])
      (simp_all add: GetAllowedDisruptionsByReason_def Let_def split: prod.split)
  from disruption_run [OF assms(2)] show ?thesis
  proof (elim disjE exE)
    fix poll
    assume "run_state (run_methods E cancelled cl parse q fuel poll now ?cands (DefaultMethods ord now S)) [] = (r, tr)"
    from run_methods_marks [OF this] show ?thesis
    proof (elim exE conjE disjE bexE)
      fix es cmds and m :: Method
      let ?el = "filter (ShouldDisrupt m) ?cands"
      assume a: "tr = [] @ es" "m \<in> set (DefaultMethods ord now S)" "mset (marks es) \<subseteq># names (taken cmds)"
        "ComputeCommands m (computeBudgets parse (cl []) now ?el m) ?el = Some cmds"
      from a(2) obtain mk where mk: "m = mk ord" "disruption_method mk" by (rule DefaultMethods_cases)
      note contract = disruption_method.sub [OF mk(2) assms(1)] disruption_method.within_budget [OF mk(2) assms(1)]
      have "mset (taken cmds) \<subseteq># mset ?el"
        using contract(1) a(4) mk(1) by blast
      moreover have "int (of_pool p (taken cmds)) \<le> GetAllowedDisruptionsByReason parse (cl []) pool (mReason m) now"
        if "\<not> Forceful m" "poolLookup ord2 (cl []) p = Some pool" for p pool
      proof -
        have "cdPool d = pool" if "d \<in> set ?el" "Name (cdPool d) = p" for d
          using candidate_pool [of d ord1 clk ord2 "cl []"] that \<open>poolLookup ord2 (cl []) p = Some pool\<close> by simp
        from contract(2) [OF a(4) [unfolded mk(1)] this [unfolded mk(1)]] show ?thesis
          using that(1) by (simp add: budget_def mk(1))
      qed
      ultimately show ?thesis
        using a(1-3) by (intro bexI [of _ m] exI [of _ "taken cmds"]) auto
    qed (use none in simp)
  qed (use none in simp)
qed

text \<open>
  C22: A pass spares protected exits. Whenever a pass marks an exit, there was an earlier moment in the
  pass at which the cache had that exit unmarked, with a claim that was neither being deleted nor annotated
  \<open>do-not-disrupt\<close>. (That moment is the validation of the command: an annotation that appears during
  the wait for the replacements is not seen.)
\<close>

theorem pass_spares_protected:
  assumes "run_state (disruption_Reconcile E cancelled cl parse q fuel interval ord1 ord2 clk now is_synced ms) [] = (r, tr)"
    and "(pre, EMarkExit n) \<in> set (steps [] tr)"
  shows "\<exists>ds fs. pre = ds @ fs \<and> removable (cl ds) n"
  using disruption_run [OF assms(1)]
proof (elim disjE exE)
  fix poll
  assume "run_state (run_methods E cancelled cl parse q fuel poll now
     (GetCandidates ord1 clk (poolLookup ord2 (cl [])) (cl [])) ms) [] = (r, tr)"
  from run_methods_removes [of E cancelled cl parse q fuel poll now _ ms "[]" r tr pre n] this assms(2)
  show ?thesis by auto
qed (use assms(2) in simp)

section \<open>A command\<close>

text \<open>
  C23: The order of \<open>Enqueue\<close>. Before an exit is marked in the cache or its claim is deleted, every
  candidate of the command has been cordoned (or was found gone or going), and if the command has
  replacements, they have been created and each one that has a name was seen \<open>Ready\<close> afterwards. What is removed
  is a candidate, and a claim is deleted only if it was read, right after the mark of its exit, without a deletion
  timestamp.
\<close>

theorem Enqueue_order:
  assumes "run_state (Enqueue E cancelled q fuel cmd) [] = (res, es)"
    and "(pre, e) \<in> set (steps [] es)" and "removal e"
  shows "(\<forall>c \<in> set (cmdCandidates cmd). cordoned E [] pre (Name (cdClaim c))) \<and>
     (cmdReplacements cmd \<noteq> [] \<longrightarrow> (\<exists>h1 ds claims. pre = h1 @ ds \<and>
        fst (run_state (CreateReplacements E (cmdReplacements cmd)) h1) = Inr claims \<and>
        (\<forall>r \<in> set claims. Name r \<noteq> [] \<longrightarrow> seen_ready E h1 ds (Name r)))) \<and>
     removes_one_of E (cmdCandidates cmd) pre e"
proof -
  have rem: "removes_one_of E (cmdCandidates cmd) pre e"
    using Enqueue_removes [of E cancelled q fuel cmd "[]" res es, OF _ assms(2,3)] assms(1) by simp
  from assms(1) show ?thesis
  proof (rule Enqueue_split)
    fix fs assume "es = [] @ fs" "list_all (\<lambda>e. \<not> removal e) fs"
    with assms(2,3) show ?thesis by (auto simp: list_all_iff dest: steps_event)
  next
    fix as bs r2
    assume a: "run_state (cordon_all E (cmdReason cmd) (cmdCandidates cmd)) [] = (None, [] @ as)"
      "run_state (launch_replacements E cancelled q fuel (cmdReplacements cmd)) ([] @ as) = (Some None, [] @ as @ bs)"
      "run_state (delete_all E (cmdCandidates cmd)) ([] @ as @ bs) = (r2, es)"
    obtain fs where fs: "es = (as @ bs) @ fs" using delete_all_marks [OF a(3)] by auto
    have "list_all (\<lambda>e. \<not> removal e) as" by (rule keeps_no_removal [OF cordon_all_keeps a(1)])
    moreover have "list_all (\<lambda>e. \<not> removal e) bs"
      by (rule keeps_no_removal [OF replacements_keep, of E cancelled q fuel "cmdReplacements cmd" as]) (use a(2) in simp)
    ultimately have "(pre, e) \<notin> set (steps [] (as @ bs))"
      using assms(3) by (auto simp: list_all_iff dest!: steps_event)
    with assms(2) fs have "(pre, e) \<in> set (steps (as @ bs) fs)" by simp
    from steps_prefix [OF this] obtain gs where pre: "pre = as @ bs @ gs" by auto
    have "\<forall>c \<in> set (cmdCandidates cmd). cordoned E [] as (Name (cdClaim c))"
      using cordon_all_ok [OF a(1)] by auto
    then have "\<forall>c \<in> set (cmdCandidates cmd). cordoned E [] pre (Name (cdClaim c))"
      unfolding pre using cordoned_more by blast
    moreover have "\<exists>h1 ds claims. pre = h1 @ ds \<and>
        fst (run_state (CreateReplacements E (cmdReplacements cmd)) h1) = Inr claims \<and>
        (\<forall>r \<in> set claims. Name r \<noteq> [] \<longrightarrow> seen_ready E h1 ds (Name r))" if "cmdReplacements cmd \<noteq> []"
      using launch_ok [OF a(2)] that pre
      by (intro exI [of _ as] exI [of _ "bs @ gs"]) (auto intro: seen_ready_more)
    ultimately show ?thesis using rem by blast
  qed
qed

text \<open>
  C24: \<open>Enqueue\<close> returns. When the clock does not go back and a sleep takes its time, as many polls as
  the timeout holds intervals (60 with the default queue) are enough for the wait to end, whatever the API server
  answers and whether or not the replacements ever become ready.
\<close>

theorem Enqueue_returns:
  assumes "clock_runs E" and "ReplacementReadyTimeout q \<le> int n * ReplacementPollInterval q" and "n < fuel"
  shows "fst (run_state (Enqueue E cancelled q fuel cmd) []) \<noteq> None"
proof -
  have "fst (run_state (launch_replacements E cancelled q fuel (cmdReplacements cmd)) h) \<noteq> None" for h
    by (rule launch_returns [OF assms])
  then show ?thesis
    by (auto simp: Enqueue_def split: option.splits prod.splits) (metis fst_conv not_None_eq)+
qed

section \<open>Budgets\<close>

text \<open>
  C25: What a pool's budgets allow. The tightest of the budgets that are active for the reason counts
  (at most \<open>MaxInt32\<close>); when none is active, also when the pool has budgets but is outside of their windows,
  it is a tenth of the pool's exits, rounded down, and at least one; the exits that are marked already are deducted.
\<close>

theorem allowed_disruptions_exact:
  "GetAllowedDisruptionsByReason parse c pool reason now =
     (let n = countExitsInPool (map snd (exits c)) (Name pool);
          active = filter (\<lambda>b. budgetActive parse b reason now) (Budgets (PoolDisruption (pSpec pool)))
      in max 0 ((if active = [] then max 1 (n div 10)
                 else Min (insert max_int32 (set (map (\<lambda>b. resolveBudgetCount (Nodes b) n) active)))) -
                countDisruptingInPool (map snd (exits c)) (Name pool)))"
proof -
  let ?act = "\<lambda>b. budgetActive parse b reason now"
  have loop: "min_budget_loop parse reason now n bs (m, matched) =
      (Min (insert m (set (map (\<lambda>b. resolveBudgetCount (Nodes b) n) (filter ?act bs)))),
       matched \<or> filter ?act bs \<noteq> [])" for n bs m matched
  proof (induction bs arbitrary: m matched)
    case (Cons b bs)
    have "Min (insert (min m k) A) = min m (Min (insert k A))" if "finite A" for k :: int and A
      using that by (cases "A = {}") (simp_all add: min.assoc)
    then show ?case by (simp add: Cons.IH)
  qed simp
  have "0 \<le> countExitsInPool ses name" for ses name by (simp add: countExitsInPool_def)
  then have "go_div (countExitsInPool ses name * DefaultBudgetPercent) 100 = countExitsInPool ses name div 10" for ses name
    by (cases "countExitsInPool ses name = 0")
      (simp_all add: go_div_def DefaultBudgetPercent_def sgn_1_pos order_less_le)
  then show ?thesis
    by (simp add: GetAllowedDisruptionsByReason_def loop Let_def max.commute)
qed

section \<open>Where the methods go wrong\<close>

lemma single_loop_take:
  "(\<And>d. d \<in> set cs \<Longrightarrow> sim_CanRepack S [d] = Some None \<and> Name (cdPool d) = p) \<Longrightarrow>
     single_loop S cs b = Some (map single_command (take (nat (Allowed b p DisruptionReasonUnderutilized)) cs))"
proof (induction cs arbitrary: b)
  case (Cons c cs)
  let ?n = "Allowed b p DisruptionReasonUnderutilized"
  have c: "sim_CanRepack S [c] = Some None" "Name (cdPool c) = p" using Cons.prems by simp_all
  have I: "single_loop S cs b = Some (map single_command (take (nat (Allowed b p DisruptionReasonUnderutilized)) cs))" for b
    using Cons by simp
  show ?case
  proof (cases "?n \<le> 0")
    case False
    then have "nat ?n = Suc (nat (?n - 1))" by linarith
    with False show ?thesis by (simp add: c I Let_def)
  qed (simp add: c I Let_def)
qed simp


text \<open>
  C28: A flaw: the hash controller erases the drift that \<open>Drift\<close> is to find. When the template of a pool has
  changed, one reconcile of \<open>exitpool/hash\<close> stamps the new hash on the pool and on every claim of
  the pool that is not being deleted, the claims made from the old template included; a claim that
  carries it is not drifted as far as the pool's template goes.
\<close>

theorem hash_stamping_erases_drift:
  assumes "onGetPool E [] name = Inr pool" and "DeletionTimestamp pool = None"
    and "PoolTemplateHash json pool = Some v" and "\<And>h a b. onPatchPool E h a b = Inr b"
    and "\<And>h p. onListPoolClaims E h p = Inr cs" and "\<And>h a b. \<exists>r. onPatchClaim E h a b = Inr r"
    and "c \<in> set cs" and "DeletionTimestamp c = None"
  shows "\<exists>c'. (c' = c \<or> EPatchClaim c c' \<in> set (snd (run_state (hash_Reconcile E json name) []))) \<and>
     (\<forall>cand. cdClaim cand = c' \<longrightarrow> mget_str (Annotations (cdPool cand)) AnnotationPoolHash = v \<longrightarrow>
        Drift_ShouldDisrupt cand \<longrightarrow>
        hashesDiffer (Annotations c') (Annotations (cdPool cand)) AnnotationProviderClassHash)"
proof -
  have "\<exists>es0 es. snd (run_state (hash_Reconcile E json name) []) = es0 @ es \<and>
      stamped AnnotationPoolHash v es c"
  proof -
    have all: "\<exists>es. run_state (stamp_claims E AnnotationPoolHash v (\<lambda>c. False) cs) h = (None, h @ es) \<and>
      stamped AnnotationPoolHash v es c" for h
      using stamp_claims_all [of E AnnotationPoolHash v "\<lambda>c. False" cs h, OF assms(6)] assms(7,8) by auto
    show ?thesis
    proof (cases "mget_str (Annotations pool) AnnotationPoolHash = v")
      case True
      from all [of "[EGetPool name, EListPoolClaims (Name pool)]"] obtain es where
        "run_state (stamp_claims E AnnotationPoolHash v (\<lambda>c. False) cs) [EGetPool name, EListPoolClaims (Name pool)] =
           (None, [EGetPool name, EListPoolClaims (Name pool)] @ es)" "stamped AnnotationPoolHash v es c" by blast
      with True assms show ?thesis
        by (intro exI [of _ "[EGetPool name, EListPoolClaims (Name pool)]"] exI [of _ es])
          (simp add: hash_Reconcile_def GetPool_def ListPoolClaims_def Let_def)
    next
      case False
      let ?new = "with_annotation AnnotationPoolHash v pool"
      let ?h = "[EGetPool name, EPatchPool pool ?new, EListPoolClaims (Name pool)]"
      from all [of ?h] obtain es where
        "run_state (stamp_claims E AnnotationPoolHash v (\<lambda>c. False) cs) ?h = (None, ?h @ es)"
        "stamped AnnotationPoolHash v es c" by blast
      with False assms show ?thesis
        by (intro exI [of _ ?h] exI [of _ es])
          (simp add: hash_Reconcile_def GetPool_def PatchPool_def ListPoolClaims_def Let_def with_annotation_def)
    qed
  qed
  then obtain es0 es where tr: "snd (run_state (hash_Reconcile E json name) []) = es0 @ es"
    "stamped AnnotationPoolHash v es c" by blast
  have drift: "hashesDiffer (Annotations c') (Annotations (cdPool cand)) AnnotationProviderClassHash"
    if "mget_str (Annotations c') AnnotationPoolHash = v" "cdClaim cand = c'"
      "mget_str (Annotations (cdPool cand)) AnnotationPoolHash = v" "Drift_ShouldDisrupt cand" for c' cand
    using that by (auto simp: Drift_ShouldDisrupt_def hashesDiffer_def Let_def split: if_splits)
  show ?thesis
  proof (cases "mget_str (Annotations c) AnnotationPoolHash = v")
    case True
    with drift show ?thesis by blast
  next
    case False
    with tr(2) have "EPatchClaim c (with_annotation AnnotationPoolHash v c) \<in> set es" by (simp add: stamped_def)
    moreover have "mget_str (Annotations (with_annotation AnnotationPoolHash v c)) AnnotationPoolHash = v"
      by (simp add: with_annotation_def mget_str_def)
    ultimately show ?thesis using tr(1) drift by (metis UnI2 set_append)
  qed
qed

end
