(* ===== verification/DisruptionRuns.thy ===== *)
theory DisruptionRuns
  imports DisruptionProps
begin

text \<open>
  Concrete runs of the disruption controller, at which its properties are evaluated: a pool of two
  exits \<open>a\<close> and \<open>b\<close> with one tunnel each, with a budget of two.
\<close>

section \<open>Two exits\<close>

definition duo_pool :: ExitPool where
  "duo_pool = sample_pool\<lparr>pSpec := (pSpec sample_pool)\<lparr>PoolDisruption := (PoolDisruption (pSpec sample_pool))
     \<lparr>Budgets := [\<lparr>Nodes = ''2'', Schedule = [], BudgetDuration = None, Reasons = []\<rparr>]\<rparr>\<rparr>\<rparr>"

definition exit_claim :: "string \<Rightarrow> ExitClaim" where
  "exit_claim n = sample_claim\<lparr>Name := n, cStatus := (cStatus sample_claim)\<lparr>ProviderID := ''fake://'' @ n\<rparr>\<rparr>"

definition tunnel_on :: "string \<Rightarrow> Tunnel" where
  "tunnel_on n = sample_tunnel\<lparr>Name := ''t'' @ n, UID := ''ut'' @ n,
     tStatus := (tStatus sample_tunnel)\<lparr>AssignedExit := n, AssignedPorts := [80]\<rparr>\<rparr>"

definition duo_events :: "cluster_event list" where
  "duo_events = [PoolUpdated duo_pool, ExitUpdated (exit_claim ''a''), ExitUpdated (exit_claim ''b''),
     TunnelUpdated ''ns/ta'' ''a'' [80], TunnelUpdated ''ns/tb'' ''b'' [80]]"

definition duo :: Cluster where
  "duo = run_events duo_events started"

lemma reachable_duo: "reachable duo"
  unfolding duo_def by (rule reachable_run [OF reachable_started])
    (auto simp: duo_events_def cluster_eval exit_claim_def sample_claim_def UpdatePool_def split: if_splits)

text \<open>The cache as it is after the marks of a history.\<close>

definition duo_after :: "event list \<Rightarrow> Cluster" where
  "duo_after h = fold MarkExitForDeletion (marks h) duo"

definition duo_sim :: sim where
  "duo_sim = \<lparr>simOrder = (\<lambda>_. list_order), simCluster = duo,
     simTunnels = (\<lambda>_. Inr [tunnel_on ''a'', tunnel_on ''b'']),
     simTunnels2 = (\<lambda>_. Inr [tunnel_on ''a'', tunnel_on ''b'']), simRegistry = None\<rparr>"

definition duo_now :: int where
  "duo_now = 10000 * Second"

definition duo_candidates :: "Candidate list" where
  "duo_candidates = GetCandidates list_order (\<lambda>_. duo_now) (poolLookup list_order duo) duo"

definition slept :: "event list \<Rightarrow> int" where
  "slept h = sum_list (map (\<lambda>e. case e of ESleep d \<Rightarrow> max 0 d | _ \<Rightarrow> 0) h)"

definition duo_world :: env where
  "duo_world = (world sample_claim sample_claim [] (Inr None))
     \<lparr>onGetClaim := (\<lambda>h n. Inr (exit_claim n)), clock := (\<lambda>h. duo_now + slept h)\<rparr>"

definition duo_methods :: "Method list" where
  "duo_methods = DefaultMethods list_order duo_now duo_sim"

definition duo_pass :: "Result option \<times> event list" where
  "duo_pass = run_state (disruption_Reconcile duo_world (\<lambda>h. False) duo_after (\<lambda>s. None) (NewQueue True) 3 0
     list_order list_order (\<lambda>n. duo_now) duo_now True duo_methods) []"

lemma duo_pass_marks: "marks (snd duo_pass) = [''a'', ''b'']"
  by code_simp

section \<open>Witnesses\<close>

lemma duo_order: "is_order list_order"
  by simp

theorem pass_within_budgets_witness:
  "marks (snd duo_pass) = [''a'', ''b''] \<and>
   (\<exists>m \<in> set duo_methods. \<exists>gone. mset (marks (snd duo_pass)) \<subseteq># names gone \<and>
     mset gone \<subseteq># mset (filter (ShouldDisrupt m) duo_candidates))"
proof -
  have "run_state (disruption_Reconcile duo_world (\<lambda>h. False) duo_after (\<lambda>s. None) (NewQueue True) 3 0
     list_order list_order (\<lambda>n. duo_now) duo_now True (DefaultMethods list_order duo_now duo_sim)) [] =
     (fst duo_pass, snd duo_pass)" by (simp add: duo_pass_def duo_methods_def)
  from pass_within_budgets [OF duo_order this] duo_pass_marks show ?thesis
    by (auto simp: duo_methods_def duo_candidates_def duo_after_def)
qed

lemma duo_mark_step: "\<exists>pre. (pre, EMarkExit ''b'') \<in> set (steps [] (snd duo_pass))"
  by (rule event_steps) (simp add: duo_pass_marks flip: marks_mem)

theorem pass_spares_protected_witness:
  "\<exists>pre ds fs. (pre, EMarkExit ''b'') \<in> set (steps [] (snd duo_pass)) \<and> pre = ds @ fs \<and> removable (duo_after ds) ''b''"
proof -
  obtain pre where pre: "(pre, EMarkExit ''b'') \<in> set (steps [] (snd duo_pass))" using duo_mark_step by blast
  have "run_state (disruption_Reconcile duo_world (\<lambda>h. False) duo_after (\<lambda>s. None) (NewQueue True) 3 0
     list_order list_order (\<lambda>n. duo_now) duo_now True duo_methods) [] = (fst duo_pass, snd duo_pass)"
    by (simp add: duo_pass_def)
  from pass_spares_protected [OF this pre] pre show ?thesis by blast
qed

definition duo_command :: Command where
  "duo_command = \<lparr>cmdCandidates = duo_candidates, cmdReplacements = [(exit_claim ''c'')], cmdReason = DisruptionReasonDrifted,
     cmdMethod = ''Drift''\<rparr>"

definition duo_enqueue :: "goerror option option \<times> event list" where
  "duo_enqueue = run_state (Enqueue duo_world (\<lambda>h. False) (NewQueue True) 61 duo_command) []"

lemma duo_enqueue_marks: "marks (snd duo_enqueue) = [''a'', ''b'']"
  by code_simp

theorem Enqueue_order_witness:
  "\<exists>pre. (pre, EMarkExit ''a'') \<in> set (steps [] (snd duo_enqueue)) \<and>
     (\<forall>c \<in> set duo_candidates. cordoned duo_world [] pre (Name (cdClaim c))) \<and>
     (\<exists>h1 ds claims. pre = h1 @ ds \<and>
        fst (run_state (CreateReplacements duo_world [exit_claim ''c'']) h1) = Inr claims \<and>
        (\<forall>r \<in> set claims. Name r \<noteq> [] \<longrightarrow> seen_ready duo_world h1 ds (Name r)))"
proof -
  obtain pre where pre: "(pre, EMarkExit ''a'') \<in> set (steps [] (snd duo_enqueue))"
    using event_steps [of "EMarkExit ''a''" "snd duo_enqueue"] duo_enqueue_marks by (auto simp flip: marks_mem)
  have "run_state (Enqueue duo_world (\<lambda>h. False) (NewQueue True) 61 duo_command) [] = (fst duo_enqueue, snd duo_enqueue)"
    by (simp add: duo_enqueue_def)
  from Enqueue_order [OF this pre] have "(\<forall>c \<in> set (cmdCandidates duo_command). cordoned duo_world [] pre (Name (cdClaim c))) \<and>
     (cmdReplacements duo_command \<noteq> [] \<longrightarrow> (\<exists>h1 ds claims. pre = h1 @ ds \<and>
        fst (run_state (CreateReplacements duo_world (cmdReplacements duo_command)) h1) = Inr claims \<and>
        (\<forall>r \<in> set claims. Name r \<noteq> [] \<longrightarrow> seen_ready duo_world h1 ds (Name r))))"
    by (simp add: removal_def)
  with pre show ?thesis by (intro exI [of _ pre]) (simp add: duo_command_def)
qed

lemma slept_append: "slept (as @ bs) = slept as + slept bs"
  by (simp add: slept_def)

lemma slept_nonneg: "0 \<le> slept h"
  by (auto simp: slept_def split: event.split intro!: sum_list_nonneg)

lemma duo_clock: "clock_runs duo_world"
  using slept_nonneg
  by (auto simp: clock_runs_def duo_world_def slept_append)
    (simp add: slept_def, metis add_increasing2 max.cobounded2 slept_def slept_nonneg)

theorem Enqueue_returns_witness: "fst duo_enqueue \<noteq> None"
  unfolding duo_enqueue_def
  by (rule Enqueue_returns [OF duo_clock, of _ 60])
    (simp_all add: NewQueue_def DefaultReplacementReadyTimeout_def DefaultReplacementPollInterval_def Minute_def Second_def)

lemma duo_alone: "sim_CanRepack duo_sim [hd duo_candidates] = Some None"
  "sim_CanRepack duo_sim [last duo_candidates] = Some None"
  "duo_candidates = [hd duo_candidates, last duo_candidates]"
  "Name (cdPool (hd duo_candidates)) = ''p''" "Name (cdPool (last duo_candidates)) = ''p''"
  by code_simp+


theorem CanRepack_sound_witness:
  "\<exists>pl :: (Tunnel \<times> StateExit \<times> int list) list. map fst pl = [tunnel_on ''a''] \<and>
     (\<forall>(t, se, ps) \<in> set pl. \<exists>cl. seClaim se = Some cl \<and> Name cl \<noteq> ''a'' \<and> fits (cSpec cl) t ps)"
proof -
  have can: "CanRepack list_order duo (Inr [tunnel_on ''a'', tunnel_on ''b'']) [hd duo_candidates] = Some None"
    by code_simp
  have names: "candidate_names [hd duo_candidates] = [''a'']" by code_simp
  have "moveable_tunnels [''a''] [tunnel_on ''a'', tunnel_on ''b''] = [tunnel_on ''a'']"
    by (simp add: moveable_tunnels_def tunnel_on_def sample_defs)
  with CanRepack_sound [OF reachable_duo duo_order can, unfolded names] obtain pl where
    pl: "map fst pl = [tunnel_on ''a'']" "\<forall>(t, se, ps) \<in> set pl. \<exists>pid cl. mget (exits duo) pid = Some se \<and>
      seClaim se = Some cl \<and> exit_open se \<and> Name cl \<notin> set [''a''] \<and> fits (cSpec cl) t ps" by (elim exE conjE) simp
  have "\<exists>cl. seClaim se = Some cl \<and> Name cl \<noteq> ''a'' \<and> fits (cSpec cl) t ps" if "(t, se, ps) \<in> set pl" for t se ps
    using bspec [OF pl(2) that] by auto
  with pl(1) show ?thesis by (intro exI [of _ pl]) auto
qed

text \<open>A claim of an older template.\<close>

definition old_claim :: ExitClaim where
  "old_claim = sample_claim\<lparr>Annotations := [(AnnotationPoolHash, ''old'')]\<rparr>"

theorem hash_stamping_erases_drift_witness:
  "\<exists>c'. (c' = old_claim \<or> EPatchClaim old_claim c' \<in> set (snd (run_state
       (hash_Reconcile (pool_world sample_pool [old_claim] (Inl NotFound)) (\<lambda>t. Some ''json'') ''p'') []))) \<and>
     \<not> Drift_ShouldDisrupt \<lparr>cdClaim = c', cdState = empty_exit,
         cdPool = with_annotation AnnotationPoolHash (take 16 (hex_sha256 ''json'')) sample_pool, cdCost = 0,
         LastBindingChange = 0\<rparr>"
proof -
  let ?E = "pool_world sample_pool [old_claim] (Inl NotFound)" and ?v = "take 16 (hex_sha256 ''json'')"
  have E: "onGetPool ?E [] ''p'' = Inr sample_pool" "\<And>h a b. onPatchPool ?E h a b = Inr b"
    "\<And>h p. onListPoolClaims ?E h p = Inr [old_claim]" "\<And>h a b. \<exists>r. onPatchClaim ?E h a b = Inr r"
    by (simp_all add: pool_world_def world_def)
  have "DeletionTimestamp sample_pool = None" "DeletionTimestamp old_claim = None" "old_claim \<in> set [old_claim]"
    by (simp_all add: sample_pool_def old_claim_def sample_claim_def)
  moreover have "PoolTemplateHash (\<lambda>t. Some ''json'') sample_pool = Some ?v" by (simp add: PoolTemplateHash_def)
  ultimately obtain c' where c': "c' = old_claim \<or> EPatchClaim old_claim c' \<in> set (snd (run_state
       (hash_Reconcile ?E (\<lambda>t. Some ''json'') ''p'') []))"
    "\<forall>cand. cdClaim cand = c' \<longrightarrow> mget_str (Annotations (cdPool cand)) AnnotationPoolHash = ?v \<longrightarrow>
        Drift_ShouldDisrupt cand \<longrightarrow>
        hashesDiffer (Annotations c') (Annotations (cdPool cand)) AnnotationProviderClassHash"
    using hash_stamping_erases_drift [OF E(1) _ _ E(2-4), of "\<lambda>t. Some ''json''" ?v old_claim] by blast
  let ?cand = "\<lparr>cdClaim = c', cdState = empty_exit,
      cdPool = with_annotation AnnotationPoolHash ?v sample_pool, cdCost = 0, LastBindingChange = 0\<rparr>"
  have "\<not> hashesDiffer (Annotations c') (Annotations (cdPool ?cand)) AnnotationProviderClassHash"
    by (simp add: hashesDiffer_def with_annotation_def mget_str_def sample_pool_def AnnotationProviderClassHash_def
        AnnotationPoolHash_def Group_def)
  moreover have "mget_str (Annotations (cdPool ?cand)) AnnotationPoolHash = ?v"
    by (simp add: with_annotation_def mget_str_def)
  ultimately have "\<not> Drift_ShouldDisrupt ?cand" using c'(2) by (metis Candidate.select_convs(1))
  with c'(1) show ?thesis by blast
qed

end
