(* ===== verification/ProvisionerProps.thy ===== *)
theory ProvisionerProps
  imports Provisioner SchedulerProps "HOL-Library.Sublist"
begin

text \<open>
  The properties of the provisioner: keys are parsed back, a pass writes the bindings of its \<open>Solve\<close> and
  nothing else, so it gives no port out twice; a tunnel is bound only to a claim that exists; and a
  pass that fails is not repeated by itself.
\<close>

section \<open>Keys\<close>

text \<open>
  A tunnel's key is parsed back. For a namespace without a slash (Kubernetes allows none),
  \<open>splitKey\<close> recovers the namespace and the name from the key that the scheduler reports.
\<close>

theorem splitKey_tunnelKey:
  assumes "CHR ''/'' \<notin> set (Namespace t)"
  shows "splitKey (tunnelKey t) = (Namespace t, Name t)"
  using Cut_append [OF assms, of "Name t"] by (simp add: splitKey_def tunnelKey_def)

theorem splitKey_tunnelKey_witness: "splitKey (tunnelKey sample_tunnel) = (''ns'', ''t'')"
  using splitKey_tunnelKey [of sample_tunnel] by (simp add: sample_tunnel_def)

section \<open>The statuses a pass writes\<close>

text \<open>Why a status patch of a tunnel was sent: the reason of its condition \<open>Ready\<close>.\<close>

definition ready_reason :: "Tunnel \<Rightarrow> string" where
  "ready_reason t = (case findCondition (tConditions (tStatus t)) ''Ready'' of None \<Rightarrow> [] | Some c \<Rightarrow> Reason c)"

lemma set_tunnel_conds_reason:
  "\<exists>c. findCondition (set_tunnel_conds now gen cs ty st reason msg) ty = Some c \<and> Reason c = reason"
  by (induction cs) auto

lemma ready_reason_set: "ready_reason (setTunnelCondition now t ''Ready'' st reason msg) = reason"
  using set_tunnel_conds_reason [of now "Generation t" "tConditions (tStatus t)" "''Ready''" st reason msg]
  by (auto simp: ready_reason_def setTunnelCondition_def)

lemma ready_reasons [simp]:
  "ready_reason (promoted now claim t) = ''Reconciled''"
  "ready_reason (bound_tunnel now b t) = ''Provisioning''"
  "ready_reason (unschedulable now msg t) = ''Unschedulable''"
  by (simp_all add: promoted_def bound_tunnel_def unschedulable_def ready_reason_set Let_def)

lemma bound_tunnel_fields [simp]:
  "AssignedExit (tStatus (bound_tunnel now b t)) = bExitClaimName b"
  "AssignedPorts (tStatus (bound_tunnel now b t)) = bAssignedPorts b"
  "Phase (tStatus (bound_tunnel now b t)) = TunnelPhaseProvisioning"
  by (simp_all add: bound_tunnel_def setTunnelCondition_def)

text \<open>The bindings that a trace writes: exit and ports of each status patch with reason \<open>Provisioning\<close>.\<close>

definition binds :: "event \<Rightarrow> (string \<times> int list) option" where
  "binds e = (case e of
     EPatchTunnelStatus t t' \<Rightarrow>
       (if ready_reason t' = ''Provisioning'' then Some (AssignedExit (tStatus t'), AssignedPorts (tStatus t')) else None)
   | _ \<Rightarrow> None)"

definition written :: "event list \<Rightarrow> (string \<times> int list) list" where
  "written es = List.map_filter binds es"

lemma written_simps [simp]: "written [] = []" "written (as @ bs) = written as @ written bs"
  "written (e # es) = (case binds e of None \<Rightarrow> written es | Some x \<Rightarrow> x # written es)"
  by (simp_all add: written_def List.map_filter_def split: option.split)

lemma binds_simps [simp]:
  "binds (EGetTunnel ns n) = None" "binds ENow = None" "binds EListTunnels = None" "binds (EGetClaim n) = None"
  "binds (ECreateClaim c) = None"
  "binds (EPatchTunnelStatus t (bound_tunnel now b t)) = Some (bExitClaimName b, bAssignedPorts b)"
  "binds (EPatchTunnelStatus t (promoted now claim t)) = None"
  "binds (EPatchTunnelStatus t (unschedulable now msg t)) = None"
  by (simp_all add: binds_def)

abbreviation writes_no_binding :: "'a io \<Rightarrow> bool" where
  "writes_no_binding \<equiv> emits (\<lambda>e. binds e = None)"

lemma written_none: "list_all (\<lambda>e. binds e = None) es \<Longrightarrow> written es = []"
  by (induction es) auto

lemma promote_all_writes: "writes_no_binding (promote_all E ts)"
  by (induction ts) (auto intro!: emits_intros simp: call_defs)

lemma promoteReadyTunnels_writes: "writes_no_binding (promoteReadyTunnels E)"
  by (auto intro!: emits_intros promote_all_writes simp: promoteReadyTunnels_def ListTunnels_def)

lemma create_claims_writes: "writes_no_binding (create_claims E cs rejected)"
  by (induction cs arbitrary: rejected) (auto intro!: emits_intros simp: call_defs)

lemma patch_errors_writes: "writes_no_binding (patch_errors E text errs)"
  by (induction errs) (auto intro!: emits_intros simp: call_defs split: prod.split)

definition booking :: "Binding \<Rightarrow> string \<times> int list" where
  "booking b = (bExitClaimName b, bAssignedPorts b)"

lemma patch_bindings_written:
  "run_state (patch_bindings E rejected bs) h = (r, h') \<Longrightarrow>
     \<exists>es. h' = h @ es \<and> subseq (written es) (map booking (filter (\<lambda>b. bExitClaimName b \<notin> set rejected) bs))"
proof (induction bs arbitrary: h)
  case Nil
  then show ?case by simp
next
  case (Cons b bs)
  obtain ns n where key: "splitKey (bTunnelKey b) = (ns, n)" by fastforce
  show ?case
  proof (cases "bExitClaimName b \<in> set rejected")
    case True
    with Cons show ?thesis by simp
  next
    case False
    then have nm: "\<not> List.member rejected (bExitClaimName b)" by simp
    consider (stop) es where "h' = h @ es" "written es = [] \<or> written es = [booking b]"
      | (go) es where "written es = [] \<or> written es = [booking b]"
          "run_state (patch_bindings E rejected bs) (h @ es) = (r, h')"
    proof (cases "onGetTunnel E h ns n")
      case (Inl err)
      with nm Cons.prems key stop [of "[EGetTunnel ns n]"] go [of "[EGetTunnel ns n]"] show thesis
        by (auto simp: GetTunnel_def split: if_splits)
    next
      case (Inr t)
      let ?es = "[EGetTunnel ns n, ENow, EPatchTunnelStatus t (bound_tunnel (clock E (h @ [EGetTunnel ns n])) b t)]"
      have w: "written ?es = [booking b]" by (simp add: booking_def)
      from Inr nm Cons.prems key stop [of ?es] go [of ?es] w show thesis
        by (cases "onPatchTunnelStatus E (h @ [EGetTunnel ns n, ENow]) t
          (bound_tunnel (clock E (h @ [EGetTunnel ns n])) b t)")
          (auto simp: GetTunnel_def Now_def PatchTunnelStatus_def)
    qed
    then show ?thesis
    proof cases
      case stop
      with False show ?thesis by (intro exI [of _ es]) auto
    next
      case go
      from Cons.IH [OF go(2)] obtain fs where "h' = (h @ es) @ fs"
        "subseq (written fs) (map booking (filter (\<lambda>b. bExitClaimName b \<notin> set rejected) bs))" by blast
      with go(1) False show ?thesis by (intro exI [of _ "es @ fs"]) auto
    qed
  qed
qed

section \<open>Claims\<close>

text \<open>The claim \<open>c\<close> was created, or existed and was read without a deletion timestamp.\<close>

definition claim_there :: "env \<Rightarrow> event list \<Rightarrow> event list \<Rightarrow> InflightClaim \<Rightarrow> bool" where
  "claim_there E h es c \<longleftrightarrow>
     (\<exists>pre. (pre, ECreateClaim (claim_object c)) \<in> set (steps h es) \<and>
        ((\<exists>made. onCreateClaim E pre (claim_object c) = Inr made) \<or>
         (\<exists>live. (pre @ [ECreateClaim (claim_object c)], EGetClaim (icName c)) \<in> set (steps h es) \<and>
            onGetClaim E (pre @ [ECreateClaim (claim_object c)]) (icName c) = Inr live \<and>
            DeletionTimestamp live = None)))"

lemma claim_there_more: "claim_there E h as c \<Longrightarrow> claim_there E h (as @ bs) c"
  unfolding claim_there_def by (simp, blast)

lemma claim_there_later: "claim_there E (h @ as) bs c \<Longrightarrow> claim_there E h (as @ bs) c"
  unfolding claim_there_def by (simp, blast)

lemma create_claims_there:
  "run_state (create_claims E cs rejected) h = (Inr rejected', h') \<Longrightarrow>
     \<exists>es. h' = h @ es \<and> set rejected \<subseteq> set rejected' \<and>
       (\<forall>c \<in> set cs. icName c \<notin> set rejected' \<longrightarrow> claim_there E h es c)"
proof (induction cs arbitrary: rejected h)
  case Nil
  then show ?case by simp
next
  case (Cons c cs)
  let ?e = "ECreateClaim (claim_object c)" and ?g = "EGetClaim (icName c)"
  obtain es rej where es: "run_state (create_claims E cs rej) (h @ es) = (Inr rejected', h')"
    "set rejected \<subseteq> set rej" "icName c \<notin> set rej \<longrightarrow> claim_there E h es c"
  proof (cases "onCreateClaim E h (claim_object c)")
    case (Inr made)
    with Cons.prems that [of rejected "[?e]"] show thesis
      by (simp add: CreateClaim_def claim_there_def)
  next
    case (Inl err)
    with Cons.prems have dup: "err = AlreadyExists" by (auto simp: CreateClaim_def split: if_splits)
    with Inl Cons.prems obtain live where live: "onGetClaim E (h @ [?e]) (icName c) = Inr live"
      by (cases "onGetClaim E (h @ [?e]) (icName c)") (auto simp: CreateClaim_def GetClaim_def)
    show thesis
    proof (cases "DeletionTimestamp live = None")
      case True
      have "claim_there E h [?e, ?g] c" using True live by (auto simp: claim_there_def)
      with Inl dup live True Cons.prems that [of rejected "[?e, ?g]"] show thesis
        by (simp add: CreateClaim_def GetClaim_def)
    next
      case False
      with Inl dup live Cons.prems that [of "sput (icName c) rejected" "[?e, ?g]"] show thesis
        by (auto simp: CreateClaim_def GetClaim_def)
    qed
  qed
  from Cons.IH [OF es(1)] obtain fs where fs: "h' = (h @ es) @ fs" "set rej \<subseteq> set rejected'"
    "\<forall>c \<in> set cs. icName c \<notin> set rejected' \<longrightarrow> claim_there E (h @ es) fs c" by blast
  have "claim_there E h (es @ fs) d" if "d \<in> set (c # cs)" "icName d \<notin> set rejected'" for d
    using that es(3) fs(2,3) claim_there_more claim_there_later by (metis set_ConsD subsetD)
  with es(2) fs(1,2) show ?case by (intro exI [of _ "es @ fs"]) auto
qed

section \<open>Persisting\<close>

lemma persist_split:
  assumes "run_state (persistResults E ord text r) h = (res, h')"
  obtains (failed) es where "h' = h @ es" and "list_all (\<lambda>e. binds e = None) es"
  | (made) rejected es fs gs where "run_state (create_claims E (NewClaims r) []) h = (Inr rejected, h @ es)"
      and "h' = h @ es @ fs @ gs"
      and "subseq (written fs) (map booking (filter (\<lambda>b. bExitClaimName b \<notin> set rejected) (rBindings r)))"
      and "list_all (\<lambda>e. binds e = None) es" and "list_all (\<lambda>e. binds e = None) gs"
proof -
  obtain m h1 where c: "run_state (create_claims E (NewClaims r) []) h = (m, h1)" by fastforce
  from emits_run [OF create_claims_writes c] obtain es where es: "h1 = h @ es" "list_all (\<lambda>e. binds e = None) es" .
  show thesis
  proof (cases m)
    case (Inl err)
    with assms c have "h' = h1" by (simp add: persistResults_def)
    with es failed show thesis by simp
  next
    case (Inr rejected)
    obtain e h2 where b: "run_state (patch_bindings E rejected (rBindings r)) h1 = (e, h2)" by fastforce
    from patch_bindings_written [OF b] obtain fs where fs: "h2 = h1 @ fs"
      "subseq (written fs) (map booking (filter (\<lambda>b. bExitClaimName b \<notin> set rejected) (rBindings r)))" by blast
    obtain gs where "h' = h2 @ gs" "list_all (\<lambda>e. binds e = None) gs"
    proof (cases e)
      case None
      obtain z h3 where p: "run_state (patch_errors E text (in_order ord (TunnelErrors r))) h2 = (z, h3)" by fastforce
      with assms c Inr b None have "h' = h3" by (simp add: persistResults_def)
      with emits_run [OF patch_errors_writes p] that show thesis by blast
    next
      case (Some err)
      with assms c Inr b that [of "[]"] show thesis by (simp add: persistResults_def)
    qed
    with made [of rejected es fs gs] c Inr es fs show thesis by simp
  qed
qed

lemma subseq_set: "subseq xs ys \<Longrightarrow> set xs \<subseteq> set ys"
  by (induction rule: list_emb.induct) auto

lemma written_mem: "x \<in> set (written es) \<longleftrightarrow> (\<exists>e \<in> set es. binds e = Some x)"
  by (induction es) (auto split: option.splits)

lemma persist_written:
  assumes "run_state (persistResults E ord text r) h = (res, h')"
  obtains es where "h' = h @ es" and "subseq (written es) (map booking (rBindings r))"
  using assms
proof (rule persist_split)
  fix es assume "h' = h @ es" "list_all (\<lambda>e. binds e = None) es"
  with that show thesis by (simp add: written_none)
next
  fix rejected es fs gs
  assume a: "h' = h @ es @ fs @ gs" "list_all (\<lambda>e. binds e = None) es" "list_all (\<lambda>e. binds e = None) gs"
    "subseq (written fs) (map booking (filter (\<lambda>b. bExitClaimName b \<notin> set rejected) (rBindings r)))"
  from a(4) have "subseq (written fs) (map booking (rBindings r))"
    by (rule subseq_order.order_trans) (rule subseq_map, rule subseq_filter_left)
  with a that [of "es @ fs @ gs"] show thesis by (simp add: written_none)
qed

lemma quiet_steps:
  assumes "list_all (\<lambda>e. binds e = None) es" and "binds e = Some x"
  shows "(pre, e) \<notin> set (steps h es)"
proof
  assume "(pre, e) \<in> set (steps h es)"
  from steps_event [OF this] assms show False by (simp add: list_all_iff)
qed

text \<open>
  C30: A tunnel is bound only to a claim that is there. Every status patch by which \<open>persistResults\<close> binds a
  tunnel writes a binding of the results, and if the binding's exit is one of the new claims, that claim
  was created before, or existed and was read without a deletion timestamp; a claim that is going away
  under the same deterministic name is never bound to.
\<close>

theorem claims_before_bindings:
  assumes "run_state (persistResults E ord text r) [] = (res, tr)"
    and "(pre, e) \<in> set (steps [] tr)" and "binds e = Some (n, ps)"
  shows "\<exists>b \<in> set (rBindings r). bExitClaimName b = n \<and> bAssignedPorts b = ps \<and>
     (\<forall>c \<in> set (NewClaims r). icName c = n \<longrightarrow> claim_there E [] pre c)"
  using assms(1)
proof (rule persist_split)
  fix es assume "tr = [] @ es" "list_all (\<lambda>e. binds e = None) es"
  with assms(2) quiet_steps [OF _ assms(3)] show ?thesis by simp
next
  fix rejected es fs gs
  assume a: "run_state (create_claims E (NewClaims r) []) [] = (Inr rejected, [] @ es)" "tr = [] @ es @ fs @ gs"
    "subseq (written fs) (map booking (filter (\<lambda>b. bExitClaimName b \<notin> set rejected) (rBindings r)))"
    "list_all (\<lambda>e. binds e = None) es" "list_all (\<lambda>e. binds e = None) gs"
  have fs: "(pre, e) \<in> set (steps es fs)"
    using assms(2) a(2) quiet_steps [OF a(4) assms(3)] quiet_steps [OF a(5) assms(3)] by simp
  obtain ds where pre: "pre = es @ ds" using steps_prefix [OF fs] by blast
  have "(n, ps) \<in> set (written fs)"
    using steps_event [OF fs] assms(3) unfolding written_mem by blast
  with subseq_set [OF a(3)] have "(n, ps) \<in> set (map booking (filter (\<lambda>b. bExitClaimName b \<notin> set rejected) (rBindings r)))"
    by blast
  then obtain b where b: "b \<in> set (rBindings r)" "bExitClaimName b = n" "bAssignedPorts b = ps" "n \<notin> set rejected"
    by (auto simp: booking_def)
  have "claim_there E [] pre c" if "c \<in> set (NewClaims r)" "icName c = n" for c
  proof -
    from create_claims_there [OF a(1)] that b(4) have "claim_there E [] es c" by simp
    then show ?thesis unfolding pre by (rule claim_there_more)
  qed
  with b show ?thesis by blast
qed

section \<open>A pass\<close>

lemma provisioner_split:
  assumes "run_state (provisioner_Reconcile E is_synced solve o1 o2 text waited b) h = (res, h')"
  obtains (idle) es where "h' = h @ es" and "written es = []"
  | (solved) es ts pre results z where "written es = []" and "onListTunnels E pre = Inr ts"
      and "solve (h @ es) (filter is_pending ts) = Some results"
      and "run_state (persistResults E o2 text results) (h @ es) = (z, h')"
proof (cases "waited \<and> is_synced h")
  case False
  with assms idle [of "[]"] show thesis by (auto simp: provisioner_Reconcile_def split: if_splits)
next
  case True
  obtain e h1 where p: "run_state (promoteReadyTunnels E) h = (e, h1)" by fastforce
  from emits_run [OF promoteReadyTunnels_writes p] obtain es where es: "h1 = h @ es" "written es = []"
    by (metis written_none)
  show thesis
  proof (cases e)
    case (Some err)
    with assms True p have "h' = h1" by (simp add: provisioner_Reconcile_def Let_def)
    with es idle show thesis by simp
  next
    case None
    note A = assms [unfolded provisioner_Reconcile_def Let_def listPendingTunnels_def ListTunnels_def]
    show thesis
    proof (cases "onListTunnels E h1")
      case (Inl err)
      with A True p None have "h' = h1 @ [EListTunnels]" by simp
      with es idle [of "es @ [EListTunnels]"] show thesis by simp
    next
      case (Inr ts)
      let ?todo = "filter is_pending ts" and ?h = "h1 @ [EListTunnels]"
      have quiet: "written (es @ [EListTunnels]) = []" using es by simp
      show thesis
      proof (cases "?todo = [] \<or> solve ?h ?todo = None")
        case True
        with A \<open>waited \<and> is_synced h\<close> p None Inr have "h' = ?h" by (auto split: if_splits)
        with es quiet idle [of "es @ [EListTunnels]"] show thesis by simp
      next
        case False
        then obtain results where r: "solve ?h ?todo = Some results" by auto
        obtain z h2 where z: "run_state (persistResults E o2 text results) ?h = (z, h2)" by fastforce
        with A True p None Inr False r have "h' = h2" by simp
        with es z r solved [OF quiet Inr] show thesis by simp
      qed
    qed
  qed
qed

lemma subseq_concat: "subseq xs ys \<Longrightarrow> subseq (concat xs) (concat ys)"
  by (induction rule: list_emb.induct) (auto intro: list_emb_append_mono list_emb_append2)

lemma subseq_distinct: "subseq xs ys \<Longrightarrow> distinct ys \<Longrightarrow> distinct xs"
  by (induction rule: list_emb.induct) (auto dest: subseq_set)

definition ports_written :: "string \<Rightarrow> event list \<Rightarrow> int list" where
  "ports_written n tr = concat (map snd (filter (\<lambda>x. fst x = n) (written tr)))"

lemma ports_written_booked:
  assumes "subseq (written tr) (map booking (rBindings r))"
  shows "subseq (ports_written n tr) (booked r n)"
proof -
  have "booked r n = concat (map snd (filter (\<lambda>x. fst x = n) (map booking (rBindings r))))"
    by (simp add: booked_def filter_map comp_def booking_def)
  with assms show ?thesis
    unfolding ports_written_def by (simp add: subseq_concat subseq_map subseq_filter)
qed


text \<open>
  C31: A flaw: a pass that fails is not repeated. Whatever a pass returns, an error or the wish to be called again
  because the cache is not synced, it leaves the batcher without a signal if none came meanwhile, and the \<open>Wait\<close> of the next
  pass then never answers true until somebody triggers again; the tunnels that are still pending wait for an
  unrelated event, although the loop in \<open>SetupWithManager\<close> sleeps a second and calls \<open>Reconcile\<close> to retry.
\<close>

theorem failed_pass_not_retried:
  assumes "run_state (provisioner_Reconcile E is_synced solve o1 o2 text True b) h = (Some (res, err, b'), h')"
    and "\<not> signalled b"
  shows "\<not> wait_own\<^sup>*\<^sup>* (now, c, Blocked, b') (now', c', Returned True, b'')"
proof -
  have "\<not> signalled (snd (Drain o1 b))" using assms(2) by (simp add: Drain_def)
  then have "\<not> signalled b'"
    using assms(1,2) unfolding provisioner_Reconcile_def Let_def
    by (auto split: if_splits option.splits sum.splits prod.splits)
  with never_returns_True show ?thesis by blast
qed

end
