(* ===== verification/ProvisionerRuns.thy ===== *)
theory ProvisionerRuns
  imports ProvisionerProps SchedulerTotal LifecycleRuns
begin

text \<open>Concrete passes of the provisioner, at which its properties are evaluated.\<close>

section \<open>A batch on one exit\<close>

fun tunnel_named :: "string \<Rightarrow> Tunnel list \<Rightarrow> apierror + Tunnel" where
  "tunnel_named n [] = Inl NotFound"
| "tunnel_named n (t # ts) = (if Name t = n then Inr t else tunnel_named n ts)"

definition batch_world :: env where
  "batch_world = (world sample_claim sample_claim sample_batch (Inr None))
     \<lparr>onGetTunnel := (\<lambda>h ns n. tunnel_named n sample_batch)\<rparr>"

definition a_batcher :: "string Batcher" where
  "a_batcher = (Trigger ''ut'' (NewWithBatcher 0 0))\<lparr>signalled := False\<rparr>"

definition batch_solve :: "event list \<Rightarrow> Tunnel list \<Rightarrow> Results option" where
  "batch_solve = (\<lambda>h. Solve (\<lambda>(_::unit) _. Inl []) None (\<lambda>_. list_order) solve_cluster)"

definition batch_pass :: "(Result \<times> goerror option \<times> string Batcher) option \<times> event list" where
  "batch_pass = run_state (provisioner_Reconcile batch_world (\<lambda>h. True) batch_solve list_order list_order
     (\<lambda>e. ''no'') True a_batcher) []"

lemma batch_written: "written (snd batch_pass) = [(''x'', [80]), (''x'', [82])]"
  by code_simp


section \<open>A new claim\<close>

definition new_results :: Results where
  "new_results = \<lparr>NewClaims = [\<lparr>icSpec = cSpec sample_claim, icName = ''p-1'', icPool = Some sample_pool,
       icTunnels = [sample_tunnel], icUsedPorts = [80], Persisted = False\<rparr>],
     rBindings = [\<lparr>bTunnelKey = ''ns/t'', bExitClaimName = ''p-1'', bAssignedPorts = [80]\<rparr>],
     TunnelErrors = [(''ns/t3'', PortsDontFit ''x'')]\<rparr>"

definition new_run :: "goerror option \<times> event list" where
  "new_run = run_state (persistResults batch_world list_order (\<lambda>e. ''no'') new_results) []"

lemma new_written: "written (snd new_run) = [(''p-1'', [80])]"
  by code_simp

theorem claims_before_bindings_witness:
  "\<exists>pre e. (pre, e) \<in> set (steps [] (snd new_run)) \<and> binds e = Some (''p-1'', [80]) \<and>
     claim_there batch_world [] pre (hd (NewClaims new_results))"
proof -
  obtain e where e: "e \<in> set (snd new_run)" "binds e = Some (''p-1'', [80])"
    using written_mem [of "(''p-1'', [80])" "snd new_run"] new_written by auto
  from event_steps [OF e(1)] obtain pre where pre: "(pre, e) \<in> set (steps [] (snd new_run))" by blast
  have "run_state (persistResults batch_world list_order (\<lambda>e. ''no'') new_results) [] = (fst new_run, snd new_run)"
    by (simp add: new_run_def)
  from claims_before_bindings [OF this pre e(2)]
  have "claim_there batch_world [] pre (hd (NewClaims new_results))" by (simp add: new_results_def)
  with pre e(2) show ?thesis by blast
qed

section \<open>A failed pass\<close>

definition failing_world :: env where
  "failing_world = batch_world\<lparr>onListTunnels := (\<lambda>h. Inl Conflict)\<rparr>"

theorem failed_pass_not_retried_witness:
  "\<exists>b'. run_state (provisioner_Reconcile failing_world (\<lambda>h. True) batch_solve list_order list_order (\<lambda>e. ''no'') True a_batcher) [] =
       (Some (finished, Some (ApiErr Conflict), b'), [EListTunnels]) \<and>
     \<not> wait_own\<^sup>*\<^sup>* (0, False, Blocked, b') (9, False, Returned True, b')"
proof -
  let ?b = "snd (Drain list_order a_batcher)"
  have run: "run_state (provisioner_Reconcile failing_world (\<lambda>h. True) batch_solve list_order list_order (\<lambda>e. ''no'') True a_batcher) [] =
       (Some (finished, Some (ApiErr Conflict), ?b), [EListTunnels])"
    by (simp add: provisioner_Reconcile_def promoteReadyTunnels_def ListTunnels_def failing_world_def Let_def)
  have "\<not> signalled a_batcher" by (simp add: a_batcher_def)
  from failed_pass_not_retried [OF run this] run show ?thesis by blast
qed

end
