(* ===== verification/ServiceWatcher.thy ===== *)
theory ServiceWatcher
  imports Kube
begin

text \<open>
  \<open>pkg/controllers/servicewatcher\<close>: a Service of the operator's load-balancer class is translated
  into a tunnel of the same name (\<open>annotations.go\<close>, \<open>controller.go\<close>), and the address of the tunnel's
  exit is written back into the Service (\<open>reverse_sync.go\<close>).
\<close>

section \<open>Constants\<close>

definition LoadBalancerClass :: string where
  "LoadBalancerClass = Group @ ''/frp''"

definition LabelManagedByService :: string where
  "LabelManagedByService = Group @ ''/managed-by-service''"

definition AnnotationServiceCPURequest :: string where
  "AnnotationServiceCPURequest = Group @ ''/resources.requests.cpu''"

definition AnnotationServiceMemoryRequest :: string where
  "AnnotationServiceMemoryRequest = Group @ ''/resources.requests.memory''"

definition AnnotationServiceBandwidthRequest :: string where
  "AnnotationServiceBandwidthRequest = Group @ ''/resources.requests.bandwidthMbps''"

definition AnnotationServiceTrafficRequest :: string where
  "AnnotationServiceTrafficRequest = Group @ ''/resources.requests.monthlyTrafficGB''"

definition AnnotationServiceRequirementsJSON :: string where
  "AnnotationServiceRequirementsJSON = Group @ ''/requirements''"

definition AnnotationServiceExitPool :: string where
  "AnnotationServiceExitPool = Group @ ''/exit-pool''"

definition AnnotationServiceExitClaimRef :: string where
  "AnnotationServiceExitClaimRef = Group @ ''/exit-claim-ref''"

definition ResourceMonthlyTrafficGB :: string where
  "ResourceMonthlyTrafficGB = Group @ ''/monthlyTrafficGB''"

lemmas service_key_defs = AnnotationServiceCPURequest_def AnnotationServiceMemoryRequest_def
  AnnotationServiceBandwidthRequest_def AnnotationServiceTrafficRequest_def
  AnnotationServiceRequirementsJSON_def AnnotationServiceExitPool_def AnnotationServiceExitClaimRef_def

section \<open>Services and calls\<close>

text \<open>The part of \<open>corev1.Service\<close> that the code reads or writes.\<close>

datatype IntOrString = FromInt int | FromString string

record corev1_ServicePort =
  spName :: string
  spProtocol :: string
  spPort :: int
  spTargetPort :: IntOrString

record LoadBalancerIngress =
  ingressIP :: string
  ingressHostname :: string

record Service = ObjectMeta +
  svcType :: string
  svcLoadBalancerClass :: "string option"
  svcPorts :: "corev1_ServicePort list"
  svcIngress :: "LoadBalancerIngress list"

datatype svc_event =
    SGetService string string
  | SGetTunnel string string
  | SCreateTunnel Tunnel
  | SUpdateTunnel Tunnel
  | SDeleteTunnel Tunnel
  | SPatchServiceStatus Service Service

text \<open>
  The answers, and the three library routines the translation calls: \<open>resource.ParseQuantity\<close>,
  \<open>json.Unmarshal\<close> into the list of requirements, \<open>IntOrString.IntValue\<close>.
\<close>

record svc_env =
  onGetService :: "svc_event list \<Rightarrow> string \<Rightarrow> string \<Rightarrow> apierror + Service"
  onSvcGetTunnel :: "svc_event list \<Rightarrow> string \<Rightarrow> string \<Rightarrow> apierror + Tunnel"
  onCreateTunnel :: "svc_event list \<Rightarrow> Tunnel \<Rightarrow> apierror option"
  onUpdateTunnel :: "svc_event list \<Rightarrow> Tunnel \<Rightarrow> apierror option"
  onDeleteTunnel :: "svc_event list \<Rightarrow> Tunnel \<Rightarrow> apierror option"
  onPatchServiceStatus :: "svc_event list \<Rightarrow> Service \<Rightarrow> Service \<Rightarrow> apierror option"
  ParseQuantity :: "string \<Rightarrow> string + int"
  UnmarshalRequirements :: "string \<Rightarrow> string + Requirement list"
  IntValue :: "IntOrString \<Rightarrow> int"

type_synonym 'a svc_io = "(svc_event, 'a) proc"

definition GetService :: "svc_env \<Rightarrow> string \<Rightarrow> string \<Rightarrow> (apierror + Service) svc_io" where
  "GetService W ns n = call (SGetService ns n) (\<lambda>h. onGetService W h ns n)"

definition SvcGetTunnel :: "svc_env \<Rightarrow> string \<Rightarrow> string \<Rightarrow> (apierror + Tunnel) svc_io" where
  "SvcGetTunnel W ns n = call (SGetTunnel ns n) (\<lambda>h. onSvcGetTunnel W h ns n)"

definition CreateTunnel :: "svc_env \<Rightarrow> Tunnel \<Rightarrow> apierror option svc_io" where
  "CreateTunnel W t = call (SCreateTunnel t) (\<lambda>h. onCreateTunnel W h t)"

definition UpdateTunnel :: "svc_env \<Rightarrow> Tunnel \<Rightarrow> apierror option svc_io" where
  "UpdateTunnel W t = call (SUpdateTunnel t) (\<lambda>h. onUpdateTunnel W h t)"

definition DeleteTunnel :: "svc_env \<Rightarrow> Tunnel \<Rightarrow> apierror option svc_io" where
  "DeleteTunnel W t = call (SDeleteTunnel t) (\<lambda>h. onDeleteTunnel W h t)"

definition PatchServiceStatus :: "svc_env \<Rightarrow> Service \<Rightarrow> Service \<Rightarrow> apierror option svc_io" where
  "PatchServiceStatus W orig s = call (SPatchServiceStatus orig s) (\<lambda>h. onPatchServiceStatus W h orig s)"

lemmas svc_call_defs = GetService_def SvcGetTunnel_def CreateTunnel_def UpdateTunnel_def
  DeleteTunnel_def PatchServiceStatus_def

datatype svc_error = SvcApi apierror | BadAnnotation string string

section \<open>annotations.go\<close>

definition empty_spec :: TunnelSpec where
  "empty_spec = \<lparr>Ports = [], tRequirements = [], ExitClaimRef = None, tRequests = []\<rparr>"

definition addRequest ::
  "svc_env \<Rightarrow> string \<Rightarrow> string \<Rightarrow> string \<Rightarrow> TunnelSpec \<Rightarrow> svc_error + TunnelSpec" where
  "addRequest W key raw label spec =
     (if raw = [] then Inr spec
      else case ParseQuantity W raw of
             Inl err \<Rightarrow> Inl (BadAnnotation label err)
           | Inr q \<Rightarrow> Inr (spec\<lparr>tRequests := mput key q (tRequests spec)\<rparr>))"

text \<open>The four calls of \<open>addRequest\<close>, each returning the first error.\<close>

fun add_requests ::
  "svc_env \<Rightarrow> (string \<times> string \<times> string) list \<Rightarrow> TunnelSpec \<Rightarrow> svc_error + TunnelSpec" where
  "add_requests W [] spec = Inr spec"
| "add_requests W ((key, raw, label) # rs) spec =
     (case addRequest W key raw label spec of
        Inl err \<Rightarrow> Inl err
      | Inr spec \<Rightarrow> add_requests W rs spec)"

definition pool_pin :: "string \<Rightarrow> Requirement" where
  "pool_pin v = \<lparr>Key = LabelExitPool, Operator = OpIn, Values = [v], MinValues = None\<rparr>"

definition ParseAnnotations :: "svc_env \<Rightarrow> Service \<Rightarrow> svc_error + TunnelSpec" where
  "ParseAnnotations W svc =
     (let a = Annotations svc in
      case add_requests W
             [(''cpu'', mget_str a AnnotationServiceCPURequest, ''cpu''),
              (''memory'', mget_str a AnnotationServiceMemoryRequest, ''memory''),
              (ResourceBandwidthMbps, mget_str a AnnotationServiceBandwidthRequest, ''bandwidth''),
              (ResourceMonthlyTrafficGB, mget_str a AnnotationServiceTrafficRequest, ''traffic'')] empty_spec of
        Inl err \<Rightarrow> Inl err
      | Inr spec \<Rightarrow>
          (case (if mget_str a AnnotationServiceRequirementsJSON = [] then Inr spec
                 else case UnmarshalRequirements W (mget_str a AnnotationServiceRequirementsJSON) of
                        Inl err \<Rightarrow> Inl (BadAnnotation ''requirements'' err)
                      | Inr reqs \<Rightarrow> Inr (spec\<lparr>tRequirements := reqs\<rparr>)) of
             Inl err \<Rightarrow> Inl err
           | Inr spec \<Rightarrow>
               let pool = mget_str a AnnotationServiceExitPool;
                   spec = (if pool = [] then spec
                           else spec\<lparr>tRequirements := tRequirements spec @ [pool_pin pool]\<rparr>);
                   ref = mget_str a AnnotationServiceExitClaimRef
               in Inr (if ref = [] then spec else spec\<lparr>ExitClaimRef := Some ref\<rparr>)))"

definition port_of :: "svc_env \<Rightarrow> corev1_ServicePort \<Rightarrow> TunnelPort" where
  "port_of W p =
     (let targetPort = (if IntValue W (spTargetPort p) = 0 then spPort p else IntValue W (spTargetPort p));
          protocol = (if spProtocol p = [] then ''TCP'' else spProtocol p)
      in \<lparr>PortName = spName p, PublicPort = Some (spPort p), ServicePort = int32 targetPort,
          Protocol = protocol\<rparr>)"

definition PortsFromService :: "svc_env \<Rightarrow> Service \<Rightarrow> TunnelPort list" where
  "PortsFromService W svc = map (port_of W) (svcPorts svc)"

section \<open>controller.go\<close>

definition isOurService :: "Service \<Rightarrow> bool" where
  "isOurService svc \<longleftrightarrow> svcType svc = ''LoadBalancer'' \<and> svcLoadBalancerClass svc = Some LoadBalancerClass"

definition copyDoNotDisrupt :: "(string, string) gomap \<Rightarrow> (string, string) gomap" where
  "copyDoNotDisrupt a =
     (case mget a AnnotationDoNotDisrupt of
        None \<Rightarrow> []
      | Some v \<Rightarrow> if v = [] then [] else [(AnnotationDoNotDisrupt, v)])"

text \<open>\<open>reflect.DeepEqual\<close>; maps are compared as maps.\<close>

definition same_entries :: "('k, 'v) gomap \<Rightarrow> ('k, 'v) gomap \<Rightarrow> bool" where
  "same_entries m n \<longleftrightarrow>
     length m = length n \<and> list_all (\<lambda>(k, v). mget n k = Some v) m"

definition specEqual :: "TunnelSpec \<Rightarrow> TunnelSpec \<Rightarrow> bool" where
  "specEqual a b \<longleftrightarrow> Ports a = Ports b \<and> tRequirements a = tRequirements b \<and>
     ExitClaimRef a = ExitClaimRef b \<and> same_entries (tRequests a) (tRequests b)"

definition annotationsEqual :: "(string, string) gomap \<Rightarrow> (string, string) gomap \<Rightarrow> bool" where
  "annotationsEqual a b \<longleftrightarrow> mget_str a AnnotationDoNotDisrupt = mget_str b AnnotationDoNotDisrupt"

text \<open>The tunnel that is created, and the one an existing tunnel is updated to.\<close>

definition new_sibling :: "Service \<Rightarrow> TunnelSpec \<Rightarrow> Tunnel" where
  "new_sibling svc spec =
     \<lparr>Name = Name svc, GenerateName = [], Namespace = Namespace svc, UID = [], Generation = 0,
      CreationTimestamp = 0, DeletionTimestamp = None, Labels = [(LabelManagedByService, ''true'')],
      Annotations = copyDoNotDisrupt (Annotations svc), Finalizers = [], tSpec = spec,
      tStatus = \<lparr>Phase = [], AssignedExit = [], AssignedIP = [], AssignedPorts = [], tConditions = []\<rparr>\<rparr>"

definition updated_sibling :: "Service \<Rightarrow> TunnelSpec \<Rightarrow> Tunnel \<Rightarrow> Tunnel" where
  "updated_sibling svc spec t =
     t\<lparr>Labels := mput LabelManagedByService ''true'' (Labels t),
       Annotations :=
         (case mget (copyDoNotDisrupt (Annotations svc)) AnnotationDoNotDisrupt of
            Some v \<Rightarrow> mput AnnotationDoNotDisrupt v (Annotations t)
          | None \<Rightarrow> mdel AnnotationDoNotDisrupt (Annotations t)),
       tSpec := spec\<rparr>"

definition upsertSibling :: "svc_env \<Rightarrow> Service \<Rightarrow> (Result \<times> svc_error option) svc_io" where
  "upsertSibling W svc =
     (case ParseAnnotations W svc of
        Inl err \<Rightarrow> ret (finished, Some err)
      | Inr spec \<Rightarrow>
          let spec = spec\<lparr>Ports := PortsFromService W svc\<rparr> in
          do { got \<leftarrow> SvcGetTunnel W (Namespace svc) (Name svc);
               case got of
                 Inl err \<Rightarrow>
                   if err \<noteq> NotFound then ret (finished, Some (SvcApi err))
                   else do { r \<leftarrow> CreateTunnel W (new_sibling svc spec);
                             ret (finished, map_option SvcApi r) }
               | Inr existing \<Rightarrow>
                   if specEqual (tSpec existing) spec \<and>
                      annotationsEqual (Annotations existing) (copyDoNotDisrupt (Annotations svc))
                   then ret (finished, None)
                   else do { r \<leftarrow> UpdateTunnel W (updated_sibling svc spec existing);
                             ret (finished, map_option SvcApi r) } })"

definition svc_IgnoreNotFound :: "apierror \<Rightarrow> svc_error option" where
  "svc_IgnoreNotFound e = (if e = NotFound then None else Some (SvcApi e))"

definition deleteSiblingIfOurs :: "svc_env \<Rightarrow> string \<Rightarrow> string \<Rightarrow> (Result \<times> svc_error option) svc_io" where
  "deleteSiblingIfOurs W ns name =
     do { got \<leftarrow> SvcGetTunnel W ns name;
          case got of
            Inl err \<Rightarrow> ret (finished, svc_IgnoreNotFound err)
          | Inr t \<Rightarrow>
              if mget_str (Labels t) LabelManagedByService \<noteq> ''true'' then ret (finished, None)
              else if DeletionTimestamp t \<noteq> None then ret (finished, None)
              else do { r \<leftarrow> DeleteTunnel W t;
                        ret (finished, case r of None \<Rightarrow> None | Some err \<Rightarrow> svc_IgnoreNotFound err) } }"

definition service_Reconcile :: "svc_env \<Rightarrow> string \<Rightarrow> string \<Rightarrow> (Result \<times> svc_error option) svc_io" where
  "service_Reconcile W ns name =
     do { got \<leftarrow> GetService W ns name;
          case got of
            Inl err \<Rightarrow> if err = NotFound then deleteSiblingIfOurs W ns name
                       else ret (finished, Some (SvcApi err))
          | Inr svc \<Rightarrow>
              if \<not> isOurService svc then ret (finished, None)
              else if DeletionTimestamp svc \<noteq> None then deleteSiblingIfOurs W (Namespace svc) (Name svc)
              else upsertSibling W svc }"

section \<open>reverse\_sync.go\<close>

fun ingress_loop :: "LoadBalancerIngress list \<Rightarrow> LoadBalancerIngress list \<Rightarrow> bool" where
  "ingress_loop (x # a) (y # b) =
     (if ingressIP x \<noteq> ingressIP y \<or> ingressHostname x \<noteq> ingressHostname y then False
      else ingress_loop a b)"
| "ingress_loop a b = True"

definition loadBalancerEqual :: "LoadBalancerIngress list \<Rightarrow> LoadBalancerIngress list \<Rightarrow> bool" where
  "loadBalancerEqual a b = (if length a \<noteq> length b then False else ingress_loop a b)"

definition reverse_Reconcile :: "svc_env \<Rightarrow> string \<Rightarrow> string \<Rightarrow> (Result \<times> svc_error option) svc_io" where
  "reverse_Reconcile W ns name =
     do { got \<leftarrow> SvcGetTunnel W ns name;
          case got of
            Inl err \<Rightarrow> ret (finished, svc_IgnoreNotFound err)
          | Inr t \<Rightarrow>
              if AssignedIP (tStatus t) = [] then ret (finished, None)
              else do { got \<leftarrow> GetService W (Namespace t) (Name t);
                        case got of
                          Inl err \<Rightarrow> ret (finished, svc_IgnoreNotFound err)
                        | Inr svc \<Rightarrow>
                            if \<not> isOurService svc then ret (finished, None)
                            else
                              let desired = [\<lparr>ingressIP = AssignedIP (tStatus t), ingressHostname = []\<rparr>] in
                              if loadBalancerEqual (svcIngress svc) desired then ret (finished, None)
                              else do { r \<leftarrow> PatchServiceStatus W svc (svc\<lparr>svcIngress := desired\<rparr>);
                                        ret (finished, map_option SvcApi r) } } }"

end
