(* ===== verification/ServiceWatcherProps.thy ===== *)
theory ServiceWatcherProps
  imports ServiceWatcher SchedulerSteps Samples
begin

text \<open>
  Properties of the service watcher: what it writes for a Service and that it writes it once, which
  tunnels it may delete, that a tunnel of someone else is taken over, what the exit-pool annotation
  does to the scheduler (nothing), and what the reverse synchronisation writes.
\<close>

section \<open>Translation\<close>

lemma add_requests_wf:
  "add_requests W rs spec = Inr spec' \<Longrightarrow> wf_map (tRequests spec) \<Longrightarrow> wf_map (tRequests spec')"
proof (induction W rs spec rule: add_requests.induct)
  case (2 W key raw label rs spec)
  then show ?case by (auto simp: addRequest_def split: if_splits sum.splits)
qed simp

lemma ParseAnnotations_wf:
  assumes "ParseAnnotations W svc = Inr spec" shows "wf_map (tRequests spec)"
  using assms add_requests_wf [of W _ empty_spec]
  by (auto simp: ParseAnnotations_def Let_def empty_spec_def simp del: add_requests.simps
      split: sum.splits if_splits)

lemma same_entries_refl: "wf_map m \<Longrightarrow> same_entries m m"
  by (auto simp: same_entries_def list_all_iff wf_map_def)

lemma specEqual_refl: "wf_map (tRequests s) \<Longrightarrow> specEqual s s"
  by (simp add: specEqual_def same_entries_refl)

lemma PortsFromService_ports:
  "i < length (svcPorts svc) \<Longrightarrow>
     PublicPort (PortsFromService W svc ! i) = Some (spPort (svcPorts svc ! i)) \<and>
     Protocol (PortsFromService W svc ! i) \<noteq> []"
  by (simp add: PortsFromService_def port_of_def Let_def)

section \<open>The API server as a store of one tunnel\<close>

text \<open>
  \<open>srv t\<close> is what the server stores when \<open>t\<close> is written; it may fill in metadata.
\<close>

fun tunnel_step :: "(Tunnel \<Rightarrow> Tunnel) \<Rightarrow> svc_event \<Rightarrow> Tunnel option \<Rightarrow> Tunnel option" where
  "tunnel_step srv (SCreateTunnel t) s = Some (srv t)"
| "tunnel_step srv (SUpdateTunnel t) s = Some (srv t)"
| "tunnel_step srv (SDeleteTunnel t) s = None"
| "tunnel_step srv e s = s"

definition tunnel_after :: "(Tunnel \<Rightarrow> Tunnel) \<Rightarrow> svc_event list \<Rightarrow> Tunnel option \<Rightarrow> Tunnel option" where
  "tunnel_after srv h t0 = fold (tunnel_step srv) h t0"

lemma tunnel_after_append [simp]:
  "tunnel_after srv (h @ es) t0 = fold (tunnel_step srv) es (tunnel_after srv h t0)"
  by (simp add: tunnel_after_def)

definition server_ok :: "(Tunnel \<Rightarrow> Tunnel) \<Rightarrow> bool" where
  "server_ok srv \<longleftrightarrow> (\<forall>t. tSpec (srv t) = tSpec t \<and> Labels (srv t) = Labels t \<and>
     Annotations (srv t) = Annotations t \<and> Namespace (srv t) = Namespace t \<and> Name (srv t) = Name t \<and>
     DeletionTimestamp (srv t) = DeletionTimestamp t)"

definition only_watcher :: "svc_env \<Rightarrow> (Tunnel \<Rightarrow> Tunnel) \<Rightarrow> string \<Rightarrow> string \<Rightarrow> Tunnel option \<Rightarrow> bool" where
  "only_watcher W srv ns n t0 \<longleftrightarrow> server_ok srv \<and>
     (\<forall>h. onSvcGetTunnel W h ns n =
        (case tunnel_after srv h t0 of None \<Rightarrow> Inl NotFound | Some t \<Rightarrow> Inr t)) \<and>
     (\<forall>h t. onCreateTunnel W h t = None \<and> onUpdateTunnel W h t = None \<and> onDeleteTunnel W h t = None)"

lemma only_watcherD:
  assumes "only_watcher W srv ns n t0"
  shows "onSvcGetTunnel W h ns n = (case tunnel_after srv h t0 of None \<Rightarrow> Inl NotFound | Some t \<Rightarrow> Inr t)"
    and "onCreateTunnel W h t = None" and "onUpdateTunnel W h t = None" and "onDeleteTunnel W h t = None"
    and "tSpec (srv t) = tSpec t" and "Labels (srv t) = Labels t" and "Annotations (srv t) = Annotations t"
    and "DeletionTimestamp (srv t) = DeletionTimestamp t"
  using assms by (auto simp: only_watcher_def server_ok_def)

definition translated :: "svc_env \<Rightarrow> Service \<Rightarrow> TunnelSpec \<Rightarrow> Tunnel \<Rightarrow> bool" where
  "translated W svc spec t \<longleftrightarrow>
     specEqual (tSpec t) (spec\<lparr>Ports := PortsFromService W svc\<rparr>) \<and>
     annotationsEqual (Annotations t) (copyDoNotDisrupt (Annotations svc))"

lemma translated_new: "wf_map (tRequests spec) \<Longrightarrow>
    translated W svc spec (new_sibling svc (spec\<lparr>Ports := PortsFromService W svc\<rparr>))"
  by (simp add: translated_def new_sibling_def specEqual_refl annotationsEqual_def)

lemma translated_updated: "wf_map (tRequests spec) \<Longrightarrow>
    translated W svc spec (updated_sibling svc (spec\<lparr>Ports := PortsFromService W svc\<rparr>) t)"
  by (auto simp: translated_def updated_sibling_def specEqual_refl annotationsEqual_def mget_str_def
      split: option.splits)

lemma translated_srv:
  "only_watcher W srv ns n t0 \<Longrightarrow> translated W svc spec (srv t) \<longleftrightarrow> translated W svc spec t"
  by (simp add: translated_def only_watcherD)

lemmas watcher_defs = service_Reconcile_def upsertSibling_def deleteSiblingIfOurs_def svc_call_defs
  reverse_Reconcile_def

lemma reconcile_translates:
  assumes "only_watcher W srv (Namespace svc) (Name svc) t0"
    and "onGetService W h (Namespace svc) (Name svc) = Inr svc"
    and "isOurService svc" and "DeletionTimestamp svc = None" and "ParseAnnotations W svc = Inr spec"
  shows "\<exists>es t. run_state (service_Reconcile W (Namespace svc) (Name svc)) h = ((finished, None), h @ es) \<and>
     tunnel_after srv (h @ es) t0 = Some t \<and> translated W svc spec t \<and>
     ((\<exists>t. tunnel_after srv h t0 = Some t \<and> translated W svc spec t) \<longrightarrow>
        es = [SGetService (Namespace svc) (Name svc), SGetTunnel (Namespace svc) (Name svc)])"
proof (cases "tunnel_after srv h t0")
  case None
  let ?n = "new_sibling svc (spec\<lparr>Ports := PortsFromService W svc\<rparr>)"
  have "translated W svc spec (srv ?n)"
    using translated_new [OF ParseAnnotations_wf [OF assms(5)]] assms(1) by (simp add: translated_srv)
  with assms None show ?thesis
    by (simp add: watcher_defs only_watcherD Let_def)
next
  case (Some t)
  show ?thesis
  proof (cases "translated W svc spec t")
    case True
    with assms Some show ?thesis
      by (simp add: watcher_defs only_watcherD translated_def Let_def)
  next
    case False
    let ?u = "updated_sibling svc (spec\<lparr>Ports := PortsFromService W svc\<rparr>) t"
    have "translated W svc spec (srv ?u)"
      using translated_updated [OF ParseAnnotations_wf [OF assms(5)]] assms(1) by (simp add: translated_srv)
    with assms Some False show ?thesis
      by (auto simp: watcher_defs only_watcherD translated_def Let_def)
  qed
qed

text \<open>
  A Service is translated, once. While nobody else writes the tunnel and the Service stays as it
  is, one \<open>Reconcile\<close> of a Service of our class, whose annotations parse, leaves a tunnel of that name
  with exactly the ports, requests and requirements of the Service and its do-not-disrupt
  annotation; a second \<open>Reconcile\<close> only reads.
\<close>

theorem service_translated_once:
  assumes "only_watcher W srv (Namespace svc) (Name svc) t0"
    and "\<And>h. onGetService W h (Namespace svc) (Name svc) = Inr svc"
    and "isOurService svc" and "DeletionTimestamp svc = None" and "ParseAnnotations W svc = Inr spec"
    and "run_state (service_Reconcile W (Namespace svc) (Name svc)) h = (r1, h1)"
    and "run_state (service_Reconcile W (Namespace svc) (Name svc)) h1 = (r2, h2)"
  shows "r1 = (finished, None) \<and> (\<exists>t. tunnel_after srv h1 t0 = Some t \<and> translated W svc spec t) \<and>
     r2 = (finished, None) \<and>
     h2 = h1 @ [SGetService (Namespace svc) (Name svc), SGetTunnel (Namespace svc) (Name svc)]"
  using reconcile_translates [OF assms(1,2,3,4,5), of h] reconcile_translates [OF assms(1,2,3,4,5), of h1]
    assms(6,7) by auto


section \<open>Whose tunnels the watcher touches\<close>

text \<open>
  C34: Only marked tunnels are deleted. Whatever the API server answers, a tunnel that \<open>Reconcile\<close>
  deletes carries the watcher's label and is not being deleted yet, and it is deleted only when the
  Service of that name is gone or, being one of ours, is being deleted.
\<close>

theorem watcher_deletes_only_marked:
  assumes "run_state (service_Reconcile W ns name) h = (r, h @ es)" and "SDeleteTunnel t \<in> set es"
  shows "mget (Labels t) LabelManagedByService = Some ''true'' \<and> DeletionTimestamp t = None \<and>
    (onGetService W h ns name = Inl NotFound \<or>
     (\<exists>svc. onGetService W h ns name = Inr svc \<and> isOurService svc \<and> DeletionTimestamp svc \<noteq> None))"
proof -
  have label: "mget_str m k = ''true'' \<longleftrightarrow> mget m k = Some ''true''" for m :: "(string, string) gomap" and k
    by (auto simp: mget_str_def split: option.splits)
  show ?thesis
  proof (cases "onGetService W h ns name")
    case (Inl e)
    with assms show ?thesis
      by (auto simp: watcher_defs Let_def label split: sum.splits if_splits)
  next
    case (Inr svc)
    with assms show ?thesis
      by (auto simp: watcher_defs Let_def label split: sum.splits if_splits)
  qed
qed

text \<open>What an update leaves alone: the status, and every label and annotation but the watcher's own.\<close>

lemma updated_sibling_frame:
  "tStatus (updated_sibling svc spec t) = tStatus t"
  "k \<noteq> LabelManagedByService \<Longrightarrow> mget (Labels (updated_sibling svc spec t)) k = mget (Labels t) k"
  "k \<noteq> AnnotationDoNotDisrupt \<Longrightarrow> mget (Annotations (updated_sibling svc spec t)) k = mget (Annotations t) k"
  by (auto simp: updated_sibling_def split: option.splits)

text \<open>
  A tunnel of someone else is taken over. The comment on the deletion says that tunnels created
  by other actors must not be touched, but the update does not look at the label: a Service of the
  same name overwrites the tunnel's spec and marks it, and when that Service goes away the tunnel,
  which its owner never gave to the watcher, is deleted.
\<close>

theorem foreign_tunnel_taken_over:
  assumes "only_watcher W srv (Namespace svc) (Name svc) (Some t)"
    and "onGetService W [] (Namespace svc) (Name svc) = Inr svc"
    and "\<And>h. h \<noteq> [] \<Longrightarrow> onGetService W h (Namespace svc) (Name svc) = Inl NotFound"
    and "isOurService svc" and "DeletionTimestamp svc = None" and "ParseAnnotations W svc = Inr spec"
    and "LabelManagedByService \<notin> mkeys (Labels t)" and "DeletionTimestamp t = None"
    and "\<not> specEqual (tSpec t) (spec\<lparr>Ports := PortsFromService W svc\<rparr>)"
    and "run_state (service_Reconcile W (Namespace svc) (Name svc)) [] = (r1, h1)"
    and "run_state (service_Reconcile W (Namespace svc) (Name svc)) h1 = (r2, h2)"
  shows "(\<exists>t'. tunnel_after srv h1 (Some t) = Some t' \<and> translated W svc spec t' \<and>
      mget (Labels t') LabelManagedByService = Some ''true'') \<and>
    tunnel_after srv h2 (Some t) = None \<and> (\<exists>t'. SDeleteTunnel t' \<in> set h2)"
proof -
  let ?s = "spec\<lparr>Ports := PortsFromService W svc\<rparr>"
  let ?u = "updated_sibling svc ?s t"
  have h1: "h1 = [SGetService (Namespace svc) (Name svc), SGetTunnel (Namespace svc) (Name svc), SUpdateTunnel ?u]"
    using assms(2,4,5,6,9,10) only_watcherD(1) [OF assms(1)]
    by (auto simp: watcher_defs Let_def tunnel_after_def)
  have t: "translated W svc spec (srv ?u)" "Labels (srv ?u) = mput LabelManagedByService ''true'' (Labels t)"
    "DeletionTimestamp (srv ?u) = None"
    using translated_updated [OF ParseAnnotations_wf [OF assms(6)]] only_watcherD [OF assms(1)] assms(8)
    by (auto simp: translated_srv [OF assms(1)] updated_sibling_def)
  have after: "tunnel_after srv h1 (Some t) = Some (srv ?u)"
    by (simp add: h1 tunnel_after_def)
  have "h2 = h1 @ [SGetService (Namespace svc) (Name svc), SGetTunnel (Namespace svc) (Name svc),
      SDeleteTunnel (srv ?u)]"
    using assms(3) [of h1] assms(11) only_watcherD(1,4) [OF assms(1)] t after
    by (auto simp: h1 watcher_defs mget_str_def tunnel_after_def split: if_splits)
  with t after show ?thesis by auto
qed

section \<open>The exit-pool annotation\<close>

definition mentions :: "string \<Rightarrow> Requirement list \<Rightarrow> bool" where
  "mentions k rs \<longleftrightarrow> (\<exists>r \<in> set rs. Key r = k)"

lemma compatible_row_snoc: "Key r \<noteq> Key p \<Longrightarrow> compatible_row p (ts @ [r]) = compatible_row p ts"
  by (induction ts) auto

lemma compatible_row_absent: "\<not> mentions (Key p) ts \<Longrightarrow> compatible_row p ts = None"
  by (induction ts) (auto simp: mentions_def)

lemma Compatible_snoc_right: "\<not> mentions (Key r) ps \<Longrightarrow> Compatible ps (ts @ [r]) = Compatible ps ts"
  by (induction ps) (auto simp: mentions_def compatible_row_snoc split: option.splits)

lemma Compatible_snoc_left: "\<not> mentions (Key r) ts \<Longrightarrow> Compatible (ps @ [r]) ts = Compatible ps ts"
  by (induction ps) (auto simp: compatible_row_absent split: option.splits)

lemma pool_pin_left: "\<not> mentions LabelExitPool ts \<Longrightarrow> Compatible (ps @ [pool_pin v]) ts = Compatible ps ts"
  by (rule Compatible_snoc_left) (simp add: pool_pin_def)

lemma pool_pin_right: "\<not> mentions LabelExitPool ps \<Longrightarrow> Compatible ps (ts @ [pool_pin v]) = Compatible ps ts"
  by (rule Compatible_snoc_right) (simp add: pool_pin_def)

definition pinned :: "string \<Rightarrow> Tunnel \<Rightarrow> Tunnel" where
  "pinned v t = t\<lparr>tSpec := (tSpec t)\<lparr>tRequirements := tRequirements (tSpec t) @ [pool_pin v]\<rparr>\<rparr>"

lemma pinned_simps [simp]:
  "tunnel_reqs (pinned v t) = tunnel_reqs t @ [pool_pin v]"
  "tunnel_ports (pinned v t) = tunnel_ports t"
  "tunnel_requests (pinned v t) = tunnel_requests t"
  "UID (pinned v t) = UID t"
  by (simp_all add: pinned_def)

text \<open>The catalog does not speak of pools.\<close>

definition poolless :: "InstanceType \<Rightarrow> bool" where
  "poolless it \<longleftrightarrow> \<not> mentions LabelExitPool (itRequirements it) \<and>
     (\<forall>off \<in> set (itOfferings it). \<not> mentions LabelExitPool (ofRequirements off))"

lemma cheapest_loop_pinned:
  "\<forall>off \<in> set offs. \<not> mentions LabelExitPool (ofRequirements off) \<Longrightarrow>
     cheapest_loop pr (tr @ [pool_pin v]) offs best = cheapest_loop pr tr offs best"
  by (induction offs arbitrary: best) (auto simp: pool_pin_left)

lemma select_candidates_pinned:
  "\<forall>it \<in> set its. poolless it \<Longrightarrow>
     select_candidates pr (tr @ [pool_pin v]) req its = select_candidates pr tr req its"
  by (induction its) (auto simp: poolless_def cheapestCompatibleOffering_def cheapest_loop_pinned
      pool_pin_left Let_def)

lemma SelectInstanceType_pinned:
  assumes "\<And>cp its. get cp pool = Inr its \<Longrightarrow> \<forall>it \<in> set its. poolless it"
  shows "SelectInstanceType get reg pool (tr @ [pool_pin v]) req = SelectInstanceType get reg pool tr req"
  using assms by (auto simp: SelectInstanceType_def select_candidates_pinned Let_def
      split: option.splits sum.splits)


text \<open>A claim made from such a template and catalog does not speak of pools either.\<close>

lemma set_pin_loop: "set (snd (pin_loop rs seen out)) \<subseteq> set out \<union> set rs"
  by (induction rs seen out rule: pin_loop.induct) auto

lemma PinChosen_poolless:
  assumes "\<not> mentions LabelExitPool (itRequirements it)" and "\<not> mentions LabelExitPool (ofRequirements off)"
  shows "\<not> mentions LabelExitPool (PinChosen it off)"
proof -
  obtain seen out where a: "pin_loop (itRequirements it) [] [] = (seen, out)" by fastforce
  have "set out \<subseteq> set (itRequirements it)"
    using set_pin_loop [of "itRequirements it" "[]" "[]"] a by simp
  moreover have "set (PinChosen it off) \<subseteq> set out \<union> set (ofRequirements off)"
    using set_pin_loop [of "ofRequirements off" seen out] by (simp add: PinChosen_def a split_beta)
  ultimately show ?thesis using assms unfolding mentions_def by blast
qed

lemma chosen_poolless:
  assumes "\<And>cp its. get cp pool = Inr its \<Longrightarrow> \<forall>it \<in> set its. poolless it"
    and "SelectInstanceType get reg pool tr req = Inr (it, off)"
  shows "\<not> mentions LabelExitPool (PinChosen it off)"
proof -
  obtain its where its: "\<forall>it \<in> set its. poolless it"
    and "(it, off) \<in> set (select_candidates (tmplRequirements (pool_tmpl pool)) tr req its)"
    using assms by (auto simp: SelectInstanceType_def Let_def split: option.splits sum.splits if_splits list.splits)
      (metis list.set_intros(1) set_sort)
  then have "it \<in> set its" and "off \<in> set (itOfferings it)"
    using cheapest_loop_Some by (fastforce simp: set_select_candidates cheapestCompatibleOffering_def)+
  with its show ?thesis unfolding poolless_def by (intro PinChosen_poolless) blast+
qed

lemma ic_CanAdd_pinned:
  "\<not> mentions LabelExitPool (Requirements (icSpec c)) \<Longrightarrow> ic_CanAdd c (pinned v t) = ic_CanAdd c t"
  by (simp add: ic_CanAdd_def pool_pin_right split: option.splits)

text \<open>
  The exit-pool annotation does not choose a pool. It becomes a requirement on the pool label of
  the tunnel, and the scheduler compares a requirement of the tunnel only with requirements that the
  exit, the template or the catalog states for the same key. None of them states one for the pool
  label (nothing in the code adds it), so that every decision is the one without the annotation:
  which exits and claims in flight accept the tunnel, and what a pool's attempt returns.
\<close>

theorem exit_pool_annotation_ignored:
  assumes "\<And>cp its. get cp pool = Inr its \<Longrightarrow> \<forall>it \<in> set its. poolless it"
    and "\<not> mentions LabelExitPool (tmplRequirements (pool_tmpl pool))"
    and "\<And>cl. fst (snapshotClaimAndUsed e) = Some cl \<Longrightarrow> \<not> mentions LabelExitPool (Requirements (cSpec cl))"
    and "\<not> mentions LabelExitPool (Requirements (icSpec c))"
  shows "ex_CanAdd e (pinned v t) = ex_CanAdd e t \<and> ic_CanAdd c (pinned v t) = ic_CanAdd c t \<and>
    pool_attempt get reg ord cl (pinned v t) pool =
      map_option (map_sum id (\<lambda>(c, ports). (c\<lparr>icTunnels := [pinned v t]\<rparr>, ports)))
        (pool_attempt get reg ord cl t pool)"
proof (intro conjI)
  show "ex_CanAdd e (pinned v t) = ex_CanAdd e t"
    using assms(3) by (auto simp: ex_CanAdd_def pool_pin_right Let_def split: prod.splits option.splits)
  show "ic_CanAdd c (pinned v t) = ic_CanAdd c t"
    using assms(4) by (rule ic_CanAdd_pinned)
  have claim: "pinned_claim pool (pinned v t) = pinned_claim pool t"
    by (simp add: pinned_claim_def fun_eq_iff)
  show "pool_attempt get reg ord cl (pinned v t) pool =
      map_option (map_sum id (\<lambda>(c, ports). (c\<lparr>icTunnels := [pinned v t]\<rparr>, ports)))
        (pool_attempt get reg ord cl t pool)"
  proof (cases "Compatible (tmplRequirements (pool_tmpl pool)) (tunnel_reqs t) = None \<and>
      poolLimitsExceeded ord pool cl = None")
    case False
    with assms(2) show ?thesis by (auto simp: pool_attempt_def pool_pin_right split: option.splits)
  next
    case True
    have "SelectInstanceType get reg pool (tunnel_reqs t @ [pool_pin v]) (tunnel_requests t) =
        SelectInstanceType get reg pool (tunnel_reqs t) (tunnel_requests t)"
      by (rule SelectInstanceType_pinned) (rule assms(1))
    note ok = True assms(2) this
    show ?thesis
    proof (cases "SelectInstanceType get reg pool (tunnel_reqs t) (tunnel_requests t)")
      case (Inl err)
      with ok show ?thesis by (simp add: pool_attempt_def pool_pin_right)
    next
      case (Inr c)
      obtain it off where c: "c = (it, off)" by fastforce
      have "\<not> mentions LabelExitPool (Requirements (icSpec (pinned_claim pool t it off)))"
        using chosen_poolless [OF _ Inr [unfolded c]] assms(1,2)
        by (auto simp: pinned_claim_def NewClaimFromPool_def Let_def mentions_def)
      from ic_CanAdd_pinned [OF this] ok Inr c show ?thesis
        by (auto simp: pool_attempt_def pool_pin_right Let_def claim ic_Add_def
            split: option.splits sum.splits)
    qed
  qed
qed


section \<open>The way back\<close>

lemma loadBalancerEqual_iff: "loadBalancerEqual a b \<longleftrightarrow> a = b"
proof -
  have "length a = length b \<Longrightarrow> ingress_loop a b \<longleftrightarrow> a = b"
    by (induction a b rule: list_induct2) (auto intro: LoadBalancerIngress.equality)
  then show ?thesis by (auto simp: loadBalancerEqual_def)
qed

text \<open>
  The Service announces the address of its tunnel. A \<open>Reconcile\<close> of the reverse direction writes
  exactly when the tunnel has an address, the Service is one of ours and does not announce just that
  address, and then it announces it and nothing else. In particular it writes nothing for a tunnel that
  lost its address: the Service keeps announcing the exit that is gone.
\<close>

theorem ingress_follows_assigned_ip:
  assumes "run_state (reverse_Reconcile W ns n) h = (r, h @ es)"
  shows "SPatchServiceStatus a b \<in> set es \<longleftrightarrow>
    (\<exists>t. onSvcGetTunnel W h ns n = Inr t \<and> AssignedIP (tStatus t) \<noteq> [] \<and>
       onGetService W (h @ [SGetTunnel ns n]) (Namespace t) (Name t) = Inr a \<and> isOurService a \<and>
       svcIngress a \<noteq> [\<lparr>ingressIP = AssignedIP (tStatus t), ingressHostname = []\<rparr>] \<and>
       b = a\<lparr>svcIngress := [\<lparr>ingressIP = AssignedIP (tStatus t), ingressHostname = []\<rparr>]\<rparr>)"
  using assms
  by (auto simp: watcher_defs loadBalancerEqual_iff Let_def split: sum.splits if_splits)

section \<open>Concrete runs\<close>

definition sample_svc :: Service where
  "sample_svc = \<lparr>Name = ''t'', GenerateName = [], Namespace = ''ns'', UID = ''us'', Generation = 1,
     CreationTimestamp = 1000, DeletionTimestamp = None, Labels = [],
     Annotations = [(AnnotationServiceExitPool, ''b''), (AnnotationServiceCPURequest, ''2'')], Finalizers = [],
     svcType = ''LoadBalancer'', svcLoadBalancerClass = Some LoadBalancerClass,
     svcPorts = [\<lparr>spName = ''web'', spProtocol = [], spPort = 80, spTargetPort = FromInt 8080\<rparr>],
     svcIngress = []\<rparr>"

definition svc_world :: "(svc_event list \<Rightarrow> apierror + Service) \<Rightarrow> Tunnel option \<Rightarrow> svc_env" where
  "svc_world svc t0 = \<lparr>onGetService = \<lambda>h ns n. svc h,
     onSvcGetTunnel = \<lambda>h ns n. case tunnel_after id h t0 of None \<Rightarrow> Inl NotFound | Some t \<Rightarrow> Inr t,
     onCreateTunnel = \<lambda>h t. None, onUpdateTunnel = \<lambda>h t. None, onDeleteTunnel = \<lambda>h t. None,
     onPatchServiceStatus = \<lambda>h a b. None,
     ParseQuantity = \<lambda>s. case Atoi s of None \<Rightarrow> Inl ''bad quantity'' | Some n \<Rightarrow> Inr (1000000000 * n),
     UnmarshalRequirements = \<lambda>s. Inl ''bad json'',
     IntValue = \<lambda>v. case v of FromInt n \<Rightarrow> n | FromString s \<Rightarrow> 0\<rparr>"

lemma svc_world_only_watcher: "only_watcher (svc_world svc t0) id ns n t0"
  by (simp add: only_watcher_def server_ok_def svc_world_def)

definition sample_svc_spec :: TunnelSpec where
  "sample_svc_spec = \<lparr>Ports = [], tRequirements = [pool_pin ''b''], ExitClaimRef = None,
     tRequests = [(''cpu'', 2000000000)]\<rparr>"

lemma sample_svc_parses: "ParseAnnotations (svc_world svc t0) sample_svc = Inr sample_svc_spec"
  by (simp add: ParseAnnotations_def svc_world_def sample_svc_def sample_svc_spec_def service_key_defs
      mget_str_def addRequest_def empty_spec_def Group_def) code_simp

lemma sample_svc_ours: "isOurService sample_svc" "DeletionTimestamp sample_svc = None"
  by (simp_all add: sample_svc_def isOurService_def)

theorem service_translated_once_witness:
  "\<exists>h1 t. run_state (service_Reconcile (svc_world (\<lambda>_. Inr sample_svc) None) ''ns'' ''t'') [] =
       ((finished, None), h1) \<and>
     tunnel_after id h1 None = Some t \<and> translated (svc_world (\<lambda>_. Inr sample_svc) None) sample_svc sample_svc_spec t \<and>
     snd (run_state (service_Reconcile (svc_world (\<lambda>_. Inr sample_svc) None) ''ns'' ''t'') h1) =
       h1 @ [SGetService ''ns'' ''t'', SGetTunnel ''ns'' ''t'']"
proof -
  let ?W = "svc_world (\<lambda>_. Inr sample_svc) None"
  obtain r1 h1 where 1: "run_state (service_Reconcile ?W ''ns'' ''t'') [] = (r1, h1)" by fastforce
  obtain r2 h2 where 2: "run_state (service_Reconcile ?W ''ns'' ''t'') h1 = (r2, h2)" by fastforce
  have n: "Namespace sample_svc = ''ns''" "Name sample_svc = ''t''" by (simp_all add: sample_svc_def)
  have "onGetService ?W h ''ns'' ''t'' = Inr sample_svc" for h by (simp add: svc_world_def)
  from service_translated_once [of ?W id sample_svc None sample_svc_spec "[]" r1 h1 r2 h2]
    this 1 2 n sample_svc_ours sample_svc_parses svc_world_only_watcher
  show ?thesis by auto
qed


text \<open>A tunnel marked by the watcher whose Service is gone.\<close>

definition marked_tunnel :: Tunnel where
  "marked_tunnel = sample_tunnel\<lparr>Labels := [(LabelManagedByService, ''true'')]\<rparr>"

theorem watcher_deletes_only_marked_witness:
  "\<exists>r es. run_state (service_Reconcile (svc_world (\<lambda>_. Inl NotFound) (Some marked_tunnel)) ''ns'' ''t'') [] = (r, es) \<and>
     SDeleteTunnel marked_tunnel \<in> set es \<and> mget (Labels marked_tunnel) LabelManagedByService = Some ''true''"
proof -
  let ?W = "svc_world (\<lambda>_. Inl NotFound) (Some marked_tunnel)"
  obtain r es where 1: "run_state (service_Reconcile ?W ''ns'' ''t'') [] = (r, es)" by fastforce
  then have "SDeleteTunnel marked_tunnel \<in> set es"
    by (auto simp: watcher_defs svc_world_def tunnel_after_def marked_tunnel_def sample_tunnel_def mget_str_def)
  with 1 watcher_deletes_only_marked [of ?W "''ns''" "''t''" "[]" r es marked_tunnel] show ?thesis by auto
qed

theorem foreign_tunnel_taken_over_witness:
  "\<exists>h2. tunnel_after id h2 (Some sample_tunnel) = None \<and> (\<exists>t'. SDeleteTunnel t' \<in> set h2)"
proof -
  let ?W = "svc_world (\<lambda>h. if h = [] then Inr sample_svc else Inl NotFound) (Some sample_tunnel)"
  obtain r1 h1 where 1: "run_state (service_Reconcile ?W ''ns'' ''t'') [] = (r1, h1)" by fastforce
  obtain r2 h2 where 2: "run_state (service_Reconcile ?W ''ns'' ''t'') h1 = (r2, h2)" by fastforce
  have n: "Namespace sample_svc = ''ns''" "Name sample_svc = ''t''" by (simp_all add: sample_svc_def)
  have svc: "onGetService ?W h ''ns'' ''t'' = (if h = [] then Inr sample_svc else Inl NotFound)" for h
    by (simp add: svc_world_def)
  have t: "LabelManagedByService \<notin> mkeys (Labels sample_tunnel)" "DeletionTimestamp sample_tunnel = None"
    "\<not> specEqual (tSpec sample_tunnel) (sample_svc_spec\<lparr>Ports := PortsFromService ?W sample_svc\<rparr>)"
    by (simp_all add: sample_tunnel_def specEqual_def sample_svc_spec_def)
  from foreign_tunnel_taken_over [of ?W id sample_svc sample_tunnel sample_svc_spec r1 h1 r2 h2]
    1 2 n svc t sample_svc_ours sample_svc_parses svc_world_only_watcher
  show ?thesis by auto
qed

lemma new_claim_reqs: "Requirements (icSpec (NewClaimFromPool pool u)) = tmplRequirements (pool_tmpl pool)"
  by (simp add: NewClaimFromPool_def Let_def)

theorem exit_pool_annotation_ignored_witness:
  "ex_CanAdd (\<lparr>exState = None, NewlyBound = [], NewlyUsedPorts = []\<rparr>) (pinned ''b'' sample_tunnel) =
     ex_CanAdd (\<lparr>exState = None, NewlyBound = [], NewlyUsedPorts = []\<rparr>) sample_tunnel \<and>
   pool_attempt (\<lambda>(_::unit) _. Inl []) None list_order NewCluster (pinned ''b'' sample_tunnel) sample_pool =
     map_option (map_sum id (\<lambda>(c, ports). (c\<lparr>icTunnels := [pinned ''b'' sample_tunnel]\<rparr>, ports)))
       (pool_attempt (\<lambda>(_::unit) _. Inl []) None list_order NewCluster sample_tunnel sample_pool)"
  using exit_pool_annotation_ignored [of "\<lambda>(_::unit) _. Inl []" sample_pool
      "\<lparr>exState = None, NewlyBound = [], NewlyUsedPorts = []\<rparr>" "NewClaimFromPool sample_pool ''u''"
      "''b''" sample_tunnel None list_order NewCluster]
  by (simp add: new_claim_reqs mentions_def snapshotClaimAndUsed_def sample_pool_def)

theorem ingress_follows_assigned_ip_witness:
  "\<exists>r es b. run_state (reverse_Reconcile (svc_world (\<lambda>_. Inr sample_svc)
       (Some (sample_tunnel\<lparr>tStatus := (tStatus sample_tunnel)\<lparr>AssignedIP := ''10.0.0.1''\<rparr>\<rparr>))) ''ns'' ''t'') [] = (r, es) \<and>
     SPatchServiceStatus sample_svc b \<in> set es \<and>
     svcIngress b = [\<lparr>ingressIP = ''10.0.0.1'', ingressHostname = []\<rparr>]"
proof -
  let ?t = "sample_tunnel\<lparr>tStatus := (tStatus sample_tunnel)\<lparr>AssignedIP := ''10.0.0.1''\<rparr>\<rparr>"
  let ?W = "svc_world (\<lambda>_. Inr sample_svc) (Some ?t)"
  let ?b = "sample_svc\<lparr>svcIngress := [\<lparr>ingressIP = ''10.0.0.1'', ingressHostname = []\<rparr>]\<rparr>"
  obtain r es where 1: "run_state (reverse_Reconcile ?W ''ns'' ''t'') [] = (r, es)" by fastforce
  have i: "svcIngress sample_svc = []" by (simp add: sample_svc_def)
  have "\<exists>t. onSvcGetTunnel ?W [] ''ns'' ''t'' = Inr t \<and> AssignedIP (tStatus t) \<noteq> [] \<and>
       onGetService ?W ([] @ [SGetTunnel ''ns'' ''t'']) (Namespace t) (Name t) = Inr sample_svc \<and>
       isOurService sample_svc \<and>
       svcIngress sample_svc \<noteq> [\<lparr>ingressIP = AssignedIP (tStatus t), ingressHostname = []\<rparr>] \<and>
       ?b = sample_svc\<lparr>svcIngress := [\<lparr>ingressIP = AssignedIP (tStatus t), ingressHostname = []\<rparr>]\<rparr>"
    using sample_svc_ours i
    by (intro exI [of _ ?t]) (simp add: svc_world_def tunnel_after_def)
  then have "SPatchServiceStatus sample_svc ?b \<in> set es"
    using ingress_follows_assigned_ip [of ?W "''ns''" "''t''" "[]" r es sample_svc ?b] 1
    by (simp only: append_Nil)
  with 1 show ?thesis by (intro exI [of _ r] exI [of _ es] exI [of _ ?b]) simp
qed

end
