(* ===== verification/LocalDockerRuns.thy ===== *)
theory LocalDockerRuns
  imports LocalDockerProps
begin

text \<open>
  What the operator gets out of the local Docker provider: what becomes of a container that exists
  already, and the configuration that the provider writes as the operator constructs it. The witnesses
  run against a small daemon.
\<close>

section \<open>A small daemon\<close>

text \<open>It creates at most one container, which cannot be started.\<close>

definition the_id :: string where
  "the_id = replicate 64 CHR ''a''"

definition sample_ld_class :: LocalDockerProviderClass where
  "sample_ld_class = \<lparr>Name = ''default'', GenerateName = [], Namespace = [], UID = ''uc'', Generation = 1,
     CreationTimestamp = 1000, DeletionTimestamp = None, Labels = [], Annotations = [], Finalizers = [],
     ldNetwork = ''kind'', ldConfigHostMountPath = [], ldImagePullPolicy = ''IfNotPresent'',
     ldSkipHostPortPublishing = True, ldDefaultImage = []\<rparr>"

definition ld_claim :: ExitClaim where
  "ld_claim = sample_claim\<lparr>cSpec := (cSpec sample_claim)
     \<lparr>ProviderClassRef := \<lparr>refGroup = ''g'', refKind = ''LocalDockerProviderClass'', refName = ''default''\<rparr>\<rparr>\<rparr>"

definition made :: "ld_event list \<Rightarrow> bool" where
  "made h \<longleftrightarrow> list_ex (\<lambda>e. case e of LCreate cs \<Rightarrow> csName cs = containerName ld_claim | _ \<Rightarrow> False) h"

definition sample_ld :: ld_env where
  "sample_ld = \<lparr>ldGetClass = \<lambda>h n. Inr sample_ld_class, ldAuthToken = \<lambda>h c. Inr [],
     ldListByName = \<lambda>h n. Inr (if made h \<and> n = containerName ld_claim
        then [\<lparr>ciID = the_id, ciNames = [CHR ''/'' # n], ciLabels = []\<rparr>] else []),
     ldListByLabel = \<lambda>h l. Inr [], ldMkdirAll = \<lambda>h d. None, ldWriteFile = \<lambda>h p b. None,
     ldImagePull = \<lambda>h i. None,
     ldContainerCreate = \<lambda>h cs. if csName cs \<noteq> containerName ld_claim then Inl (DockerOther ''no'')
        else if made h then Inl (DockerConflict ''in use'') else Inr the_id,
     ldContainerStart = \<lambda>h i. Some ''port is already allocated'',
     ldContainerInspect = \<lambda>h i. Inl (DockerOther ''no''),
     ldContainerStop = \<lambda>h i. Some (DockerOther ''no''),
     ldContainerRemove = \<lambda>h i. Some (DockerOther ''no''),
     ld_apiText = \<lambda>_. [], ld_printable = \<lambda>_. True, ld_fancy = \<lambda>f xs. f\<rparr>"

definition sample_ld_provider :: ld_provider where
  "sample_ld_provider = projr (ld_New True None)"

section \<open>A container that exists\<close>

lemma exits_ok_name: "exits_ok X \<Longrightarrow> (n, p) \<in> X \<Longrightarrow> (n, q) \<in> X \<Longrightarrow> p = q"
  unfolding exits_ok_def by fastforce

text \<open>
  A container that exists is adopted as it is. When there is a container of the claim's name, a
  \<open>Create\<close> that succeeds returns its id and leaves all containers as they are: a container that an
  earlier \<open>Create\<close> made and could not start is reported as launched and never started.
\<close>

theorem existing_container_adopted:
  assumes "ld_ok E cs0 h" and "ct \<in> set (containers E cs0 h)" and "ctName ct = containerName claim"
    and "run_state (ld_Create E c claim) h = (Inr out, h')"
  shows "ProviderID (cStatus out) = ld_providerIDPrefix @ ctID ct \<and> containers E cs0 h' = containers E cs0 h"
proof -
  have ct: "(containerName claim, ld_providerIDPrefix @ ctID ct) \<in> ld_exits E cs0 h"
    using imageI [OF assms(2), of exit_of] by (simp add: ld_exits_def exit_of_def assms(3))
  show ?thesis
  proof (rule ld_Create_cases [OF assms(1,4)], goal_cases)
    case (2 a)
    have "exits_ok (ld_exits E cs0 h)" using assms(1) by (simp add: ld_ok_def)
    from exits_ok_name [OF this 2(2) ct] 2(1,3) show ?case by simp
  next
    case (3 cid)
    with imageI [OF ct, of fst] show ?case by simp
  qed simp
qed

lemma sample_ld_sel [simp]:
  "ldGetClass sample_ld h m = Inr sample_ld_class"
  "ldListByName sample_ld h n = Inr (if made h \<and> n = containerName ld_claim
     then [\<lparr>ciID = the_id, ciNames = [CHR ''/'' # n], ciLabels = []\<rparr>] else [])"
  "ldMkdirAll sample_ld h d = None" "ldWriteFile sample_ld h f b = None" "ldImagePull sample_ld h i = None"
  "ldContainerCreate sample_ld h cs = (if csName cs \<noteq> containerName ld_claim then Inl (DockerOther ''no'')
     else if made h then Inl (DockerConflict ''in use'') else Inr the_id)"
  "ldContainerStart sample_ld h i = Some ''port is already allocated''"
  "ldContainerStop sample_ld h i = Some (DockerOther ''no'')"
  "ldContainerRemove sample_ld h i = Some (DockerOther ''no'')"
  by (simp_all add: sample_ld_def)

lemma made_simps [simp]: "\<not> made []" "made (h @ [e]) = (made h \<or> (case e of LCreate cs \<Rightarrow> csName cs = containerName ld_claim | _ \<Rightarrow> False))"
  by (simp_all add: made_def)

definition stopped :: Container where
  "stopped = \<lparr>ctID = the_id, ctName = containerName ld_claim, ctRunning = False\<rparr>"

lemma sample_ld_containers: "containers sample_ld [] h = (if made h then [stopped] else [])"
proof (induction h rule: rev_induct)
  case (snoc e h)
  then show ?case by (cases e) (auto simp: stopped_def)
qed simp

lemma the_id_ok: "container_id the_id"
  by (simp add: container_id_def the_id_def)

lemma sample_ld_ok: "ld_ok sample_ld [] []"
proof -
  have "{it \<in> set (if b then [\<lparr>ciID = the_id, ciNames = [CHR ''/'' # n], ciLabels = []\<rparr>] else []).
      CHR ''/'' # n \<in> set (ciNames it)} =
    (if b then {\<lparr>ciID = the_id, ciNames = [CHR ''/'' # n], ciLabels = []\<rparr>} else {})" for b n
    by auto
  then have "ld_api_ok sample_ld []"
    using the_id_ok by (auto simp: ld_api_ok_def sample_ld_containers stopped_def split: if_splits)
  then show ?thesis by (simp add: ld_ok_def ld_exits_def exits_ok_def)
qed


lemma ld_claim_sel [simp]:
  "refKind (ProviderClassRef (cSpec ld_claim)) = ''LocalDockerProviderClass''"
  "AuthMethod (Auth (Frps (cSpec ld_claim))) = ''token''" "ldKube sample_ld_provider"
  "\<not> ldAuthTokenResolver sample_ld_provider" "csName (container_spec ld_claim pc i f) = containerName ld_claim"
  by (simp_all add: ld_claim_def sample_claim_def sample_frps_def sample_ld_provider_def ld_New_def
      container_spec_def Let_def)

lemma sample_start:
  assumes "\<not> made h" and "csName cs = containerName ld_claim"
  shows "\<exists>err h'. run_state (start_container sample_ld cs) h = (Inl err, h') \<and> made h'"
  using assms by (simp add: start_container_def ContainerCreate_def made_def)

lemma sample_first_create:
  "\<exists>err h1. run_state (ld_Create sample_ld sample_ld_provider ld_claim) [] = (Inl err, h1) \<and> made h1"
proof -
  let ?ref = "refName (ProviderClassRef (cSpec ld_claim))"
  obtain body where body: "RenderConfig (ld_printable sample_ld) (Frps (cSpec ld_claim)) [] = Inr body"
    using RenderConfig_lines [of "Frps (cSpec ld_claim)" "ld_printable sample_ld" "[]"] by auto
  obtain f h2 where w: "run_state (writeConfig sample_ld sample_ld_class ld_claim
        (projr (RenderConfig (ld_printable sample_ld) (Frps (cSpec ld_claim)) [])))
      ([LGetClass ?ref] @ [LListByName (containerName ld_claim)]) = (Inr f, h2)" and m: "\<not> made h2"
    by (simp add: writeConfig_def Let_def made_def)
  let ?img = "imageRef (ld_fancy sample_ld) sample_ld_class (Version (Frps (cSpec ld_claim)))"
  have "\<not> made (h2 @ [LImagePull ?img])" using m by simp
  from sample_start [OF this, of "container_spec ld_claim sample_ld_class ?img f"] obtain err h3 where
    "run_state (start_container sample_ld (container_spec ld_claim sample_ld_class ?img f)) (h2 @ [LImagePull ?img]) =
      (Inl err, h3)" "made h3" by auto
  then have "run_state (ensureContainer sample_ld ld_claim sample_ld_class []) [LGetClass ?ref] = (Inl err, h3) \<and> made h3"
    by (simp add: run_ensureContainer [OF w refl] body made_def [of "[LGetClass ?ref]"])
  then show ?thesis by (simp add: ld_Create_def ld_resolveClass_def Let_def)
qed


lemma sample_next_create:
  assumes "made h"
  shows "\<exists>out h'. run_state (ld_Create sample_ld sample_ld_provider ld_claim) h = (Inr out, h')"
  using assms by (simp add: ld_Create_def ld_resolveClass_def Let_def ensureContainer_def ld_findByName_def
      ld_inspect_def)

theorem existing_container_adopted_witness:
  "\<exists>err h1 out h2. run_state (ld_Create sample_ld sample_ld_provider ld_claim) [] = (Inl err, h1) \<and>
     run_state (ld_Create sample_ld sample_ld_provider ld_claim) h1 = (Inr out, h2) \<and>
     ProviderID (cStatus out) = ld_providerIDPrefix @ the_id \<and>
     containers sample_ld [] h2 = [stopped] \<and> \<not> ctRunning stopped"
proof -
  obtain err h1 where 1: "run_state (ld_Create sample_ld sample_ld_provider ld_claim) [] = (Inl err, h1)" "made h1"
    using sample_first_create by blast
  obtain out h2 where 2: "run_state (ld_Create sample_ld sample_ld_provider ld_claim) h1 = (Inr out, h2)"
    using sample_next_create [OF 1(2)] by blast
  have ok: "ld_ok sample_ld [] h1" by (rule ld_Create_exits(1) [OF sample_ld_ok 1(1)])
  have mem: "stopped \<in> set (containers sample_ld [] h1)" using 1(2) by (simp add: sample_ld_containers)
  have name: "ctName stopped = containerName ld_claim" by (simp add: stopped_def)
  from existing_container_adopted [OF ok mem name 2] have
    "ProviderID (cStatus out) = ld_providerIDPrefix @ the_id" "containers sample_ld [] h2 = [stopped]"
    using 1(2) by (simp_all add: sample_ld_containers stopped_def)
  with 1(1) 2 show ?thesis by (simp add: stopped_def)
qed

section \<open>The token\<close>

lemma writeConfig_writes:
  "emits (\<lambda>e. \<forall>f b. e = LWriteFile f b \<longrightarrow> b = body) (writeConfig E pc claim body)"
  unfolding writeConfig_def Let_def by (auto intro!: emits_intros)

text \<open>
  Local exits are configured without a token. As the operator constructs the provider, every
  configuration file that \<open>Create\<close> writes is the rendering of the claim's \<open>frps\<close> section with the empty
  token, whatever secret the section refers to.
\<close>

theorem local_config_has_no_token:
  "emits (\<lambda>e. \<forall>f b. e = LWriteFile f b \<longrightarrow> RenderConfig (ld_printable E) (Frps (cSpec claim)) [] = Inr b)
     (ld_Create E (projr (ld_New kube None)) claim)"
proof -
  let ?P = "\<lambda>e. \<forall>f b. e = LWriteFile f b \<longrightarrow> RenderConfig (ld_printable E) (Frps (cSpec claim)) [] = Inr b"
  have w: "emits ?P (writeConfig E pc claim b)" if "RenderConfig (ld_printable E) (Frps (cSpec claim)) [] = Inr b" for pc b
    by (rule emits_mono [OF writeConfig_writes [of b]]) (simp add: that)
  have "emits ?P (ensureContainer E claim pc [])" for pc
    unfolding ensureContainer_def ld_findByName_def start_container_def ContainerCreate_def ContainerRemove_def
    by (intro emits_intros w emits_bind) simp_all
  moreover have "\<not> ldAuthTokenResolver (projr (ld_New kube None))" by (simp add: ld_New_def)
  moreover have "emits ?P (ld_resolveClass E c claim)" for c
    unfolding ld_resolveClass_def by (intro emits_intros) simp_all
  moreover have "emits ?P (ld_inspect E pid)" for pid
    unfolding ld_inspect_def by (intro emits_intros) simp_all
  ultimately show ?thesis unfolding ld_Create_def by (auto intro!: emits_intros)
qed

text \<open>Drift is reported for a container that vanished, never for another version of frps.\<close>

theorem local_drift_is_vanishing:
  "fst (run_state (ld_IsDrifted E claim) h) \<in> range Inl \<union> {Inr [], Inr ''Vanished''}"
  by (cases "ldContainerInspect E h (TrimPrefix (ProviderID (cStatus claim)) ld_providerIDPrefix)")
    (simp_all add: ld_IsDrifted_def ld_Get_def ld_inspect_def Let_def inspected_def)

end
