(* ===== verification/GoFlag.thy ===== *)
theory GoFlag
  imports GoFmt
begin

text \<open>
  The parts of \<open>strconv\<close>, \<open>time\<close> and \<open>flag\<close> that the operator reads its configuration with:
  \<open>ParseBool\<close>, \<open>ParseInt\<close> with base 0, \<open>ParseDuration\<close> and the parsing of a command line.
\<close>

section \<open>strconv\<close>

definition ParseBool :: "string \<Rightarrow> bool option" where
  "ParseBool s =
     (if s \<in> set [''1'', ''t'', ''T'', ''TRUE'', ''true'', ''True''] then Some True
      else if s \<in> set [''0'', ''f'', ''F'', ''FALSE'', ''false'', ''False''] then Some False
      else None)"

definition lower :: "char \<Rightarrow> char" where
  "lower c = (if CHR ''A'' \<le> c \<and> c \<le> CHR ''Z'' then char_of (of_char c + (32 :: nat)) else c)"

definition alnum_val :: "char \<Rightarrow> nat option" where
  "alnum_val c =
     (if CHR ''0'' \<le> c \<and> c \<le> CHR ''9'' then Some (of_char c - 48)
      else if CHR ''a'' \<le> lower c \<and> lower c \<le> CHR ''z'' then Some (of_char (lower c) - 87)
      else None)"

text \<open>The prefix of a literal: its base and the rest.\<close>

definition base_prefix :: "string \<Rightarrow> nat \<times> string" where
  "base_prefix s =
     (if s \<noteq> [] \<and> hd s = CHR ''0'' then
        if 3 \<le> length s \<and> lower (s ! 1) = CHR ''b'' then (2, drop 2 s)
        else if 3 \<le> length s \<and> lower (s ! 1) = CHR ''o'' then (8, drop 2 s)
        else if 3 \<le> length s \<and> lower (s ! 1) = CHR ''x'' then (16, drop 2 s)
        else (8, drop 1 s)
      else (10, s))"

text \<open>The digits, with underscores skipped; a value above \<open>2 ^ 64\<close> is a range error.\<close>

fun digits_loop :: "nat \<Rightarrow> nat \<Rightarrow> string \<Rightarrow> nat option" where
  "digits_loop base n [] = Some n"
| "digits_loop base n (c # s) =
     (if c = CHR ''_'' then digits_loop base n s
      else case alnum_val c of
             None \<Rightarrow> None
           | Some d \<Rightarrow>
               if base \<le> d \<or> 2 ^ 64 \<le> n * base + d then None else digits_loop base (n * base + d) s)"

text \<open>\<open>underscoreOK\<close>; \<open>prev\<close> is the kind of the character before.\<close>

datatype prev_char = PrevStart | PrevDigit | PrevUnderscore | PrevOther

fun underscore_loop :: "bool \<Rightarrow> prev_char \<Rightarrow> string \<Rightarrow> bool" where
  "underscore_loop hx p [] = (p \<noteq> PrevUnderscore)"
| "underscore_loop hx p (c # s) =
     (if (CHR ''0'' \<le> c \<and> c \<le> CHR ''9'') \<or> (hx \<and> CHR ''a'' \<le> lower c \<and> lower c \<le> CHR ''f'')
      then underscore_loop hx PrevDigit s
      else if c = CHR ''_'' then p = PrevDigit \<and> underscore_loop hx PrevUnderscore s
      else p \<noteq> PrevUnderscore \<and> underscore_loop hx PrevOther s)"

definition underscoreOK :: "string \<Rightarrow> bool" where
  "underscoreOK s =
     (if 2 \<le> length s \<and> hd s = CHR ''0'' \<and> lower (s ! 1) \<in> set ''box''
      then underscore_loop (lower (s ! 1) = CHR ''x'') PrevDigit (drop 2 s)
      else underscore_loop False PrevStart s)"

definition ParseUint0 :: "string \<Rightarrow> nat option" where
  "ParseUint0 s =
     (if s = [] then None
      else let (base, digits) = base_prefix s in
        case digits_loop base 0 digits of
          None \<Rightarrow> None
        | Some n \<Rightarrow> if CHR ''_'' \<in> set digits \<and> \<not> underscoreOK s then None else Some n)"

definition ParseInt0 :: "string \<Rightarrow> int option" where
  "ParseInt0 s =
     (if s = [] then None
      else let (neg, u) = (if hd s = CHR ''+'' then (False, tl s) else if hd s = CHR ''-'' then (True, tl s)
                           else (False, s))
           in case ParseUint0 u of
                None \<Rightarrow> None
              | Some n \<Rightarrow>
                  if \<not> neg \<and> 2 ^ 63 \<le> n then None
                  else if neg \<and> 2 ^ 63 < n then None
                  else Some (if neg then - int n else int n))"

section \<open>time.ParseDuration\<close>

definition is_digit :: "char \<Rightarrow> bool" where
  "is_digit c \<longleftrightarrow> CHR ''0'' \<le> c \<and> c \<le> CHR ''9''"

definition dig :: "char \<Rightarrow> nat" where
  "dig c = of_char c - 48"

fun leadingInt :: "nat \<Rightarrow> string \<Rightarrow> (nat \<times> string) option" where
  "leadingInt x [] = Some (x, [])"
| "leadingInt x (c # s) =
     (if \<not> is_digit c then Some (x, c # s)
      else if 2 ^ 63 div 10 < x then None
      else let x = x * 10 + dig c in if 2 ^ 63 < x then None else leadingInt x s)"

text \<open>The fraction as a number and the number of its digits that count.\<close>

fun leadingFraction :: "nat \<Rightarrow> nat \<Rightarrow> bool \<Rightarrow> string \<Rightarrow> nat \<times> nat \<times> string" where
  "leadingFraction x scale over [] = (x, scale, [])"
| "leadingFraction x scale over (c # s) =
     (if \<not> is_digit c then (x, scale, c # s)
      else if over then leadingFraction x scale True s
      else if (2 ^ 63 - 1) div 10 < x then leadingFraction x scale True s
      else let y = x * 10 + dig c
           in if 2 ^ 63 < y then leadingFraction x scale True s else leadingFraction y (Suc scale) False s)"

definition unit_of :: "string \<Rightarrow> nat option" where
  "unit_of u =
     mget [(''ns'', 1), (''us'', 1000), ([CHR 0xC2, CHR 0xB5, CHR ''s''], 1000),
       ([CHR 0xCE, CHR 0xBC, CHR ''s''], 1000), (''ms'', 1000000), (''s'', 1000000000),
       (''m'', 60000000000), (''h'', 3600000000000)] u"

text \<open>
  One element \<open>number unit\<close>: the nanoseconds and the rest. The fraction is computed in floating point;
  \<open>fraction f scale unit\<close> is \<open>uint64(float64(f) * (float64(unit) / 10^scale))\<close>.
\<close>

definition duration_element :: "(nat \<Rightarrow> nat \<Rightarrow> nat \<Rightarrow> nat) \<Rightarrow> string \<Rightarrow> (nat \<times> string) option" where
  "duration_element fraction s =
     (if s = [] \<or> \<not> (hd s = CHR ''.'' \<or> is_digit (hd s)) then None
      else case leadingInt 0 s of
        None \<Rightarrow> None
      | Some (v, s1) \<Rightarrow>
          let pre = (length s \<noteq> length s1);
              (f, scale, s2) = (if s1 \<noteq> [] \<and> hd s1 = CHR ''.'' then leadingFraction 0 0 False (tl s1) else (0, 0, s1));
              post = (s1 \<noteq> [] \<and> hd s1 = CHR ''.'' \<and> length (tl s1) \<noteq> length s2);
              u = takeWhile (\<lambda>c. c \<noteq> CHR ''.'' \<and> \<not> is_digit c) s2;
              rest = drop (length u) s2
          in if \<not> pre \<and> \<not> post then None
             else if u = [] then None
             else case unit_of u of
                    None \<Rightarrow> None
                  | Some unit \<Rightarrow>
                      if 2 ^ 63 div unit < v then None
                      else let v = v * unit;
                               v = (if 0 < f then (v + fraction f scale unit) mod 2 ^ 64 else v)
                           in if 0 < f \<and> 2 ^ 63 < v then None else Some (v, rest))"

lemma leadingInt_length: "leadingInt x s = Some (v, r) \<Longrightarrow> length r \<le> length s"
  by (induction x s rule: leadingInt.induct) (auto simp: Let_def split: if_splits)

lemma leadingFraction_length: "leadingFraction x k b s = (f, scale, r) \<Longrightarrow> length r \<le> length s"
  by (induction x k b s rule: leadingFraction.induct) (auto simp: Let_def split: if_splits)

lemma duration_element_shorter: "duration_element fraction s = Some (v, r) \<Longrightarrow> length r < length s"
  using leadingInt_length [of 0 s] leadingFraction_length [of 0 0 False]
  by (fastforce simp: duration_element_def Let_def split: if_splits option.splits prod.splits)

function duration_loop :: "(nat \<Rightarrow> nat \<Rightarrow> nat \<Rightarrow> nat) \<Rightarrow> nat \<Rightarrow> string \<Rightarrow> nat option" where
  "duration_loop fraction d s =
     (if s = [] then Some d
      else case duration_element fraction s of
             None \<Rightarrow> None
           | Some (v, rest) \<Rightarrow>
               let d = (d + v) mod 2 ^ 64 in if 2 ^ 63 < d then None else duration_loop fraction d rest)"
  by pat_completeness auto
termination
  by (relation "measure (\<lambda>(fraction, d, s). length s)") (auto dest: duration_element_shorter)

declare duration_loop.simps [simp del]

definition ParseDuration :: "(nat \<Rightarrow> nat \<Rightarrow> nat \<Rightarrow> nat) \<Rightarrow> string \<Rightarrow> int option" where
  "ParseDuration fraction s0 =
     (let neg = (s0 \<noteq> [] \<and> hd s0 = CHR ''-'');
          s = (if s0 \<noteq> [] \<and> (hd s0 = CHR ''-'' \<or> hd s0 = CHR ''+'') then tl s0 else s0)
      in if s = ''0'' then Some 0
         else if s = [] then None
         else case duration_loop fraction 0 s of
                None \<Rightarrow> None
              | Some d \<Rightarrow>
                  if neg then Some (int64 (- int d))
                  else if 2 ^ 63 - 1 < d then None else Some (int d))"

section \<open>flag\<close>

text \<open>A flag: whether it is a boolean one, and what setting it to a text does.\<close>

record 'c Flag =
  fgBool :: bool
  fgSet :: "string \<Rightarrow> 'c \<Rightarrow> 'c option"

datatype flag_error =
    BadFlagSyntax string
  | FlagNotDefined string
  | HelpRequested
  | InvalidBoolValue string string
  | FlagNeedsArgument string
  | InvalidFlagValue string string

text \<open>The name and the value after \<open>=\<close>; an equals sign at the first position is part of no name.\<close>

definition split_flag :: "string \<Rightarrow> string \<times> string option" where
  "split_flag n =
     (case Cut (tl n) CHR ''='' of
        None \<Rightarrow> (n, None)
      | Some (a, b) \<Rightarrow> (hd n # a, Some b))"

text \<open>\<open>parseOne\<close>: no flag any more, an error, or the rest of the arguments and the new state.\<close>

definition parseOne ::
  "(string \<times> 'c Flag) list \<Rightarrow> string list \<Rightarrow> 'c \<Rightarrow> (flag_error + string list \<times> 'c) option" where
  "parseOne formal args c =
     (case args of
        [] \<Rightarrow> None
      | s # args \<Rightarrow>
          if length s < 2 \<or> hd s \<noteq> CHR ''-'' then None
          else if s = ''--'' then None
          else
            let name = (if s ! 1 = CHR ''-'' then drop 2 s else drop 1 s) in
            if name = [] \<or> hd name = CHR ''-'' \<or> hd name = CHR ''='' then Some (Inl (BadFlagSyntax s))
            else
              let (name, val) = split_flag name in
              case mget formal name of
                None \<Rightarrow> Some (Inl (if name = ''help'' \<or> name = ''h'' then HelpRequested else FlagNotDefined name))
              | Some f \<Rightarrow>
                  if fgBool f then
                    (case val of
                       Some v \<Rightarrow>
                         (case fgSet f v c of
                            None \<Rightarrow> Some (Inl (InvalidBoolValue v name))
                          | Some c' \<Rightarrow> Some (Inr (args, c')))
                     | None \<Rightarrow>
                         (case fgSet f ''true'' c of
                            None \<Rightarrow> Some (Inl (InvalidBoolValue ''true'' name))
                          | Some c' \<Rightarrow> Some (Inr (args, c'))))
                  else
                    (case (val, args) of
                       (Some v, _) \<Rightarrow>
                         (case fgSet f v c of
                            None \<Rightarrow> Some (Inl (InvalidFlagValue v name))
                          | Some c' \<Rightarrow> Some (Inr (args, c')))
                     | (None, v # args') \<Rightarrow>
                         (case fgSet f v c of
                            None \<Rightarrow> Some (Inl (InvalidFlagValue v name))
                          | Some c' \<Rightarrow> Some (Inr (args', c')))
                     | (None, []) \<Rightarrow> Some (Inl (FlagNeedsArgument name))))"

lemma parseOne_shorter: "parseOne formal args c = Some (Inr (rest, c')) \<Longrightarrow> length rest < length args"
  by (auto simp: parseOne_def Let_def split: list.splits if_splits option.splits prod.splits)

function flag_Parse :: "(string \<times> 'c Flag) list \<Rightarrow> string list \<Rightarrow> 'c \<Rightarrow> flag_error + 'c" where
  "flag_Parse formal args c =
     (case parseOne formal args c of
        None \<Rightarrow> Inr c
      | Some (Inl err) \<Rightarrow> Inl err
      | Some (Inr (rest, c')) \<Rightarrow> flag_Parse formal rest c')"
  by pat_completeness auto
termination
  by (relation "measure (\<lambda>(formal, args, c). length args)") (auto dest: parseOne_shorter)

declare flag_Parse.simps [simp del]

end
