(* ===== verification/OperatorConfig.thy ===== *)
theory OperatorConfig
  imports GoFlag "HOL-Library.List_Lexorder"
begin

text \<open>
  \<open>pkg/operator\<close>: the configuration (\<open>config.go\<close>), the feature gates (\<open>feature_gates.go\<close>) and how both
  are read from the environment and the command line (\<open>flags.go\<close>). Durations are nanoseconds; the
  floating point numbers of the QPS setting are of arbitrary types, with what the code does to them as
  an argument.
\<close>

section \<open>feature_gates.go\<close>

definition knownFeatureGates :: "string list" where
  "knownFeatureGates = [''StaticReplicas'', ''ExitRepair'', ''InterruptionHandling'', ''ConsolidationDryRun'',
     ''MultiPoolBinpacking'']"

definition defaultFeatureGates :: "(string, bool) gomap" where
  "defaultFeatureGates = foldl (\<lambda>out g. mput g False out) [] knownFeatureGates"

definition KnownFeatureGates :: "string list" where
  "KnownFeatureGates = sort knownFeatureGates"

datatype gate_error = MalformedGate string | NonBoolGate string | UnknownGate string "string list"

fun gates_loop :: "string list \<Rightarrow> (string, bool) gomap \<Rightarrow> gate_error + (string, bool) gomap" where
  "gates_loop [] out = Inr out"
| "gates_loop (kv # kvs) out =
     (let kv = TrimSpace kv in
      if kv = [] then gates_loop kvs out
      else case Cut kv CHR ''='' of
             None \<Rightarrow> Inl (MalformedGate kv)
           | Some (n, v) \<Rightarrow>
               let name = TrimSpace n in
               (case ParseBool (TrimSpace v) of
                  None \<Rightarrow> Inl (NonBoolGate name)
                | Some val \<Rightarrow>
                    if name \<notin> set knownFeatureGates then Inl (UnknownGate name KnownFeatureGates)
                    else gates_loop kvs (mput name val out)))"

definition ParseFeatureGates :: "string \<Rightarrow> gate_error + (string, bool) gomap" where
  "ParseFeatureGates spec =
     (let out = defaultFeatureGates; spec = TrimSpace spec
      in if spec = [] then Inr out else gates_loop (Split1 spec CHR '','') out)"

section \<open>config.go\<close>

record 'f Config =
  KubeConfig :: string
  LeaderElection :: bool
  LeaderElectionID :: string
  LeaderElectionNS :: string
  DisableProfiling :: bool
  BatchIdleDuration :: int
  BatchMaxDuration :: int
  KubeClientQPS :: 'f
  KubeClientBurst :: int
  LogLevel :: string
  MetricsAddr :: string
  HealthProbeAddr :: string
  PreferencePolicy :: string
  MinValuesPolicy :: string
  RegistrationTTL :: int
  DriftTTL :: int
  DisruptionPollPeriod :: int
  FeatureGates :: "(string, bool) gomap"

text \<open>
  \<open>'d\<close> is \<open>float64\<close> and \<open>'f\<close> is \<open>float32\<close>: parsing, the two conversions, the constant 200 and the
  fraction of a duration.
\<close>

record ('d, 'f) floats =
  ParseFloat :: "string \<Rightarrow> 'd option"
  narrow :: "'d \<Rightarrow> 'f"
  widen :: "'f \<Rightarrow> 'd"
  twoHundred :: 'f
  durFraction :: "nat \<Rightarrow> nat \<Rightarrow> nat \<Rightarrow> nat"

definition config_Defaults :: "('d, 'f) floats \<Rightarrow> 'f Config" where
  "config_Defaults F =
     \<lparr>KubeConfig = [], LeaderElection = True, LeaderElectionID = ''frp-operator.frp.operator.io'',
      LeaderElectionNS = ''frp-operator-system'', DisableProfiling = False,
      BatchIdleDuration = 1 * Second, BatchMaxDuration = 10 * Second, KubeClientQPS = twoHundred F,
      KubeClientBurst = 300, LogLevel = ''info'', MetricsAddr = '':8080'', HealthProbeAddr = '':8081'',
      PreferencePolicy = ''Respect'', MinValuesPolicy = ''Strict'', RegistrationTTL = 15 * Minute,
      DriftTTL = 15 * Minute, DisruptionPollPeriod = 10 * Second, FeatureGates = defaultFeatureGates\<rparr>"

section \<open>flags.go: the environment\<close>

type_synonym getenv = "string \<Rightarrow> string"

definition boolEnv :: "getenv \<Rightarrow> string \<Rightarrow> bool option" where
  "boolEnv getenv key = (let raw = getenv key in if raw = [] then None else ParseBool raw)"

definition intEnv :: "getenv \<Rightarrow> string \<Rightarrow> int option" where
  "intEnv getenv key = (let raw = getenv key in if raw = [] then None else Atoi raw)"

definition floatEnv :: "('d, 'f) floats \<Rightarrow> getenv \<Rightarrow> string \<Rightarrow> 'd option" where
  "floatEnv F getenv key = (let raw = getenv key in if raw = [] then None else ParseFloat F raw)"

definition durEnv :: "('d, 'f) floats \<Rightarrow> getenv \<Rightarrow> string \<Rightarrow> int option" where
  "durEnv F getenv key = (let raw = getenv key in if raw = [] then None else ParseDuration (durFraction F) raw)"

text \<open>\<open>if v, ok := ...; ok { cfg.X = v }\<close> and \<open>if v := os.Getenv(key); v != "" { cfg.X = v }\<close>.\<close>

definition if_ok :: "'v option \<Rightarrow> ('v \<Rightarrow> 'c \<Rightarrow> 'c) \<Rightarrow> 'c \<Rightarrow> 'c" where
  "if_ok v set_field cfg = (case v of None \<Rightarrow> cfg | Some x \<Rightarrow> set_field x cfg)"

definition strEnv :: "getenv \<Rightarrow> string \<Rightarrow> string option" where
  "strEnv getenv key = (let v = getenv key in if v \<noteq> [] then Some v else None)"

text \<open>The assignments in their order.\<close>

definition env_assignments :: "('d, 'f) floats \<Rightarrow> getenv \<Rightarrow> ('f Config \<Rightarrow> 'f Config) list" where
  "env_assignments F getenv =
     [if_ok (strEnv getenv ''KUBECONFIG'') (\<lambda>v c. c\<lparr>KubeConfig := v\<rparr>),
      if_ok (boolEnv getenv ''LEADER_ELECT'') (\<lambda>v c. c\<lparr>LeaderElection := v\<rparr>),
      if_ok (strEnv getenv ''LEADER_ELECTION_ID'') (\<lambda>v c. c\<lparr>LeaderElectionID := v\<rparr>),
      if_ok (strEnv getenv ''LEADER_ELECTION_NAMESPACE'') (\<lambda>v c. c\<lparr>LeaderElectionNS := v\<rparr>),
      if_ok (boolEnv getenv ''DISABLE_PROFILING'') (\<lambda>v c. c\<lparr>DisableProfiling := v\<rparr>),
      if_ok (durEnv F getenv ''BATCH_IDLE_DURATION'') (\<lambda>v c. c\<lparr>BatchIdleDuration := v\<rparr>),
      if_ok (durEnv F getenv ''BATCH_MAX_DURATION'') (\<lambda>v c. c\<lparr>BatchMaxDuration := v\<rparr>),
      if_ok (floatEnv F getenv ''KUBE_CLIENT_QPS'') (\<lambda>v c. c\<lparr>KubeClientQPS := narrow F v\<rparr>),
      if_ok (intEnv getenv ''KUBE_CLIENT_BURST'') (\<lambda>v c. c\<lparr>KubeClientBurst := v\<rparr>),
      if_ok (strEnv getenv ''LOG_LEVEL'') (\<lambda>v c. c\<lparr>LogLevel := v\<rparr>),
      if_ok (strEnv getenv ''METRICS_BIND_ADDRESS'') (\<lambda>v c. c\<lparr>MetricsAddr := v\<rparr>),
      if_ok (strEnv getenv ''HEALTH_PROBE_BIND_ADDRESS'') (\<lambda>v c. c\<lparr>HealthProbeAddr := v\<rparr>),
      if_ok (strEnv getenv ''PREFERENCE_POLICY'') (\<lambda>v c. c\<lparr>PreferencePolicy := v\<rparr>),
      if_ok (strEnv getenv ''MIN_VALUES_POLICY'') (\<lambda>v c. c\<lparr>MinValuesPolicy := v\<rparr>),
      if_ok (durEnv F getenv ''REGISTRATION_TTL'') (\<lambda>v c. c\<lparr>RegistrationTTL := v\<rparr>),
      if_ok (durEnv F getenv ''DRIFT_TTL'') (\<lambda>v c. c\<lparr>DriftTTL := v\<rparr>),
      if_ok (durEnv F getenv ''DISRUPTION_POLL_PERIOD'') (\<lambda>v c. c\<lparr>DisruptionPollPeriod := v\<rparr>)]"

definition applyEnv :: "('d, 'f) floats \<Rightarrow> getenv \<Rightarrow> 'f Config \<Rightarrow> gate_error + 'f Config" where
  "applyEnv F getenv cfg =
     (let cfg = foldl (\<lambda>c assign. assign c) cfg (env_assignments F getenv);
          v = getenv ''FEATURE_GATES''
      in if v \<noteq> [] then
           (case ParseFeatureGates v of
              Inl err \<Rightarrow> Inl err
            | Inr gates \<Rightarrow> Inr (cfg\<lparr>FeatureGates := gates\<rparr>))
         else Inr cfg)"

section \<open>flags.go: the command line\<close>

text \<open>What the flags write to: the configuration and the two local variables.\<close>

record ('d, 'f) flag_state =
  fsCfg :: "'f Config"
  fsQPS :: 'd
  fsGates :: string

definition cfg_flag ::
  "bool \<Rightarrow> (string \<Rightarrow> 'v option) \<Rightarrow> ('v \<Rightarrow> 'f Config \<Rightarrow> 'f Config) \<Rightarrow> ('d, 'f) flag_state Flag" where
  "cfg_flag b parse set_field =
     \<lparr>fgBool = b, fgSet = \<lambda>s st. map_option (\<lambda>v. st\<lparr>fsCfg := set_field v (fsCfg st)\<rparr>) (parse s)\<rparr>"

definition config_flags :: "('d, 'f) floats \<Rightarrow> (string \<times> ('d, 'f) flag_state Flag) list" where
  "config_flags F =
     (let str = cfg_flag False Some; dur = cfg_flag False (ParseDuration (durFraction F)); bool = cfg_flag True ParseBool
      in [(''kubeconfig'', str (\<lambda>v c. c\<lparr>KubeConfig := v\<rparr>)),
          (''leader-elect'', bool (\<lambda>v c. c\<lparr>LeaderElection := v\<rparr>)),
          (''leader-election-id'', str (\<lambda>v c. c\<lparr>LeaderElectionID := v\<rparr>)),
          (''leader-election-namespace'', str (\<lambda>v c. c\<lparr>LeaderElectionNS := v\<rparr>)),
          (''disable-profiling'', bool (\<lambda>v c. c\<lparr>DisableProfiling := v\<rparr>)),
          (''batch-idle-duration'', dur (\<lambda>v c. c\<lparr>BatchIdleDuration := v\<rparr>)),
          (''batch-max-duration'', dur (\<lambda>v c. c\<lparr>BatchMaxDuration := v\<rparr>)),
          (''kube-client-qps'', \<lparr>fgBool = False, fgSet = \<lambda>s st. map_option (\<lambda>v. st\<lparr>fsQPS := v\<rparr>) (ParseFloat F s)\<rparr>),
          (''kube-client-burst'', cfg_flag False ParseInt0 (\<lambda>v c. c\<lparr>KubeClientBurst := v\<rparr>)),
          (''log-level'', str (\<lambda>v c. c\<lparr>LogLevel := v\<rparr>)),
          (''metrics-bind-address'', str (\<lambda>v c. c\<lparr>MetricsAddr := v\<rparr>)),
          (''health-probe-bind-address'', str (\<lambda>v c. c\<lparr>HealthProbeAddr := v\<rparr>)),
          (''preference-policy'', str (\<lambda>v c. c\<lparr>PreferencePolicy := v\<rparr>)),
          (''min-values-policy'', str (\<lambda>v c. c\<lparr>MinValuesPolicy := v\<rparr>)),
          (''registration-ttl'', dur (\<lambda>v c. c\<lparr>RegistrationTTL := v\<rparr>)),
          (''drift-ttl'', dur (\<lambda>v c. c\<lparr>DriftTTL := v\<rparr>)),
          (''disruption-poll-period'', dur (\<lambda>v c. c\<lparr>DisruptionPollPeriod := v\<rparr>)),
          (''feature-gates'', \<lparr>fgBool = False, fgSet = \<lambda>s st. Some (st\<lparr>fsGates := s\<rparr>)\<rparr>)])"

datatype load_error = EnvGates gate_error | FlagError flag_error | FlagGates gate_error

definition LoadConfigFromArgs :: "('d, 'f) floats \<Rightarrow> getenv \<Rightarrow> string list \<Rightarrow> load_error + 'f Config" where
  "LoadConfigFromArgs F getenv args =
     (case applyEnv F getenv (config_Defaults F) of
        Inl err \<Rightarrow> Inl (EnvGates err)
      | Inr cfg \<Rightarrow>
     (case flag_Parse (config_flags F) args \<lparr>fsCfg = cfg, fsQPS = widen F (KubeClientQPS cfg), fsGates = []\<rparr> of
        Inl err \<Rightarrow> Inl (FlagError err)
      | Inr st \<Rightarrow>
          let cfg = (fsCfg st)\<lparr>KubeClientQPS := narrow F (fsQPS st)\<rparr>
          in if fsGates st \<noteq> [] then
               (case ParseFeatureGates (fsGates st) of
                  Inl err \<Rightarrow> Inl (FlagGates err)
                | Inr gates \<Rightarrow> Inr (cfg\<lparr>FeatureGates := gates\<rparr>))
             else Inr cfg))"

definition LoadConfig :: "('d, 'f) floats \<Rightarrow> getenv \<Rightarrow> string list \<Rightarrow> load_error + 'f Config" where
  "LoadConfig F getenv osArgs = LoadConfigFromArgs F getenv (drop 1 osArgs)"

end
