(* ===== verification/OperatorWiring.thy ===== *)
theory OperatorWiring
  imports DigitalOceanRuns LocalDocker OperatorConfig DisruptionQueue
begin

text \<open>
  \<open>pkg/operator\<close>: how the parts are put together (\<open>operator.go\<close>), the field indexes (\<open>indexers.go\<close>) and
  the readiness check (\<open>health.go\<close>). The manager of controller-runtime, the runtime scheme and the
  Docker SDK are arguments.
\<close>

section \<open>The built-in providers\<close>

datatype builtin = LocalDockerCP ld_provider | DigitalOceanCP do_provider

definition builtin_GetInstanceTypes :: "builtin \<Rightarrow> ExitPool \<Rightarrow> string + InstanceType list" where
  "builtin_GetInstanceTypes cp pool =
     (case cp of
        LocalDockerCP c \<Rightarrow> ld_GetInstanceTypes c pool
      | DigitalOceanCP c \<Rightarrow> do_GetInstanceTypes c pool)"

text \<open>\<open>GetSupportedProviderClasses\<close>: the Go types of the objects.\<close>

definition builtin_ProviderClasses :: "builtin \<Rightarrow> string list" where
  "builtin_ProviderClasses cp =
     (case cp of
        LocalDockerCP c \<Rightarrow> [''LocalDockerProviderClass'']
      | DigitalOceanCP c \<Rightarrow> [''DigitalOceanProviderClass''])"

text \<open>Errors are logged and the provider is skipped.\<close>

definition register_or_skip :: "string \<Rightarrow> string + 'p \<Rightarrow> 'p Registry \<Rightarrow> 'p Registry" where
  "register_or_skip kind new reg =
     (case new of
        Inl _ \<Rightarrow> reg
      | Inr cp \<Rightarrow> (case Register kind cp reg of Inl _ \<Rightarrow> reg | Inr reg' \<Rightarrow> reg'))"

definition registerBuiltinProviders ::
  "do_env \<Rightarrow> bool \<Rightarrow> string option \<Rightarrow> builtin Registry \<Rightarrow> builtin Registry" where
  "registerBuiltinProviders E kube sdkError reg =
     register_or_skip ''DigitalOceanProviderClass'' (Inr (DigitalOceanCP (do_New E kube [])))
       (register_or_skip ''LocalDockerProviderClass'' (map_sum id LocalDockerCP (ld_New kube sdkError)) reg)"

text \<open>\<open>seedRegistry\<close> of \<open>RunWithRESTConfig\<close>, used by tests, takes the place of the built-in providers.\<close>

definition run_registry ::
  "do_env \<Rightarrow> bool \<Rightarrow> string option \<Rightarrow> builtin Registry option \<Rightarrow> builtin Registry" where
  "run_registry E kube sdkError seed =
     (case seed of None \<Rightarrow> registerBuiltinProviders E kube sdkError [] | Some reg \<Rightarrow> reg)"

section \<open>Provider classes and the scheme\<close>

text \<open>
  \<open>scheme ty\<close> is the first kind registered for a Go type (\<open>scheme.ObjectKinds\<close>), if there is one. A
  typed object carries no kind of its own, so that \<open>kindOf\<close> is the name of the type.
\<close>

definition registry_classes :: "order \<Rightarrow> builtin Registry \<Rightarrow> string list" where
  "registry_classes ord reg =
     concat (map (\<lambda>kind. case For reg kind of Inl _ \<Rightarrow> [] | Inr cp \<Rightarrow> builtin_ProviderClasses cp) (Kinds ord reg))"

definition kindOf :: "string \<Rightarrow> string" where
  "kindOf ty = ty"

definition factory_name :: "(string \<Rightarrow> string option) option \<Rightarrow> string \<Rightarrow> string" where
  "factory_name scheme ty =
     (let name = (case scheme of None \<Rightarrow> [] | Some s \<Rightarrow> (case s ty of None \<Rightarrow> [] | Some k \<Rightarrow> k))
      in if name = [] then kindOf ty else name)"

text \<open>The map \<open>KindToObject\<close> of the readiness controller: from kind names to Go types.\<close>

definition providerClassFactories ::
  "order \<Rightarrow> builtin Registry \<Rightarrow> (string \<Rightarrow> string option) option \<Rightarrow> (string, string) gomap" where
  "providerClassFactories ord reg scheme =
     foldl (\<lambda>out ty. let name = factory_name scheme ty in if name = [] then out else mput name ty out) []
       (registry_classes ord reg)"

text \<open>The classes that get an informer and the kinds that get a hash controller.\<close>

definition watched_classes :: "order \<Rightarrow> builtin Registry \<Rightarrow> (string \<Rightarrow> string option) \<Rightarrow> string list" where
  "watched_classes ord reg scheme = filter (\<lambda>ty. scheme ty \<noteq> None) (registry_classes ord reg)"

definition hashed_kinds :: "order \<Rightarrow> builtin Registry \<Rightarrow> (string \<Rightarrow> string option) \<Rightarrow> string list" where
  "hashed_kinds ord reg scheme = List.map_filter scheme (registry_classes ord reg)"

section \<open>What the settings reach\<close>

text \<open>The QPS and the burst of the REST configuration; \<open>positive\<close> is \<open>> 0\<close> on \<open>float32\<close>.\<close>

definition throttled :: "('f \<Rightarrow> bool) \<Rightarrow> 'f Config \<Rightarrow> 'f \<times> int \<Rightarrow> 'f \<times> int" where
  "throttled positive cfg rest =
     (if positive (KubeClientQPS cfg) then KubeClientQPS cfg else fst rest,
      if 0 < KubeClientBurst cfg then KubeClientBurst cfg else snd rest)"

definition setup_batcher :: "'f Config \<Rightarrow> string Batcher" where
  "setup_batcher cfg = NewWithBatcher (BatchIdleDuration cfg) (BatchMaxDuration cfg)"

definition setup_poll :: "'f Config \<Rightarrow> int" where
  "setup_poll cfg =
     (let interval = (if 0 < DisruptionPollPeriod cfg then DisruptionPollPeriod cfg else DefaultPollInterval)
      in if 0 < interval then interval else DefaultPollInterval)"

definition setup_queue :: Queue where
  "setup_queue = \<lparr>ReplacementReadyTimeout = DefaultReplacementReadyTimeout,
     ReplacementPollInterval = DefaultReplacementPollInterval, HasProvisioner = True\<rparr>"

section \<open>indexers.go, health.go\<close>

definition IndexExitClaimProviderID :: string where
  "IndexExitClaimProviderID = ''status.providerID''"

definition IndexExitClaimProviderClassRef :: string where
  "IndexExitClaimProviderClassRef = ''spec.providerClassRef.name''"

definition IndexTunnelAssignedExit :: string where
  "IndexTunnelAssignedExit = ''status.assignedExit''"

definition index_value :: "string \<Rightarrow> string list" where
  "index_value v = (if v = [] then [] else [v])"

definition claim_index :: "string \<Rightarrow> ExitClaim \<Rightarrow> string list" where
  "claim_index key c =
     (if key = IndexExitClaimProviderID then index_value (ProviderID (cStatus c))
      else if key = IndexExitClaimProviderClassRef then index_value (refName (ProviderClassRef (cSpec c)))
      else [])"

definition tunnel_index :: "string \<Rightarrow> Tunnel \<Rightarrow> string list" where
  "tunnel_index key t = (if key = IndexTunnelAssignedExit then index_value (AssignedExit (tStatus t)) else [])"

text \<open>\<open>listError kind\<close> is the error of a list of one object of the kind.\<close>

definition crdReadinessCheck :: "(string \<Rightarrow> string option) \<Rightarrow> string option" where
  "crdReadinessCheck listError =
     (case listError ''ExitPoolList'' of
        Some err \<Rightarrow> Some (''ExitPool CRD not ready: '' @ err)
      | None \<Rightarrow>
     (case listError ''ExitClaimList'' of
        Some err \<Rightarrow> Some (''ExitClaim CRD not ready: '' @ err)
      | None \<Rightarrow>
     (case listError ''TunnelList'' of
        Some err \<Rightarrow> Some (''tunnel CRD not ready: '' @ err)
      | None \<Rightarrow> None)))"

section \<open>Which kinds exist\<close>

definition builtin_kind :: "builtin \<Rightarrow> string" where
  "builtin_kind cp = hd (builtin_ProviderClasses cp)"

lemma builtin_kind_simps [simp]:
  "builtin_kind (LocalDockerCP c) = ''LocalDockerProviderClass''"
  "builtin_kind (DigitalOceanCP c') = ''DigitalOceanProviderClass''"
  "builtin_ProviderClasses cp = [builtin_kind cp]" "builtin_kind cp \<noteq> []"
  by (simp_all add: builtin_kind_def builtin_ProviderClasses_def split: builtin.split)

text \<open>A registry in which each provider is registered under the kind of its own class.\<close>

definition self_named :: "builtin Registry \<Rightarrow> bool" where
  "self_named reg \<longleftrightarrow> wf_map reg \<and> (\<forall>k cp. mget reg k = Some cp \<longrightarrow> k = builtin_kind cp)"

lemma self_named_register:
  "self_named reg \<Longrightarrow> (\<And>cp. new = Inr cp \<Longrightarrow> kind = builtin_kind cp) \<Longrightarrow> self_named (register_or_skip kind new reg)"
  by (auto simp: self_named_def register_or_skip_def Register_def split: sum.splits if_splits)

lemma builtin_self_named: "self_named (registerBuiltinProviders E kube sdkError [])"
  unfolding registerBuiltinProviders_def
  by (intro self_named_register) (auto simp: self_named_def ld_New_def split: option.splits)

lemma registry_classes_kinds:
  assumes "self_named reg" and "is_order ord"
  shows "registry_classes ord reg = Kinds ord reg" and "set (Kinds ord reg) = mkeys reg"
proof -
  show kinds: "set (Kinds ord reg) = mkeys reg" using assms(2) by (simp add: Kinds_def mkeys_def)
  have "(case For reg k of Inl _ \<Rightarrow> [] | Inr cp \<Rightarrow> builtin_ProviderClasses cp) = [k]" if "k \<in> set (Kinds ord reg)" for k
    using that assms(1) unfolding kinds by (auto simp: For_def mkeys_iff self_named_def)
  then have "registry_classes ord reg = concat (map (\<lambda>k. [k]) (Kinds ord reg))"
    unfolding registry_classes_def by (metis (no_types, lifting) map_cong)
  then show "registry_classes ord reg = Kinds ord reg" by simp
qed

lemma foldl_factories:
  "list_all (\<lambda>ty. factory_name scheme ty = ty \<and> ty \<noteq> []) tys \<Longrightarrow>
     mkeys (foldl (\<lambda>out ty. let name = factory_name scheme ty in if name = [] then out else mput name ty out) m tys) =
     mkeys m \<union> set tys"
  by (induction tys arbitrary: m) (auto simp: Let_def)

text \<open>
  The readiness controller and the scheduler know the same provider kinds. With the built-in
  providers (the Docker one may be unavailable) and a scheme that knows their classes, the kinds for
  which the readiness controller looks up a provider class, the kinds that get a hash controller and
  the kinds for which the scheduler finds a provider are the same.
\<close>

theorem provider_kinds_agree:
  assumes "is_order ord" and "scheme ''LocalDockerProviderClass'' = Some ''LocalDockerProviderClass''"
    and "scheme ''DigitalOceanProviderClass'' = Some ''DigitalOceanProviderClass''"
    and "reg = registerBuiltinProviders E kube sdkError []"
  shows "mkeys (providerClassFactories ord reg (Some scheme)) = {k. \<exists>cp. For reg k = Inr cp} \<and>
    set (hashed_kinds ord reg scheme) = {k. \<exists>cp. For reg k = Inr cp}"
proof -
  have self: "self_named reg" using builtin_self_named by (simp add: assms(4))
  have for_keys: "{k. \<exists>cp. For reg k = Inr cp} = mkeys reg"
    by (auto simp: For_def mkeys_iff split: option.splits)
  have known: "scheme k = Some k \<and> k \<noteq> []" if k: "k \<in> mkeys reg" for k
  proof -
    from k self obtain cp where "k = builtin_kind cp" by (auto simp: mkeys_iff self_named_def)
    with assms(2,3) show ?thesis by (cases cp) auto
  qed
  note classes = registry_classes_kinds [OF self assms(1)]
  have "list_all (\<lambda>ty. factory_name (Some scheme) ty = ty \<and> ty \<noteq> []) (registry_classes ord reg)"
    using known classes by (auto simp: list_all_iff factory_name_def)
  then have "mkeys (providerClassFactories ord reg (Some scheme)) = mkeys reg"
    using foldl_factories [of "Some scheme" "registry_classes ord reg" "[]"] classes
    by (simp add: providerClassFactories_def)
  moreover have "set (hashed_kinds ord reg scheme) = mkeys reg"
    using known classes by (force simp: hashed_kinds_def List.map_filter_def)
  ultimately show ?thesis by (simp add: for_keys)
qed

theorem provider_kinds_agree_witness:
  "mkeys (providerClassFactories list_order (registerBuiltinProviders sample_do True None []) (Some Some)) =
     {k. \<exists>cp. For (registerBuiltinProviders sample_do True None []) k = Inr cp}"
  using provider_kinds_agree [OF is_order_list_order, of Some "registerBuiltinProviders sample_do True None []"
      sample_do True None] by simp

section \<open>The DigitalOcean provider in the operator\<close>


end
