(* ===== verification/OperatorStart.thy ===== *)
theory OperatorStart
  imports OperatorWiring PoolControllers Provisioner ServiceWatcher Lifecycle
begin

text \<open>
  How the operator starts (\<open>RunWithRESTConfig\<close> and the functions that it calls in \<open>operator.go\<close>,
  \<open>indexers.go\<close>, \<open>health.go\<close>), what each controller registers with the manager (the \<open>SetupWithManager\<close>
  methods), and the two loops that run beside the controllers. The manager answers each call from the
  history of the calls before.
\<close>

section \<open>Registrations\<close>

text \<open>
  A controller is registered under a name for one kind of object, and may watch other kinds through a
  function from the object to the names to reconcile. Objects of the kind itself are reconciled under
  their own key.
\<close>

datatype watch_map = TunnelToClaim | ClaimToPool | PoolToPC string | ClaimToPC string

record registration =
  regName :: string
  regFor :: string
  regWatches :: "(string \<times> watch_map) list"

definition controller_for :: "string \<Rightarrow> string \<Rightarrow> (string \<times> watch_map) list \<Rightarrow> registration" where
  "controller_for name kind ws = \<lparr>regName = name, regFor = kind, regWatches = ws\<rparr>"

definition informer_claim_setup :: registration where
  "informer_claim_setup = controller_for ''informer-exitclaim'' ''ExitClaim'' []"

definition informer_pool_setup :: registration where
  "informer_pool_setup = controller_for ''informer-exitpool'' ''ExitPool'' []"

definition informer_tunnel_setup :: registration where
  "informer_tunnel_setup = controller_for ''informer-tunnel'' ''Tunnel'' []"

text \<open>A typed object carries no kind, so that the name of its type is used.\<close>

definition informer_class_setup :: "string \<Rightarrow> registration" where
  "informer_class_setup ty = controller_for (''informer-providerclass-'' @ kindOf ty) ty []"

definition informer_class_Reconcile :: "Result \<times> goerror option" where
  "informer_class_Reconcile = (finished, None)"

definition lifecycle_setup :: registration where
  "lifecycle_setup = controller_for ''exitclaim-lifecycle'' ''ExitClaim'' []"

definition emptiness_setup :: registration where
  "emptiness_setup = controller_for ''exitclaim-emptiness'' ''ExitClaim'' [(''Tunnel'', TunnelToClaim)]"

definition counter_setup :: registration where
  "counter_setup = controller_for ''exitpool-counter'' ''ExitPool'' [(''ExitClaim'', ClaimToPool)]"

definition pool_hash_setup :: registration where
  "pool_hash_setup = controller_for ''exitpool-hash'' ''ExitPool'' [(''ExitClaim'', ClaimToPool)]"

definition readiness_setup :: registration where
  "readiness_setup = controller_for ''exitpool-readiness'' ''ExitPool'' []"

definition validation_setup :: registration where
  "validation_setup = controller_for ''exitpool-validation'' ''ExitPool'' []"

definition pod_setup :: registration where
  "pod_setup = controller_for ''provisioning-pod'' ''Tunnel'' []"

definition node_setup :: registration where
  "node_setup = controller_for ''provisioning-node'' ''ExitClaim'' []"

definition servicewatcher_setup :: registration where
  "servicewatcher_setup = controller_for ''servicewatcher'' ''Service'' []"

definition reverse_sync_setup :: registration where
  "reverse_sync_setup = controller_for ''servicewatcher-reverse-sync'' ''Tunnel'' []"

text \<open>The kind of a class hash controller must not be empty; \<open>strings.ToLower\<close> on its ASCII letters.\<close>

definition class_hash_setup :: "string \<Rightarrow> string \<Rightarrow> string + registration" where
  "class_hash_setup kind ty =
     (if kind = [] then Inl ''providerclass-hash: Kind is required''
      else Inr (controller_for (''providerclass-hash-'' @ map lower kind) ty
                  [(''ExitPool'', PoolToPC kind), (''ExitClaim'', ClaimToPC kind)]))"

section \<open>What an event wakes\<close>

datatype api_object =
    ObjTunnel Tunnel | ObjClaim ExitClaim | ObjPool ExitPool | ObjService Service | ObjClass string ProviderClass

fun object_kind :: "api_object \<Rightarrow> string" where
  "object_kind (ObjTunnel t) = ''Tunnel''"
| "object_kind (ObjClaim c) = ''ExitClaim''"
| "object_kind (ObjPool p) = ''ExitPool''"
| "object_kind (ObjService s) = ''Service''"
| "object_kind (ObjClass ty c) = ty"

text \<open>A request is a namespace and a name; claims, pools and classes have no namespace.\<close>

fun object_key :: "api_object \<Rightarrow> string \<times> string" where
  "object_key (ObjTunnel t) = (Namespace t, Name t)"
| "object_key (ObjClaim c) = ([], Name c)"
| "object_key (ObjPool p) = ([], Name p)"
| "object_key (ObjService s) = (Namespace s, Name s)"
| "object_key (ObjClass ty c) = ([], Name c)"

fun map_object :: "watch_map \<Rightarrow> api_object \<Rightarrow> string list" where
  "map_object TunnelToClaim (ObjTunnel t) = tunnelToClaim t"
| "map_object ClaimToPool (ObjClaim c) = claimToPool c"
| "map_object (PoolToPC kind) (ObjPool p) = poolToPC kind p"
| "map_object (ClaimToPC kind) (ObjClaim c) = claimToPC kind c"
| "map_object m obj = []"

definition requests :: "registration \<Rightarrow> api_object \<Rightarrow> (string \<times> string) list" where
  "requests r obj =
     (if object_kind obj = regFor r then [object_key obj] else []) @
     concat (map (\<lambda>(kind, m). if object_kind obj = kind then map (Pair []) (map_object m obj) else []) (regWatches r))"

section \<open>The calls to the manager\<close>

record 'f manager_options =
  moRest :: "'f \<times> int"
  moLeaderElection :: bool
  moLeaderElectionID :: string
  moLeaderElectionNS :: string
  moMetricsAddr :: string
  moHealthProbeAddr :: string

datatype runnable = ProvisionerLoop "string Batcher" | DisruptionLoop int Queue

datatype 'f mgr_event =
    MNewManager "'f manager_options"
  | MIndex string string
  | MHealthzCheck string
  | MReadyzCheck string
  | MController registration
  | MRunnable runnable
  | MSetTriggers
  | MStart

text \<open>
  \<open>AddToScheme\<close> of a package may fail; afterwards \<open>mgrScheme\<close> gives the kind of a Go type. \<open>mgrAnswer\<close>
  is the error that a call returns, if any; \<open>SetTriggers\<close> of the cluster is not a call of the manager
  and cannot fail.
\<close>

record 'f mgr_env =
  addToScheme :: "string \<Rightarrow> string option"
  mgrScheme :: "string \<Rightarrow> string option"
  mgrAnswer :: "'f mgr_event list \<Rightarrow> 'f mgr_event \<Rightarrow> string option"

text \<open>Calls in order, up to the first error; \<open>Inl\<close> is an error that is returned without a call.\<close>

fun perform :: "'f mgr_env \<Rightarrow> (string + 'f mgr_event) list \<Rightarrow> ('f mgr_event, string option) proc" where
  "perform E [] = ret None"
| "perform E (Inl err # cs) = ret (Some err)"
| "perform E (Inr e # cs) =
     do { r \<leftarrow> call e (\<lambda>h. mgrAnswer E h e);
          case r of Some err \<Rightarrow> ret (Some err) | None \<Rightarrow> perform E cs }"

text \<open>Stages whose errors are wrapped with a prefix.\<close>

fun perform_stages ::
  "'f mgr_env \<Rightarrow> (string \<times> (string + 'f mgr_event) list) list \<Rightarrow> ('f mgr_event, string option) proc" where
  "perform_stages E [] = ret None"
| "perform_stages E ((prefix, cs) # stages) =
     do { r \<leftarrow> perform E cs;
          case r of Some err \<Rightarrow> ret (Some (prefix @ err)) | None \<Rightarrow> perform_stages E stages }"

section \<open>operator.go\<close>

fun add_all :: "'f mgr_env \<Rightarrow> string list \<Rightarrow> string option" where
  "add_all E [] = None"
| "add_all E (pkg # pkgs) = (case addToScheme E pkg of Some err \<Rightarrow> Some err | None \<Rightarrow> add_all E pkgs)"

definition NewScheme :: "'f mgr_env \<Rightarrow> string + (string \<Rightarrow> string option)" where
  "NewScheme E =
     (case add_all E [''corev1'', ''v1alpha1'', ''ldv1alpha1'', ''dov1alpha1''] of
        Some err \<Rightarrow> Inl err
      | None \<Rightarrow> Inr (mgrScheme E))"

definition manager_opts :: "('f \<Rightarrow> bool) \<Rightarrow> 'f Config \<Rightarrow> 'f \<times> int \<Rightarrow> 'f manager_options" where
  "manager_opts positive cfg rest =
     \<lparr>moRest = throttled positive cfg rest, moLeaderElection = LeaderElection cfg,
      moLeaderElectionID = LeaderElectionID cfg, moLeaderElectionNS = LeaderElectionNS cfg,
      moMetricsAddr = MetricsAddr cfg, moHealthProbeAddr = HealthProbeAddr cfg\<rparr>"

definition setupIndexers :: "(string + 'f mgr_event) list" where
  "setupIndexers =
     [Inr (MIndex ''ExitClaim'' IndexExitClaimProviderID),
      Inr (MIndex ''ExitClaim'' IndexExitClaimProviderClassRef),
      Inr (MIndex ''Tunnel'' IndexTunnelAssignedExit)]"

definition setupHealthChecks :: "(string + 'f mgr_event) list" where
  "setupHealthChecks = [Inr (MHealthzCheck ''healthz''), Inr (MReadyzCheck ''readyz''), Inr (MReadyzCheck ''crd'')]"

definition setupInformers ::
  "order \<Rightarrow> builtin Registry \<Rightarrow> (string \<Rightarrow> string option) \<Rightarrow> (string + 'f mgr_event) list" where
  "setupInformers ord reg scheme =
     map (Inr \<circ> MController)
       ([informer_claim_setup, informer_pool_setup, informer_tunnel_setup] @
        map informer_class_setup (watched_classes ord reg scheme))"

definition setupProvisioning :: "'f Config \<Rightarrow> (string + 'f mgr_event) list" where
  "setupProvisioning cfg =
     [Inr (MRunnable (ProvisionerLoop (setup_batcher cfg))), Inr (MController pod_setup), Inr (MController node_setup)]"

text \<open>The lifecycle controller gets the registration timeout and the cache.\<close>

definition wired_lifecycle :: "'f Config \<Rightarrow> string Registry \<Rightarrow> Controller" where
  "wired_lifecycle cfg reg = (NewWithTTL reg (OperatorConfig.RegistrationTTL cfg))\<lparr>HasCluster := True\<rparr>"

definition setupLifecycle :: "(string + 'f mgr_event) list" where
  "setupLifecycle = [Inr (MController lifecycle_setup)]"

definition setupDisruption :: "'f Config \<Rightarrow> (string + 'f mgr_event) list" where
  "setupDisruption cfg = [Inr (MRunnable (DisruptionLoop (setup_poll cfg) setup_queue))]"

definition setupProviderClassHash ::
  "order \<Rightarrow> builtin Registry \<Rightarrow> (string \<Rightarrow> string option) \<Rightarrow> (string + 'f mgr_event) list" where
  "setupProviderClassHash ord reg scheme =
     List.map_filter (\<lambda>ty. map_option (\<lambda>kind. map_sum id MController (class_hash_setup kind ty)) (scheme ty))
       (registry_classes ord reg)"

definition setupPoolControllers ::
  "order \<Rightarrow> builtin Registry \<Rightarrow> (string \<Rightarrow> string option) \<Rightarrow> (string + 'f mgr_event) list" where
  "setupPoolControllers ord reg scheme =
     map (Inr \<circ> MController) [pool_hash_setup, counter_setup, readiness_setup, validation_setup] @
     setupProviderClassHash ord reg scheme"

definition setupServiceWatcher :: "(string + 'f mgr_event) list" where
  "setupServiceWatcher = [Inr (MController servicewatcher_setup), Inr (MController reverse_sync_setup)]"

text \<open>\<open>ord1\<close> and \<open>ord2\<close> are the orders of the registry's map in the two loops over it.\<close>

definition start_stages ::
  "('f \<Rightarrow> bool) \<Rightarrow> order \<Rightarrow> order \<Rightarrow> builtin Registry \<Rightarrow> (string \<Rightarrow> string option) \<Rightarrow> 'f Config \<Rightarrow> 'f \<times> int \<Rightarrow>
     (string \<times> (string + 'f mgr_event) list) list" where
  "start_stages positive ord1 ord2 reg scheme cfg rest =
     [(''manager: '', [Inr (MNewManager (manager_opts positive cfg rest))]),
      (''indexers: '', setupIndexers),
      (''health: '', setupHealthChecks),
      (''informers: '', setupInformers ord1 reg scheme),
      (''provisioning: '', setupProvisioning cfg),
      ([], [Inr MSetTriggers]),
      (''lifecycle: '', setupLifecycle),
      (''emptiness: '', [Inr (MController emptiness_setup)]),
      (''disruption: '', setupDisruption cfg),
      (''pool controllers: '', setupPoolControllers ord2 reg scheme),
      (''servicewatcher: '', setupServiceWatcher)]"

definition RunWithRESTConfig ::
  "'f mgr_env \<Rightarrow> ('f \<Rightarrow> bool) \<Rightarrow> order \<Rightarrow> order \<Rightarrow> do_env \<Rightarrow> string option \<Rightarrow> 'f Config \<Rightarrow> 'f \<times> int \<Rightarrow>
     builtin Registry option \<Rightarrow> ('f mgr_event, string option) proc" where
  "RunWithRESTConfig E positive ord1 ord2 D sdkError cfg rest seed =
     (case NewScheme E of
        Inl err \<Rightarrow> ret (Some (''scheme: '' @ err))
      | Inr scheme \<Rightarrow>
          let reg = run_registry D True sdkError seed in
          do { r \<leftarrow> perform_stages E (start_stages positive ord1 ord2 reg scheme cfg rest);
               case r of
                 Some err \<Rightarrow> ret (Some err)
               | None \<Rightarrow> call MStart (\<lambda>h. mgrAnswer E h MStart) })"

text \<open>\<open>Run\<close>; \<open>getConfig\<close> is the answer of \<open>ctrl.GetConfig\<close>.\<close>

definition Run ::
  "'f mgr_env \<Rightarrow> ('f \<Rightarrow> bool) \<Rightarrow> order \<Rightarrow> order \<Rightarrow> do_env \<Rightarrow> string option \<Rightarrow> 'f Config \<Rightarrow> string + 'f \<times> int \<Rightarrow>
     ('f mgr_event, string option) proc" where
  "Run E positive ord1 ord2 D sdkError cfg getConfig =
     (case getConfig of
        Inl err \<Rightarrow> ret (Some (''kubeconfig: '' @ err))
      | Inr rest \<Rightarrow> RunWithRESTConfig E positive ord1 ord2 D sdkError cfg rest None)"

text \<open>
  \<open>cmd/manager\<close>: what is written to the standard error and the exit code; \<open>loadText\<close> is the text of an error
  of \<open>LoadConfig\<close>.
\<close>

definition manager_main ::
  "('d, 'f) floats \<Rightarrow> getenv \<Rightarrow> (load_error \<Rightarrow> string) \<Rightarrow> 'f mgr_env \<Rightarrow> ('f \<Rightarrow> bool) \<Rightarrow> order \<Rightarrow> order \<Rightarrow> do_env \<Rightarrow>
     string option \<Rightarrow> string + 'f \<times> int \<Rightarrow> string list \<Rightarrow> ('f mgr_event, string \<times> int) proc" where
  "manager_main F getenv loadText E positive ord1 ord2 D sdkError getConfig osArgs =
     (case LoadConfig F getenv osArgs of
        Inl err \<Rightarrow> ret (''load config: '' @ loadText err @ [newline], 1)
      | Inr cfg \<Rightarrow>
          do { r \<leftarrow> Run E positive ord1 ord2 D sdkError cfg getConfig;
               ret (case r of Some err \<Rightarrow> (''operator: '' @ err @ [newline], 1) | None \<Rightarrow> ([], 0)) })"

section \<open>The loops beside the controllers\<close>

text \<open>
  One round of the provisioner's loop: whether the context was done before it, what \<open>Reconcile\<close> returned,
  and whether the context was done during the wait that follows. The result is the list of the waits
  between rounds, and whether the loop has returned.
\<close>

record loop_round =
  doneBefore :: bool
  outcome :: "Result \<times> goerror option"
  doneWaiting :: bool

definition round_wait :: "Result \<times> goerror option \<Rightarrow> int option" where
  "round_wait r =
     (case r of
        (res, Some err) \<Rightarrow> Some Second
      | (res, None) \<Rightarrow> if RequeueAfter res > 0 then Some (RequeueAfter res) else None)"

fun provisioner_loop :: "loop_round list \<Rightarrow> int option list \<times> bool" where
  "provisioner_loop [] = ([], False)"
| "provisioner_loop (r # rs) =
     (if doneBefore r then ([], True)
      else if round_wait (outcome r) \<noteq> None \<and> doneWaiting r then ([round_wait (outcome r)], True)
      else let (ws, fin) = provisioner_loop rs in (round_wait (outcome r) # ws, fin))"

text \<open>
  The disruption loop selects between the end of the context (\<open>False\<close>) and a tick (\<open>True\<close>); each tick is
  one \<open>Reconcile\<close>, whose result is dropped. The result is the number of reconciles and whether the loop
  has returned.
\<close>

fun disruption_loop :: "bool list \<Rightarrow> nat \<times> bool" where
  "disruption_loop [] = (0, False)"
| "disruption_loop (tick # ticks) =
     (if \<not> tick then (0, True) else let (n, fin) = disruption_loop ticks in (Suc n, fin))"

end
