(* ===== verification/OperatorConfigProps.thy ===== *)
theory OperatorConfigProps
  imports OperatorConfig
begin

text \<open>
  Properties of the configuration: every way of setting feature gates gives a value to each known
  gate and to no other, the gate parser against a reference, its round trip, and what becomes of a
  value that does not parse.
\<close>

section \<open>Invariants of the command line\<close>

lemma parseOne_set:
  assumes "parseOne formal args c = Some (Inr (rest, c'))"
  obtains name f v where "mget formal name = Some f" and "fgSet f v c = Some c'"
  using assms by (auto simp: parseOne_def Let_def split: list.splits if_splits option.splits prod.splits)

lemma flag_Parse_invariant:
  assumes "\<And>name f v c c'. mget formal name = Some f \<Longrightarrow> fgSet f v c = Some c' \<Longrightarrow> P c \<Longrightarrow> P c'"
  shows "flag_Parse formal args c = Inr d \<Longrightarrow> P c \<Longrightarrow> P d"
proof (induction "length args" arbitrary: args c rule: less_induct)
  case less
  show ?case
  proof (cases "parseOne formal args c")
    case None
    with less show ?thesis by (simp add: flag_Parse.simps)
  next
    case (Some r)
    with less(2) obtain rest c1 where r: "r = Inr (rest, c1)" and rec: "flag_Parse formal rest c1 = Inr d"
      by (auto simp: flag_Parse.simps [of formal args] split: sum.splits)
    from Some r obtain name f v where "mget formal name = Some f" "fgSet f v c = Some c1"
      by (metis parseOne_set)
    with assms less(3) have "P c1" by blast
    with less(1) rec Some r show ?thesis by (metis parseOne_shorter)
  qed
qed

section \<open>The gates\<close>

definition total_gates :: "(string, bool) gomap \<Rightarrow> bool" where
  "total_gates m \<longleftrightarrow> wf_map m \<and> mkeys m = set knownFeatureGates"

lemma total_gates_mput: "total_gates m \<Longrightarrow> g \<in> set knownFeatureGates \<Longrightarrow> total_gates (mput g v m)"
  by (auto simp: total_gates_def)

lemma default_total: "total_gates defaultFeatureGates"
  by (simp add: total_gates_def defaultFeatureGates_def knownFeatureGates_def wf_map_def mkeys_def)

lemma gates_loop_total: "gates_loop kvs out = Inr m \<Longrightarrow> total_gates out \<Longrightarrow> total_gates m"
proof (induction kvs out rule: gates_loop.induct)
  case (2 kv kvs out)
  then show ?case
    by (simp add: Let_def split: if_splits option.splits prod.splits) (blast intro: total_gates_mput)+
qed simp

lemma ParseFeatureGates_total: "ParseFeatureGates spec = Inr m \<Longrightarrow> total_gates m"
  using default_total gates_loop_total by (auto simp: ParseFeatureGates_def Let_def split: if_splits)

lemma if_ok_keeps: "(\<And>x. FeatureGates (f x c) = FeatureGates c) \<Longrightarrow> FeatureGates (if_ok v f c) = FeatureGates c"
  by (simp add: if_ok_def split: option.split)

lemma foldl_keeps:
  "\<forall>assign \<in> set fs. \<forall>c. g (assign c) = g c \<Longrightarrow> g (foldl (\<lambda>c assign. assign c) c fs) = g c"
  by (induction fs arbitrary: c) simp_all

lemma env_keeps_gates: "FeatureGates (foldl (\<lambda>c assign. assign c) cfg (env_assignments F getenv)) = FeatureGates cfg"
  by (rule foldl_keeps) (simp add: env_assignments_def if_ok_keeps)

lemma cfg_flag_keeps_gates:
  assumes "\<And>x c. FeatureGates (set_field x c) = FeatureGates c"
    and "fgSet (cfg_flag b parse set_field) v st = Some st'"
  shows "FeatureGates (fsCfg st') = FeatureGates (fsCfg st)"
  using assms by (auto simp: cfg_flag_def)

lemma flags_keep_gates:
  assumes "mget (config_flags F) name = Some f" and "fgSet f v st = Some st'"
  shows "FeatureGates (fsCfg st') = FeatureGates (fsCfg st)"
proof -
  have "\<forall>(n, f) \<in> set (config_flags F). \<forall>v st st'. fgSet f v st = Some st' \<longrightarrow>
      FeatureGates (fsCfg st') = FeatureGates (fsCfg st)"
    unfolding config_flags_def Let_def list.set ball_simps prod.case
    by (intro conjI allI impI TrueI) (erule cfg_flag_keeps_gates [rotated], simp | auto)+
  with map_of_SomeD [OF assms(1)] assms(2) show ?thesis by fastforce
qed

text \<open>
  C37: Every configuration gives each known gate a value, and no other name. Whatever the environment
  and the command line say, a configuration that loads has a gate map whose keys are exactly the known
  feature gates, each once.
\<close>

theorem feature_gates_total:
  assumes "LoadConfigFromArgs F getenv args = Inr cfg"
  shows "wf_map (FeatureGates cfg) \<and> mkeys (FeatureGates cfg) = set knownFeatureGates"
proof -
  obtain c1 st where env: "applyEnv F getenv (config_Defaults F) = Inr c1"
    and st: "flag_Parse (config_flags F) args \<lparr>fsCfg = c1, fsQPS = widen F (KubeClientQPS c1), fsGates = []\<rparr> = Inr st"
    and res: "FeatureGates cfg = FeatureGates (fsCfg st) \<or> ParseFeatureGates (fsGates st) = Inr (FeatureGates cfg)"
    using assms by (auto simp: LoadConfigFromArgs_def Let_def split: sum.splits if_splits)
  have c1: "total_gates (FeatureGates c1)"
    using env ParseFeatureGates_total default_total
    by (auto simp: applyEnv_def Let_def env_keeps_gates config_Defaults_def split: sum.splits if_splits)
  have "total_gates (FeatureGates (fsCfg st))"
  proof (rule flag_Parse_invariant [where P = "\<lambda>st. total_gates (FeatureGates (fsCfg st))", OF _ st], goal_cases)
    case (1 name f v c c')
    with flags_keep_gates [OF 1(1,2)] show ?case by simp
  qed (use c1 in simp)
  with res ParseFeatureGates_total have "total_gates (FeatureGates cfg)" by metis
  then show ?thesis by (simp add: total_gates_def)
qed


definition sample_floats :: "(int, int) floats" where
  "sample_floats = \<lparr>ParseFloat = Atoi, narrow = \<lambda>x. x, widen = \<lambda>x. x, twoHundred = 200,
     durFraction = \<lambda>f k u. f * u div 10 ^ k\<rparr>"

definition env_of :: "(string \<times> string) list \<Rightarrow> getenv" where
  "env_of l = (\<lambda>k. case mget l k of None \<Rightarrow> [] | Some v \<Rightarrow> v)"

theorem feature_gates_total_witness:
  "\<exists>cfg. LoadConfigFromArgs sample_floats (env_of [(''FEATURE_GATES'', ''ExitRepair=true'')])
       [''--leader-elect=false''] = Inr cfg \<and>
     mget (FeatureGates cfg) ''ExitRepair'' = Some True \<and> mkeys (FeatureGates cfg) = set knownFeatureGates"
proof -
  let ?r = "LoadConfigFromArgs sample_floats (env_of [(''FEATURE_GATES'', ''ExitRepair=true'')]) [''--leader-elect=false'']"
  have "case ?r of Inr cfg \<Rightarrow> mget (FeatureGates cfg) ''ExitRepair'' = Some True | Inl _ \<Rightarrow> False" by code_simp
  then obtain cfg where cfg: "?r = Inr cfg" "mget (FeatureGates cfg) ''ExitRepair'' = Some True"
    by (auto split: sum.splits)
  from feature_gates_total [OF cfg(1)] cfg show ?thesis by blast
qed

section \<open>The gate parser against a reference\<close>

text \<open>The entries of a specification, each as a setting of a known gate or nothing.\<close>

definition gate_entries :: "string \<Rightarrow> string list" where
  "gate_entries spec = filter (\<lambda>kv. kv \<noteq> []) (map TrimSpace (Split1 (TrimSpace spec) CHR '',''))"

definition gate_setting :: "string \<Rightarrow> (string \<times> bool) option" where
  "gate_setting kv =
     (case Cut kv CHR ''='' of
        None \<Rightarrow> None
      | Some (n, v) \<Rightarrow>
          if TrimSpace n \<in> set knownFeatureGates then map_option (Pair (TrimSpace n)) (ParseBool (TrimSpace v)) else None)"

text \<open>The last setting of a gate counts.\<close>

definition last_setting :: "(string \<times> bool) list \<Rightarrow> string \<Rightarrow> bool option" where
  "last_setting settings g = mget (rev settings) g"

lemma gates_loop_reference:
  "case gates_loop kvs out of
     Inr m \<Rightarrow> \<exists>es. map gate_setting (filter (\<lambda>kv. kv \<noteq> []) (map TrimSpace kvs)) = map Some es \<and>
       (\<forall>g. mget m g = (case last_setting es g of None \<Rightarrow> mget out g | Some b \<Rightarrow> Some b))
   | Inl err \<Rightarrow> \<exists>kv \<in> set (map TrimSpace kvs). kv \<noteq> [] \<and> gate_setting kv = None"
proof (induction kvs out rule: gates_loop.induct)
  case (1 out)
  show ?case by (simp add: last_setting_def)
next
  case (2 kv kvs out)
  let ?kv = "TrimSpace kv"
  show ?case
  proof (cases "?kv = []")
    case True
    with 2(1) show ?thesis by (auto split: sum.splits)
  next
    case ne: False
    show ?thesis
    proof (cases "gate_setting ?kv")
      case None
      then have "\<exists>err. gates_loop (kv # kvs) out = Inl err"
        using ne by (auto simp: gate_setting_def Let_def split: option.splits if_splits)
      with None ne show ?thesis by auto
    next
      case (Some gb)
      obtain g b where gb: "gb = (g, b)" by fastforce
      with Some obtain n v where c: "Cut ?kv CHR ''='' = Some (n, v)" "g = TrimSpace n" "g \<in> set knownFeatureGates"
        "ParseBool (TrimSpace v) = Some b"
        by (auto simp: gate_setting_def split: option.splits if_splits)
      then have loop: "gates_loop (kv # kvs) out = gates_loop kvs (mput g b out)" using ne by simp
      have IH: "case gates_loop kvs (mput g b out) of
          Inr m \<Rightarrow> \<exists>es. map gate_setting (filter (\<lambda>kv. kv \<noteq> []) (map TrimSpace kvs)) = map Some es \<and>
            (\<forall>x. mget m x = (case last_setting es x of None \<Rightarrow> mget (mput g b out) x | Some b \<Rightarrow> Some b))
        | Inl err \<Rightarrow> \<exists>kv \<in> set (map TrimSpace kvs). kv \<noteq> [] \<and> gate_setting kv = None"
        using 2(2) [OF refl ne c(1) refl c(2) c(4)] c(3) by simp
      have last: "last_setting ((g, b) # es) x = (case last_setting es x of None \<Rightarrow> if x = g then Some b else None | Some b \<Rightarrow> Some b)"
        for es x by (simp add: last_setting_def map_add_def split: option.splits)
      show ?thesis
      proof (cases "gates_loop kvs (mput g b out)")
        case (Inl err)
        with IH loop show ?thesis by auto
      next
        case (Inr m)
        with IH obtain es where es: "map gate_setting (filter (\<lambda>kv. kv \<noteq> []) (map TrimSpace kvs)) = map Some es"
          "\<forall>x. mget m x = (case last_setting es x of None \<Rightarrow> mget (mput g b out) x | Some b \<Rightarrow> Some b)" by auto
        have "map gate_setting (filter (\<lambda>kv. kv \<noteq> []) (map TrimSpace (kv # kvs))) = map Some ((g, b) # es)"
          using es(1) Some gb ne by simp
        moreover have "\<forall>x. mget m x = (case last_setting ((g, b) # es) x of None \<Rightarrow> mget out x | Some b \<Rightarrow> Some b)"
          using es(2) by (auto simp: last split: option.splits)
        ultimately show ?thesis unfolding loop Inr sum.case by blast
      qed
    qed
  qed
qed

lemma default_gates: "g \<in> set knownFeatureGates \<Longrightarrow> mget defaultFeatureGates g = Some False"
  by (auto simp: defaultFeatureGates_def knownFeatureGates_def)

text \<open>
  The gate parser is exact. A specification is accepted exactly when each of its entries that is not
  blank sets a known gate to a boolean; the result gives each gate its last setting, and false to a gate
  that is not mentioned.
\<close>

theorem ParseFeatureGates_exact:
  "case ParseFeatureGates spec of
     Inr m \<Rightarrow> \<exists>es. map gate_setting (gate_entries spec) = map Some es \<and>
       map (mget m) knownFeatureGates = map (\<lambda>g. Some (last_setting es g = Some True)) knownFeatureGates
   | Inl err \<Rightarrow> \<exists>kv \<in> set (gate_entries spec). gate_setting kv = None"
proof (cases "TrimSpace spec = []")
  case True
  then show ?thesis
    by (simp add: ParseFeatureGates_def gate_entries_def last_setting_def default_gates TrimSpace_def)
next
  case False
  let ?kvs = "Split1 (TrimSpace spec) CHR '',''"
  have loop: "ParseFeatureGates spec = gates_loop ?kvs defaultFeatureGates"
    using False by (simp add: ParseFeatureGates_def)
  show ?thesis
  proof (cases "gates_loop ?kvs defaultFeatureGates")
    case (Inl err)
    with gates_loop_reference [of ?kvs defaultFeatureGates] loop show ?thesis
      by (auto simp: gate_entries_def)
  next
    case (Inr m)
    with gates_loop_reference [of ?kvs defaultFeatureGates] obtain es where
      "map gate_setting (gate_entries spec) = map Some es"
      "\<forall>g. mget m g = (case last_setting es g of None \<Rightarrow> mget defaultFeatureGates g | Some b \<Rightarrow> Some b)"
      by (auto simp: gate_entries_def)
    with Inr loop show ?thesis by (auto simp: default_gates split: option.splits)
  qed
qed


section \<open>Writing and reading gates\<close>

definition gate_text :: "string \<times> bool \<Rightarrow> string" where
  "gate_text gb = fst gb @ ''='' @ (if snd gb then ''true'' else ''false'')"

definition gates_text :: "(string \<times> bool) list \<Rightarrow> string" where
  "gates_text gbs = join CHR '','' (map gate_text gbs)"

lemma Split1_join:
  "ls \<noteq> [] \<Longrightarrow> list_all (\<lambda>l. sep \<notin> set l) ls \<Longrightarrow> Split1 (join sep ls) sep = ls"
  by (induction sep ls rule: join.induct) (auto simp: Split1_none Split1_append)

lemma gate_text_reads:
  assumes "g \<in> set knownFeatureGates"
  shows "TrimSpace (gate_text (g, b)) = gate_text (g, b)" and "gate_text (g, b) \<noteq> []"
    and "CHR '','' \<notin> set (gate_text (g, b))"
    and "Cut (gate_text (g, b)) CHR ''='' = Some (g, if b then ''true'' else ''false'')" and "TrimSpace g = g"
proof -
  have "list_all (\<lambda>g. list_all (\<lambda>b. TrimSpace (gate_text (g, b)) = gate_text (g, b) \<and> CHR '','' \<notin> set (gate_text (g, b)) \<and>
      Cut (gate_text (g, b)) CHR ''='' = Some (g, if b then ''true'' else ''false'') \<and> TrimSpace g = g) [True, False])
      knownFeatureGates" by code_simp
  with assms have all: "TrimSpace (gate_text (g, b)) = gate_text (g, b) \<and> CHR '','' \<notin> set (gate_text (g, b)) \<and>
      Cut (gate_text (g, b)) CHR ''='' = Some (g, if b then ''true'' else ''false'') \<and> TrimSpace g = g"
    by (cases b) (auto simp: list_all_iff)
  then show "TrimSpace (gate_text (g, b)) = gate_text (g, b)" "CHR '','' \<notin> set (gate_text (g, b))"
    "Cut (gate_text (g, b)) CHR ''='' = Some (g, if b then ''true'' else ''false'')" "TrimSpace g = g" by simp_all
  show "gate_text (g, b) \<noteq> []" by (simp add: gate_text_def)
qed


lemma trim_steps_none: "strip_any ps s = None \<Longrightarrow> trim_steps n ps s = s"
  by (cases n) simp_all

lemma strip_any_hd: "s \<noteq> [] \<Longrightarrow> list_all (\<lambda>p. p \<noteq> [] \<and> hd p \<noteq> hd s) ps \<Longrightarrow> strip_any ps s = None"
proof (induction ps)
  case (Cons p ps)
  then show ?case by (cases p; cases s) auto
qed simp

lemma TrimSpace_id:
  assumes "s \<noteq> []" and "list_all (\<lambda>p. hd p \<noteq> hd s \<and> last p \<noteq> last s) unicode_spaces"
  shows "TrimSpace s = s"
proof -
  have ne: "list_all (\<lambda>p. p \<noteq> []) unicode_spaces" by (simp add: unicode_spaces_def)
  have l: "strip_any unicode_spaces s = None"
    using assms ne by (intro strip_any_hd) (auto simp: list_all_iff)
  have r: "strip_any (map rev unicode_spaces) (rev s) = None"
    using assms ne by (intro strip_any_hd) (auto simp: list_all_iff hd_rev)
  show ?thesis by (simp add: TrimSpace_def Let_def trim_steps_none [OF l] trim_steps_none [OF r])
qed

lemma join_Nil_iff: "join sep ls = [] \<longleftrightarrow> ls = [] \<or> ls = [[]]"
  by (induction sep ls rule: join.induct) auto

lemma hd_join: "ls \<noteq> [] \<Longrightarrow> hd ls \<noteq> [] \<Longrightarrow> hd (join sep ls) = hd (hd ls)"
  by (induction sep ls rule: join.induct) auto

lemma last_join: "ls \<noteq> [] \<Longrightarrow> last ls \<noteq> [] \<Longrightarrow> last (join sep ls) = last (last ls)"
  by (induction sep ls rule: join.induct) (auto simp: join_Nil_iff)

lemma join_ne: "ls \<noteq> [] \<Longrightarrow> hd ls \<noteq> [] \<Longrightarrow> join sep ls \<noteq> []"
  by (induction sep ls rule: join.induct) auto

lemma gates_text_trimmed:
  assumes "gbs \<noteq> []" and "fst ` set gbs \<subseteq> set knownFeatureGates"
  shows "TrimSpace (gates_text gbs) = gates_text gbs \<and> gates_text gbs \<noteq> []"
proof -
  let ?ls = "map gate_text gbs"
  have ends: "list_all (\<lambda>p. hd p \<noteq> hd (gate_text (g, b)) \<and> last p \<noteq> CHR ''e'') unicode_spaces"
    if "g \<in> set knownFeatureGates" for g b
  proof -
    have "list_all (\<lambda>g. list_all (\<lambda>b. list_all (\<lambda>p. hd p \<noteq> hd (gate_text (g, b)) \<and> last p \<noteq> CHR ''e'')
        unicode_spaces) [True, False]) knownFeatureGates" by code_simp
    with that show ?thesis by (cases b) (auto simp: list_all_iff)
  qed
  have ne: "?ls \<noteq> []" "hd ?ls \<noteq> []" "last ?ls \<noteq> []" using assms(1)
    by (simp_all add: hd_map last_map gate_text_def)
  have "hd (gates_text gbs) = hd (gate_text (hd gbs))" and "last (gates_text gbs) = CHR ''e''"
    using hd_join [OF ne(1,2)] last_join [OF ne(1,3)] assms(1)
    by (simp_all add: gates_text_def hd_map last_map gate_text_def)
  moreover have "list_all (\<lambda>p. hd p \<noteq> hd (gate_text (hd gbs)) \<and> last p \<noteq> CHR ''e'') unicode_spaces"
    using ends [of "fst (hd gbs)" "snd (hd gbs)"] assms by (auto simp: image_subset_iff)
  moreover have "gates_text gbs \<noteq> []" using join_ne [OF ne(1,2)] by (simp add: gates_text_def)
  ultimately show ?thesis by (simp add: TrimSpace_id)
qed

lemma gates_loop_texts:
  "fst ` set gbs \<subseteq> set knownFeatureGates \<Longrightarrow>
     gates_loop (map gate_text gbs) out = Inr (foldl (\<lambda>m (g, b). mput g b m) out gbs)"
proof (induction gbs arbitrary: out)
  case (Cons gb gbs)
  obtain g b where gb: "gb = (g, b)" by fastforce
  have g: "g \<in> set knownFeatureGates" using Cons(2) gb by simp
  have b: "ParseBool (TrimSpace (if b then ''true'' else ''false'')) = Some b"
    by (cases b) (simp_all, code_simp+)
  from Cons gb g b show ?case by (simp add: gate_text_reads [OF g] del: if_image_distrib)
qed simp

text \<open>
  Gates read back. Writing settings of known gates as \<open>Name=bool,Name=bool\<close> and parsing the text
  gives the default gates with these settings applied in their order.
\<close>

theorem gates_read_back:
  assumes "fst ` set gbs \<subseteq> set knownFeatureGates"
  shows "ParseFeatureGates (gates_text gbs) = Inr (foldl (\<lambda>m (g, b). mput g b m) defaultFeatureGates gbs)"
proof (cases "gbs = []")
  case True
  then show ?thesis by (simp add: gates_text_def ParseFeatureGates_def TrimSpace_def)
next
  case False
  have "list_all (\<lambda>l. CHR '','' \<notin> set l) (map gate_text gbs)"
    using gate_text_reads(3) assms by (auto simp: list_all_iff image_subset_iff)
  with False have "Split1 (gates_text gbs) CHR '','' = map gate_text gbs"
    unfolding gates_text_def by (intro Split1_join) auto
  with gates_text_trimmed [OF False assms] gates_loop_texts [OF assms] show ?thesis
    by (simp add: ParseFeatureGates_def)
qed

theorem gates_read_back_witness:
  "ParseFeatureGates (gates_text [(''ExitRepair'', True), (''StaticReplicas'', False)]) =
     Inr (mput ''StaticReplicas'' False (mput ''ExitRepair'' True defaultFeatureGates))"
  using gates_read_back [of "[(''ExitRepair'', True), (''StaticReplicas'', False)]"]
  by (simp add: knownFeatureGates_def)


section \<open>Values that do not parse\<close>

text \<open>The durations: the variable, the flag and what it sets.\<close>

definition duration_settings :: "(string \<times> string) list" where
  "duration_settings =
     [(''BATCH_IDLE_DURATION'', ''batch-idle-duration''), (''BATCH_MAX_DURATION'', ''batch-max-duration''),
      (''REGISTRATION_TTL'', ''registration-ttl''), (''DRIFT_TTL'', ''drift-ttl''),
      (''DISRUPTION_POLL_PERIOD'', ''disruption-poll-period'')]"

lemma env_upd_other:
  assumes "k \<noteq> key"
  shows "strEnv (getenv(key := v)) k = strEnv (getenv(key := [])) k"
    and "boolEnv (getenv(key := v)) k = boolEnv (getenv(key := [])) k"
    and "intEnv (getenv(key := v)) k = intEnv (getenv(key := [])) k"
    and "floatEnv F (getenv(key := v)) k = floatEnv F (getenv(key := [])) k"
  using assms by (simp_all add: strEnv_def boolEnv_def intEnv_def floatEnv_def)

lemma durEnv_upd:
  "ParseDuration (durFraction F) v = None \<Longrightarrow> durEnv F (getenv(key := v)) k = durEnv F (getenv(key := [])) k"
  by (simp add: durEnv_def)

definition other_settings :: "string list" where
  "other_settings =
     [''KUBECONFIG'', ''LEADER_ELECT'', ''LEADER_ELECTION_ID'', ''LEADER_ELECTION_NAMESPACE'', ''DISABLE_PROFILING'',
      ''KUBE_CLIENT_QPS'', ''KUBE_CLIENT_BURST'', ''LOG_LEVEL'', ''METRICS_BIND_ADDRESS'',
      ''HEALTH_PROBE_BIND_ADDRESS'', ''PREFERENCE_POLICY'', ''MIN_VALUES_POLICY'', ''FEATURE_GATES'']"

lemma env_ignores:
  assumes "(key, flag) \<in> set duration_settings" and "ParseDuration (durFraction F) v = None"
  shows "applyEnv F (getenv(key := v)) cfg = applyEnv F (getenv(key := [])) cfg"
proof -
  have "list_all (\<lambda>(key, flag). key \<notin> set other_settings) duration_settings" by code_simp
  with assms(1) have "key \<notin> set other_settings" by (auto simp: list_all_iff)
  then have other: "k \<in> set other_settings \<Longrightarrow> k \<noteq> key" for k by blast
  have "env_assignments F (getenv(key := v)) = env_assignments F (getenv(key := []))"
  proof -
    let ?g = "getenv(key := v)" and ?h = "getenv(key := [])"
    have "map (strEnv ?g) other_settings = map (strEnv ?h) other_settings"
      "map (boolEnv ?g) other_settings = map (boolEnv ?h) other_settings"
      "map (intEnv ?g) other_settings = map (intEnv ?h) other_settings"
      "map (floatEnv F ?g) other_settings = map (floatEnv F ?h) other_settings"
      by (intro map_cong refl env_upd_other other, assumption)+
    note same = this [unfolded other_settings_def list.map list.inject]
    show ?thesis unfolding env_assignments_def durEnv_upd [OF assms(2)] by (simp only: same)
  qed
  moreover have "''FEATURE_GATES'' \<noteq> key" by (rule other) (simp add: other_settings_def)
  ultimately show ?thesis by (simp add: applyEnv_def)
qed

lemma duration_flags:
  "mget (config_flags F) ''batch-idle-duration'' = Some (cfg_flag False (ParseDuration (durFraction F)) (\<lambda>v c. c\<lparr>BatchIdleDuration := v\<rparr>))"
  "mget (config_flags F) ''batch-max-duration'' = Some (cfg_flag False (ParseDuration (durFraction F)) (\<lambda>v c. c\<lparr>BatchMaxDuration := v\<rparr>))"
  "mget (config_flags F) ''registration-ttl'' = Some (cfg_flag False (ParseDuration (durFraction F)) (\<lambda>v c. c\<lparr>RegistrationTTL := v\<rparr>))"
  "mget (config_flags F) ''drift-ttl'' = Some (cfg_flag False (ParseDuration (durFraction F)) (\<lambda>v c. c\<lparr>DriftTTL := v\<rparr>))"
  "mget (config_flags F) ''disruption-poll-period'' = Some (cfg_flag False (ParseDuration (durFraction F)) (\<lambda>v c. c\<lparr>DisruptionPollPeriod := v\<rparr>))"
  by (simp_all add: config_flags_def Let_def)

lemma duration_flag:
  assumes "(key, flag) \<in> set duration_settings"
  obtains set_field where "mget (config_flags F) flag = Some (cfg_flag False (ParseDuration (durFraction F)) set_field)"
proof -
  have "flag \<in> snd ` set duration_settings" using imageI [OF assms, of snd] by simp
  then have "flag = ''batch-idle-duration'' \<or> flag = ''batch-max-duration'' \<or> flag = ''registration-ttl'' \<or>
      flag = ''drift-ttl'' \<or> flag = ''disruption-poll-period''"
    by (simp add: duration_settings_def)
  then have "\<exists>set_field. mget (config_flags F) flag = Some (cfg_flag False (ParseDuration (durFraction F)) set_field)"
    by (elim disjE) (simp only: duration_flags, rule exI, rule refl)+
  with that show ?thesis by blast
qed

lemma duration_flag_name:
  assumes "(key, flag) \<in> set duration_settings"
  shows "flag \<noteq> []" and "hd flag \<notin> {CHR ''-'', CHR ''=''}" and "CHR ''='' \<notin> set (tl flag)"
proof -
  have "list_all (\<lambda>(key, flag). flag \<noteq> [] \<and> hd flag \<noteq> CHR ''-'' \<and> hd flag \<noteq> CHR ''='' \<and> CHR ''='' \<notin> set (tl flag))
      duration_settings" by code_simp
  with assms show "flag \<noteq> []" "hd flag \<notin> {CHR ''-'', CHR ''=''}" "CHR ''='' \<notin> set (tl flag)"
    by (auto simp: list_all_iff)
qed

lemma parseOne_assign:
  assumes "mget formal flag = Some f" and "\<not> fgBool f" and "flag \<noteq> []" and "hd flag \<notin> {CHR ''-'', CHR ''=''}"
    and "CHR ''='' \<notin> set (tl flag)"
  shows "parseOne formal ((''--'' @ flag @ ''='' @ v) # args) c =
     Some (case fgSet f v c of None \<Rightarrow> Inl (InvalidFlagValue v flag) | Some c' \<Rightarrow> Inr (args, c'))"
proof -
  have "split_flag (flag @ ''='' @ v) = (flag, Some v)"
    using assms(3,5) by (cases flag) (simp_all add: split_flag_def Cut_append)
  with assms(1-4) show ?thesis
    by (cases flag) (auto simp: parseOne_def split: option.splits)
qed

text \<open>
  A duration that does not parse is an error on the command line and nothing in the environment.
  A malformed value of one of the five duration variables loads the same configuration as the
  variable unset, silently; the same value given to the flag stops the program with an error that
  names the flag and the value.
\<close>

theorem malformed_duration:
  assumes "(key, flag) \<in> set duration_settings" and "ParseDuration (durFraction F) v = None"
    and "applyEnv F getenv (config_Defaults F) = Inr cfg"
  shows "LoadConfigFromArgs F (getenv(key := v)) args = LoadConfigFromArgs F (getenv(key := [])) args \<and>
    LoadConfigFromArgs F getenv ((''--'' @ flag @ ''='' @ v) # args) = Inl (FlagError (InvalidFlagValue v flag))"
proof -
  obtain set_field where f: "mget (config_flags F) flag = Some (cfg_flag False (ParseDuration (durFraction F)) set_field)"
    by (rule duration_flag [OF assms(1), of F])
  have "parseOne (config_flags F) ((''--'' @ flag @ ''='' @ v) # args) c = Some (Inl (InvalidFlagValue v flag))" for c
    using parseOne_assign [OF f _ duration_flag_name [OF assms(1)], of v args c] assms(2) by (simp add: cfg_flag_def)
  then have "flag_Parse (config_flags F) ((''--'' @ flag @ ''='' @ v) # args) c = Inl (InvalidFlagValue v flag)" for c
    by (simp add: flag_Parse.simps)
  with assms(3) env_ignores [OF assms(1,2)] show ?thesis by (simp add: LoadConfigFromArgs_def)
qed

lemma env_of_Nil:
  "strEnv (env_of []) k = None" "boolEnv (env_of []) k = None" "intEnv (env_of []) k = None"
  "floatEnv F (env_of []) k = None" "durEnv F (env_of []) k = None" "env_of [] k = []"
  by (simp_all add: env_of_def strEnv_def boolEnv_def intEnv_def floatEnv_def durEnv_def)

lemma empty_env: "applyEnv F (env_of []) cfg = Inr cfg"
  by (simp add: applyEnv_def env_assignments_def env_of_Nil if_ok_def)

theorem malformed_duration_witness:
  "LoadConfigFromArgs sample_floats ((env_of [])(''BATCH_MAX_DURATION'' := ''10'')) [] =
     LoadConfigFromArgs sample_floats ((env_of [])(''BATCH_MAX_DURATION'' := [])) [] \<and>
   LoadConfigFromArgs sample_floats (env_of []) [''--'' @ ''batch-max-duration'' @ ''='' @ ''10''] =
     Inl (FlagError (InvalidFlagValue ''10'' ''batch-max-duration''))"
proof -
  have 1: "(''BATCH_MAX_DURATION'', ''batch-max-duration'') \<in> set duration_settings" by (simp add: duration_settings_def)
  have 2: "ParseDuration (durFraction sample_floats) ''10'' = None"
    by (simp add: ParseDuration_def duration_loop.simps duration_element_def is_digit_def dig_def less_eq_char_def Let_def)
  show ?thesis by (rule malformed_duration [OF 1 2 empty_env])
qed

text \<open>Gates given by a flag replace those of the environment.\<close>

lemma flag_gates_replace:
  assumes "LoadConfigFromArgs F getenv [''--feature-gates='' @ v] = Inr cfg" and "v \<noteq> []"
  shows "ParseFeatureGates v = Inr (FeatureGates cfg)"
proof -
  have f: "mget (config_flags F) ''feature-gates'' = Some \<lparr>fgBool = False, fgSet = \<lambda>s st. Some (st\<lparr>fsGates := s\<rparr>)\<rparr>"
    by (simp add: config_flags_def Let_def)
  have "parseOne (config_flags F) [''--feature-gates='' @ v] c = Some (Inr ([], c\<lparr>fsGates := v\<rparr>))" for c
    using parseOne_assign [OF f, of v "[]" c] by simp
  then have "flag_Parse (config_flags F) [''--feature-gates='' @ v] c = Inr (c\<lparr>fsGates := v\<rparr>)" for c
    by (simp add: flag_Parse.simps [of "config_flags F" "[''--feature-gates='' @ v]"]) (simp add: flag_Parse.simps parseOne_def)
  with assms show ?thesis
    by (auto simp: LoadConfigFromArgs_def Let_def split: sum.splits)
qed

end
