(* ===== verification/OperatorStartProps.thy ===== *)
theory OperatorStartProps
  imports OperatorStart OperatorConfigProps "HOL-Library.Sublist"
begin

text \<open>
  Properties of the start: it is all or nothing, it succeeds with the built-in providers because no two
  controllers share a name, and the watches wake a controller for every change of what it derives its
  result from.
\<close>

section \<open>All or nothing\<close>

definition calls_of :: "(string + 'f mgr_event) list \<Rightarrow> 'f mgr_event list" where
  "calls_of cs = concat (map (case_sum (\<lambda>err. []) (\<lambda>e. [e])) cs)"

definition stage_calls :: "(string \<times> (string + 'f mgr_event) list) list \<Rightarrow> 'f mgr_event list" where
  "stage_calls stages = concat (map (\<lambda>(prefix, cs). calls_of cs) stages)"

lemma calls_of_simps [simp]:
  "calls_of [] = []" "calls_of (Inl err # cs) = calls_of cs" "calls_of (Inr e # cs) = e # calls_of cs"
  by (simp_all add: calls_of_def)

lemma stage_calls_simps [simp]:
  "stage_calls [] = []" "stage_calls ((pre, cs) # stages) = calls_of cs @ stage_calls stages"
  by (simp_all add: stage_calls_def)

definition all_answered :: "'f mgr_env \<Rightarrow> 'f mgr_event list \<Rightarrow> 'f mgr_event list \<Rightarrow> bool" where
  "all_answered E h es \<longleftrightarrow> list_all (\<lambda>(b, e). mgrAnswer E b e = None) (steps h es)"

lemma all_answered_simps [simp]:
  "all_answered E h []" "all_answered E h (e # es) \<longleftrightarrow> mgrAnswer E h e = None \<and> all_answered E (h @ [e]) es"
  by (simp_all add: all_answered_def)

lemma all_answered_append [simp]:
  "all_answered E h (es @ ds) \<longleftrightarrow> all_answered E h es \<and> all_answered E (h @ es) ds"
  by (simp add: all_answered_def)

lemma perform_cases:
  obtains (through) "run_state (perform E cs) h = (None, h @ calls_of cs)" "all_answered E h (calls_of cs)"
  | (failed) err es where "run_state (perform E cs) h = (Some err, h @ es)" "prefix es (calls_of cs)"
proof -
  have "(run_state (perform E cs) h = (None, h @ calls_of cs) \<and> all_answered E h (calls_of cs)) \<or>
      (\<exists>err es. run_state (perform E cs) h = (Some err, h @ es) \<and> prefix es (calls_of cs))"
  proof (induction E cs arbitrary: h rule: perform.induct)
    case (3 E e cs)
    show ?case
    proof (cases "mgrAnswer E h e")
      case None
      from 3 [of "h @ [e]"] None show ?thesis by auto
    next
      case (Some err)
      then show ?thesis by (intro disjI2 exI [of _ err] exI [of _ "[e]"]) simp
    qed
  qed auto
  then show thesis using that by blast
qed

lemma perform_stages_cases:
  obtains (through) "run_state (perform_stages E sts) h = (None, h @ stage_calls sts)" "all_answered E h (stage_calls sts)"
  | (failed) err es where "run_state (perform_stages E sts) h = (Some err, h @ es)" "prefix es (stage_calls sts)"
proof -
  have "(run_state (perform_stages E sts) h = (None, h @ stage_calls sts) \<and> all_answered E h (stage_calls sts)) \<or>
      (\<exists>err es. run_state (perform_stages E sts) h = (Some err, h @ es) \<and> prefix es (stage_calls sts))"
  proof (induction sts arbitrary: h)
    case (Cons st sts)
    obtain pre cs where st: "st = (pre, cs)" by fastforce
    show ?case
    proof (cases rule: perform_cases [of E cs h])
      case through
      from Cons [of "h @ calls_of cs"] through show ?thesis by (auto simp: st)
    next
      case (failed err es)
      then show ?thesis by (intro disjI2 exI [of _ "pre @ err"] exI [of _ es]) (simp add: st prefix_prefix)
    qed
  qed simp
  then show thesis using that by blast
qed

lemma no_start_call: "MStart \<notin> set (stage_calls (start_stages positive ord1 ord2 reg scheme cfg rest))"
  by (auto simp: start_stages_def setupIndexers_def setupHealthChecks_def setupInformers_def setupProvisioning_def
      setupLifecycle_def setupDisruption_def setupPoolControllers_def setupProviderClassHash_def setupServiceWatcher_def
      calls_of_def class_hash_setup_def List.map_filter_def split: sum.splits if_splits)

text \<open>
  The start is all or nothing. Whatever the manager answers, either \<open>Start\<close> is the last call,
  after all the planned registrations in their order and with none refused, or \<open>Start\<close> is never called, the
  calls made are a prefix of the plan, and an error is returned.
\<close>

theorem start_all_or_nothing:
  "case run_state (RunWithRESTConfig E positive ord1 ord2 D sdkError cfg rest seed) [] of
     (r, h) \<Rightarrow>
       let plan = stage_calls (start_stages positive ord1 ord2 (run_registry D True sdkError seed) (mgrScheme E) cfg rest)
       in if MStart \<in> set h then h = plan @ [MStart] \<and> all_answered E [] plan \<and> r = mgrAnswer E plan MStart
          else r \<noteq> None \<and> prefix h plan"
proof (cases "NewScheme E")
  case (Inl err)
  then show ?thesis by (simp add: RunWithRESTConfig_def)
next
  case (Inr scheme)
  then have scheme: "scheme = mgrScheme E" by (auto simp: NewScheme_def split: option.splits)
  let ?sts = "start_stages positive ord1 ord2 (run_registry D True sdkError seed) (mgrScheme E) cfg rest"
  show ?thesis
  proof (cases rule: perform_stages_cases [of E ?sts "[]"])
    case through
    then show ?thesis using Inr scheme by (simp add: RunWithRESTConfig_def Let_def)
  next
    case (failed err es)
    have "MStart \<notin> set es" using failed(2) no_start_call set_mono_prefix by fast
    with failed Inr scheme show ?thesis by (simp add: RunWithRESTConfig_def Let_def)
  qed
qed


section \<open>The names of the controllers\<close>

text \<open>The manager refuses a second controller of a name and nothing else.\<close>

definition controllers :: "'f mgr_event list \<Rightarrow> registration list" where
  "controllers es = List.map_filter (\<lambda>e. case e of MController r \<Rightarrow> Some r | _ \<Rightarrow> None) es"

definition names_once :: "'f mgr_env \<Rightarrow> bool" where
  "names_once E \<longleftrightarrow>
     (\<forall>h e. mgrAnswer E h e = None \<longleftrightarrow>
        (case e of MController r \<Rightarrow> regName r \<notin> set (map regName (controllers h)) | _ \<Rightarrow> True))"

lemma controllers_simps [simp]:
  "controllers [] = []" "controllers (es @ ds) = controllers es @ controllers ds"
  "controllers (e # es) = (case e of MController r \<Rightarrow> r # controllers es | _ \<Rightarrow> controllers es)"
  by (simp_all add: controllers_def List.map_filter_def split: mgr_event.split)

lemma distinct_names_answered:
  assumes "names_once E" and "distinct (map regName (controllers (h @ es)))"
  shows "all_answered E h es"
  using assms(2)
proof (induction es arbitrary: h)
  case (Cons e es)
  then have "mgrAnswer E h e = None"
    using assms(1) by (auto simp: names_once_def split: mgr_event.splits)
  moreover have "all_answered E (h @ [e]) es"
    by (rule Cons.IH) (use Cons.prems in \<open>simp del: controllers_simps\<close>)
  ultimately show ?case by simp
qed simp

lemma perform_answered:
  assumes "all_answered E h (calls_of cs)" and "list_all (\<lambda>x. \<not> isl x) cs"
  shows "run_state (perform E cs) h = (None, h @ calls_of cs)"
  using assms
proof (induction E cs arbitrary: h rule: perform.induct)
  case (3 E e cs)
  from 3(1) [of "h @ [e]"] 3(2,3) show ?case by simp
qed auto

lemma perform_stages_answered:
  assumes "all_answered E h (stage_calls sts)" and "list_all (\<lambda>(p, cs). list_all (\<lambda>x. \<not> isl x) cs) sts"
  shows "run_state (perform_stages E sts) h = (None, h @ stage_calls sts)"
  using assms
proof (induction sts arbitrary: h)
  case (Cons st sts)
  then show ?case by (cases st) (simp add: perform_answered)
qed simp


text \<open>The kinds of the built-in registry, in the order of a loop over it.\<close>

definition kind_orders :: "string list list" where
  "kind_orders =
     [[''DigitalOceanProviderClass''], [''LocalDockerProviderClass'', ''DigitalOceanProviderClass''],
      [''DigitalOceanProviderClass'', ''LocalDockerProviderClass'']]"

lemma distinct_one: "distinct xs \<Longrightarrow> set xs = {a} \<Longrightarrow> xs = [a]"
  by (cases xs) (auto simp: subset_singleton_iff)

lemma distinct_two:
  assumes "distinct xs" and "set xs = {a, b}" and "a \<noteq> b"
  shows "xs = [a, b] \<or> xs = [b, a]"
proof -
  have "length xs = Suc (Suc 0)" using assms distinct_card [of xs] by simp
  then obtain x y where "xs = [x, y]" by (auto simp: length_Suc_conv)
  with assms show ?thesis by (auto simp: doubleton_eq_iff)
qed

lemma builtin_kinds:
  assumes "is_order ord"
  shows "Kinds ord (registerBuiltinProviders D kube sdkError []) \<in> set kind_orders"
proof -
  let ?reg = "registerBuiltinProviders D kube sdkError []"
  have "wf_map ?reg" using builtin_self_named by (simp add: self_named_def)
  then have ks: "distinct (Kinds ord ?reg)" "set (Kinds ord ?reg) = mkeys ?reg"
    using assms registry_classes_kinds [OF builtin_self_named assms] by (simp_all add: Kinds_def wf_map_def distinct_map_in_order)
  have "mkeys ?reg = {''DigitalOceanProviderClass''} \<or> mkeys ?reg = {''LocalDockerProviderClass'', ''DigitalOceanProviderClass''}"
    by (cases sdkError) (simp_all add: registerBuiltinProviders_def register_or_skip_def Register_def ld_New_def
        mhas_def mkeys_def)
  then show ?thesis
  proof
    assume "mkeys ?reg = {''DigitalOceanProviderClass''}"
    with ks have "Kinds ord ?reg = [''DigitalOceanProviderClass'']" by (simp add: distinct_one)
    then show ?thesis by (simp add: kind_orders_def)
  next
    assume "mkeys ?reg = {''LocalDockerProviderClass'', ''DigitalOceanProviderClass''}"
    with ks distinct_two [of "Kinds ord ?reg" "''LocalDockerProviderClass''" "''DigitalOceanProviderClass''"]
    show ?thesis by (auto simp: kind_orders_def)
  qed
qed


text \<open>The names of the controllers in the plan, in their order.\<close>

definition planned_names :: "string list \<Rightarrow> string list \<Rightarrow> string list" where
  "planned_names informed hashed =
     map regName [informer_claim_setup, informer_pool_setup, informer_tunnel_setup] @
     map (regName \<circ> informer_class_setup) informed @
     map regName [pod_setup, node_setup, lifecycle_setup, emptiness_setup, pool_hash_setup, counter_setup,
       readiness_setup, validation_setup] @
     map (\<lambda>kind. case class_hash_setup kind kind of Inl err \<Rightarrow> err | Inr r \<Rightarrow> regName r) hashed @
     map regName [servicewatcher_setup, reverse_sync_setup]"

lemma planned_names_distinct:
  assumes "ks \<in> set kind_orders" and "ks' \<in> set kind_orders"
  shows "distinct (planned_names ks ks')"
proof -
  have "list_all (\<lambda>ks. list_all (\<lambda>ks'. distinct (planned_names ks ks')) kind_orders) kind_orders"
    by code_simp
  with assms show ?thesis by (simp add: list_all_iff)
qed

lemma kind_orders_nonempty: "ks \<in> set kind_orders \<Longrightarrow> k \<in> set ks \<Longrightarrow> k \<noteq> []"
  by (auto simp: kind_orders_def)

lemma controllers_calls: "controllers (calls_of (map (\<lambda>x. Inr (MController (f x))) xs)) = map f xs"
  by (induction xs) simp_all

lemma hash_calls:
  assumes "\<And>ty. ty \<in> set tys \<Longrightarrow> scheme ty = Some ty \<and> ty \<noteq> []"
  shows "List.map_filter (\<lambda>ty. map_option (\<lambda>kind. map_sum id MController (class_hash_setup kind ty)) (scheme ty)) tys =
    map (Inr \<circ> MController) (map (\<lambda>ty. projr (class_hash_setup ty ty)) tys)"
  using assms by (induction tys) (auto simp: List.map_filter_def class_hash_setup_def)

lemma plan_names:
  fixes scheme :: "string \<Rightarrow> string option" and ord1 ord2 :: order and D kube sdkError
  defines "reg \<equiv> registerBuiltinProviders D kube sdkError []"
  assumes "is_order ord1" and "is_order ord2" and "scheme ''LocalDockerProviderClass'' = Some ''LocalDockerProviderClass''"
    and "scheme ''DigitalOceanProviderClass'' = Some ''DigitalOceanProviderClass''"
  shows "map regName (controllers (stage_calls (start_stages positive ord1 ord2 reg scheme cfg rest))) =
      planned_names (Kinds ord1 reg) (Kinds ord2 reg) \<and>
    list_all (\<lambda>(p, cs). list_all (\<lambda>x. \<not> isl x) cs) (start_stages positive ord1 ord2 reg scheme cfg rest)"
proof -
  note classes = registry_classes_kinds(1) [OF builtin_self_named, of _ D kube sdkError, folded reg_def]
  have known: "scheme k = Some k \<and> k \<noteq> []" if "k \<in> set ks" "ks \<in> set kind_orders" for k ks
    using that assms(4,5) by (auto simp: kind_orders_def)
  note k1 = builtin_kinds [OF assms(2), of D kube sdkError, folded reg_def]
    and k2 = builtin_kinds [OF assms(3), of D kube sdkError, folded reg_def]
  have watched: "watched_classes ord1 reg scheme = Kinds ord1 reg"
    unfolding watched_classes_def classes [OF assms(2)] using known [OF _ k1] by (simp add: filter_id_conv)
  have hashed: "setupProviderClassHash ord2 reg scheme =
      (map (Inr \<circ> MController) (map (\<lambda>ty. projr (class_hash_setup ty ty)) (Kinds ord2 reg)) :: (string + 'a mgr_event) list)"
    unfolding setupProviderClassHash_def classes [OF assms(3)] using known [OF _ k2] by (intro hash_calls)
  have names: "map (\<lambda>ty. regName (projr (class_hash_setup ty ty))) (Kinds ord2 reg) =
      map (\<lambda>kind. case class_hash_setup kind kind of Inl err \<Rightarrow> err | Inr r \<Rightarrow> regName r) (Kinds ord2 reg)"
    using known [OF _ k2] by (simp add: class_hash_setup_def)
  show ?thesis
    by (simp add: start_stages_def setupIndexers_def setupHealthChecks_def setupInformers_def setupProvisioning_def
        setupLifecycle_def setupDisruption_def setupPoolControllers_def setupServiceWatcher_def watched hashed
        planned_names_def names [symmetric] controllers_calls comp_def list_all_iff)
qed

text \<open>
  C38: The operator starts. When the manager refuses nothing but a second controller of a name, the
  schemes load and know the two provider classes, the operator with its built-in providers (Docker may be
  unavailable) reaches \<open>Start\<close> after the whole plan, in whatever order the registry is ranged over: no two
  of its controllers share a name.
\<close>

theorem operator_starts:
  assumes "names_once E" and "addToScheme E = (\<lambda>pkg. None)" and "is_order ord1" and "is_order ord2"
    and "mgrScheme E ''LocalDockerProviderClass'' = Some ''LocalDockerProviderClass''"
    and "mgrScheme E ''DigitalOceanProviderClass'' = Some ''DigitalOceanProviderClass''"
  shows "let plan = stage_calls
      (start_stages positive ord1 ord2 (registerBuiltinProviders D True sdkError []) (mgrScheme E) cfg rest)
    in run_state (RunWithRESTConfig E positive ord1 ord2 D sdkError cfg rest None) [] = (None, plan @ [MStart]) \<and>
       distinct (map regName (controllers plan))"
proof -
  let ?sts = "start_stages positive ord1 ord2 (registerBuiltinProviders D True sdkError []) (mgrScheme E) cfg rest"
  note plan = plan_names [where scheme = "mgrScheme E", OF assms(3-6), of positive D True sdkError cfg rest]
  have dist: "distinct (map regName (controllers (stage_calls ?sts)))"
    unfolding conjunct1 [OF plan] by (rule planned_names_distinct) (rule builtin_kinds [OF assms(3)] builtin_kinds [OF assms(4)])+
  have answered: "all_answered E [] (stage_calls ?sts)"
    by (rule distinct_names_answered [OF assms(1)]) (simp add: dist)
  have "NewScheme E = Inr (mgrScheme E)" by (simp add: NewScheme_def assms(2))
  moreover have "mgrAnswer E h MStart = None" for h using assms(1) by (simp add: names_once_def)
  ultimately show ?thesis
    using perform_stages_answered [OF answered conjunct2 [OF plan]] dist
    by (simp add: RunWithRESTConfig_def run_registry_def Let_def)
qed

definition plain_manager :: "int mgr_env" where
  "plain_manager = \<lparr>addToScheme = \<lambda>pkg. None, mgrScheme = Some,
     mgrAnswer = \<lambda>h e. case e of
       MController r \<Rightarrow> (if List.member (map regName (controllers h)) (regName r) then Some ''name taken'' else None)
     | _ \<Rightarrow> None\<rparr>"

lemma plain_sel: "addToScheme plain_manager = (\<lambda>pkg. None)" "mgrScheme plain_manager = Some"
  by (simp_all add: plain_manager_def)

theorem operator_starts_witness:
  "\<exists>plan. run_state (RunWithRESTConfig plain_manager (\<lambda>_. False) list_order list_order sample_do (Some ''no socket'')
       (config_Defaults sample_floats) (0, 0) None) [] = (None, plan @ [MStart]) \<and> distinct (map regName (controllers plan))"
proof -
  have "names_once plain_manager" by (auto simp: names_once_def plain_manager_def split: mgr_event.splits)
  from operator_starts [OF this _ is_order_list_order is_order_list_order, of "\<lambda>_. False" sample_do "Some ''no socket''" "config_Defaults sample_floats" "(0, 0)"]
  show ?thesis unfolding plain_sel Let_def by blast
qed


section \<open>Every change wakes\<close>

text \<open>
  An informer delivers a change as the object before (none if it was created) and after (none if it was
  deleted), and both are mapped to requests. \<open>listed_with\<close> is a list with one entry that may be there.
\<close>

definition present :: "'a option \<Rightarrow> 'a list" where
  "present x = (case x of None \<Rightarrow> [] | Some a \<Rightarrow> [a])"

definition listed_with :: "'a list \<Rightarrow> 'a option \<Rightarrow> 'a list \<Rightarrow> 'a list" where
  "listed_with pre x post = pre @ present x @ post"

definition woken :: "registration \<Rightarrow> ('a \<Rightarrow> api_object) \<Rightarrow> 'a option \<Rightarrow> 'a option \<Rightarrow> (string \<times> string) set" where
  "woken r obj old new = set (concat (map (requests r \<circ> obj) (present old @ present new)))"

lemma change_selected:
  "filter P (listed_with pre old post) \<noteq> filter P (listed_with pre new post) \<Longrightarrow> \<exists>x \<in> set (present old @ present new). P x"
  by (auto simp: listed_with_def present_def split: option.splits if_splits)

text \<open>
  Every change of the selected objects makes the controller reconcile the name \<open>n\<close>.
\<close>

definition wakes :: "registration \<Rightarrow> ('a \<Rightarrow> api_object) \<Rightarrow> ('a \<Rightarrow> bool) \<Rightarrow> string \<Rightarrow> bool" where
  "wakes r obj selected n \<longleftrightarrow>
     (\<forall>pre old new post. filter selected (listed_with pre old post) \<noteq> filter selected (listed_with pre new post) \<longrightarrow>
        ([], n) \<in> woken r obj old new)"

lemma wakesI:
  assumes "\<And>x. selected x \<Longrightarrow> ([], n) \<in> set (requests r (obj x))"
  shows "wakes r obj selected n"
  unfolding wakes_def
proof (intro allI impI)
  fix pre old new post
  assume "filter selected (listed_with pre old post) \<noteq> filter selected (listed_with pre new post)"
  then obtain x where "x \<in> set (present old @ present new)" "selected x" using change_selected by blast
  with assms show "([], n) \<in> woken r obj old new" by (auto simp: woken_def)
qed

text \<open>
  C39: Every change of what a derived value is computed from wakes the controller that computes it. When
  a tunnel, claim or pool is created, updated or deleted: if the tunnels bound to a claim change, the
  emptiness controller reconciles the claim; if the claims of a pool change, the counter and the template
  hash controllers reconcile the pool; if the claims or the pools of a provider class change, the hash
  controller of its kind, which cannot be registered for the empty kind, reconciles the class.
\<close>

theorem changes_wake:
  assumes "n \<noteq> []"
  shows "wakes emptiness_setup ObjTunnel (\<lambda>t. AssignedExit (tStatus t) = n) n \<and>
    wakes counter_setup ObjClaim (\<lambda>c. mget_str (Labels c) LabelExitPool = n) n \<and>
    wakes pool_hash_setup ObjClaim (\<lambda>c. mget_str (Labels c) LabelExitPool = n) n \<and>
    (case class_hash_setup kind ty of
       Inl err \<Rightarrow> kind = []
     | Inr r \<Rightarrow>
         wakes r ObjClaim (\<lambda>c. refers_to kind n (ProviderClassRef (cSpec c))) n \<and>
         wakes r ObjPool (\<lambda>p. refers_to kind n (tmplProviderClassRef (pool_tmpl p))) n)"
proof (intro conjI)
  show "wakes emptiness_setup ObjTunnel (\<lambda>t. AssignedExit (tStatus t) = n) n"
    by (rule wakesI) (use assms in \<open>simp add: requests_def emptiness_setup_def controller_for_def tunnelToClaim_def\<close>)
  show "wakes counter_setup ObjClaim (\<lambda>c. mget_str (Labels c) LabelExitPool = n) n"
    by (rule wakesI) (use assms in \<open>simp add: requests_def counter_setup_def controller_for_def claimToPool_def\<close>)
  show "wakes pool_hash_setup ObjClaim (\<lambda>c. mget_str (Labels c) LabelExitPool = n) n"
    by (rule wakesI) (use assms in \<open>simp add: requests_def pool_hash_setup_def controller_for_def claimToPool_def\<close>)
  have "wakes r ObjClaim (\<lambda>c. refers_to kind n (ProviderClassRef (cSpec c))) n \<and>
      wakes r ObjPool (\<lambda>p. refers_to kind n (tmplProviderClassRef (pool_tmpl p))) n"
    if "regWatches r = [(''ExitPool'', PoolToPC kind), (''ExitClaim'', ClaimToPC kind)]" for r
    by (intro conjI; rule wakesI)
      (use assms that in \<open>simp_all add: requests_def claimToPC_def poolToPC_def ref_to_PC_def refers_to_def\<close>)
  then show "case class_hash_setup kind ty of
       Inl err \<Rightarrow> kind = []
     | Inr r \<Rightarrow>
         wakes r ObjClaim (\<lambda>c. refers_to kind n (ProviderClassRef (cSpec c))) n \<and>
         wakes r ObjPool (\<lambda>p. refers_to kind n (tmplProviderClassRef (pool_tmpl p))) n"
    by (simp add: class_hash_setup_def controller_for_def)
qed

theorem changes_wake_witness:
  "wakes emptiness_setup ObjTunnel (\<lambda>t. AssignedExit (tStatus t) = ''x'') ''x'' \<and>
   ([], ''x'') \<in> woken emptiness_setup ObjTunnel
     (Some (sample_tunnel\<lparr>tStatus := (tStatus sample_tunnel)\<lparr>AssignedExit := ''x''\<rparr>\<rparr>)) None"
proof -
  let ?t = "sample_tunnel\<lparr>tStatus := (tStatus sample_tunnel)\<lparr>AssignedExit := ''x''\<rparr>\<rparr>"
  have w: "wakes emptiness_setup ObjTunnel (\<lambda>t. AssignedExit (tStatus t) = ''x'') ''x''"
    using changes_wake [of "''x''" undefined undefined] by blast
  moreover have "filter (\<lambda>t. AssignedExit (tStatus t) = ''x'') (listed_with [] (Some ?t) []) \<noteq>
      filter (\<lambda>t. AssignedExit (tStatus t) = ''x'') (listed_with [] None [])"
    by (simp add: listed_with_def present_def)
  ultimately show ?thesis unfolding wakes_def by blast
qed

text \<open>The readiness controller is woken by no change of a provider class.\<close>

lemma readiness_sleeps: "ty \<noteq> ''ExitPool'' \<Longrightarrow> woken readiness_setup (ObjClass ty) old new = {}"
  by (auto simp: woken_def requests_def readiness_setup_def controller_for_def)

section \<open>The loops\<close>

text \<open>A failed round of the provisioner is followed by a wait of a second, like one that found the cache stale.\<close>

lemma failed_round_waits:
  "round_wait (res, Some err) = Some Second" "round_wait (after Second, None) = Some Second"
  "round_wait (finished, None) = None"
  by (simp_all add: round_wait_def after_def finished_def Second_def)

text \<open>The loops return only when the context is done, whatever the rounds return.\<close>

lemma provisioner_loop_returns:
  "list_all (\<lambda>r. \<not> doneBefore r \<and> \<not> doneWaiting r) rs \<Longrightarrow>
     provisioner_loop rs = (map (round_wait \<circ> outcome) rs, False)"
  by (induction rs) (simp_all add: Let_def)

lemma disruption_loop_ticks: "disruption_loop (replicate n True @ False # ts) = (n, True)"
  by (induction n) simp_all

end
