(* ===== verification/FlagsDoc.thy ===== *)
theory FlagsDoc
  imports OperatorConfigProps
begin

text \<open>
  \<open>hack/gen-flags-doc.go\<close>: the generator of the flag reference. It reads the syntax tree of
  \<open>pkg/operator/flags.go\<close>, which is transcribed at the end, and is compared with the flags and variables
  of \<open>OperatorConfig\<close>.
\<close>

section \<open>go/ast\<close>

text \<open>
  The nodes that the generator tells apart; \<open>Other\<close> is any other node with its children in the order in
  which \<open>ast.Inspect\<close> visits them.
\<close>

datatype lit_kind = STRING | OTHER_LIT

datatype ast =
    Ident string
  | BasicLit lit_kind string
  | SelectorExpr ast string
  | AddressOf ast
  | CallExpr ast "ast list"
  | AssignStmt "ast list" "ast list"
  | IfStmt "ast option" ast "ast list" "ast option"
  | Other "ast list"

text \<open>A declaration: a function with its name and its body, if there is one, or something else.\<close>

datatype decl = FuncDecl string "ast list option" | OtherDecl

text \<open>\<open>ast.Inspect\<close> with a callback that always returns true: what it collects, in preorder.\<close>

fun inspect :: "(ast \<Rightarrow> 'a list) \<Rightarrow> ast \<Rightarrow> 'a list" where
  "inspect f (Ident x) = f (Ident x)"
| "inspect f (BasicLit k v) = f (BasicLit k v)"
| "inspect f (SelectorExpr x sel) = f (SelectorExpr x sel) @ inspect f x @ f (Ident sel)"
| "inspect f (AddressOf x) = f (AddressOf x) @ inspect f x"
| "inspect f (CallExpr g args) = f (CallExpr g args) @ inspect f g @ concat (map (inspect f) args)"
| "inspect f (AssignStmt lhs rhs) =
     f (AssignStmt lhs rhs) @ concat (map (inspect f) lhs) @ concat (map (inspect f) rhs)"
| "inspect f (IfStmt init c body els) =
     f (IfStmt init c body els) @ (case init of None \<Rightarrow> [] | Some s \<Rightarrow> inspect f s) @ inspect f c @
     concat (map (inspect f) body) @ (case els of None \<Rightarrow> [] | Some s \<Rightarrow> inspect f s)"
| "inspect f (Other xs) = f (Other xs) @ concat (map (inspect f) xs)"

section \<open>gen-flags-doc.go\<close>

definition quote :: char where "quote = char_of (34 :: nat)"

definition backtick :: char where "backtick = char_of (96 :: nat)"

text \<open>\<open>strings.Trim\<close> with the quote as its cutset.\<close>

definition TrimQuotes :: "string \<Rightarrow> string" where
  "TrimQuotes s = rev (dropWhile (\<lambda>c. c = quote) (rev (dropWhile (\<lambda>c. c = quote) s)))"

record flagEntry =
  feName :: string
  feType :: string
  feDefault :: string
  feDescription :: string
  feField :: string
  feEnv :: string

fun cfgField :: "ast \<Rightarrow> string" where
  "cfgField (SelectorExpr (Ident x) sel) = (if x = ''cfg'' then sel else [])"
| "cfgField e = []"

fun envKeyFromInit :: "ast option \<Rightarrow> string" where
  "envKeyFromInit (Some (AssignStmt lhs [CallExpr g [BasicLit STRING v]])) = TrimQuotes v"
| "envKeyFromInit init = []"

text \<open>The assignments to fields of \<open>cfg\<close> in the body of one \<open>if\<close>.\<close>

fun env_assigns :: "string \<Rightarrow> ast list \<Rightarrow> (string, string) gomap \<Rightarrow> (string, string) gomap" where
  "env_assigns key [] m = m"
| "env_assigns key (AssignStmt lhs rhs # body) m =
     env_assigns key body (foldl (\<lambda>m l. if cfgField l \<noteq> [] then mput (cfgField l) key m else m) m lhs)"
| "env_assigns key (s # body) m = env_assigns key body m"

fun env_stmts :: "ast list \<Rightarrow> (string, string) gomap \<Rightarrow> (string, string) gomap" where
  "env_stmts [] m = m"
| "env_stmts (IfStmt init c body els # stmts) m =
     (let envKey = envKeyFromInit init
      in if envKey = [] then env_stmts stmts m else env_stmts stmts (env_assigns envKey body m))"
| "env_stmts (s # stmts) m = env_stmts stmts m"

fun env_decls :: "decl list \<Rightarrow> (string, string) gomap \<Rightarrow> (string, string) gomap" where
  "env_decls [] m = m"
| "env_decls (FuncDecl name (Some body) # ds) m =
     (if name \<noteq> ''applyEnv'' then env_decls ds m else env_decls ds (env_stmts body m))"
| "env_decls (d # ds) m = env_decls ds m"

definition extractEnvMappings :: "decl list \<Rightarrow> (string, string) gomap" where
  "extractEnvMappings f = env_decls f []"

definition typeForMethod :: "string \<Rightarrow> string option" where
  "typeForMethod = map_of
     [(''BoolVar'', ''bool''), (''StringVar'', ''string''), (''IntVar'', ''int''), (''Float64Var'', ''float64''),
      (''DurationVar'', ''duration'')]"

fun fieldFromRef :: "ast \<Rightarrow> string" where
  "fieldFromRef (AddressOf x) = cfgField x"
| "fieldFromRef e = []"

fun stringLit :: "ast \<Rightarrow> string" where
  "stringLit (BasicLit STRING v) = TrimQuotes v"
| "stringLit e = []"

fun defaultVal :: "ast \<Rightarrow> string" where
  "defaultVal (BasicLit k v) = v"
| "defaultVal (Ident x) = x"
| "defaultVal (SelectorExpr x sel) = cfgField (SelectorExpr x sel)"
| "defaultVal e = []"

text \<open>The callback on one node: at most one entry.\<close>

fun flag_of :: "(string, string) gomap \<Rightarrow> ast \<Rightarrow> flagEntry list" where
  "flag_of fieldToEnv (CallExpr (SelectorExpr (Ident x) method) (a0 # a1 # a2 # a3 # rest)) =
     (if x \<noteq> ''fs'' then []
      else case typeForMethod method of
        None \<Rightarrow> []
      | Some typeName \<Rightarrow>
          let fieldName = fieldFromRef a0; flagName = stringLit a1
          in if flagName = [] then []
             else [\<lparr>feName = flagName, feType = typeName, feDefault = defaultVal a2, feDescription = stringLit a3,
                    feField = fieldName, feEnv = (if fieldName \<noteq> [] then mget_str fieldToEnv fieldName else [])\<rparr>])"
| "flag_of fieldToEnv n = []"

text \<open>Only the first function of the name is looked at.\<close>

fun extractFlags :: "decl list \<Rightarrow> (string, string) gomap \<Rightarrow> flagEntry list" where
  "extractFlags [] fieldToEnv = []"
| "extractFlags (FuncDecl name (Some body) # ds) fieldToEnv =
     (if name \<noteq> ''LoadConfigFromArgs'' then extractFlags ds fieldToEnv
      else concat (map (inspect (flag_of fieldToEnv)) body))"
| "extractFlags (d # ds) fieldToEnv = extractFlags ds fieldToEnv"

definition escape_pipes :: "string \<Rightarrow> string" where
  "escape_pipes s = concat (map (\<lambda>c. if c = CHR ''|'' then [CHR 0x5C, CHR ''|''] else [c]) s)"

definition ticked :: "string \<Rightarrow> string" where
  "ticked s = backtick # s @ [backtick]"

definition flag_row :: "flagEntry \<Rightarrow> string" where
  "flag_row e =
     (let envCol = (if feEnv e \<noteq> [] then ticked (feEnv e) else [])
      in ''| '' @ ticked (''--'' @ feName e) @ '' | '' @ ticked (feType e) @ '' | '' @ ticked (feDefault e) @
         '' | '' @ envCol @ '' | '' @ escape_pipes (feDescription e) @ '' |'' @ [newline])"

text \<open>The header of the page is an argument; \<open>None\<close> is a file that does not parse.\<close>

definition generate :: "string \<Rightarrow> decl list option \<Rightarrow> string option" where
  "generate header parsed =
     (case parsed of
        None \<Rightarrow> None
      | Some f \<Rightarrow> Some (header @ concat (map flag_row (extractFlags f (extractEnvMappings f)))))"

section \<open>The syntax tree of flags.go\<close>

definition str_lit :: "string \<Rightarrow> ast" where
  "str_lit s = BasicLit STRING (quote # s @ [quote])"

definition cfg_dot :: "string \<Rightarrow> ast" where
  "cfg_dot field = SelectorExpr (Ident ''cfg'') field"

definition call_sel :: "string \<Rightarrow> string \<Rightarrow> ast list \<Rightarrow> ast" where
  "call_sel x method args = CallExpr (SelectorExpr (Ident x) method) args"

text \<open>\<open>fs.MVar(&cfg.Field, "name", cfg.Field, "description")\<close>, \<open>if err ... { return ... }\<close>.\<close>

definition var_flag :: "string \<Rightarrow> string \<Rightarrow> string \<Rightarrow> string \<Rightarrow> ast" where
  "var_flag method field name descr =
     call_sel ''fs'' method [AddressOf (cfg_dot field), str_lit name, cfg_dot field, str_lit descr]"

definition if_err :: "ast option \<Rightarrow> ast list \<Rightarrow> ast" where
  "if_err init results = IfStmt init (Other [Ident ''err'', Ident ''nil'']) [Other results] None"

definition LoadConfigFromArgs_ast :: "ast list" where
  "LoadConfigFromArgs_ast =
     [AssignStmt [Ident ''cfg''] [CallExpr (Ident ''Defaults'') []],
      if_err (Some (AssignStmt [Ident ''err''] [CallExpr (Ident ''applyEnv'') [Ident ''cfg'']])) [Ident ''nil'', Ident ''err''],
      AssignStmt [Ident ''fs''] [call_sel ''flag'' ''NewFlagSet'' [str_lit ''frp-operator'', SelectorExpr (Ident ''flag'') ''ContinueOnError'']],
      call_sel ''fs'' ''SetOutput'' [SelectorExpr (Ident ''os'') ''Stderr''],
      var_flag ''StringVar'' ''KubeConfig'' ''kubeconfig'' ''Path to kubeconfig (empty = in-cluster).'',
      var_flag ''BoolVar'' ''LeaderElection'' ''leader-elect'' ''Enable leader election.'',
      var_flag ''StringVar'' ''LeaderElectionID'' ''leader-election-id'' ''Leader election lock name.'',
      var_flag ''StringVar'' ''LeaderElectionNS'' ''leader-election-namespace'' ''Leader election lock namespace.'',
      var_flag ''BoolVar'' ''DisableProfiling'' ''disable-profiling'' ''Disable pprof endpoints.'',
      var_flag ''DurationVar'' ''BatchIdleDuration'' ''batch-idle-duration'' ''Idle window before batch fires.'',
      var_flag ''DurationVar'' ''BatchMaxDuration'' ''batch-max-duration'' ''Max time a batch may stay open.'',
      AssignStmt [Ident ''qps''] [CallExpr (Ident ''float64'') [cfg_dot ''KubeClientQPS'']],
      call_sel ''fs'' ''Float64Var'' [AddressOf (Ident ''qps''), str_lit ''kube-client-qps'', Ident ''qps'',
        str_lit ''Sustained kube client QPS.''],
      var_flag ''IntVar'' ''KubeClientBurst'' ''kube-client-burst'' ''Burst kube client QPS.'',
      var_flag ''StringVar'' ''LogLevel'' ''log-level'' ''Log level (debug|info|warn|error).'',
      var_flag ''StringVar'' ''MetricsAddr'' ''metrics-bind-address'' ''Address the metrics server listens on.'',
      var_flag ''StringVar'' ''HealthProbeAddr'' ''health-probe-bind-address'' ''Address the health probe listens on.'',
      var_flag ''StringVar'' ''PreferencePolicy'' ''preference-policy'' ''Scheduler preference policy: Respect | Ignore.'',
      var_flag ''StringVar'' ''MinValuesPolicy'' ''min-values-policy'' ''Scheduler MinValues policy: Strict | BestEffort.'',
      var_flag ''DurationVar'' ''RegistrationTTL'' ''registration-ttl'' ''How long to wait for a fresh exit to register.'',
      var_flag ''DurationVar'' ''DriftTTL'' ''drift-ttl'' ''How long a drift must persist before disruption fires.'',
      var_flag ''DurationVar'' ''DisruptionPollPeriod'' ''disruption-poll-period'' ''Disruption controller tick.'',
      Other [Ident ''gateSpec'', Ident ''string''],
      call_sel ''fs'' ''StringVar'' [AddressOf (Ident ''gateSpec''), str_lit ''feature-gates'', str_lit [],
        str_lit ''Comma-separated list of Name=bool gate overrides.''],
      if_err (Some (AssignStmt [Ident ''err''] [call_sel ''fs'' ''Parse'' [Ident ''args'']])) [Ident ''nil'', Ident ''err''],
      AssignStmt [cfg_dot ''KubeClientQPS''] [CallExpr (Ident ''float32'') [Ident ''qps'']],
      IfStmt None (Other [Ident ''gateSpec'', str_lit []])
        [AssignStmt [Ident ''gates'', Ident ''err''] [CallExpr (Ident ''ParseFeatureGates'') [Ident ''gateSpec'']],
         if_err None [Ident ''nil'', Ident ''err''],
         AssignStmt [cfg_dot ''FeatureGates''] [Ident ''gates'']] None,
      Other [Ident ''cfg'', Ident ''nil'']]"

text \<open>\<open>if v := os.Getenv("KEY"); v != "" { cfg.Field = v }\<close> and \<open>if v, ok := helper("KEY"); ok { cfg.Field = v }\<close>.\<close>

definition env_string :: "string \<Rightarrow> string \<Rightarrow> ast" where
  "env_string key field =
     IfStmt (Some (AssignStmt [Ident ''v''] [call_sel ''os'' ''Getenv'' [str_lit key]])) (Other [Ident ''v'', str_lit []])
       [AssignStmt [cfg_dot field] [Ident ''v'']] None"

definition env_helper :: "string \<Rightarrow> string \<Rightarrow> string \<Rightarrow> ast" where
  "env_helper helper key field =
     IfStmt (Some (AssignStmt [Ident ''v'', Ident ''ok''] [CallExpr (Ident helper) [str_lit key]])) (Ident ''ok'')
       [AssignStmt [cfg_dot field] [Ident ''v'']] None"

definition applyEnv_ast :: "ast list" where
  "applyEnv_ast =
     [env_string ''KUBECONFIG'' ''KubeConfig'',
      env_helper ''boolEnv'' ''LEADER_ELECT'' ''LeaderElection'',
      env_string ''LEADER_ELECTION_ID'' ''LeaderElectionID'',
      env_string ''LEADER_ELECTION_NAMESPACE'' ''LeaderElectionNS'',
      env_helper ''boolEnv'' ''DISABLE_PROFILING'' ''DisableProfiling'',
      env_helper ''durEnv'' ''BATCH_IDLE_DURATION'' ''BatchIdleDuration'',
      env_helper ''durEnv'' ''BATCH_MAX_DURATION'' ''BatchMaxDuration'',
      IfStmt (Some (AssignStmt [Ident ''v'', Ident ''ok''] [CallExpr (Ident ''floatEnv'') [str_lit ''KUBE_CLIENT_QPS'']]))
        (Ident ''ok'') [AssignStmt [cfg_dot ''KubeClientQPS''] [CallExpr (Ident ''float32'') [Ident ''v'']]] None,
      env_helper ''intEnv'' ''KUBE_CLIENT_BURST'' ''KubeClientBurst'',
      env_string ''LOG_LEVEL'' ''LogLevel'',
      env_string ''METRICS_BIND_ADDRESS'' ''MetricsAddr'',
      env_string ''HEALTH_PROBE_BIND_ADDRESS'' ''HealthProbeAddr'',
      env_string ''PREFERENCE_POLICY'' ''PreferencePolicy'',
      env_string ''MIN_VALUES_POLICY'' ''MinValuesPolicy'',
      env_helper ''durEnv'' ''REGISTRATION_TTL'' ''RegistrationTTL'',
      env_helper ''durEnv'' ''DRIFT_TTL'' ''DriftTTL'',
      env_helper ''durEnv'' ''DISRUPTION_POLL_PERIOD'' ''DisruptionPollPeriod'',
      IfStmt (Some (AssignStmt [Ident ''v''] [call_sel ''os'' ''Getenv'' [str_lit ''FEATURE_GATES'']])) (Other [Ident ''v'', str_lit []])
        [AssignStmt [Ident ''gates'', Ident ''err''] [CallExpr (Ident ''ParseFeatureGates'') [Ident ''v'']],
         if_err None [call_sel ''fmt'' ''Errorf'' [str_lit ''FEATURE_GATES env var: %w'', Ident ''err'']],
         AssignStmt [cfg_dot ''FeatureGates''] [Ident ''gates'']] None,
      Other [Ident ''nil'']]"

text \<open>The other declarations of the file do not concern the generator.\<close>

definition flags_ast :: "decl list" where
  "flags_ast = [OtherDecl, FuncDecl ''LoadConfig'' (Some [Other [CallExpr (Ident ''LoadConfigFromArgs'')
       [Other [SelectorExpr (Ident ''os'') ''Args'', BasicLit OTHER_LIT ''1'']]]]),
     FuncDecl ''LoadConfigFromArgs'' (Some LoadConfigFromArgs_ast),
     FuncDecl ''applyEnv'' (Some applyEnv_ast)]"

definition documented :: "flagEntry list" where
  "documented = extractFlags flags_ast (extractEnvMappings flags_ast)"


section \<open>The page against the program\<close>

text \<open>The names, types and variables of the documented flags.\<close>

lemma documented_table:
  "map (\<lambda>e. (feName e, feType e, feEnv e)) documented =
     [(''kubeconfig'', ''string'', ''KUBECONFIG''), (''leader-elect'', ''bool'', ''LEADER_ELECT''),
      (''leader-election-id'', ''string'', ''LEADER_ELECTION_ID''),
      (''leader-election-namespace'', ''string'', ''LEADER_ELECTION_NAMESPACE''),
      (''disable-profiling'', ''bool'', ''DISABLE_PROFILING''),
      (''batch-idle-duration'', ''duration'', ''BATCH_IDLE_DURATION''),
      (''batch-max-duration'', ''duration'', ''BATCH_MAX_DURATION''),
      (''kube-client-qps'', ''float64'', []), (''kube-client-burst'', ''int'', ''KUBE_CLIENT_BURST''),
      (''log-level'', ''string'', ''LOG_LEVEL''), (''metrics-bind-address'', ''string'', ''METRICS_BIND_ADDRESS''),
      (''health-probe-bind-address'', ''string'', ''HEALTH_PROBE_BIND_ADDRESS''),
      (''preference-policy'', ''string'', ''PREFERENCE_POLICY''), (''min-values-policy'', ''string'', ''MIN_VALUES_POLICY''),
      (''registration-ttl'', ''duration'', ''REGISTRATION_TTL''), (''drift-ttl'', ''duration'', ''DRIFT_TTL''),
      (''disruption-poll-period'', ''duration'', ''DISRUPTION_POLL_PERIOD''), (''feature-gates'', ''string'', [])]"
  by code_simp

text \<open>The row of the committed page \<open>flags.mdx\<close> for a flag whose variable the generator misses.\<close>

lemma qps_row:
  "flag_row (documented ! 7) = ''| '' @ ticked ''--kube-client-qps'' @ '' | '' @ ticked ''float64'' @ '' | '' @
     ticked ''qps'' @ '' |  | Sustained kube client QPS. |'' @ [newline]"
  by code_simp

lemma only_variable:
  assumes "x \<noteq> []"
  shows "strEnv ((\<lambda>_. [])(key := x)) k = (if k = key then Some x else None)"
    "boolEnv ((\<lambda>_. [])(key := x)) k = (if k = key then ParseBool x else None)"
    "durEnv F ((\<lambda>_. [])(key := x)) k = (if k = key then ParseDuration (durFraction F) x else None)"
    "intEnv ((\<lambda>_. [])(key := x)) k = (if k = key then Atoi x else None)"
    "floatEnv F ((\<lambda>_. [])(key := x)) k = (if k = key then ParseFloat F x else None)"
  using assms by (simp_all add: strEnv_def boolEnv_def durEnv_def intEnv_def floatEnv_def Let_def)

lemma if_ok_simps [simp]: "if_ok None set_field c = c" "if_ok (Some v) set_field c = set_field v c"
  by (simp_all add: if_ok_def)

definition env_alone :: "('d, 'f) floats \<Rightarrow> string \<Rightarrow> string \<Rightarrow> 'f Config \<Rightarrow> 'f Config" where
  "env_alone F key x cfg = foldl (\<lambda>c assign. assign c) cfg (env_assignments F ((\<lambda>_. [])(key := x)))"

text \<open>What the flag \<open>f\<close> and the variable \<open>key\<close> do with a value.\<close>

definition same_setting ::
  "('d, 'f) floats \<Rightarrow> string \<Rightarrow> string \<Rightarrow> ('d, 'f) flag_state \<Rightarrow> ('d, 'f) flag_state Flag \<Rightarrow> bool" where
  "same_setting F key x st f \<longleftrightarrow>
     (case fgSet f x st of
        None \<Rightarrow> env_alone F key x (fsCfg st) = fsCfg st
      | Some st' \<Rightarrow> st' = st\<lparr>fsCfg := env_alone F key x (fsCfg st)\<rparr>)"




end
