(* ===== verification/Spec2Isabelle.thy ===== *)
theory Spec2Isabelle
  imports SchedulerTotal Synced LifecycleRuns PoolControllersProps LifecycleCloudProps DisruptionRuns ProvisionerRuns
    ServiceWatcherProps LocalDockerRuns OperatorStartProps FlagsDoc
begin

text \<open>
  A verification of the frp-operator, a Kubernetes operator that gives Services public ports on frps
  servers ("exits") which it creates at a cloud provider and removes again when they are not needed.

  The program. A \<open>Tunnel\<close> asks for ports; an \<open>ExitClaim\<close> stands for one exit; an \<open>ExitPool\<close> is the
  template from which claims are made (\<open>api/v1alpha1\<close>). Informers copy the three kinds into a cache
  (\<open>controllers/state\<close>). The provisioner (\<open>controllers/provisioning\<close>) collects pending tunnels in a
  batch, runs the scheduler (\<open>provisioning/scheduling\<close>) over a snapshot of the cache, creates the
  claims it decided on and writes the bindings into the tunnels. The lifecycle reconciler
  (\<open>exitclaim/lifecycle\<close>) takes a claim through launch, registration, initialization and the liveness
  probe, and finalizes it when it is deleted. Small controllers keep derived data: the \<open>Empty\<close>
  condition, the totals and conditions of pools, the template hashes. The disruption controller
  (\<open>controllers/disruption\<close>) looks for exits that are empty, expired, drifted or underused and, within
  budgets, cordons, replaces and deletes them. The service watcher (\<open>controllers/servicewatcher\<close>) makes
  a tunnel of each Service of the operator's class and writes the address of the exit back. Exits are
  made by a cloud provider (\<open>cloudprovider\<close>): DigitalOcean droplets, local Docker containers, or a fake
  in memory; the first two render the configuration of the daemon (\<open>cloudprovider/frps\<close>). The package
  \<open>operator\<close> reads flags and environment variables and wires everything together.

  Modelling. Go integers are \<open>int\<close> with \<open>int32\<close> and \<open>int64\<close> written where they wrap; a map is an
  association list with distinct keys, and where the code ranges over one, an arbitrary order is an
  argument (\<open>in_order\<close>, with \<open>is_order\<close> saying that it is a permutation). Quantities are integers of
  nano-units; prices, \<open>float64\<close> in the code, are rationals. A pointer that may be nil is an \<open>option\<close>;
  nil and empty slices or maps are not told apart. Every error and early return is a branch: a sum,
  an option, or a pair with a \<open>goerror option\<close> as the code returns it. Every method of the cache that
  takes the lock is one atomic step. A controller is a computation in the state monad over the history
  of its calls (\<open>Trace\<close>); the outside world is a record of functions from the history to an
  answer, so that other writers, failures and time are arbitrary: \<open>env\<close> for the controllers (\<open>Kube\<close>),
  \<open>svc_env\<close> for the service watcher, \<open>do_env\<close> and \<open>ld_env\<close> for the two clouds. A statement about a controller is
  one about the events it appends, for every environment or under named laws of it
  (\<open>meta_ok\<close> for \<open>apimeta\<close>, \<open>finalizers_ok\<close> for \<open>controllerutil\<close>, \<open>single_writer\<close> for an API server with
  no other writer). Library code that is not under \<open>src\<close> is a parameter: the cron parser,
  \<open>json.Marshal\<close>, \<open>err.Error()\<close>, \<open>strconv.IsPrint\<close>, floating point in the flags, the routines just
  named, and the APIs of DigitalOcean and Docker behind their SDKs.

  Theories and code.

  \<^item> \<open>Prelude\<close>: Go integers, maps, sets, \<open>strings\<close>, \<open>strconv\<close>, first-fit search; the shared simp rules.
  \<^item> \<open>Api\<close>: \<open>api/v1alpha1\<close>. \<open>Samples\<close>: concrete objects for the witnesses.
  \<^item> \<open>Requirements\<close>: \<open>scheduling/requirements.go\<close>, the operator table and \<open>Compatible\<close>, against the
    set-theoretic meaning of requirements (\<open>satisfiable\<close>).
  \<^item> \<open>Resources\<close>, \<open>Ports\<close>: \<open>scheduling/resources.go\<close>, \<open>ports.go\<close>: the free ports of a claim and the
    assignment of explicit and automatic ports. \<open>computeFree\<close> is partial: None is a loop that never ends.
  \<^item> \<open>State\<close>, \<open>StateInv\<close>, \<open>StateSteps\<close>, \<open>Synced\<close>: \<open>controllers/state\<close> and its informers: the cache, its
    invariant (\<open>cluster_ok\<close>), informer events as steps and the states they reach, the refinement of
    four finite maps, and the freshness test against the API objects.
  \<^item> \<open>Offering\<close>: \<open>cloudprovider/types.go\<close>, \<open>registry.go\<close>, \<open>scheduling/offering.go\<close>.
  \<^item> \<open>Sha256\<close>: \<open>crypto/sha256\<close> and \<open>hex\<close> on 32-bit words, for names and hashes.
  \<^item> \<open>Scheduler\<close>: \<open>scheduling/scheduler.go\<close>, \<open>existing_exit.go\<close>, \<open>inflight_claim.go\<close>, \<open>new_claim.go\<close>,
    \<open>results.go\<close>, \<open>preferences.go\<close>. \<open>SchedulerInv\<close> states the locale \<open>bin\<close>, the interface through which
    an exit or a claim in flight takes a tunnel, interpreted on both, and the invariants of a batch;
    \<open>SchedulerSteps\<close>, \<open>SchedulerSolve\<close> and \<open>SchedulerBatch\<close> prove them; \<open>SchedulerProps\<close> and
    \<open>SchedulerTotal\<close> hold the properties, termination and the witnesses.
  \<^item> \<open>Conditions\<close>: the four writers of status conditions and the two patch formats of the API server.
  \<^item> \<open>Trace\<close>: computations over a history of calls, and the lemmas on what they append. \<open>Kube\<close>: the calls
    and the environment of the controllers, \<open>cloudprovider/errors.go\<close>.
  \<^item> \<open>Lifecycle\<close>: \<open>exitclaim/lifecycle\<close>. \<open>LifecycleProps\<close> proves the refinement of a machine of five
    booleans and the safety of finalization for every environment; \<open>LifecycleRuns\<close> composes several reconciles of one claim.
    \<open>LifecycleCloud\<close> composes the reconciler with a provider: a relation whose steps are the reconciles of
    claims against one provider, users who create and delete claims, and the API server, which drops an
    object with its last finalizer. The locale \<open>claimed_cloud\<close> extends the contract of a provider
    (\<open>CloudContract\<close>) by what this composition needs; \<open>LifecycleCloudProps\<close> interprets it on the three providers.
  \<^item> \<open>PoolControllers\<close>, \<open>PoolControllersProps\<close>: emptiness, counter, validation, readiness, the hashes.
  \<^item> \<open>Disruption\<close>: \<open>disruption/types.go\<close>, \<open>budgets.go\<close>, \<open>candidates.go\<close>, \<open>validation.go\<close> and the methods
    for empty, expired and drifted exits; \<open>Consolidation\<close>: the repacking simulator and the two
    consolidation methods; \<open>DisruptionQueue\<close>: \<open>queue.go\<close>, \<open>controller.go\<close>, the replacement adapter of
    \<open>operator.go\<close>. \<open>DisruptionBudgets\<close> states what every method owes the budgets as the locale
    \<open>disruption_method\<close> and interprets it on all five; \<open>DisruptionPass\<close> follows the trace of a pass;
    \<open>DisruptionProps\<close> and \<open>DisruptionRuns\<close> hold the properties and the runs that witness them.
  \<^item> \<open>Batcher\<close>: \<open>provisioning/batcher.go\<close>, with the blocking \<open>Wait\<close> as a step relation that interleaves
    with triggers and timers; time passes only while the waiter is blocked.
  \<^item> \<open>Provisioner\<close>, \<open>ProvisionerProps\<close>, \<open>ProvisionerRuns\<close>: \<open>provisioning/provisioner.go\<close>,
    \<open>pod_controller.go\<close>, \<open>node_controller.go\<close>.
  \<^item> \<open>ServiceWatcher\<close>, \<open>ServiceWatcherProps\<close>: \<open>controllers/servicewatcher\<close>: annotations and ports of a
    Service to a tunnel, the upsert and the guarded delete, the reverse synchronisation of the address.
  \<^item> \<open>GoFmt\<close>: what the providers use of \<open>fmt\<close>, \<open>strconv\<close> and \<open>strings\<close>, with \<open>%q\<close> over decoded UTF-8.
    \<open>Frps\<close>, \<open>FrpsProps\<close>: \<open>cloudprovider/frps\<close>: the rendering of the configuration, a reader of it to
    state what the daemon sees, the client of the admin API.
  \<^item> \<open>CloudContract\<close>: what the controllers rely on in a provider, as the locale \<open>cloud_provider\<close> over the
    exits that a world holds: a create that succeeded leaves exactly one exit under the claim's name, a
    second create adopts it, a delete removes it. It is interpreted on all three providers:
    \<open>FakeProvider\<close> (\<open>cloudprovider/fake\<close>); \<open>DigitalOcean\<close>, \<open>DigitalOceanProps\<close>, \<open>DigitalOceanRuns\<close>
    (\<open>cloudprovider/digitalocean\<close>: catalog, selection, droplets, cloud-init); \<open>LocalDocker\<close>,
    \<open>LocalDockerProps\<close>, \<open>LocalDockerRuns\<close> (\<open>cloudprovider/localdocker\<close>). The exits of the two clouds are
    what the history of calls left behind, and named laws say how their APIs answer from that.
  \<^item> \<open>GoFlag\<close>: the parsers of \<open>strconv\<close> and \<open>time\<close> and the command line of \<open>flag\<close>. \<open>OperatorConfig\<close>,
    \<open>OperatorConfigProps\<close>: \<open>operator/config.go\<close>, \<open>feature_gates.go\<close>, \<open>flags.go\<close>. \<open>OperatorWiring\<close>: the
    parts of \<open>operator.go\<close> that decide something (which providers, kinds, intervals and adapters the
    controllers get), \<open>indexers.go\<close>, \<open>health.go\<close>. \<open>OperatorStart\<close>, \<open>OperatorStartProps\<close>: the start
    (\<open>RunWithRESTConfig\<close>, \<open>Run\<close>, \<open>cmd/manager/main.go\<close>) as a sequence of calls to the manager that
    stops at the first error, every \<open>SetupWithManager\<close> as the value it registers (kind, predicates, watches
    and their map functions), the singleton loops of the provisioner and of the disruption controller.
  \<^item> \<open>FlagsDoc\<close>: \<open>hack/gen-flags-doc.go\<close>, on the syntax tree of \<open>flags.go\<close>, against the flags that
    \<open>OperatorConfig\<close> registers.

  What is shown. Scheduling: no port of an exit is given out twice, also against what is bound already;
  every binding respects readiness, requirements and the port ranges; every tunnel of a batch has
  exactly one outcome; capacity holds within a batch; a batch ends when the ranges stay below the
  largest int64, and only then; pools are tried by weight, the cheapest offering is taken, automatic
  ports are resolved exactly when that is possible. The cache: allocations mirror bindings, events
  refine map updates, \<open>Synced\<close> is exact. The lifecycle: status patches follow the phase machine; exits
  are created only under a finalizer, which goes only when the exit is gone; a healthy claim becomes
  Ready; the liveness threshold is exact. Disruption: budgets bound what a pass removes, protected
  exits are spared, cordon, replacement and deletion keep their order and end. Provisioning: what a
  pass writes keeps ports disjoint, and claims precede bindings. Services and providers: the watcher
  writes a tunnel once and deletes only what carries its mark; the rendered configuration reads back,
  and opens every port that the scheduler hands out; a claim gets one exit however often its creation
  is retried. Configuration: each known feature gate, and no other, has a value after any flags;
  the generated reference lists the flags with the environment variables that they read. Composition: in
  every state that claims, users and a provider reach together, an exit stands only where a claim with
  the finalizer stands for it, so that none is orphaned (a deletion that arrives between the creation of an exit and
  the record of its id is excluded: that window leaks it). The start: with a manager that answers, every controller is
  registered and the manager runs; a change of what a derived
  value is computed from wakes the controller that computes it. Several theorems prove behaviour that
  contradicts a comment or the intent of the code (a registration timeout that cannot fire, tunnels
  that stay bound past the grace period, a recovered claim that stays disrupted, drift erased by the
  hash controller, consolidation that judges each exit alone, a failed pass that nobody retries, a
  DigitalOcean provider that as wired cannot launch, a container adopted though it never started);
  PROJECT.json lists these and what else was found.

  Bounds and fuel. The only fuel is the polling loop of \<open>waitForReplacementsReady\<close>: each round sleeps
  for the poll interval, so that timeout divided by interval rounds are enough (60
  for the default queue), which the termination theorem of the queue proves for every queue. \<open>computeFree\<close> returns None exactly when the
  Go loop diverges (\<open>addRange\<close> is a \<open>partial_function\<close>).

  Idealisations. Locks are atomic steps; between two calls the cache changes only where the history
  says so; rationals replace floating point; strings are lists of bytes; the order of an API list is
  the environment's.

  Not modelled. What happens inside controller-runtime (work queues, leader election, webhooks), the
  construction of the logger and of the signal handler, a call of a library each; the parsing of Go
  source that \<open>hack/gen-flags-doc.go\<close> leaves to \<open>go/parser\<close> (its model starts at the tree) and its reading
  and writing of files; generated deepcopy code (a copy is the identity on values); test helpers.
\<close>

end
